(* ===== verification/Prelude.thy ===== *)
theory Prelude
  imports "HOL-Library.Word"
begin

text \<open>
  Shared vocabulary of the development: the machine integers of the Rust sources, the
  outcome type of a Rust call (a value, an error value, or a panic), checked indexing and
  slicing of byte buffers, and the big-endian byte orders of the wire formats.

  Conventions.  \<^verbatim>\<open>usize\<close> is \<^typ>\<open>nat\<close>: every \<^verbatim>\<open>usize\<close> of the modelled code is a buffer
  position or a length and is bounded by the length of a buffer that fits in memory.
  \<^verbatim>\<open>u8\<close>, \<^verbatim>\<open>u16\<close>, \<^verbatim>\<open>u32\<close>, \<^verbatim>\<open>u64\<close> are words of their width, so \<open>+\<close> and shifts wrap as the
  machine's do.  \<^verbatim>\<open>Bytes\<close>, \<^verbatim>\<open>BytesMut\<close>, \<^verbatim>\<open>&[u8]\<close> and \<^verbatim>\<open>Vec<u8>\<close> are lists of \<open>u8\<close>, and an
  encoder that appends to \<^verbatim>\<open>buf: &mut BytesMut\<close> is the function that returns the bytes it
  appends.
\<close>

unbundle bit_operations_syntax

type_synonym u8 = "8 word"
type_synonym u16 = "16 word"
type_synonym u32 = "32 word"
type_synonym u64 = "64 word"
type_synonym bytes = "8 word list"

subsection \<open>Collections of facts\<close>

named_theorems wire_defs \<open>definitions of encoders and decoders, unfolded to compute bytes\<close>
named_theorems no_panic \<open>operations that never panic, as introduction rules\<close>

subsection \<open>Outcomes of Rust calls\<close>

text \<open>
  \<^verbatim>\<open>Result<T, E>\<close> with the third way a Rust call can end: \<open>Panic\<close> is an index or slice out
  of range, an arithmetic underflow, a division by zero or an \<^verbatim>\<open>unwrap\<close> of nothing.
  \<open>rbind\<close> is the \<^verbatim>\<open>?\<close> operator: it passes errors and panics on.
\<close>

datatype (ok_val: 'a, 'e) rres = Ok 'a | Err 'e | Panic

primrec rbind :: "('a, 'e) rres \<Rightarrow> ('a \<Rightarrow> ('b, 'e) rres) \<Rightarrow> ('b, 'e) rres" where
  "rbind (Ok x) f = f x"
| "rbind (Err e) f = Err e"
| "rbind Panic f = Panic"

definition ok_or :: "'e \<Rightarrow> 'a option \<Rightarrow> ('a, 'e) rres" where
  "ok_or e x = (case x of None \<Rightarrow> Err e | Some v \<Rightarrow> Ok v)"

lemma ok_or_simps [simp]: "ok_or e None = Err e" "ok_or e (Some v) = Ok v"
  by (simp_all add: ok_or_def)

lemma rbind_cong [fundef_cong]:
  "m = m' \<Longrightarrow> (\<And>x. m' = Ok x \<Longrightarrow> f x = f' x) \<Longrightarrow> rbind m f = rbind m' f'"
  by (cases m') simp_all

lemma rbind_assoc: "rbind (rbind m f) g = rbind m (\<lambda>x. rbind (f x) g)"
  by (cases m) simp_all

lemma rbind_eq_Ok: "rbind m f = Ok y \<longleftrightarrow> (\<exists>x. m = Ok x \<and> f x = Ok y)"
  by (cases m) simp_all

lemma rbind_eq_Panic: "rbind m f = Panic \<longleftrightarrow> m = Panic \<or> (\<exists>x. m = Ok x \<and> f x = Panic)"
  by (cases m) simp_all

lemma ok_or_eq_Ok [simp]: "ok_or e x = Ok y \<longleftrightarrow> x = Some y"
  by (cases x) simp_all

lemma ok_or_not_Panic [simp, no_panic]: "ok_or e x \<noteq> Panic"
  by (cases x) simp_all

lemma rbind_not_Panic [no_panic]:
  "m \<noteq> Panic \<Longrightarrow> (\<And>x. m = Ok x \<Longrightarrow> f x \<noteq> Panic) \<Longrightarrow> rbind m f \<noteq> Panic"
  by (auto simp: rbind_eq_Panic)

subsection \<open>Buffers\<close>

definition index :: "'a list \<Rightarrow> nat \<Rightarrow> ('a, 'e) rres" where
  "index xs i = (if i < length xs then Ok (xs ! i) else Panic)"

text \<open>\<open>slice xs a b\<close> is \<^verbatim>\<open>&xs[a..b]\<close>: it panics where the range is reversed or too long.\<close>

definition slice :: "'a list \<Rightarrow> nat \<Rightarrow> nat \<Rightarrow> ('a list, 'e) rres" where
  "slice xs a b = (if a \<le> b \<and> b \<le> length xs then Ok (take (b - a) (drop a xs)) else Panic)"

definition peek :: "'a list \<Rightarrow> nat \<Rightarrow> 'a option" where
  "peek xs i = (if i < length xs then Some (xs ! i) else None)"

lemma index_Ok [simp]: "i < length xs \<Longrightarrow> index xs i = Ok (xs ! i)"
  by (simp add: index_def)

lemma index_Cons_0 [simp]: "index (x # xs) 0 = Ok x"
  by (simp add: index_def)

lemma index_Cons_Suc [simp]: "index (x # xs) (Suc i) = index xs i"
  by (simp add: index_def)

lemma index_append_length [simp]: "index (xs @ y # ys) (length xs) = Ok y"
  by (simp add: index_def)

lemma slice_Ok [simp]: "a \<le> b \<Longrightarrow> b \<le> length xs \<Longrightarrow> slice xs a b = Ok (take (b - a) (drop a xs))"
  by (simp add: slice_def)

lemma index_eq_Panic: "index xs i = Panic \<longleftrightarrow> length xs \<le> i"
  by (auto simp: index_def)

lemma slice_eq_Panic: "slice xs a b = Panic \<longleftrightarrow> \<not> (a \<le> b \<and> b \<le> length xs)"
  by (auto simp: slice_def)

lemma slice_eq_Ok:
  "slice xs a b = Ok ys \<longleftrightarrow> a \<le> b \<and> b \<le> length xs \<and> ys = take (b - a) (drop a xs)"
  by (auto simp: slice_def)

lemma peek_append [simp]: "peek (xs @ y # ys) (length xs) = Some y"
  by (simp add: peek_def)

lemma peek_None: "peek xs i = None \<longleftrightarrow> length xs \<le> i"
  by (auto simp: peek_def)

lemma peek_Some: "peek xs i = Some y \<longleftrightarrow> i < length xs \<and> y = xs ! i"
  by (auto simp: peek_def)

subsection \<open>Checked arithmetic on usize\<close>

text \<open>
  \<open>usub a b\<close> is \<open>a - b\<close> on \<^verbatim>\<open>usize\<close>.  Built with overflow checks (the dev and test profiles) it
  panics where it would be negative.
\<close>

definition usub :: "nat \<Rightarrow> nat \<Rightarrow> (nat, 'e) rres" where
  "usub a b = (if b \<le> a then Ok (a - b) else Panic)"

lemma usub_Ok [simp]: "b \<le> a \<Longrightarrow> usub a b = Ok (a - b)"
  by (simp add: usub_def)

lemma usub_eq_Panic: "usub a b = Panic \<longleftrightarrow> a < b"
  by (auto simp: usub_def)

lemma usub_eq_Ok: "usub a b = Ok c \<longleftrightarrow> b \<le> a \<and> c = a - b"
  by (auto simp: usub_def)

subsection \<open>Byte orders\<close>

definition u16_to_be :: "u16 \<Rightarrow> bytes" where
  "u16_to_be w = [ucast (drop_bit 8 w), ucast w]"

definition u16_from_be :: "u8 \<Rightarrow> u8 \<Rightarrow> u16" where
  "u16_from_be a b = push_bit 8 (ucast a) OR ucast b"

definition u32_to_be :: "u32 \<Rightarrow> bytes" where
  "u32_to_be w = [ucast (drop_bit 24 w), ucast (drop_bit 16 w), ucast (drop_bit 8 w), ucast w]"

definition u32_from_be :: "u8 \<Rightarrow> u8 \<Rightarrow> u8 \<Rightarrow> u8 \<Rightarrow> u32" where
  "u32_from_be a b c d =
     push_bit 24 (ucast a) OR push_bit 16 (ucast b) OR push_bit 8 (ucast c) OR ucast d"

definition u64_to_be :: "u64 \<Rightarrow> bytes" where
  "u64_to_be w = u32_to_be (ucast (drop_bit 32 w)) @ u32_to_be (ucast w)"

definition u64_from_be :: "u8 \<Rightarrow> u8 \<Rightarrow> u8 \<Rightarrow> u8 \<Rightarrow> u8 \<Rightarrow> u8 \<Rightarrow> u8 \<Rightarrow> u8 \<Rightarrow> u64" where
  "u64_from_be a b c d e f g h =
     push_bit 32 (ucast (u32_from_be a b c d)) OR ucast (u32_from_be e f g h)"

lemma u16_be_roundtrip [simp]:
  "u16_from_be (ucast (drop_bit 8 w)) (ucast w) = w"
  by (rule bit_eqI) (auto simp: u16_from_be_def bit_simps)

lemma u32_be_roundtrip [simp]:
  "u32_from_be (ucast (drop_bit 24 w)) (ucast (drop_bit 16 w)) (ucast (drop_bit 8 w)) (ucast w) = w"
proof (rule bit_word_eqI)
  fix n
  assume "n < LENGTH(32)"
  then consider "n < 8" | "8 \<le> n" "n < 16" | "16 \<le> n" "n < 24" | "24 \<le> n" "n < 32"
    by fastforce
  then show "bit (u32_from_be (ucast (drop_bit 24 w)) (ucast (drop_bit 16 w))
      (ucast (drop_bit 8 w)) (ucast w)) n \<longleftrightarrow> bit w n"
    by cases (auto simp: u32_from_be_def bit_simps less_diff_conv2)
qed

lemma length_u16_to_be [simp]: "length (u16_to_be w) = 2"
  by (simp add: u16_to_be_def)

lemma length_u32_to_be [simp]: "length (u32_to_be w) = 4"
  by (simp add: u32_to_be_def)

lemma length_u64_to_be [simp]: "length (u64_to_be w) = 8"
  by (simp add: u64_to_be_def)

subsection \<open>Bit fields of a byte\<close>

lemma not_bit_if_less_exp:
  fixes w :: "'a::len word"
  assumes "w < 2 ^ k" and "k \<le> n"
  shows "\<not> bit w n"
proof -
  have "unat w < unat (2 ^ k :: 'a word)"
    using assms(1) by (simp add: word_less_nat_alt)
  also have "\<dots> = unat (word_of_nat (2 ^ k) :: 'a word)"
    by simp
  also have "\<dots> \<le> 2 ^ k"
    unfolding unsigned_of_nat of_nat_id by (rule take_bit_nat_less_eq_self)
  also have "\<dots> \<le> 2 ^ n"
    using assms(2) by simp
  finally have "\<not> bit (unat w) n"
    by (simp add: bit_iff_odd)
  then show ?thesis
    by (auto simp: bit_unsigned_iff)
qed

text \<open>
  A BACnet tag byte: tag number in the high nibble, class bit 3, and a three-bit length field.
\<close>

lemma mask_nums: "(15::u8) = mask 4" "(7::u8) = mask 3"
  by (simp_all add: mask_numeral)

lemma bit_8 [simp]: "bit (8::int) n \<longleftrightarrow> n = 3"
proof -
  have "(8::int) = 2 ^ 3" by simp
  then show ?thesis by (simp only: bit_exp_iff) auto
qed

lemma bit_bound: "w < 2 ^ k \<Longrightarrow> bit w n \<Longrightarrow> n < k" for w :: "'a::len word"
  using not_bit_if_less_exp [of w k n] by (cases "k \<le> n") auto

lemma tag_byte_number:
  assumes "t < 16" and "l < 8"
  shows "drop_bit 4 (push_bit 4 t OR 8 OR l :: u8) AND 15 = t"
    and "drop_bit 4 (push_bit 4 t OR l :: u8) AND 15 = t"
  unfolding mask_nums
  using bit_bound [of t 4] bit_bound [of l 3] assms
  by - (rule bit_word_eqI; fastforce simp: bit_simps)+

lemma tag_byte_length:
  assumes "l < 8"
  shows "(push_bit 4 t OR 8 OR l :: u8) AND 7 = l"
    and "(push_bit 4 t OR l :: u8) AND 7 = l"
proof -
  have l: "bit l n \<Longrightarrow> n < 3" for n using bit_bound [of l 3 n] assms by simp
  show "(push_bit 4 t OR 8 OR l :: u8) AND 7 = l"
    unfolding mask_nums by (rule bit_word_eqI) (auto simp: bit_simps dest: l)
  show "(push_bit 4 t OR l :: u8) AND 7 = l"
    unfolding mask_nums by (rule bit_word_eqI) (auto simp: bit_simps dest: l)
qed

lemma tag_byte_class:
  assumes "l < 8"
  shows "(push_bit 4 t OR 8 OR l :: u8) AND 8 \<noteq> 0"
    and "(push_bit 4 t OR l :: u8) AND 8 = 0"
proof -
  have l: "bit l n \<Longrightarrow> n < 3" for n using bit_bound [of l 3 n] assms by simp
  have "bit ((push_bit 4 t OR 8 OR l :: u8) AND 8) 3"
    by (simp add: bit_simps)
  then show "(push_bit 4 t OR 8 OR l :: u8) AND 8 \<noteq> 0" by auto
  show "(push_bit 4 t OR l :: u8) AND 8 = 0"
    by (rule bit_word_eqI) (auto simp: bit_simps dest: l)
qed

lemma tag_byte_fields:
  assumes "t < 16" and "l < 8"
  shows "drop_bit 4 (push_bit 4 t OR 8 OR l :: u8) AND 15 = t"
    and "(push_bit 4 t OR 8 OR l :: u8) AND 7 = l"
    and "(push_bit 4 t OR 8 OR l :: u8) AND 8 \<noteq> 0"
    and "drop_bit 4 (push_bit 4 t OR l :: u8) AND 15 = t"
    and "(push_bit 4 t OR l :: u8) AND 7 = l"
    and "(push_bit 4 t OR l :: u8) AND 8 = 0"
  by (rule tag_byte_number [OF assms] tag_byte_length [OF assms(2)] tag_byte_class [OF assms(2)])+

end
