(* ===== verification/Segmentation.thy ===== *)
theory Segmentation
  imports Prelude
begin

text \<open>
  \<^verbatim>\<open>crates/bacnet-codec/src/apdu/segmentation.rs\<close>: the reassembly buffer.  The \<^verbatim>\<open>HashMap<u8, Bytes>\<close>
  is a finite map with its size, as a list without repeated keys.
\<close>

type_synonym 'v segment_map = "(u8 \<times> 'v) list"

definition seg_insert :: "u8 \<Rightarrow> 'v \<Rightarrow> 'v segment_map \<Rightarrow> 'v segment_map" where
  "seg_insert k v m = (k, v) # filter (\<lambda>p. fst p \<noteq> k) m"

record segment_buffer =
  sb_invoke_id :: u8
  sb_sequence_count :: nat
  sb_window_size :: u8
  sb_segments :: "bytes segment_map"
  sb_total_expected :: "nat option"

definition segment_buffer_new :: "u8 \<Rightarrow> u8 \<Rightarrow> segment_buffer" where
  "segment_buffer_new invoke_id window_size =
     \<lparr>sb_invoke_id = invoke_id, sb_sequence_count = 0, sb_window_size = window_size,
      sb_segments = [], sb_total_expected = None\<rparr>"

text \<open>The range \<^verbatim>\<open>0..total as u8\<close>: a total of 256 is a range of no numbers.\<close>

definition reassemble :: "segment_buffer \<Rightarrow> nat \<Rightarrow> bytes" where
  "reassemble b expected =
     concat (map (\<lambda>i. case map_of (sb_segments b) (of_nat i) of None \<Rightarrow> [] | Some seg \<Rightarrow> seg)
       [0..<unat (of_nat expected :: u8)])"

definition add_segment ::
  "segment_buffer \<Rightarrow> u8 \<Rightarrow> bool \<Rightarrow> bytes \<Rightarrow> bytes option \<times> segment_buffer" where
  "add_segment b sequence_number follows data =
     (let b1 = b\<lparr>sb_segments := seg_insert sequence_number data (sb_segments b)\<rparr>;
          b2 = (if follows then b1 else b1\<lparr>sb_total_expected := Some (unat sequence_number + 1)\<rparr>)
      in (case sb_total_expected b2 of
            None \<Rightarrow> (None, b2)
          | Some expected \<Rightarrow>
              (if length (sb_segments b2) = expected then (Some (reassemble b2 expected), b2)
               else (None, b2))))"

text \<open>A sequence of arrivals, with the result of each.\<close>

fun add_segments ::
  "segment_buffer \<Rightarrow> (u8 \<times> bool \<times> bytes) list \<Rightarrow> bytes option list \<times> segment_buffer" where
  "add_segments b [] = ([], b)"
| "add_segments b ((n, follows, data) # rest) =
     (let (r, b1) = add_segment b n follows data; (rs, b2) = add_segments b1 rest in (r # rs, b2))"

text \<open>The segments of a message of \<open>parts\<close>, numbered from 0, the last with nothing to follow.\<close>

definition segments_of :: "bytes list \<Rightarrow> (u8 \<times> bool \<times> bytes) list" where
  "segments_of parts =
     map (\<lambda>i. (of_nat i, i + 1 \<noteq> length parts, parts ! i)) [0..<length parts]"

lemma map_of_seg_insert [simp]: "map_of (seg_insert k v m) = (map_of m)(k \<mapsto> v)"
proof -
  have "map_of (filter (\<lambda>p. fst p \<noteq> k) m) x = (if x = k then None else map_of m x)" for x
    by (induction m) auto
  then show ?thesis by (auto simp: seg_insert_def)
qed

lemma keys_seg_insert: "fst ` set (seg_insert k v m) = insert k (fst ` set m)"
  by (auto simp: seg_insert_def)

lemma distinct_seg_insert [simp]: "distinct (map fst m) \<Longrightarrow> distinct (map fst (seg_insert k v m))"
  by (auto simp: seg_insert_def distinct_map filter_map [symmetric] inj_on_def)

lemma length_distinct_keys: "distinct (map fst m) \<Longrightarrow> length m = card (fst ` set m)"
  by (metis distinct_card length_map list.set_map)

subsection \<open>Reassembly does not depend on the order of arrival\<close>

definition segment_of :: "bytes list \<Rightarrow> nat \<Rightarrow> u8 \<times> bool \<times> bytes" where
  "segment_of parts i = (of_nat i, i + 1 \<noteq> length parts, parts ! i)"

lemma segments_of_map: "segments_of parts = map (segment_of parts) [0..<length parts]"
  by (simp add: segments_of_def segment_of_def)

lemma segment_of_key:
  assumes "length parts \<le> 256" and "i < length parts" and "j < length parts"
  shows "fst (segment_of parts i) = fst (segment_of parts j) \<longleftrightarrow> i = j"
proof -
  have "unat (of_nat k :: u8) = k" if "k < length parts" for k
    using that assms(1) by (simp add: unat_of_nat)
  with assms(2,3) show ?thesis
    unfolding segment_of_def fst_conv by metis
qed

definition seg_inv :: "bytes list \<Rightarrow> nat list \<Rightarrow> segment_buffer \<Rightarrow> bool" where
  "seg_inv parts is b \<longleftrightarrow>
     distinct (map fst (sb_segments b))
     \<and> fst ` set (sb_segments b) = (\<lambda>i. fst (segment_of parts i)) ` set is
     \<and> (\<forall>i \<in> set is. map_of (sb_segments b) (of_nat i) = Some (parts ! i))
     \<and> sb_total_expected b = (if length parts - 1 \<in> set is then Some (length parts) else None)"

lemma seg_inv_new: "seg_inv parts [] (segment_buffer_new ivk win)"
  by (simp add: seg_inv_def segment_buffer_new_def)

lemma seg_inv_length:
  assumes "seg_inv parts is b" and "length parts \<le> 256" and "distinct is"
    and "\<forall>i \<in> set is. i < length parts"
  shows "length (sb_segments b) = length is"
proof -
  have "inj_on (\<lambda>i. fst (segment_of parts i)) (set is)"
    using segment_of_key [OF assms(2)] assms(4) by (auto simp: inj_on_def)
  with assms show ?thesis
    by (simp add: seg_inv_def length_distinct_keys card_image distinct_card)
qed

text \<open>What the buffer hands over for all parts: with 256 of them the loop bound is 0.\<close>

definition delivered :: "bytes list \<Rightarrow> bytes" where
  "delivered parts = (if length parts = 256 then [] else concat parts)"

lemma reassemble_complete:
  assumes "seg_inv parts is b" and "set is = {..<length parts}" and "length parts \<le> 256"
  shows "reassemble b (length parts) = delivered parts"
proof (cases "length parts = 256")
  case False
  have "unat (of_nat (length parts) :: u8) = length parts"
    using assms(3) False by (simp add: unat_of_nat)
  moreover have "map (\<lambda>i. case map_of (sb_segments b) (of_nat i) of None \<Rightarrow> [] | Some seg \<Rightarrow> seg)
      [0..<length parts] = parts"
    using assms(1,2) by (intro nth_equalityI) (auto simp: seg_inv_def)
  ultimately show ?thesis using False by (simp add: reassemble_def delivered_def)
qed (simp add: reassemble_def delivered_def)

text \<open>One arrival: it completes the message exactly when it is the last one missing.\<close>

lemma add_segment_step:
  assumes inv: "seg_inv parts is b" and len: "length parts \<le> 256" and dis: "distinct (is @ [i])"
    and idx: "\<forall>j \<in> set (is @ [i]). j < length parts"
    and step: "segment_of parts i = (n, follows, data)"
  shows "\<exists>b'. add_segment b n follows data =
      (if length is + 1 = length parts then Some (delivered parts) else None, b')
    \<and> seg_inv parts (is @ [i]) b'"
proof -
  let ?b1 = "b\<lparr>sb_segments := seg_insert n data (sb_segments b)\<rparr>"
  let ?b2 = "if follows then ?b1 else ?b1\<lparr>sb_total_expected := Some (unat n + 1)\<rparr>"
  have n: "n = of_nat i" "follows \<longleftrightarrow> i + 1 \<noteq> length parts" "data = parts ! i"
    using step by (simp_all add: segment_of_def)
  have un: "unat n = i" using idx len by (simp add: n unat_of_nat)
  have last: "length parts - 1 \<in> set (is @ [i]) \<longleftrightarrow> length parts - 1 \<in> set is \<or> \<not> follows"
    using idx by (auto simp: n)
  have fresh: "(of_nat j :: u8) \<noteq> n" if "j \<in> set is" for j
    using segment_of_key [of parts j i] that idx dis len by (auto simp: segment_of_def n)
  have parts_inv: "distinct (map fst (sb_segments b))"
      "fst ` set (sb_segments b) = (\<lambda>i. fst (segment_of parts i)) ` set is"
      "\<forall>i \<in> set is. map_of (sb_segments b) (of_nat i) = Some (parts ! i)"
      "sb_total_expected b = (if length parts - 1 \<in> set is then Some (length parts) else None)"
    using inv unfolding seg_inv_def by blast+
  have "\<not> follows \<Longrightarrow> unat n + 1 = length parts" using n(2) un by simp
  with parts_inv(4) last have tot:
    "sb_total_expected ?b2 = (if length parts - 1 \<in> set (is @ [i]) then Some (length parts) else None)"
    by auto
  have look: "\<forall>k \<in> set (is @ [i]). map_of (sb_segments ?b2) (of_nat k) = Some (parts ! k)"
    using parts_inv(3) fresh by (simp add: n del: map_of_eq_Some_iff)
  have keys: "fst ` set (sb_segments ?b2) = (\<lambda>i. fst (segment_of parts i)) ` set (is @ [i])"
    using parts_inv(2) by (simp add: keys_seg_insert step)
  have inv2: "seg_inv parts (is @ [i]) ?b2"
    unfolding seg_inv_def using parts_inv(1) keys look tot by simp
  have segs: "sb_segments ?b2 = seg_insert n data (sb_segments b)" by simp
  have l: "length (sb_segments ?b2) = length is + 1"
    using seg_inv_length [OF inv2 _ dis idx] len by simp
  have all: "set (is @ [i]) = {..<length parts}" if "length is + 1 = length parts"
    using that idx dis by (intro card_subset_eq) (auto simp: distinct_card)
  have "add_segment b n follows data =
      (if length is + 1 = length parts then Some (delivered parts) else None, ?b2)"
  proof (cases "length is + 1 = length parts")
    case True
    then have "sb_total_expected ?b2 = Some (length parts)"
      unfolding tot using all [OF True] by simp
    then show ?thesis
      using True reassemble_complete [OF inv2 all [OF True] len] l
      by (simp only: add_segment_def Let_def option.case if_True refl)
  next
    case False
    then show ?thesis
      using tot l by (simp only: add_segment_def Let_def) (simp split: option.split)
  qed
  with inv2 show ?thesis by blast
qed

lemma add_segments_Cons:
  "add_segment b n follows data = (r, b') \<Longrightarrow>
     fst (add_segments b ((n, follows, data) # rest)) = r # fst (add_segments b' rest)"
  by (simp add: case_prod_unfold Let_def)

lemma add_segments_run:
  assumes "seg_inv parts is b" and "length parts \<le> 256" and "distinct (is @ js)"
    and "\<forall>j \<in> set (is @ js). j < length parts"
  shows "fst (add_segments b (map (segment_of parts) js)) =
    map (\<lambda>k. if length is + k + 1 = length parts then Some (delivered parts) else None) [0..<length js]"
  using assms
proof (induction js arbitrary: "is" b)
  case (Cons j js)
  obtain n follows data where s: "segment_of parts j = (n, follows, data)"
    by (cases "segment_of parts j") auto
  from Cons.prems add_segment_step [of parts "is" b j n follows data] s
  obtain b' where b': "add_segment b n follows data =
      (if length is + 1 = length parts then Some (delivered parts) else None, b')"
    "seg_inv parts (is @ [j]) b'"
    by auto
  have IH: "fst (add_segments b' (map (segment_of parts) js)) =
    map (\<lambda>k. if length (is @ [j]) + k + 1 = length parts then Some (delivered parts) else None) [0..<length js]"
    using b'(2) Cons.prems by (intro Cons.IH) auto
  have "fst (add_segments b (map (segment_of parts) (j # js))) =
      (if length is + 1 = length parts then Some (delivered parts) else None)
      # fst (add_segments b' (map (segment_of parts) js))"
    using add_segments_Cons [OF b'(1)] by (simp add: s)
  then show ?case
    unfolding IH length_Cons map_upt_Suc by simp
qed simp

lemma reassembly_any_order:
  assumes "parts \<noteq> []" and "length parts \<le> 256"
    and "distinct order" and "set order = {..<length parts}"
  shows "fst (add_segments (segment_buffer_new ivk win) (map (segment_of parts) order)) =
    replicate (length parts - 1) None @ [Some (delivered parts)]"
proof -
  have n: "length order = length parts"
    using assms(3,4) distinct_card [of order] by simp
  have up: "[0..<length parts] = [0..<length parts - 1] @ [length parts - 1]"
    using assms(1) by (cases "length parts") auto
  have "fst (add_segments (segment_buffer_new ivk win) (map (segment_of parts) order)) =
    map (\<lambda>k. if length ([] :: nat list) + k + 1 = length parts then Some (delivered parts) else None)
      [0..<length order]"
    using add_segments_run [OF seg_inv_new [of parts ivk win], of order] assms by simp
  also have "\<dots> = map (\<lambda>k. if k + 1 = length parts then Some (delivered parts) else None) [0..<length parts - 1]
      @ [Some (delivered parts)]"
    using assms(1) unfolding n up by simp
  also have "map (\<lambda>k. if k + 1 = length parts then Some (delivered parts) else None) [0..<length parts - 1] =
      replicate (length parts - 1) None"
    by (rule nth_equalityI) auto
  finally show ?thesis .
qed

subsection \<open>Properties\<close>

text \<open>
  C34. Up to 255 segments arriving in any order are put together in the order of their sequence
  numbers, and the message is handed over exactly once, with the last of them to arrive.
\<close>

theorem reassembly_order_independent:
  assumes "parts \<noteq> []" and "length parts \<le> 255"
    and "distinct order" and "set order = {..<length parts}"
  shows "fst (add_segments (segment_buffer_new ivk win) (map (segment_of parts) order)) =
    replicate (length parts - 1) None @ [Some (concat parts)]"
  using reassembly_any_order [of parts order ivk win] assms by (simp add: delivered_def)

theorem reassembly_order_independent_witness:
  "fst (add_segments (segment_buffer_new 1 4) (map (segment_of [[1], [2, 3], [4]]) [2, 0, 1])) =
    [None, None, Some [1, 2, 3, 4]]"
proof -
  have "set [2, 0, 1] = {..<length [[1 :: u8], [2, 3], [4]]}" by auto
  from reassembly_order_independent [OF _ _ _ this, of 1 4] show ?thesis
    by (simp add: numeral_eq_Suc)
qed

text \<open>
  A message of 256 segments, the most the 8-bit sequence numbers can tell apart, is lost: the
  bound of the reassembly loop is cut to 8 bits and becomes 0, so an empty message is handed over.
\<close>

theorem reassembly_of_256_is_empty:
  assumes "length parts = 256" and "distinct order" and "set order = {..<256}"
  shows "last (fst (add_segments (segment_buffer_new ivk win) (map (segment_of parts) order))) = Some []"
proof -
  have "parts \<noteq> []" using assms(1) by auto
  then show ?thesis using reassembly_any_order [of parts order ivk win] assms by (simp add: delivered_def)
qed

theorem reassembly_of_256_is_empty_witness:
  "last (fst (add_segments (segment_buffer_new 1 4)
     (map (segment_of (replicate 256 [0x55])) [0..<256]))) = Some []"
  by (rule reassembly_of_256_is_empty) (simp_all add: atLeast0LessThan)

end
