(* ===== verification/Float32.thy ===== *)
theory Float32
  imports Prelude
begin

text \<open>
  The IEEE 754 arithmetic the Rust sources use on \<^verbatim>\<open>f32\<close> and \<^verbatim>\<open>f64\<close>: comparison, negation,
  absolute value, addition, subtraction and multiplication on \<^verbatim>\<open>f32\<close>, comparison on \<^verbatim>\<open>f64\<close>,
  and the \<^verbatim>\<open>as f32\<close> conversions.  A float is its bit pattern.

  Every finite \<^verbatim>\<open>f32\<close> is an integer multiple of \<open>2 ^ -149\<close> (the least subnormal) and every
  finite \<^verbatim>\<open>f64\<close> one of \<open>2 ^ -1074\<close>, so the exact sums and products are integers in a fine
  enough unit, and the only rounding is \<open>f32_round\<close>, to nearest with ties to even.  A NaN
  result is the canonical quiet NaN; Rust leaves its sign and payload open, and nothing in the
  modelled code reads them.
\<close>

type_synonym f32 = "32 word"
type_synonym f64 = "64 word"

subsection \<open>Fields and values\<close>

definition f32_sign :: "f32 \<Rightarrow> bool" where
  "f32_sign w = bit w 31"

definition f32_exp :: "f32 \<Rightarrow> nat" where
  "f32_exp w = unat (take_bit 8 (drop_bit 23 w))"

definition f32_frac :: "f32 \<Rightarrow> nat" where
  "f32_frac w = unat (take_bit 23 w)"

definition f32_is_nan :: "f32 \<Rightarrow> bool" where
  "f32_is_nan w \<longleftrightarrow> f32_exp w = 255 \<and> f32_frac w \<noteq> 0"

definition f32_is_inf :: "f32 \<Rightarrow> bool" where
  "f32_is_inf w \<longleftrightarrow> f32_exp w = 255 \<and> f32_frac w = 0"

text \<open>
  The magnitude in units of \<open>2 ^ -149\<close>.  For an infinity the formula gives a number above
  every finite magnitude, so it also orders the infinities.
\<close>

definition f32_mag :: "f32 \<Rightarrow> nat" where
  "f32_mag w = (if f32_exp w = 0 then f32_frac w
                else (2 ^ 23 + f32_frac w) * 2 ^ (f32_exp w - 1))"

definition f32_ord :: "f32 \<Rightarrow> int" where
  "f32_ord w = (if f32_sign w then - int (f32_mag w) else int (f32_mag w))"

definition f64_exp :: "f64 \<Rightarrow> nat" where
  "f64_exp w = unat (take_bit 11 (drop_bit 52 w))"

definition f64_frac :: "f64 \<Rightarrow> nat" where
  "f64_frac w = unat (take_bit 52 w)"

definition f64_sign :: "f64 \<Rightarrow> bool" where
  "f64_sign w = bit w 63"

definition f64_is_nan :: "f64 \<Rightarrow> bool" where
  "f64_is_nan w \<longleftrightarrow> f64_exp w = 2047 \<and> f64_frac w \<noteq> 0"

definition f64_mag :: "f64 \<Rightarrow> nat" where
  "f64_mag w = (if f64_exp w = 0 then f64_frac w
                else (2 ^ 52 + f64_frac w) * 2 ^ (f64_exp w - 1))"

definition f64_ord :: "f64 \<Rightarrow> int" where
  "f64_ord w = (if f64_sign w then - int (f64_mag w) else int (f64_mag w))"

subsection \<open>Comparison\<close>

definition f32_lt :: "f32 \<Rightarrow> f32 \<Rightarrow> bool" where
  "f32_lt a b \<longleftrightarrow> \<not> f32_is_nan a \<and> \<not> f32_is_nan b \<and> f32_ord a < f32_ord b"

definition f32_ge :: "f32 \<Rightarrow> f32 \<Rightarrow> bool" where
  "f32_ge a b \<longleftrightarrow> \<not> f32_is_nan a \<and> \<not> f32_is_nan b \<and> f32_ord b \<le> f32_ord a"

definition f32_eq :: "f32 \<Rightarrow> f32 \<Rightarrow> bool" where
  "f32_eq a b \<longleftrightarrow> \<not> f32_is_nan a \<and> \<not> f32_is_nan b \<and> f32_ord a = f32_ord b"

definition f64_ge :: "f64 \<Rightarrow> f64 \<Rightarrow> bool" where
  "f64_ge a b \<longleftrightarrow> \<not> f64_is_nan a \<and> \<not> f64_is_nan b \<and> f64_ord b \<le> f64_ord a"

definition f64_eq :: "f64 \<Rightarrow> f64 \<Rightarrow> bool" where
  "f64_eq a b \<longleftrightarrow> \<not> f64_is_nan a \<and> \<not> f64_is_nan b \<and> f64_ord a = f64_ord b"

lemma f32_lt_irrefl [simp]: "\<not> f32_lt a a"
  by (simp add: f32_lt_def)

lemma f32_lt_trans: "f32_lt a b \<Longrightarrow> f32_lt b c \<Longrightarrow> f32_lt a c"
  by (simp add: f32_lt_def)

lemma f32_lt_asym: "f32_lt a b \<Longrightarrow> \<not> f32_lt b a"
  by (simp add: f32_lt_def)

lemma f32_ge_iff_not_lt:
  "\<not> f32_is_nan a \<Longrightarrow> \<not> f32_is_nan b \<Longrightarrow> f32_ge a b \<longleftrightarrow> \<not> f32_lt a b"
  by (auto simp: f32_lt_def f32_ge_def)

lemma f32_eq_refl [simp]: "\<not> f32_is_nan a \<Longrightarrow> f32_eq a a"
  by (simp add: f32_eq_def)

lemma f32_eq_sym: "f32_eq a b \<longleftrightarrow> f32_eq b a"
  by (auto simp: f32_eq_def)

subsection \<open>Rounding\<close>

fun bit_len :: "nat \<Rightarrow> nat" where
  "bit_len n = (if n = 0 then 0 else Suc (bit_len (n div 2)))"

declare bit_len.simps [simp del]

definition round_half_even :: "nat \<Rightarrow> nat \<Rightarrow> nat" where
  "round_half_even m s =
     (let q = m div 2 ^ s; r = m mod 2 ^ s
      in if 2 ^ s < 2 * r \<or> (2 * r = 2 ^ s \<and> odd q) then q + 1 else q)"

text \<open>
  \<open>f32_round neg k m\<close> is the float nearest to \<open>m * 2 ^ -(149 + k)\<close>, negated if \<open>neg\<close>.  With
  at most 24 significant bits above the subnormal unit the quantum is that unit (shift \<open>k\<close>);
  otherwise the 24 leading bits are kept.  The pattern of a rounded significand \<open>q\<close> at shift
  \<open>k + d\<close> is \<open>q + d * 2 ^ 23\<close>: a carry into the exponent comes out right by itself, and a
  pattern past the largest finite one is an infinity.
\<close>

definition f32_shift :: "nat \<Rightarrow> nat \<Rightarrow> nat" where
  "f32_shift k m = (if bit_len m \<le> k + 24 then k else bit_len m - 24)"

definition f32_round_mag :: "nat \<Rightarrow> nat \<Rightarrow> nat" where
  "f32_round_mag k m =
     (let s = f32_shift k m
      in min (255 * 2 ^ 23) (round_half_even m s + (s - k) * 2 ^ 23))"

definition f32_round :: "bool \<Rightarrow> nat \<Rightarrow> nat \<Rightarrow> f32" where
  "f32_round neg k m = (if neg then 2 ^ 31 else 0) + word_of_nat (f32_round_mag k m)"

definition f32_nan :: f32 where
  "f32_nan = 0x7FC00000"

definition f32_inf :: "bool \<Rightarrow> f32" where
  "f32_inf neg = (if neg then 0xFF800000 else 0x7F800000)"

subsection \<open>Arithmetic\<close>

definition f32_neg :: "f32 \<Rightarrow> f32" where
  "f32_neg w = w XOR 0x80000000"

definition f32_abs :: "f32 \<Rightarrow> f32" where
  "f32_abs w = w AND 0x7FFFFFFF"

definition f32_add :: "f32 \<Rightarrow> f32 \<Rightarrow> f32" where
  "f32_add a b =
     (if f32_is_nan a \<or> f32_is_nan b then f32_nan
      else if f32_is_inf a then
        (if f32_is_inf b \<and> f32_sign a \<noteq> f32_sign b then f32_nan else a)
      else if f32_is_inf b then b
      else let s = f32_ord a + f32_ord b
           in if s = 0 then (if f32_sign a \<and> f32_sign b then 0x80000000 else 0)
              else f32_round (s < 0) 0 (nat \<bar>s\<bar>))"

definition f32_sub :: "f32 \<Rightarrow> f32 \<Rightarrow> f32" where
  "f32_sub a b = f32_add a (f32_neg b)"

definition f32_mul :: "f32 \<Rightarrow> f32 \<Rightarrow> f32" where
  "f32_mul a b =
     (let neg = (f32_sign a \<noteq> f32_sign b)
      in if f32_is_nan a \<or> f32_is_nan b then f32_nan
         else if f32_is_inf a then (if f32_mag b = 0 then f32_nan else f32_inf neg)
         else if f32_is_inf b then (if f32_mag a = 0 then f32_nan else f32_inf neg)
         else f32_round neg 149 (f32_mag a * f32_mag b))"

definition f32_of_u32 :: "u32 \<Rightarrow> f32" where
  "f32_of_u32 v = f32_round False 0 (unat v * 2 ^ 149)"

definition f32_of_i32 :: "u32 \<Rightarrow> f32" where
  "f32_of_i32 v = f32_round (sint v < 0) 0 (nat \<bar>sint v\<bar> * 2 ^ 149)"

definition f32_of_f64 :: "f64 \<Rightarrow> f32" where
  "f32_of_f64 w =
     (if f64_is_nan w then f32_nan
      else if f64_exp w = 2047 then f32_inf (f64_sign w)
      else f32_round (f64_sign w) 925 (f64_mag w))"

text \<open>\<^verbatim>\<open>f32::max\<close> (a NaN operand is ignored), as \<^verbatim>\<open>cov_increment.max(0.0)\<close> uses it.\<close>

definition f32_max :: "f32 \<Rightarrow> f32 \<Rightarrow> f32" where
  "f32_max a b = (if f32_is_nan a then b else if f32_is_nan b then a
                  else if f32_lt a b then b else a)"

lemma bit_len_0 [simp]: "bit_len 0 = 0"
  by (subst bit_len.simps) simp

lemma bit_len_pos: "0 < n \<Longrightarrow> bit_len n = Suc (bit_len (n div 2))"
  by (subst bit_len.simps) simp

lemma less_2_power_bit_len: "n < 2 ^ bit_len n"
proof (induction n rule: bit_len.induct)
  case (1 n)
  show ?case
  proof (cases "n = 0")
    case False
    with 1 have "n div 2 < 2 ^ bit_len (n div 2)" by simp
    with False show ?thesis by (simp add: bit_len_pos)
  qed simp
qed

lemma bit_len_le: "n < 2 ^ k \<Longrightarrow> bit_len n \<le> k"
proof (induction k arbitrary: n)
  case (Suc k)
  show ?case
  proof (cases "n = 0")
    case False
    from Suc.prems have "n div 2 < 2 ^ k" by auto
    with Suc.IH False show ?thesis by (simp add: bit_len_pos)
  qed simp
qed simp

lemma power_le_bit_len: "2 ^ k \<le> n \<Longrightarrow> k < bit_len n"
proof (rule ccontr)
  assume le: "2 ^ k \<le> n" and "\<not> k < bit_len n"
  then have "(2::nat) ^ bit_len n \<le> 2 ^ k" by (simp add: power_increasing)
  with less_2_power_bit_len [of n] le show False by simp
qed

lemma bit_len_eq: "2 ^ k \<le> n \<Longrightarrow> n < 2 ^ Suc k \<Longrightarrow> bit_len n = Suc k"
  using power_le_bit_len [of k n] bit_len_le [of n "Suc k"] by simp

lemma round_half_even_exact [simp]: "round_half_even (q * 2 ^ s) s = q"
  by (simp add: round_half_even_def Let_def)

subsection \<open>Exactness\<close>


lemma f32_exp_nat: "f32_exp w = unat w div 2 ^ 23 mod 2 ^ 8"
  by (simp add: f32_exp_def take_bit_eq_mod drop_bit_eq_div unat_div_distrib unat_mod_distrib)

lemma f32_frac_nat: "f32_frac w = unat w mod 2 ^ 23"
  by (simp add: f32_frac_def take_bit_eq_mod unat_mod_distrib)

lemma f32_sign_nat: "f32_sign w \<longleftrightarrow> odd (unat w div 2 ^ 31)"
proof -
  have "bit w 31 \<longleftrightarrow> bit (unat w) 31" by (simp add: bit_unsigned_iff)
  then show ?thesis by (simp add: f32_sign_def bit_iff_odd)
qed

lemma f32_frac_less: "f32_frac w < 2 ^ 23"
  by (simp add: f32_frac_nat)

lemma f32_exp_less [simp]: "f32_exp w < 256"
  by (simp add: f32_exp_nat)

lemma f32_fields: "unat w = (if f32_sign w then 2 ^ 31 else 0) + f32_exp w * 2 ^ 23 + f32_frac w"
proof -
  have "unat w < 2 ^ 32" using unsigned_less [of w, where ?'a=nat] by simp
  then have "unat w div 2 ^ 31 < 2" by (simp add: less_mult_imp_div_less)
  then have "unat w div 2 ^ 31 = (if f32_sign w then 1 else 0)"
    unfolding f32_sign_nat by (cases "unat w div 2 ^ 31") auto
  moreover have "unat w div 2 ^ 23 = unat w div 2 ^ 31 * 2 ^ 8 + f32_exp w"
    unfolding f32_exp_nat by (simp add: div_mult2_eq [of "unat w" "2 ^ 23" "2 ^ 8", simplified])
  moreover have "unat w = unat w div 2 ^ 23 * 2 ^ 23 + f32_frac w"
    unfolding f32_frac_nat by simp
  ultimately show ?thesis by (auto simp: algebra_simps)
qed

lemma f32_round_mag_mag:
  assumes "f32_exp w < 255"
  shows "f32_round_mag 0 (f32_mag w) = f32_exp w * 2 ^ 23 + f32_frac w"
proof (cases "f32_exp w")
  case 0
  then have "f32_shift 0 (f32_mag w) = 0"
    using bit_len_le [of "f32_frac w" 24] f32_frac_less [of w] by (simp add: f32_shift_def f32_mag_def)
  with 0 f32_frac_less [of w] show ?thesis
    using round_half_even_exact [of "f32_frac w" 0]
    by (simp add: f32_round_mag_def f32_mag_def min_def Let_def)
next
  case (Suc d)
  let ?q = "2 ^ 23 + f32_frac w"
  have q: "?q < 2 ^ 24" using f32_frac_less [of w] by simp
  have m: "f32_mag w = ?q * 2 ^ d" by (simp add: f32_mag_def Suc)
  have "bit_len (?q * 2 ^ d) = Suc (23 + d)"
  proof (rule bit_len_eq)
    show "2 ^ (23 + d) \<le> ?q * 2 ^ d" by (simp add: power_add)
    show "?q * 2 ^ d < 2 ^ Suc (23 + d)"
      using q by (simp add: power_add) 
  qed
  then have s: "f32_shift 0 (f32_mag w) = d" by (simp add: f32_shift_def m)
  have "round_half_even (f32_mag w) d = ?q"
    unfolding m by (rule round_half_even_exact)
  moreover have "?q + d * 2 ^ 23 = f32_exp w * 2 ^ 23 + f32_frac w" by (simp add: Suc)
  moreover have "f32_exp w * 2 ^ 23 + f32_frac w \<le> 255 * 2 ^ 23"
    using assms f32_frac_less [of w] by simp
  ultimately show ?thesis by (simp only: f32_round_mag_def s Let_def) simp
qed

lemma f32_round_finite:
  assumes "f32_exp w < 255"
  shows "f32_round (f32_sign w) 0 (f32_mag w) = w"
proof -
  have "f32_round (f32_sign w) 0 (f32_mag w) = word_of_nat (unat w)"
    by (subst f32_fields) (simp add: f32_round_def f32_round_mag_mag [OF assms])
  then show ?thesis by simp
qed

text \<open>Rounding is to nearest: the error is at most half a quantum.\<close>

lemma round_half_even_error:
  "2 * \<bar>int (round_half_even m s) * 2 ^ s - int m\<bar> \<le> 2 ^ s"
proof -
  define q r where "q = m div 2 ^ s" and "r = m mod 2 ^ s"
  have "m = q * 2 ^ s + r" unfolding q_def r_def by (rule div_mult_mod_eq [symmetric])
  then have m: "int m = int q * 2 ^ s + int r" by simp
  have "r < 2 ^ s" by (simp add: r_def)
  then have r: "int r < 2 ^ s" using of_nat_less_iff [of r "2 ^ s", where 'a=int] by simp
  have q: "round_half_even m s = (if 2 ^ s < 2 * r \<or> (2 * r = 2 ^ s \<and> odd q) then q + 1 else q)"
    by (simp add: round_half_even_def Let_def q_def r_def)
  show ?thesis
  proof (cases "2 ^ s < 2 * r \<or> (2 * r = 2 ^ s \<and> odd q)")
    case True
    then have "2 ^ s \<le> 2 * r" by auto
    then have "(2::int) ^ s \<le> 2 * int r"
      using of_nat_le_iff [of "2 ^ s" "2 * r", where 'a=int] by simp
    moreover have "round_half_even m s = q + 1" using True q by simp
    ultimately show ?thesis using r by (simp add: m algebra_simps)
  next
    case False
    then have "2 * r \<le> 2 ^ s" by auto
    then have "2 * int r \<le> 2 ^ s"
      using of_nat_le_iff [of "2 * r" "2 ^ s", where 'a=int] by simp
    moreover have "round_half_even m s = q" using False q by simp
    ultimately show ?thesis by (simp add: m)
  qed
qed

end
