(* ===== verification/Bacnet_Types.thy ===== *)
theory Bacnet_Types
  imports Float32
begin

text \<open>
  The data of \<^verbatim>\<open>crates/bacnet-types\<close>: object types, property identifiers, the enumerations of
  property values, \<^verbatim>\<open>PropertyValue\<close> itself, the error type and the addresses, with the code
  tables of \<^verbatim>\<open>object_types.rs\<close> and \<^verbatim>\<open>property_id.rs\<close>.  A constructor carries the short form
  of its Rust path as a prefix (\<open>OT_Device\<close> is \<^verbatim>\<open>ObjectType::Device\<close>), an \<^verbatim>\<open>as\<close> cast of a
  fieldless enum is a \<open>_code\<close> function.
\<close>

subsection \<open>Object types and property identifiers\<close>

datatype (plugins only: code size) object_type =
    OT_AnalogInput | OT_AnalogOutput | OT_AnalogValue
  | OT_BinaryInput | OT_BinaryOutput | OT_BinaryValue
  | OT_Calendar | OT_Command | OT_Device
  | OT_EventEnrollment | OT_File | OT_Group
  | OT_Loop | OT_MultiStateInput | OT_MultiStateOutput
  | OT_NotificationClass | OT_Program | OT_Schedule
  | OT_Averaging | OT_MultiStateValue | OT_TrendLog
  | OT_LifeSafetyPoint | OT_LifeSafetyZone | OT_Accumulator
  | OT_PulseConverter | OT_EventLog | OT_GlobalGroup
  | OT_TrendLogMultiple | OT_LoadControl | OT_StructuredView
  | OT_AccessDoor | OT_Timer | OT_AccessCredential
  | OT_AccessPoint | OT_AccessRights | OT_AccessUser
  | OT_AccessZone | OT_CredentialDataInput | OT_NetworkSecurity
  | OT_BitStringValue | OT_CharacterStringValue | OT_DatePatternValue
  | OT_DateValue | OT_DateTimePatternValue | OT_DateTimeValue
  | OT_IntegerValue | OT_LargeAnalogValue | OT_OctetStringValue
  | OT_PositiveIntegerValue | OT_TimePatternValue | OT_TimeValue
  | OT_NotificationForwarder | OT_AlertEnrollment | OT_Channel
  | OT_LightingOutput | OT_BinaryLightingOutput | OT_NetworkPort
  | OT_ElevatorGroup | OT_Escalator | OT_Lift
  | OT_Staging

text \<open>The cast \<^verbatim>\<open>object_type as u32\<close> (and \<^verbatim>\<open>as u64\<close>): the declared discriminants.\<close>

primrec ot_code :: "object_type \<Rightarrow> u32" where
  "ot_code OT_AnalogInput = 0"
| "ot_code OT_AnalogOutput = 1"
| "ot_code OT_AnalogValue = 2"
| "ot_code OT_BinaryInput = 3"
| "ot_code OT_BinaryOutput = 4"
| "ot_code OT_BinaryValue = 5"
| "ot_code OT_Calendar = 6"
| "ot_code OT_Command = 7"
| "ot_code OT_Device = 8"
| "ot_code OT_EventEnrollment = 9"
| "ot_code OT_File = 10"
| "ot_code OT_Group = 11"
| "ot_code OT_Loop = 12"
| "ot_code OT_MultiStateInput = 13"
| "ot_code OT_MultiStateOutput = 14"
| "ot_code OT_NotificationClass = 15"
| "ot_code OT_Program = 16"
| "ot_code OT_Schedule = 17"
| "ot_code OT_Averaging = 18"
| "ot_code OT_MultiStateValue = 19"
| "ot_code OT_TrendLog = 20"
| "ot_code OT_LifeSafetyPoint = 21"
| "ot_code OT_LifeSafetyZone = 22"
| "ot_code OT_Accumulator = 23"
| "ot_code OT_PulseConverter = 24"
| "ot_code OT_EventLog = 25"
| "ot_code OT_GlobalGroup = 26"
| "ot_code OT_TrendLogMultiple = 27"
| "ot_code OT_LoadControl = 28"
| "ot_code OT_StructuredView = 29"
| "ot_code OT_AccessDoor = 30"
| "ot_code OT_Timer = 31"
| "ot_code OT_AccessCredential = 32"
| "ot_code OT_AccessPoint = 33"
| "ot_code OT_AccessRights = 34"
| "ot_code OT_AccessUser = 35"
| "ot_code OT_AccessZone = 36"
| "ot_code OT_CredentialDataInput = 37"
| "ot_code OT_NetworkSecurity = 38"
| "ot_code OT_BitStringValue = 39"
| "ot_code OT_CharacterStringValue = 40"
| "ot_code OT_DatePatternValue = 41"
| "ot_code OT_DateValue = 42"
| "ot_code OT_DateTimePatternValue = 43"
| "ot_code OT_DateTimeValue = 44"
| "ot_code OT_IntegerValue = 45"
| "ot_code OT_LargeAnalogValue = 46"
| "ot_code OT_OctetStringValue = 47"
| "ot_code OT_PositiveIntegerValue = 48"
| "ot_code OT_TimePatternValue = 49"
| "ot_code OT_TimeValue = 50"
| "ot_code OT_NotificationForwarder = 51"
| "ot_code OT_AlertEnrollment = 52"
| "ot_code OT_Channel = 53"
| "ot_code OT_LightingOutput = 54"
| "ot_code OT_BinaryLightingOutput = 55"
| "ot_code OT_NetworkPort = 56"
| "ot_code OT_ElevatorGroup = 57"
| "ot_code OT_Escalator = 58"
| "ot_code OT_Lift = 59"
| "ot_code OT_Staging = 60"

definition object_type_from_u16 :: "u16 \<Rightarrow> object_type option" where
  "object_type_from_u16 v =
     (if v = 0 then Some OT_AnalogInput
      else if v = 1 then Some OT_AnalogOutput
      else if v = 2 then Some OT_AnalogValue
      else if v = 3 then Some OT_BinaryInput
      else if v = 4 then Some OT_BinaryOutput
      else if v = 5 then Some OT_BinaryValue
      else if v = 8 then Some OT_Device
      else if v = 13 then Some OT_MultiStateInput
      else if v = 14 then Some OT_MultiStateOutput
      else if v = 15 then Some OT_NotificationClass
      else if v = 17 then Some OT_Schedule
      else if v = 20 then Some OT_TrendLog
      else None)"

datatype (plugins only: code size) property_identifier =
    PID_ObjectIdentifier | PID_ObjectName | PID_ObjectType
  | PID_Description | PID_ProfileName | PID_PresentValue
  | PID_StatusFlags | PID_EventState | PID_Reliability
  | PID_OutOfService | PID_Units | PID_MinPresentValue
  | PID_MaxPresentValue | PID_CovIncrement | PID_TimeDelay
  | PID_NotificationClass | PID_HighLimit | PID_LowLimit
  | PID_Deadband | PID_LimitEnable | PID_EventEnable
  | PID_AckedTransitions | PID_PriorityArray | PID_RelinquishDefault
  | PID_SystemStatus | PID_VendorName | PID_LocalDate
  | PID_LocalTime | PID_UtcOffset | PID_DaylightSavingsStatus
  | PID_VendorIdentifier | PID_ModelName | PID_FirmwareRevision
  | PID_ApplicationSoftwareVersion | PID_ProtocolVersion | PID_ProtocolRevision
  | PID_ProtocolServicesSupported | PID_ProtocolObjectTypesSupported | PID_ObjectList
  | PID_MaxApduLengthAccepted | PID_SegmentationSupported | PID_ApduTimeout
  | PID_NumberOfApduRetries | PID_MaxMaster | PID_MaxInfoFrames
  | PID_DatabaseRevision | PID_NumberOfStates | PID_StateText
  | PID_Enable | PID_LogInterval | PID_BufferSize
  | PID_RecordCount | PID_TotalRecordCount | PID_StartTime
  | PID_StopTime | PID_StopWhenFull | PID_LogDeviceObjectProperty
  | PID_WeeklySchedule | PID_ScheduleDefault | PID_EffectivePeriod
  | PID_ListOfObjectPropertyReferences | PID_ExceptionSchedule | PID_PropertyList
  | PID_All | PID_Required | PID_Optional
  | PID_Unknown u32

definition pid_from_u32 :: "u32 \<Rightarrow> property_identifier" where
  "pid_from_u32 v =
     (if v = 75 then PID_ObjectIdentifier
      else if v = 77 then PID_ObjectName
      else if v = 79 then PID_ObjectType
      else if v = 28 then PID_Description
      else if v = 168 then PID_ProfileName
      else if v = 85 then PID_PresentValue
      else if v = 111 then PID_StatusFlags
      else if v = 36 then PID_EventState
      else if v = 103 then PID_Reliability
      else if v = 81 then PID_OutOfService
      else if v = 117 then PID_Units
      else if v = 69 then PID_MinPresentValue
      else if v = 65 then PID_MaxPresentValue
      else if v = 22 then PID_CovIncrement
      else if v = 113 then PID_TimeDelay
      else if v = 17 then PID_NotificationClass
      else if v = 45 then PID_HighLimit
      else if v = 59 then PID_LowLimit
      else if v = 25 then PID_Deadband
      else if v = 52 then PID_LimitEnable
      else if v = 35 then PID_EventEnable
      else if v = 0 then PID_AckedTransitions
      else if v = 87 then PID_PriorityArray
      else if v = 104 then PID_RelinquishDefault
      else if v = 74 then PID_NumberOfStates
      else if v = 110 then PID_StateText
      else if v = 133 then PID_Enable
      else if v = 56 then PID_LocalDate
      else if v = 57 then PID_LocalTime
      else if v = 119 then PID_UtcOffset
      else if v = 24 then PID_DaylightSavingsStatus
      else if v = 132 then PID_LogInterval
      else if v = 127 then PID_BufferSize
      else if v = 141 then PID_RecordCount
      else if v = 145 then PID_TotalRecordCount
      else if v = 142 then PID_StartTime
      else if v = 143 then PID_StopTime
      else if v = 144 then PID_StopWhenFull
      else if v = 131 then PID_LogDeviceObjectProperty
      else if v = 123 then PID_WeeklySchedule
      else if v = 174 then PID_ScheduleDefault
      else if v = 32 then PID_EffectivePeriod
      else if v = 54 then PID_ListOfObjectPropertyReferences
      else if v = 38 then PID_ExceptionSchedule
      else if v = 112 then PID_SystemStatus
      else if v = 121 then PID_VendorName
      else if v = 120 then PID_VendorIdentifier
      else if v = 70 then PID_ModelName
      else if v = 44 then PID_FirmwareRevision
      else if v = 12 then PID_ApplicationSoftwareVersion
      else if v = 98 then PID_ProtocolVersion
      else if v = 139 then PID_ProtocolRevision
      else if v = 97 then PID_ProtocolServicesSupported
      else if v = 96 then PID_ProtocolObjectTypesSupported
      else if v = 76 then PID_ObjectList
      else if v = 62 then PID_MaxApduLengthAccepted
      else if v = 107 then PID_SegmentationSupported
      else if v = 11 then PID_ApduTimeout
      else if v = 73 then PID_NumberOfApduRetries
      else if v = 64 then PID_MaxMaster
      else if v = 63 then PID_MaxInfoFrames
      else if v = 155 then PID_DatabaseRevision
      else if v = 371 then PID_PropertyList
      else if v = 8 then PID_All
      else if v = 105 then PID_Required
      else if v = 80 then PID_Optional
      else PID_Unknown v)"

primrec pid_to_u32 :: "property_identifier \<Rightarrow> u32" where
  "pid_to_u32 PID_ObjectIdentifier = 75"
| "pid_to_u32 PID_ObjectName = 77"
| "pid_to_u32 PID_ObjectType = 79"
| "pid_to_u32 PID_Description = 28"
| "pid_to_u32 PID_ProfileName = 168"
| "pid_to_u32 PID_PresentValue = 85"
| "pid_to_u32 PID_StatusFlags = 111"
| "pid_to_u32 PID_EventState = 36"
| "pid_to_u32 PID_Reliability = 103"
| "pid_to_u32 PID_OutOfService = 81"
| "pid_to_u32 PID_Units = 117"
| "pid_to_u32 PID_MinPresentValue = 69"
| "pid_to_u32 PID_MaxPresentValue = 65"
| "pid_to_u32 PID_CovIncrement = 22"
| "pid_to_u32 PID_TimeDelay = 113"
| "pid_to_u32 PID_NotificationClass = 17"
| "pid_to_u32 PID_HighLimit = 45"
| "pid_to_u32 PID_LowLimit = 59"
| "pid_to_u32 PID_Deadband = 25"
| "pid_to_u32 PID_LimitEnable = 52"
| "pid_to_u32 PID_EventEnable = 35"
| "pid_to_u32 PID_AckedTransitions = 0"
| "pid_to_u32 PID_PriorityArray = 87"
| "pid_to_u32 PID_RelinquishDefault = 104"
| "pid_to_u32 PID_NumberOfStates = 74"
| "pid_to_u32 PID_StateText = 110"
| "pid_to_u32 PID_Enable = 133"
| "pid_to_u32 PID_LocalDate = 56"
| "pid_to_u32 PID_LocalTime = 57"
| "pid_to_u32 PID_UtcOffset = 119"
| "pid_to_u32 PID_DaylightSavingsStatus = 24"
| "pid_to_u32 PID_LogInterval = 132"
| "pid_to_u32 PID_BufferSize = 127"
| "pid_to_u32 PID_RecordCount = 141"
| "pid_to_u32 PID_TotalRecordCount = 145"
| "pid_to_u32 PID_StartTime = 142"
| "pid_to_u32 PID_StopTime = 143"
| "pid_to_u32 PID_StopWhenFull = 144"
| "pid_to_u32 PID_LogDeviceObjectProperty = 131"
| "pid_to_u32 PID_WeeklySchedule = 123"
| "pid_to_u32 PID_ScheduleDefault = 174"
| "pid_to_u32 PID_EffectivePeriod = 32"
| "pid_to_u32 PID_ListOfObjectPropertyReferences = 54"
| "pid_to_u32 PID_ExceptionSchedule = 38"
| "pid_to_u32 PID_SystemStatus = 112"
| "pid_to_u32 PID_VendorName = 121"
| "pid_to_u32 PID_VendorIdentifier = 120"
| "pid_to_u32 PID_ModelName = 70"
| "pid_to_u32 PID_FirmwareRevision = 44"
| "pid_to_u32 PID_ApplicationSoftwareVersion = 12"
| "pid_to_u32 PID_ProtocolVersion = 98"
| "pid_to_u32 PID_ProtocolRevision = 139"
| "pid_to_u32 PID_ProtocolServicesSupported = 97"
| "pid_to_u32 PID_ProtocolObjectTypesSupported = 96"
| "pid_to_u32 PID_ObjectList = 76"
| "pid_to_u32 PID_MaxApduLengthAccepted = 62"
| "pid_to_u32 PID_SegmentationSupported = 107"
| "pid_to_u32 PID_ApduTimeout = 11"
| "pid_to_u32 PID_NumberOfApduRetries = 73"
| "pid_to_u32 PID_MaxMaster = 64"
| "pid_to_u32 PID_MaxInfoFrames = 63"
| "pid_to_u32 PID_DatabaseRevision = 155"
| "pid_to_u32 PID_PropertyList = 371"
| "pid_to_u32 PID_All = 8"
| "pid_to_u32 PID_Required = 105"
| "pid_to_u32 PID_Optional = 80"
| "pid_to_u32 (PID_Unknown v) = v"

subsection \<open>Enumerations of property values\<close>

datatype engineering_units =
    EU_NoUnits | EU_DegreesCelsius | EU_DegreesFahrenheit
  | EU_Kelvin | EU_Percent | EU_PoundsPerSquareInch
  | EU_CubicMetersPerSecond | EU_Liters | EU_Watts
  | EU_Kilowatts | EU_Amperes | EU_Volts
  | EU_Hertz | EU_Meters

primrec units_code :: "engineering_units \<Rightarrow> u32" where
  "units_code EU_NoUnits = 95"
| "units_code EU_DegreesCelsius = 62"
| "units_code EU_DegreesFahrenheit = 64"
| "units_code EU_Kelvin = 63"
| "units_code EU_Percent = 98"
| "units_code EU_PoundsPerSquareInch = 6"
| "units_code EU_CubicMetersPerSecond = 19"
| "units_code EU_Liters = 82"
| "units_code EU_Watts = 47"
| "units_code EU_Kilowatts = 48"
| "units_code EU_Amperes = 2"
| "units_code EU_Volts = 5"
| "units_code EU_Hertz = 27"
| "units_code EU_Meters = 31"

datatype event_state =
    ES_Normal | ES_Fault | ES_OffNormal
  | ES_HighLimit | ES_LowLimit | ES_LifeSafetyAlarm

primrec event_state_code :: "event_state \<Rightarrow> u32" where
  "event_state_code ES_Normal = 0"
| "event_state_code ES_Fault = 1"
| "event_state_code ES_OffNormal = 2"
| "event_state_code ES_HighLimit = 3"
| "event_state_code ES_LowLimit = 4"
| "event_state_code ES_LifeSafetyAlarm = 5"

datatype reliability =
    REL_NoFaultDetected | REL_NoSensor | REL_OverRange
  | REL_UnderRange | REL_OpenLoop | REL_ShortedLoop
  | REL_NoOutput | REL_Unreliable | REL_ProcessError
  | REL_MultiStateFault | REL_ConfigurationError | REL_CommunicationFailure
  | REL_MemberFault | REL_MonitoredObjectFault | REL_Tripped
  | REL_LampFailure | REL_ActivationFailure | REL_RenewDhcpFailure
  | REL_RenewFdRegistrationFailure | REL_RestartAutoNegotiationFailure | REL_RestartFailure
  | REL_ProprietaryCommandFailure | REL_FaultsListed | REL_ReferencedObjectFault

primrec reliability_code :: "reliability \<Rightarrow> u32" where
  "reliability_code REL_NoFaultDetected = 0"
| "reliability_code REL_NoSensor = 1"
| "reliability_code REL_OverRange = 2"
| "reliability_code REL_UnderRange = 3"
| "reliability_code REL_OpenLoop = 4"
| "reliability_code REL_ShortedLoop = 5"
| "reliability_code REL_NoOutput = 6"
| "reliability_code REL_Unreliable = 7"
| "reliability_code REL_ProcessError = 8"
| "reliability_code REL_MultiStateFault = 9"
| "reliability_code REL_ConfigurationError = 10"
| "reliability_code REL_CommunicationFailure = 12"
| "reliability_code REL_MemberFault = 13"
| "reliability_code REL_MonitoredObjectFault = 14"
| "reliability_code REL_Tripped = 15"
| "reliability_code REL_LampFailure = 16"
| "reliability_code REL_ActivationFailure = 17"
| "reliability_code REL_RenewDhcpFailure = 18"
| "reliability_code REL_RenewFdRegistrationFailure = 19"
| "reliability_code REL_RestartAutoNegotiationFailure = 20"
| "reliability_code REL_RestartFailure = 21"
| "reliability_code REL_ProprietaryCommandFailure = 22"
| "reliability_code REL_FaultsListed = 23"
| "reliability_code REL_ReferencedObjectFault = 24"

datatype weekday =
    WD_Monday | WD_Tuesday | WD_Wednesday
  | WD_Thursday | WD_Friday | WD_Saturday
  | WD_Sunday | WD_Unspecified

primrec weekday_code :: "weekday \<Rightarrow> u8" where
  "weekday_code WD_Monday = 1"
| "weekday_code WD_Tuesday = 2"
| "weekday_code WD_Wednesday = 3"
| "weekday_code WD_Thursday = 4"
| "weekday_code WD_Friday = 5"
| "weekday_code WD_Saturday = 6"
| "weekday_code WD_Sunday = 7"
| "weekday_code WD_Unspecified = 255"

record status_flags =
  in_alarm :: bool
  fault :: bool
  overridden :: bool
  sf_out_of_service :: bool

definition status_flags_default :: status_flags where
  "status_flags_default =
     \<lparr>in_alarm = False, fault = False, overridden = False, sf_out_of_service = False\<rparr>"

record bacnet_date =
  date_year :: u16
  date_month :: u8
  date_day :: u8
  date_weekday :: weekday

record bacnet_time =
  time_hour :: u8
  time_minute :: u8
  time_second :: u8
  time_hundredths :: u8

record object_id =
  oid_type :: object_type
  oid_instance :: u32

text \<open>\<^verbatim>\<open>DeviceId\<close> is a newtype of \<^verbatim>\<open>u32\<close>; a Rust \<^verbatim>\<open>String\<close> is its UTF-8 bytes.\<close>

type_synonym device_id = u32
type_synonym rstring = bytes

subsection \<open>Property values\<close>

datatype property_value =
    PV_Null
  | PV_Boolean bool
  | PV_Unsigned u32
  | PV_Integer u32
  | PV_Real f32
  | PV_Double f64
  | PV_OctetString bytes
  | PV_CharacterString rstring
  | PV_BitString "bool list"
  | PV_Enumerated u32
  | PV_Date bacnet_date
  | PV_Time bacnet_time
  | PV_ObjectId object_id
  | PV_Array "property_value list"
  | PV_List "property_value list"
  | PV_Any bytes

text \<open>The derived \<^verbatim>\<open>PartialEq\<close>: structural, but floats compare as IEEE numbers.\<close>

fun pv_eq :: "property_value \<Rightarrow> property_value \<Rightarrow> bool"
and pvs_eq :: "property_value list \<Rightarrow> property_value list \<Rightarrow> bool" where
  "pv_eq (PV_Real a) y = (case y of PV_Real b \<Rightarrow> f32_eq a b | _ \<Rightarrow> False)"
| "pv_eq (PV_Double a) y = (case y of PV_Double b \<Rightarrow> f64_eq a b | _ \<Rightarrow> False)"
| "pv_eq (PV_Array a) y = (case y of PV_Array b \<Rightarrow> pvs_eq a b | _ \<Rightarrow> False)"
| "pv_eq (PV_List a) y = (case y of PV_List b \<Rightarrow> pvs_eq a b | _ \<Rightarrow> False)"
| "pv_eq x y \<longleftrightarrow> x = y"
| "pvs_eq [] ys \<longleftrightarrow> ys = []"
| "pvs_eq (x # xs) ys = (case ys of [] \<Rightarrow> False | y # ys' \<Rightarrow> pv_eq x y \<and> pvs_eq xs ys')"

text \<open>\<^verbatim>\<open>PropertyValue::as_f32\<close> and \<^verbatim>\<open>PropertyValue::as_bool\<close>.\<close>

definition as_f32 :: "property_value \<Rightarrow> f32 option" where
  "as_f32 v =
     (case v of
        PV_Real x \<Rightarrow> Some x
      | PV_Double x \<Rightarrow> Some (f32_of_f64 x)
      | PV_Unsigned x \<Rightarrow> Some (f32_of_u32 x)
      | PV_Integer x \<Rightarrow> Some (f32_of_i32 x)
      | _ \<Rightarrow> None)"

definition as_bool :: "property_value \<Rightarrow> bool option" where
  "as_bool v =
     (case v of
        PV_Boolean b \<Rightarrow> Some b
      | PV_Enumerated x \<Rightarrow> Some (x \<noteq> 0)
      | _ \<Rightarrow> None)"

subsection \<open>Errors\<close>

datatype error_class =
    EClass_Device | EClass_Object | EClass_Property | EClass_Resources
  | EClass_Security | EClass_Services | EClass_Vt | EClass_Communication

datatype error_code =
    ECode_UnknownObject | ECode_UnknownProperty | ECode_WriteAccessDenied
  | ECode_InvalidDataType | ECode_ValueOutOfRange | ECode_ServiceRequestDenied
  | ECode_NotConfigured | ECode_Other u32

text \<open>
  The text of a \<^verbatim>\<open>DecodeError\<close> or \<^verbatim>\<open>EncodeError\<close> is only logged, never read, and is left out.
\<close>

datatype bacnet_error =
    UnknownObject | UnknownProperty | WriteAccessDenied | ValueOutOfRange | InvalidDataType
  | DecodeError | EncodeError | UnsupportedService
  | ServiceError error_class error_code

type_synonym 'a bres = "('a, bacnet_error) rres"

subsection \<open>Addresses\<close>

datatype socket_addr_v4 = SocketAddrV4 (sa_ip: u32) (sa_port: u16)

datatype mac_addr = Mac_Ip socket_addr_v4 | Mac_MsTP u8 | Mac_Sc bytes

record network_address =
  na_network_number :: u16
  na_mac :: mac_addr

subsection \<open>The code tables\<close>

lemma ot_code_less: "ot_code t < 64"
  by (cases t) simp_all

lemma object_type_from_u16_code: "object_type_from_u16 v = Some t \<Longrightarrow> ot_code t = ucast v"
  by (auto simp: object_type_from_u16_def split: if_splits)

text \<open>The object types the decoder knows.\<close>

definition known_type :: "object_type \<Rightarrow> bool" where
  "known_type t \<longleftrightarrow> object_type_from_u16 (ucast (ot_code t)) \<noteq> None"

lemma object_type_from_u16_known [simp]:
  "known_type t \<Longrightarrow> object_type_from_u16 (ucast (ot_code t)) = Some t"
  by (cases t) (simp_all add: known_type_def object_type_from_u16_def)

lemma pid_to_from_u32 [simp]: "pid_to_u32 (pid_from_u32 v) = v"
  by (simp add: pid_from_u32_def)

text \<open>
  \<^verbatim>\<open>to_u32\<close> is injective only up to \<^verbatim>\<open>Unknown\<close>: a \<^verbatim>\<open>PropertyIdentifier\<close> is canonical when it
  is not an \<^verbatim>\<open>Unknown\<close> that carries a standard number.
\<close>

definition pid_canonical :: "property_identifier \<Rightarrow> bool" where
  "pid_canonical p \<longleftrightarrow> pid_from_u32 (pid_to_u32 p) = p"

lemma pid_from_to_u32 [simp]: "pid_canonical p \<Longrightarrow> pid_from_u32 (pid_to_u32 p) = p"
  by (simp add: pid_canonical_def)

lemma pid_canonical_known [simp]: "(\<And>v. p \<noteq> PID_Unknown v) \<Longrightarrow> pid_canonical p"
  by (cases p) (simp_all add: pid_canonical_def pid_from_u32_def)

lemma pid_from_u32_canonical [simp]: "pid_canonical (pid_from_u32 v)"
  by (simp add: pid_canonical_def)

end
