(* ===== verification/Codec_Laws.thy ===== *)
theory Codec_Laws
  imports Bacnet_Types
begin

text \<open>
  The two interfaces of the codecs.  \<open>wire_codec\<close> is the contract between an encoder that
  appends to a buffer and a decoder that reads at a position and advances it (the TLV
  functions of \<^verbatim>\<open>tags.rs\<close>); \<open>frame_codec\<close> is the contract of a whole-buffer codec (the frames
  and PDUs of \<^verbatim>\<open>bacnet-codec\<close>).  What the clients need follows from the laws once.
\<close>

locale wire_codec =
  fixes enc :: "'a \<Rightarrow> bytes"
    and dec :: "bytes \<Rightarrow> nat \<Rightarrow> ('a \<times> nat) bres"
    and ok :: "'a \<Rightarrow> bool"
  assumes dec_enc: "ok x \<Longrightarrow> dec (pre @ enc x @ post) (length pre) = Ok (x, length pre + length (enc x))"
begin

lemma dec_enc_start: "ok x \<Longrightarrow> dec (enc x @ post) 0 = Ok (x, length (enc x))"
  using dec_enc [of x "[]" post] by simp

lemma dec_enc_at:
  assumes "ok x" and "pos = length pre"
  shows "dec (pre @ enc x @ post) pos = Ok (x, pos + length (enc x))"
  using assms dec_enc by simp

text \<open>No encoding is a proper prefix of another: a stream of values parses one way only.\<close>

lemma prefix_free:
  assumes "ok x" and "ok y" and "enc x @ r = enc y @ s"
  shows "x = y \<and> r = s"
proof -
  have "Ok (x, length (enc x)) = dec (enc y @ s) 0"
    using dec_enc_start [OF assms(1), of r] assms(3) by simp
  also have "\<dots> = Ok (y, length (enc y))"
    using assms(2) by (rule dec_enc_start)
  finally have "x = y" by simp
  with assms(3) show ?thesis by simp
qed

lemma enc_inject: "ok x \<Longrightarrow> ok y \<Longrightarrow> enc x = enc y \<Longrightarrow> x = y"
  using prefix_free [of x y "[]" "[]"] by simp

lemma enc_stream_inject:
  assumes "\<forall>x \<in> set xs. ok x" and "\<forall>y \<in> set ys. ok y" and "length xs = length ys"
    and "concat (map enc xs) @ r = concat (map enc ys) @ s"
  shows "xs = ys \<and> r = s"
  using assms(3, 1, 2, 4)
proof (induction xs ys rule: list_induct2)
  case (Cons x xs y ys)
  have "x = y \<and> concat (map enc xs) @ r = concat (map enc ys) @ s"
    using Cons.prems by (intro prefix_free) auto
  with Cons show ?case by simp
qed simp

end

text \<open>
  Decoders do not look before their position: on \<open>pre @ xs\<close> at \<open>length pre + k\<close> they do what
  they do on \<open>xs\<close> at \<open>k\<close>, \<open>shift\<close>ed by \<open>length pre\<close>.  So a law need only be checked at
  position 0, where the buffer is a concrete list and the decoder computes.
\<close>

definition shift :: "nat \<Rightarrow> ('a \<times> nat) bres \<Rightarrow> ('a \<times> nat) bres" where
  "shift n r = rbind r (\<lambda>(v, p). Ok (v, n + p))"

lemma shift_simps [simp]:
  "shift n (Ok (v, p)) = Ok (v, n + p)" "shift n (Err e) = Err e" "shift n Panic = Panic"
  by (simp_all add: shift_def)

lemma shift_if: "shift n (if b then x else y) = (if b then shift n x else shift n y)"
  by simp

lemma rbind_shift: "rbind (shift n r) f = rbind r (\<lambda>(v, p). f (v, n + p))"
  by (cases r) auto

lemma shift_rbind: "shift n (rbind r f) = rbind r (\<lambda>x. shift n (f x))"
  by (cases r) auto

lemma peek_shift: "peek (pre @ xs) (length pre + k) = peek xs k"
  by (simp add: peek_def)

lemma index_shift: "index (pre @ xs) (length pre + k) = index xs k"
  by (simp add: index_def)

lemma slice_shift: "slice (pre @ xs) (length pre + a) (length pre + b) = slice xs a b"
  by (auto simp: slice_def)

lemmas shift_base =
  peek_shift index_shift slice_shift shift_if rbind_shift shift_rbind add.assoc case_prod_unfold

lemma wire_codecI:
  assumes shift: "\<And>pre xs. dec (pre @ xs) (length pre + 0) = shift (length pre) (dec xs 0)"
    and start: "\<And>x post. ok x \<Longrightarrow> dec (enc x @ post) 0 = Ok (x, length (enc x))"
  shows "wire_codec enc dec ok"
  by unfold_locales (use shift start in simp)

locale frame_codec =
  fixes enc :: "'a \<Rightarrow> bytes"
    and dec :: "bytes \<Rightarrow> ('a, 'e) rres"
    and ok :: "'a \<Rightarrow> bool"
  assumes dec_enc: "ok x \<Longrightarrow> dec (enc x) = Ok x"
begin

lemma enc_inject: "ok x \<Longrightarrow> ok y \<Longrightarrow> enc x = enc y \<Longrightarrow> x = y"
  by (metis dec_enc rres.inject(1))

lemma dec_onto: "ok x \<Longrightarrow> \<exists>bs. dec bs = Ok x"
  using dec_enc by blast

end

end
