(* ===== verification/Npdu.thy ===== *)
theory Npdu
  imports Codec_Laws
begin

text \<open>
  \<^verbatim>\<open>crates/bacnet-codec/src/npdu.rs\<close>: the network-layer header between the BVLL frame and the
  APDU.  The code only encodes the local form; the layout of clause 6.2 with routed addresses
  (\<open>npdu_wire\<close>) is the reference the decoder is checked against.
\<close>

record npdu_control =
  network_message :: bool
  destination_specifier :: bool
  source_specifier :: bool
  npdu_expecting_reply :: bool
  npdu_priority :: u8

record npdu_address =
  npdu_network :: u16
  npdu_mac :: bytes

record npdu =
  npdu_version :: u8
  npdu_ctrl :: npdu_control
  npdu_destination :: "npdu_address option"
  npdu_source :: "npdu_address option"
  npdu_hop_count :: "u8 option"
  npdu_apdu :: bytes

definition npdu_encode_local :: "bool \<Rightarrow> bytes \<Rightarrow> bytes" where
  "npdu_encode_local expecting_reply apdu = [0x01, if expecting_reply then 0x04 else 0x00] @ apdu"

definition npdu_control_of_byte :: "u8 \<Rightarrow> npdu_control" where
  "npdu_control_of_byte ctrl_byte =
     \<lparr>network_message = (ctrl_byte AND 0x80 \<noteq> 0),
      destination_specifier = (ctrl_byte AND 0x20 \<noteq> 0),
      source_specifier = (ctrl_byte AND 0x08 \<noteq> 0),
      npdu_expecting_reply = (ctrl_byte AND 0x04 \<noteq> 0),
      npdu_priority = ctrl_byte AND 0x03\<rparr>"

text \<open>
  The two address blocks run the same code; the slice \<^verbatim>\<open>&buf[pos..pos + dlen]\<close> is not guarded by
  a length test.
\<close>

definition decode_npdu_address :: "bytes \<Rightarrow> nat \<Rightarrow> (npdu_address \<times> nat) bres" where
  "decode_npdu_address buf pos =
     (if length buf < pos + 3 then Err DecodeError
      else rbind (index buf pos) (\<lambda>a. rbind (index buf (pos + 1)) (\<lambda>b.
        rbind (index buf (pos + 2)) (\<lambda>dlen.
        rbind (slice buf (pos + 3) (pos + 3 + unat dlen)) (\<lambda>mac.
          Ok (\<lparr>npdu_network = u16_from_be a b, npdu_mac = mac\<rparr>, pos + 3 + unat dlen))))))"

definition decode_npdu_optional :: "bool \<Rightarrow> bytes \<Rightarrow> nat \<Rightarrow> (npdu_address option \<times> nat) bres" where
  "decode_npdu_optional present buf pos =
     (if present then rbind (decode_npdu_address buf pos) (\<lambda>(a, p). Ok (Some a, p))
      else Ok (None, pos))"

definition decode_npdu_hops :: "bool \<Rightarrow> bytes \<Rightarrow> nat \<Rightarrow> (u8 option \<times> nat) bres" where
  "decode_npdu_hops present buf pos =
     (if present then
        (if length buf \<le> pos then Err DecodeError
         else rbind (index buf pos) (\<lambda>h. Ok (Some h, pos + 1)))
      else Ok (None, pos))"

definition npdu_decode :: "bytes \<Rightarrow> npdu bres" where
  "npdu_decode buf =
     (if length buf < 2 then Err DecodeError
      else rbind (index buf 0) (\<lambda>version.
        if version \<noteq> 0x01 then Err DecodeError
        else rbind (index buf 1) (\<lambda>ctrl_byte.
          let control = npdu_control_of_byte ctrl_byte in
          rbind (decode_npdu_optional (destination_specifier control) buf 2) (\<lambda>(destination, pos).
          rbind (decode_npdu_optional (source_specifier control) buf pos) (\<lambda>(source, pos).
          rbind (decode_npdu_hops (destination_specifier control) buf pos) (\<lambda>(hop_count, pos).
          rbind (slice buf pos (length buf)) (\<lambda>apdu.
            Ok \<lparr>npdu_version = version, npdu_ctrl = control, npdu_destination = destination,
                npdu_source = source, npdu_hop_count = hop_count, npdu_apdu = apdu\<rparr>)))))))"

subsection \<open>The layout of clause 6.2\<close>

definition flag :: "bool \<Rightarrow> u8 \<Rightarrow> u8" where
  "flag b m = (if b then m else 0)"

definition npdu_ctrl_byte :: "npdu_control \<Rightarrow> u8" where
  "npdu_ctrl_byte c = flag (network_message c) 0x80 OR flag (destination_specifier c) 0x20
     OR flag (source_specifier c) 0x08 OR flag (npdu_expecting_reply c) 0x04 OR npdu_priority c"

definition npdu_address_wire :: "npdu_address \<Rightarrow> bytes" where
  "npdu_address_wire a = u16_to_be (npdu_network a) @ [of_nat (length (npdu_mac a))] @ npdu_mac a"

definition option_wire :: "('a \<Rightarrow> bytes) \<Rightarrow> 'a option \<Rightarrow> bytes" where
  "option_wire f x = (case x of None \<Rightarrow> [] | Some a \<Rightarrow> f a)"

definition npdu_wire :: "npdu \<Rightarrow> bytes" where
  "npdu_wire n = [npdu_version n, npdu_ctrl_byte (npdu_ctrl n)]
     @ option_wire npdu_address_wire (npdu_destination n)
     @ option_wire npdu_address_wire (npdu_source n)
     @ option_wire (\<lambda>h. [h]) (npdu_hop_count n) @ npdu_apdu n"

definition npdu_ok :: "npdu \<Rightarrow> bool" where
  "npdu_ok n \<longleftrightarrow> npdu_version n = 1 \<and> npdu_priority (npdu_ctrl n) < 4
     \<and> (destination_specifier (npdu_ctrl n) \<longleftrightarrow> npdu_destination n \<noteq> None)
     \<and> (destination_specifier (npdu_ctrl n) \<longleftrightarrow> npdu_hop_count n \<noteq> None)
     \<and> (source_specifier (npdu_ctrl n) \<longleftrightarrow> npdu_source n \<noteq> None)
     \<and> (case npdu_destination n of None \<Rightarrow> True | Some a \<Rightarrow> length (npdu_mac a) \<le> 255)
     \<and> (case npdu_source n of None \<Rightarrow> True | Some a \<Rightarrow> length (npdu_mac a) \<le> 255)"

definition local_npdu :: "bool \<Rightarrow> bytes \<Rightarrow> npdu" where
  "local_npdu expecting_reply apdu =
     \<lparr>npdu_version = 1,
      npdu_ctrl = \<lparr>network_message = False, destination_specifier = False,
        source_specifier = False, npdu_expecting_reply = expecting_reply, npdu_priority = 0\<rparr>,
      npdu_destination = None, npdu_source = None, npdu_hop_count = None, npdu_apdu = apdu\<rparr>"

subsection \<open>The decoder inverts the layout\<close>

lemma less_4_cases: "p < 4 \<Longrightarrow> p = 0 \<or> p = 1 \<or> p = 2 \<or> p = (3::u8)"
proof -
  assume "p < 4"
  then have "unat p < 4" by (simp add: word_less_nat_alt)
  then have "unat p = 0 \<or> unat p = 1 \<or> unat p = 2 \<or> unat p = 3" by arith
  then show ?thesis by (auto simp: word_unat_eq_iff)
qed

lemma npdu_control_roundtrip:
  assumes "npdu_priority c < 4"
  shows "npdu_control_of_byte (npdu_ctrl_byte c) = c"
  using less_4_cases [OF assms]
  by (cases c) (auto simp: npdu_control_of_byte_def npdu_ctrl_byte_def flag_def)

lemma decode_npdu_address_at:
  assumes "length (npdu_mac a) \<le> 255"
  shows "decode_npdu_address (pre @ npdu_address_wire a @ post) (length pre) =
    Ok (a, length pre + length (npdu_address_wire a))"
proof -
  have "unat (of_nat (length (npdu_mac a)) :: u8) = length (npdu_mac a)"
    using assms by (simp add: unat_of_nat)
  then show ?thesis
    by (simp add: decode_npdu_address_def npdu_address_wire_def u16_to_be_def index_def slice_def
        nth_append)
qed

lemma npdu_encode_local_wire: "npdu_encode_local e apdu = npdu_wire (local_npdu e apdu)"
  by (simp add: npdu_encode_local_def npdu_wire_def local_npdu_def option_wire_def
      npdu_ctrl_byte_def flag_def)

lemma npdu_ok_local: "npdu_ok (local_npdu e apdu)"
  by (simp add: npdu_ok_def local_npdu_def)

interpretation npdu_addr: wire_codec npdu_address_wire decode_npdu_address
    "\<lambda>a. length (npdu_mac a) \<le> 255"
  by unfold_locales (rule decode_npdu_address_at)

lemma decode_npdu_optional_at:
  assumes "pos = length pre" and "case x of None \<Rightarrow> True | Some a \<Rightarrow> length (npdu_mac a) \<le> 255"
  shows "decode_npdu_optional (x \<noteq> None) (pre @ option_wire npdu_address_wire x @ post) pos =
    Ok (x, pos + length (option_wire npdu_address_wire x))"
  using assms npdu_addr.dec_enc_at
  by (cases x) (simp_all add: decode_npdu_optional_def option_wire_def)

lemma decode_npdu_hops_at:
  assumes "pos = length pre"
  shows "decode_npdu_hops (x \<noteq> None) (pre @ option_wire (\<lambda>h. [h]) x @ post) pos =
    Ok (x, pos + length (option_wire (\<lambda>h. [h]) x))"
  using assms by (cases x) (simp_all add: decode_npdu_hops_def option_wire_def)

lemma npdu_decode_wire:
  assumes "npdu_ok n"
  shows "npdu_decode (npdu_wire n) = Ok n"
proof -
  let ?h = "[npdu_version n, npdu_ctrl_byte (npdu_ctrl n)]"
  let ?d = "option_wire npdu_address_wire (npdu_destination n)"
  let ?s = "option_wire npdu_address_wire (npdu_source n)"
  let ?c = "option_wire (\<lambda>h. [h]) (npdu_hop_count n)"
  have c: "npdu_control_of_byte (npdu_ctrl_byte (npdu_ctrl n)) = npdu_ctrl n"
    using assms by (simp add: npdu_ok_def npdu_control_roundtrip)
  have d: "decode_npdu_optional (destination_specifier (npdu_ctrl n)) (npdu_wire n) 2 =
      Ok (npdu_destination n, 2 + length ?d)"
    using assms decode_npdu_optional_at [of 2 ?h "npdu_destination n" "?s @ ?c @ npdu_apdu n"]
    by (simp add: npdu_ok_def npdu_wire_def)
  have s: "decode_npdu_optional (source_specifier (npdu_ctrl n)) (npdu_wire n) (2 + length ?d) =
      Ok (npdu_source n, 2 + length ?d + length ?s)"
    using assms decode_npdu_optional_at [of "2 + length ?d" "?h @ ?d" "npdu_source n" "?c @ npdu_apdu n"]
    by (simp add: npdu_ok_def npdu_wire_def)
  have h: "decode_npdu_hops (destination_specifier (npdu_ctrl n)) (npdu_wire n)
      (2 + length ?d + length ?s) = Ok (npdu_hop_count n, 2 + length ?d + length ?s + length ?c)"
    using decode_npdu_hops_at [of "2 + length ?d + length ?s" "?h @ ?d @ ?s" "npdu_hop_count n" "npdu_apdu n"]
      conjunct1 [OF conjunct2 [OF conjunct2 [OF conjunct2 [OF assms [unfolded npdu_ok_def]]]]]
    by (simp add: npdu_wire_def del: not_None_eq)
  have i: "length (npdu_wire n) = 2 + length ?d + length ?s + length ?c + length (npdu_apdu n)"
      "npdu_wire n ! 0 = 1" "npdu_wire n ! 1 = npdu_ctrl_byte (npdu_ctrl n)"
      "drop (2 + length ?d + length ?s + length ?c) (npdu_wire n) = npdu_apdu n"
    using assms by (simp_all add: npdu_wire_def npdu_ok_def)
  show ?thesis
    using assms d s h i by (simp add: npdu_decode_def Let_def c npdu_ok_def)
qed

interpretation npdu_frame: frame_codec npdu_wire npdu_decode npdu_ok
  by unfold_locales (rule npdu_decode_wire)

subsection \<open>Where the decoder panics\<close>

lemma decode_npdu_address_eq_Panic:
  "decode_npdu_address buf pos = Panic \<longleftrightarrow>
     pos + 3 \<le> length buf \<and> length buf < pos + 3 + unat (buf ! (pos + 2))"
  by (auto simp: decode_npdu_address_def slice_eq_Panic rbind_eq_Panic)

lemma decode_npdu_hops_no_panic [no_panic]: "decode_npdu_hops p buf pos \<noteq> Panic"
  by (simp add: decode_npdu_hops_def)

lemma decode_npdu_optional_bounds:
  "decode_npdu_optional p buf pos = Ok (x, q) \<Longrightarrow> pos \<le> length buf \<Longrightarrow> pos \<le> q \<and> q \<le> length buf"
  by (auto simp: decode_npdu_optional_def decode_npdu_address_def rbind_eq_Ok slice_eq_Ok
      split: if_splits)

lemma decode_npdu_hops_bounds:
  "decode_npdu_hops p buf pos = Ok (x, q) \<Longrightarrow> pos \<le> length buf \<Longrightarrow> pos \<le> q \<and> q \<le> length buf"
  by (auto simp: decode_npdu_hops_def split: if_splits)

text \<open>An address block is cut when its length byte promises more than the buffer holds.\<close>

definition cut_address :: "bytes \<Rightarrow> nat \<Rightarrow> bool" where
  "cut_address buf pos \<longleftrightarrow>
     pos + 3 \<le> length buf \<and> length buf < pos + 3 + unat (buf ! (pos + 2))"

lemma decode_npdu_optional_eq_Panic:
  "decode_npdu_optional p buf pos = Panic \<longleftrightarrow> p \<and> cut_address buf pos"
  by (simp add: decode_npdu_optional_def rbind_eq_Panic decode_npdu_address_eq_Panic cut_address_def
      case_prod_unfold)

lemma decode_npdu_optional_pos:
  "decode_npdu_optional p buf pos = Ok (x, q) \<Longrightarrow>
     q = (if p then pos + 3 + unat (buf ! (pos + 2)) else pos)"
  by (auto simp: decode_npdu_optional_def decode_npdu_address_def rbind_eq_Ok split: if_splits)

definition source_pos :: "bytes \<Rightarrow> nat" where
  "source_pos buf =
     (if destination_specifier (npdu_control_of_byte (buf ! 1)) then 5 + unat (buf ! 4) else 2)"

lemma npdu_decode_eq_Panic:
  "npdu_decode buf = Panic \<longleftrightarrow>
     2 \<le> length buf \<and> buf ! 0 = 1 \<and>
     (destination_specifier (npdu_control_of_byte (buf ! 1)) \<and> cut_address buf 2
      \<or> source_specifier (npdu_control_of_byte (buf ! 1)) \<and> cut_address buf (source_pos buf))"
  (is "_ \<longleftrightarrow> _ \<and> _ \<and> (?D \<and> _ \<or> ?S \<and> _)")
proof (cases "2 \<le> length buf \<and> buf ! 0 = 1")
  case True
  then have ne: "(index buf 0 :: u8 bres) = Ok 1" by (auto simp: index_def)
  note dec = True
  show ?thesis
  proof (cases "decode_npdu_optional ?D buf 2")
    case (Ok r)
    obtain d p where r: "r = (d, p)" by (cases r)
    have p: "p = source_pos buf" "2 \<le> p" "p \<le> length buf"
      using decode_npdu_optional_pos [OF Ok [unfolded r]] decode_npdu_optional_bounds [OF Ok [unfolded r]] dec
      by (simp_all add: source_pos_def)
    have nd: "\<not> (?D \<and> cut_address buf 2)"
      using Ok decode_npdu_optional_eq_Panic [of ?D buf 2] by simp
    have "npdu_decode buf = Panic \<longleftrightarrow> decode_npdu_optional ?S buf p = Panic"
      using dec Ok r p(3) ne
      by (auto simp: npdu_decode_def Let_def rbind_eq_Panic no_panic slice_eq_Panic
          dest: decode_npdu_hops_bounds decode_npdu_optional_bounds)
    then show ?thesis using dec nd p by (auto simp: decode_npdu_optional_eq_Panic)
  next
    case (Err e)
    then have "\<not> (?D \<and> cut_address buf 2)" "?D" "length buf < 5"
      using decode_npdu_optional_eq_Panic [of ?D buf 2]
      by (auto simp: decode_npdu_optional_def decode_npdu_address_def slice_def split: if_splits)
    then show ?thesis
      using dec Err ne by (auto simp: npdu_decode_def Let_def cut_address_def source_pos_def)
  next
    case Panic
    then show ?thesis
      using dec ne decode_npdu_optional_eq_Panic [of ?D buf 2] by (simp add: npdu_decode_def Let_def)
  qed
qed (auto simp: npdu_decode_def index_def)

subsection \<open>Properties\<close>

text \<open>
  An NPDU header with its optional addresses and hop count, laid out as clause 6.2 orders
  them, is decoded field by field as it was, with the rest of the frame as its APDU; in
  particular the frame of \<^verbatim>\<open>encode_local\<close> gives back the APDU it was given.
\<close>

theorem npdu_roundtrip:
  assumes "npdu_ok n"
  shows "npdu_decode (npdu_wire n) = Ok n \<and>
    npdu_decode (npdu_encode_local reply apdu) = Ok (local_npdu reply apdu)"
  using assms npdu_ok_local by (simp add: npdu_frame.dec_enc npdu_encode_local_wire)

theorem npdu_roundtrip_witness:
  "let n = \<lparr>npdu_version = 1,
     npdu_ctrl = \<lparr>network_message = False, destination_specifier = True, source_specifier = True,
       npdu_expecting_reply = True, npdu_priority = 2\<rparr>,
     npdu_destination = Some \<lparr>npdu_network = 7, npdu_mac = [1, 2]\<rparr>,
     npdu_source = Some \<lparr>npdu_network = 9, npdu_mac = []\<rparr>, npdu_hop_count = Some 255,
     npdu_apdu = [0x10, 0x08]\<rparr>
   in npdu_decode (npdu_wire n) = Ok n"
  unfolding Let_def by (rule npdu_roundtrip [THEN conjunct1]) (simp add: npdu_ok_def)

text \<open>
  The NPDU decoder does not check the length octets of its addresses: it panics exactly where
  the length octet of a destination or source address is present and counts more bytes than
  follow it.
\<close>

theorem npdu_decoder_panics:
  "npdu_decode buf = Panic \<longleftrightarrow>
     2 \<le> length buf \<and> buf ! 0 = 1 \<and>
     (destination_specifier (npdu_control_of_byte (buf ! 1)) \<and> cut_address buf 2
      \<or> source_specifier (npdu_control_of_byte (buf ! 1)) \<and> cut_address buf (source_pos buf))"
  by (rule npdu_decode_eq_Panic)

end
