(* ===== verification/Hash_Map.thy ===== *)
theory Hash_Map
  imports Prelude
begin

text \<open>
  \<^verbatim>\<open>HashMap\<close> and \<^verbatim>\<open>DashMap\<close>: the list of the entries in the order an iteration would visit
  them.  That order is unspecified in Rust, so nothing may depend on it but what iterates; lookups
  go through \<^const>\<open>map_of\<close>, whose laws are the library's.
\<close>

fun hm_insert :: "'k \<Rightarrow> 'v \<Rightarrow> ('k \<times> 'v) list \<Rightarrow> ('k \<times> 'v) list" where
  "hm_insert k v [] = [(k, v)]"
| "hm_insert k v (p # m) = (if k = fst p then (k, v) # m else p # hm_insert k v m)"

definition hm_remove :: "'k \<Rightarrow> ('k \<times> 'v) list \<Rightarrow> ('k \<times> 'v) list" where
  "hm_remove k m = filter (\<lambda>p. fst p \<noteq> k) m"

definition hm_wf :: "('k \<times> 'v) list \<Rightarrow> bool" where
  "hm_wf m \<longleftrightarrow> distinct (map fst m)"

lemma map_of_hm_insert [simp]: "map_of (hm_insert k v m) = (map_of m)(k \<mapsto> v)"
  by (induction m) (auto simp: fun_eq_iff)

lemma map_of_hm_remove [simp]: "map_of (hm_remove k m) = (map_of m)(k := None)"
  by (induction m) (auto simp: hm_remove_def fun_eq_iff)

lemma keys_hm_insert: "fst ` set (hm_insert k v m) = insert k (fst ` set m)"
  by (induction m) (auto split: if_splits)

lemma hm_wf_insert [simp]: "hm_wf m \<Longrightarrow> hm_wf (hm_insert k v m)"
proof (induction m)
  case (Cons p m)
  have "set (map fst (hm_insert k v m)) = insert k (set (map fst m))"
    using keys_hm_insert [of k v m] by simp
  with Cons show ?case by (auto simp: hm_wf_def)
qed (simp add: hm_wf_def)

lemma hm_wf_remove [simp]: "hm_wf m \<Longrightarrow> hm_wf (hm_remove k m)"
  by (induction m) (auto simp: hm_wf_def hm_remove_def)

lemma hm_wf_Nil [simp]: "hm_wf []"
  by (simp add: hm_wf_def)

lemma set_hm_insert: "set (hm_insert k v m) \<subseteq> insert (k, v) (set m)"
  by (induction m) (auto split: if_splits)

lemma length_hm_insert: "length (hm_insert k v m) = length m + (if map_of m k = None then 1 else 0)"
  by (induction m) auto

lemma map_of_in_set: "hm_wf m \<Longrightarrow> map_of m k = Some v \<longleftrightarrow> (k, v) \<in> set m"
  by (simp add: hm_wf_def)

end
