(* ===== verification/Router.thy ===== *)
theory Router
  imports Npdu Hash_Map "HOL-Library.Multiset"
begin

text \<open>
  \<^verbatim>\<open>crates/bacnet-stack/src/router.rs\<close>: the NPDU routing table and the decision it takes for an
  NPDU.  Acting on a decision (decrementing the hop count, handing the NPDU to a port) is left to
  the caller, which the repository does not have, so nothing here models it.
\<close>

type_synonym port_id = u32

datatype drop_reason = HopCountExceeded | NoRoute | LoopDetected

datatype routing_decision =
    LocalDeliver
  | Forward network_address bool
  | Broadcast_Networks "u16 list"
  | Drop_Npdu drop_reason

record npdu_router =
  routing_table :: "(u16 \<times> (port_id \<times> u8)) list"
  local_network :: u16

definition router_new :: "u16 \<Rightarrow> npdu_router" where
  "router_new l = \<lparr>routing_table = [], local_network = l\<rparr>"

definition add_route :: "u16 \<Rightarrow> port_id \<Rightarrow> u8 \<Rightarrow> npdu_router \<Rightarrow> npdu_router" where
  "add_route network port hop_count r =
     r\<lparr>routing_table := hm_insert network (port, hop_count) (routing_table r)\<rparr>"

definition route :: "npdu_router \<Rightarrow> npdu \<Rightarrow> port_id \<Rightarrow> (port_id \<times> routing_decision) list" where
  "route r n incoming =
     (case npdu_destination n of
        Some dst \<Rightarrow>
          if npdu_network dst = 0xFFFF
          then map (\<lambda>(_, port, _). (port, Broadcast_Networks [])) (routing_table r)
          else if npdu_network dst = local_network r \<or> npdu_network dst = 0
          then [(0, LocalDeliver)]
          else if npdu_hop_count n = Some 0
          then [(0, Drop_Npdu HopCountExceeded)]
          else
            (case map_of (routing_table r) (npdu_network dst) of
               Some (port, _) \<Rightarrow>
                 [(port, Forward
                    \<lparr>na_network_number = npdu_network dst,
                     na_mac = Mac_MsTP (case npdu_mac dst of [] \<Rightarrow> 0 | b # _ \<Rightarrow> b)\<rparr> True)]
             | None \<Rightarrow> [(0, Drop_Npdu NoRoute)])
      | None \<Rightarrow> [(0, LocalDeliver)])"

subsection \<open>Routing tables\<close>

text \<open>
  The specification: a router's routes as the plain list of those added, oldest first; for a
  network the last one counts.
\<close>

definition add_routes :: "(u16 \<times> port_id \<times> u8) list \<Rightarrow> npdu_router \<Rightarrow> npdu_router" where
  "add_routes rs r = fold (\<lambda>(network, port, hops). add_route network port hops) rs r"

definition last_route :: "(u16 \<times> port_id \<times> u8) list \<Rightarrow> u16 \<Rightarrow> port_id option" where
  "last_route rs network = map_option fst (map_of (rev rs) network)"

lemma add_routes_snoc [simp]:
  "add_routes [] r = r"
  "add_routes (rs @ [(network, port, hops)]) r = add_route network port hops (add_routes rs r)"
  by (simp_all add: add_routes_def)

lemma add_route_fields [simp]:
  "local_network (add_route network port hops r) = local_network r"
  "routing_table (add_route network port hops r) = hm_insert network (port, hops) (routing_table r)"
  by (simp_all add: add_route_def)

lemma routing_table_spec:
  "local_network (add_routes rs (router_new l)) = l"
  "hm_wf (routing_table (add_routes rs (router_new l)))"
  "map_of (routing_table (add_routes rs (router_new l))) = map_of (rev rs)"
  "fst ` set (routing_table (add_routes rs (router_new l))) = fst ` set rs"
proof (induction rs rule: rev_induct)
  case Nil
  { case 1 show ?case by (simp add: router_new_def) }
  { case 2 show ?case by (simp add: router_new_def) }
  { case 3 show ?case by (simp add: router_new_def) }
  { case 4 show ?case by (simp add: router_new_def) }
next
  case (snoc x rs)
  obtain network port hops where x: "x = (network, port, hops)" by (cases x)
  { case 1 show ?case using snoc by (simp add: x) }
  { case 2 show ?case using snoc by (simp add: x) }
  { case 3 show ?case using snoc by (simp add: x) }
  { case 4 show ?case using snoc by (simp add: x keys_hm_insert) }
qed

lemma mset_table:
  assumes "hm_wf t"
  shows "mset t = image_mset (\<lambda>k. (k, the (map_of t k))) (mset_set (fst ` set t))"
  using assms
proof (induction t)
  case (Cons p t)
  then have t: "hm_wf t" "fst p \<notin> fst ` set t" by (auto simp: hm_wf_def)
  have "image_mset (\<lambda>k. (k, the (map_of (p # t) k))) (mset_set (fst ` set t)) =
      image_mset (\<lambda>k. (k, the (map_of t k))) (mset_set (fst ` set t))"
  proof (rule image_mset_cong)
    fix k
    assume "k \<in># mset_set (fst ` set t)"
    then have "k \<in> fst ` set t" by simp
    then have "k \<noteq> fst p" using t(2) by blast
    then show "(k, the (map_of (p # t) k)) = (k, the (map_of t k))" by simp
  qed
  with Cons.IH [OF t(1)] t(2) show ?case by simp
qed simp

text \<open>A destination carries a hop count: what the decoder establishes.\<close>

lemma npdu_decode_hop_counted:
  "npdu_decode bs = Ok n \<Longrightarrow> npdu_destination n \<noteq> None \<Longrightarrow> npdu_hop_count n \<noteq> None"
  by (auto simp: npdu_decode_def decode_npdu_optional_def decode_npdu_hops_def
      Let_def rbind_eq_Ok split: if_splits)

lemma route_known:
  assumes "npdu_destination n = Some dst" and "npdu_network dst \<notin> {0, 0xFFFF, local_network r}"
    and "npdu_hop_count n \<noteq> Some 0"
  shows "route r n incoming =
    (case map_of (routing_table r) (npdu_network dst) of
       Some (port, _) \<Rightarrow> [(port, Forward \<lparr>na_network_number = npdu_network dst,
           na_mac = Mac_MsTP (case npdu_mac dst of [] \<Rightarrow> 0 | b # _ \<Rightarrow> b)\<rparr> True)]
     | None \<Rightarrow> [(0, Drop_Npdu NoRoute)])"
  using assms by (simp add: route_def)

subsection \<open>Properties\<close>

text \<open>
  C25. What a router decides for an NPDU that arrived over the wire, from the routes added to it
  alone, whatever their order in its hash map and whatever port the NPDU came in on.  Without a
  destination, or with one on the router's own network or network 0, it is delivered locally.  A
  global broadcast goes once, as a broadcast, to the port of every network with a route, with no
  regard to its hop count or to where it came from.  Any other NPDU carries a hop count: with the
  count at 0 it is dropped for that; otherwise it leaves by the last route added for its network,
  asking for the count to be decremented, and is dropped as having no route if there is none.
\<close>

theorem route_decision:
  assumes "npdu_decode bs = Ok n" and "r = add_routes rs (router_new l)"
  shows "case npdu_destination n of
      None \<Rightarrow> route r n incoming = [(0, LocalDeliver)]
    | Some dst \<Rightarrow>
        if npdu_network dst = 0xFFFF
        then mset (route r n incoming) =
          image_mset (\<lambda>network. (the (last_route rs network), Broadcast_Networks []))
            (mset_set (fst ` set rs))
        else if npdu_network dst \<in> {0, l} then route r n incoming = [(0, LocalDeliver)]
        else \<exists>hops. npdu_hop_count n = Some hops \<and> route r n incoming =
          (if hops = 0 then [(0, Drop_Npdu HopCountExceeded)]
           else case last_route rs (npdu_network dst) of
               None \<Rightarrow> [(0, Drop_Npdu NoRoute)]
             | Some port \<Rightarrow> [(port, Forward \<lparr>na_network_number = npdu_network dst,
                 na_mac = Mac_MsTP (case npdu_mac dst of [] \<Rightarrow> 0 | b # _ \<Rightarrow> b)\<rparr> True)])"
proof (cases "npdu_destination n")
  case None
  then show ?thesis by (simp add: route_def)
next
  case (Some dst)
  let ?t = "routing_table r"
  have t: "local_network r = l" "hm_wf ?t" "map_of ?t = map_of (rev rs)" "fst ` set ?t = fst ` set rs"
    using routing_table_spec [of rs l] assms(2) by simp_all
  obtain hops where hops: "npdu_hop_count n = Some hops"
    using npdu_decode_hop_counted [OF assms(1)] Some by auto
  have last: "last_route rs k = Some (fst (the (map_of (rev rs) k)))" if k: "k \<in> fst ` set rs" for k
  proof -
    have "map_of (rev rs) k \<noteq> None" using k by (simp add: map_of_eq_None_iff)
    then show ?thesis by (auto simp: last_route_def)
  qed
  have "mset (map (\<lambda>(_, port, _). (port, Broadcast_Networks [])) ?t) =
      image_mset (\<lambda>network. (the (last_route rs network), Broadcast_Networks [])) (mset_set (fst ` set rs))"
    unfolding mset_map mset_table [OF t(2)] t(3,4) multiset.map_comp
    by (rule image_mset_cong) (simp add: last case_prod_beta)
  with Some hops t(1,3) show ?thesis
    by (auto simp: route_def last_route_def split: option.split)
qed

theorem route_decision_witness:
  "let r = add_route 5 2 1 (add_route 5 1 1 (router_new 9)) in
   \<exists>n. npdu_decode [0x01, 0x20, 0x00, 0x05, 0x01, 0x0A, 0x02, 0x10, 0x08] = Ok n \<and>
     route r n 2 = [(2, Forward \<lparr>na_network_number = 5, na_mac = Mac_MsTP 0x0A\<rparr> True)]"
proof -
  let ?bs = "[0x01, 0x20, 0x00, 0x05, 0x01, 0x0A, 0x02, 0x10, 0x08] :: bytes"
  let ?n = "\<lparr>npdu_version = 1, npdu_ctrl = npdu_control_of_byte 0x20,
    npdu_destination = Some \<lparr>npdu_network = 5, npdu_mac = [0x0A]\<rparr>, npdu_source = None,
    npdu_hop_count = Some 2, npdu_apdu = [0x10, 0x08]\<rparr>"
  let ?r = "add_route 5 2 1 (add_route 5 1 1 (router_new 9))"
  have d: "npdu_decode ?bs = Ok ?n" by code_simp
  have "?r = add_routes [(5, 1, 1), (5, 2, 1)] (router_new 9)" by (simp add: add_routes_def)
  from route_decision [OF d this, of 2] d show ?thesis
    by (simp add: last_route_def)
qed

text \<open>
  A route holds from when it is added: an NPDU for that network, unless the network is the
  router's own, leaves through the port of the route that was added last, and routes added for
  other networks do not change that; without a route it is dropped.
\<close>

theorem added_route_is_used:
  assumes "npdu_destination n = Some dst"
    and "npdu_network dst \<notin> {0, 0xFFFF, local_network r}" and "npdu_hop_count n \<noteq> Some 0"
  shows "route (add_route network port hops r) n incoming =
    (if network = npdu_network dst
     then [(port, Forward \<lparr>na_network_number = network,
             na_mac = Mac_MsTP (case npdu_mac dst of [] \<Rightarrow> 0 | b # _ \<Rightarrow> b)\<rparr> True)]
     else route r n incoming) \<and>
    route (router_new (local_network r)) n incoming = [(0, Drop_Npdu NoRoute)]"
  using assms route_known [OF assms(1), of "add_route network port hops r"]
    route_known [OF assms(1), of r] route_known [OF assms(1), of "router_new (local_network r)"]
  by (auto simp: add_route_def router_new_def)

theorem added_route_is_used_witness:
  "route (add_route 7 3 1 (add_route 5 2 1 (router_new 1)))
     (local_npdu False []\<lparr>npdu_destination := Some \<lparr>npdu_network = 5, npdu_mac = [9]\<rparr>, npdu_hop_count := Some 4\<rparr>) 1 =
   [(2, Forward \<lparr>na_network_number = 5, na_mac = Mac_MsTP 9\<rparr> True)]"
proof -
  let ?n = "local_npdu False []\<lparr>npdu_destination := Some \<lparr>npdu_network = 5, npdu_mac = [9]\<rparr>, npdu_hop_count := Some 4\<rparr>"
  have n: "npdu_destination ?n = Some \<lparr>npdu_network = 5, npdu_mac = [9]\<rparr>" "npdu_hop_count ?n \<noteq> Some 0"
    by simp_all
  have "route (add_route 5 2 1 (router_new 1)) ?n 1 = [(2, Forward \<lparr>na_network_number = 5, na_mac = Mac_MsTP 9\<rparr> True)]"
    using added_route_is_used [OF n(1) _ n(2), of "router_new 1" 5 2 1 1] by (simp add: router_new_def)
  then show ?thesis
    using added_route_is_used [OF n(1) _ n(2), of "add_route 5 2 1 (router_new 1)" 7 3 1 1]
    by (simp add: router_new_def add_route_def)
qed

text \<open>
  Global broadcasts are outside that bound: for network 0xFFFF the decision is to broadcast on
  the port of every route, whatever the hop count (0 included) and whatever port the NPDU came in
  on, and never to deliver it locally; so two routers with routes through each other pass such an
  NPDU on for ever.
\<close>

theorem global_broadcast_unbounded:
  assumes "npdu_destination n = Some dst" and "npdu_network dst = 0xFFFF"
  shows "route r n incoming = map (\<lambda>(_, port, _). (port, Broadcast_Networks [])) (routing_table r) \<and>
    route r (n\<lparr>npdu_hop_count := h\<rparr>) p = route r n incoming \<and>
    (\<forall>d \<in> set (route r n incoming). snd d \<noteq> LocalDeliver \<and> snd d \<noteq> Drop_Npdu HopCountExceeded)"
  using assms by (auto simp: route_def)

theorem global_broadcast_unbounded_witness:
  "route (add_route 5 1 0 (router_new 1))
     (local_npdu False []\<lparr>npdu_destination := Some \<lparr>npdu_network = 0xFFFF, npdu_mac = []\<rparr>, npdu_hop_count := Some 0\<rparr>) 1 =
   [(1, Broadcast_Networks [])]"
  using global_broadcast_unbounded
    [of "local_npdu False []\<lparr>npdu_destination := Some \<lparr>npdu_network = 0xFFFF, npdu_mac = []\<rparr>, npdu_hop_count := Some 0\<rparr>"
      "\<lparr>npdu_network = 0xFFFF, npdu_mac = []\<rparr>" "add_route 5 1 0 (router_new 1)" 1]
  by (simp add: add_route_def router_new_def)

end
