(* ===== verification/Mstp_Frame.thy ===== *)
theory Mstp_Frame
  imports Codec_Laws
begin

text \<open>
  \<^verbatim>\<open>crates/bacnet-codec/src/mstp.rs\<close>: the MS/TP frames, with the header CRC-8 and the data CRC-16.
\<close>

datatype mstp_frame_type =
    MFT_Token | MFT_PollForMaster | MFT_ReplyToPollForMaster | MFT_TestRequest
  | MFT_TestResponse | MFT_BacnetDataExpectingReply | MFT_BacnetDataNotExpectingReply
  | MFT_ReplyPostponed

primrec mft_code :: "mstp_frame_type \<Rightarrow> u8" where
  "mft_code MFT_Token = 0x00"
| "mft_code MFT_PollForMaster = 0x01"
| "mft_code MFT_ReplyToPollForMaster = 0x02"
| "mft_code MFT_TestRequest = 0x03"
| "mft_code MFT_TestResponse = 0x04"
| "mft_code MFT_BacnetDataExpectingReply = 0x05"
| "mft_code MFT_BacnetDataNotExpectingReply = 0x06"
| "mft_code MFT_ReplyPostponed = 0x07"

definition mft_from_u8 :: "u8 \<Rightarrow> mstp_frame_type option" where
  "mft_from_u8 v =
     (if v = 0x00 then Some MFT_Token
      else if v = 0x01 then Some MFT_PollForMaster
      else if v = 0x02 then Some MFT_ReplyToPollForMaster
      else if v = 0x03 then Some MFT_TestRequest
      else if v = 0x04 then Some MFT_TestResponse
      else if v = 0x05 then Some MFT_BacnetDataExpectingReply
      else if v = 0x06 then Some MFT_BacnetDataNotExpectingReply
      else if v = 0x07 then Some MFT_ReplyPostponed
      else None)"

datatype mstp_decode_error =
    BadPreamble | Incomplete | BadHeaderCrc | BadDataCrc | UnknownFrameType u8

record mstp_frame =
  mstp_type :: mstp_frame_type
  mstp_destination :: u8
  mstp_source :: u8
  mstp_data :: bytes

subsection \<open>The checksums\<close>

definition crc8_bit :: "u8 \<Rightarrow> u8" where
  "crc8_bit crc = (if crc AND 0x01 \<noteq> 0 then drop_bit 1 crc XOR 0xE0 else drop_bit 1 crc)"

definition crc8_byte :: "u8 \<Rightarrow> u8 \<Rightarrow> u8" where
  "crc8_byte crc b = (crc8_bit ^^ 8) (crc XOR b)"

definition crc8 :: "bytes \<Rightarrow> u8" where
  "crc8 bs = NOT (foldl crc8_byte 0xFF bs)"

definition crc16_bit :: "u16 \<Rightarrow> u16" where
  "crc16_bit crc = (if crc AND 0x0001 \<noteq> 0 then drop_bit 1 crc XOR 0xA001 else drop_bit 1 crc)"

definition crc16_byte :: "u16 \<Rightarrow> u8 \<Rightarrow> u16" where
  "crc16_byte crc b = (crc16_bit ^^ 8) (crc XOR ucast b)"

definition crc16 :: "bytes \<Rightarrow> u16" where
  "crc16 bs = NOT (foldl crc16_byte 0xFFFF bs)"

subsection \<open>Encoding and decoding\<close>

definition u16_to_le :: "u16 \<Rightarrow> bytes" where
  "u16_to_le w = [ucast w, ucast (drop_bit 8 w)]"

definition mstp_header :: "mstp_frame \<Rightarrow> bytes" where
  "mstp_header f = [mft_code (mstp_type f), mstp_destination f, mstp_source f]
     @ u16_to_be (of_nat (length (mstp_data f)))"

definition mstp_encode :: "mstp_frame \<Rightarrow> bytes" where
  "mstp_encode f = [0x55, 0xFF] @ mstp_header f @ [crc8 (mstp_header f)]
     @ (if mstp_data f \<noteq> [] then mstp_data f @ u16_to_le (crc16 (mstp_data f)) else [])"

definition mstp_check_data :: "bytes \<Rightarrow> nat \<Rightarrow> bytes \<Rightarrow> (unit, mstp_decode_error) rres" where
  "mstp_check_data buf data_len data =
     (if 0 < data_len then
        rbind (index buf (8 + data_len)) (\<lambda>lo. rbind (index buf (9 + data_len)) (\<lambda>hi.
          if u16_from_be hi lo \<noteq> crc16 data then Err BadDataCrc else Ok ()))
      else Ok ())"

definition mstp_decode_data ::
  "bytes \<Rightarrow> mstp_frame_type \<Rightarrow> u8 \<Rightarrow> u8 \<Rightarrow> nat \<Rightarrow> (mstp_frame, mstp_decode_error) rres" where
  "mstp_decode_data buf frame_type destination source data_len =
     (if length buf < 8 + data_len + (if 0 < data_len then 2 else 0) then Err Incomplete
      else rbind (slice buf 8 (8 + data_len)) (\<lambda>data.
        rbind (mstp_check_data buf data_len data) (\<lambda>_.
          Ok \<lparr>mstp_type = frame_type, mstp_destination = destination, mstp_source = source,
              mstp_data = data\<rparr>)))"

definition mstp_decode_body :: "bytes \<Rightarrow> (mstp_frame, mstp_decode_error) rres" where
  "mstp_decode_body buf =
     rbind (index buf 2) (\<lambda>ty.
     rbind (ok_or (UnknownFrameType ty) (mft_from_u8 ty)) (\<lambda>frame_type.
     rbind (index buf 3) (\<lambda>destination. rbind (index buf 4) (\<lambda>source.
     rbind (index buf 5) (\<lambda>l1. rbind (index buf 6) (\<lambda>l0.
     rbind (index buf 7) (\<lambda>expected_hdr_crc. rbind (slice buf 2 7) (\<lambda>header.
       if expected_hdr_crc \<noteq> crc8 header then Err BadHeaderCrc
       else mstp_decode_data buf frame_type destination source (unat (u16_from_be l1 l0))))))))))"

definition mstp_decode :: "bytes \<Rightarrow> (mstp_frame, mstp_decode_error) rres" where
  "mstp_decode buf =
     (if length buf < 2 then Err Incomplete
      else rbind (index buf 0) (\<lambda>b0. rbind (index buf 1) (\<lambda>b1.
        if b0 \<noteq> 0x55 \<or> b1 \<noteq> 0xFF then Err BadPreamble
        else if length buf < 8 then Err Incomplete
        else mstp_decode_body buf)))"

definition mstp_ok :: "mstp_frame \<Rightarrow> bool" where
  "mstp_ok f \<longleftrightarrow> length (mstp_data f) < 2 ^ 16"

lemma mft_from_to_u8 [simp]: "mft_from_u8 (mft_code t) = Some t"
  by (cases t) (simp_all add: mft_from_u8_def)

lemma mft_to_from_u8: "mft_from_u8 v = Some t \<Longrightarrow> mft_code t = v"
  by (auto simp: mft_from_u8_def split: if_splits)

text \<open>The frame after its eight header bytes.\<close>

definition mstp_body :: "mstp_frame_type \<Rightarrow> u8 \<Rightarrow> u8 \<Rightarrow> nat \<Rightarrow> bytes \<Rightarrow> (mstp_frame, mstp_decode_error) rres" where
  "mstp_body ty dst src n rest =
     (if length rest < n + (if 0 < n then 2 else 0) then Err Incomplete
      else if 0 < n \<and> u16_from_be (rest ! (n + 1)) (rest ! n) \<noteq> crc16 (take n rest) then Err BadDataCrc
      else Ok \<lparr>mstp_type = ty, mstp_destination = dst, mstp_source = src, mstp_data = take n rest\<rparr>)"

lemma mstp_decode_data_eq:
  assumes "length hdr = 8"
  shows "mstp_decode_data (hdr @ rest) ty dst src n = mstp_body ty dst src n rest"
proof (cases "length rest < n + (if 0 < n then 2 else 0)")
  case True
  with assms show ?thesis by (simp add: mstp_body_def mstp_decode_data_def)
next
  case False
  have "(hdr @ rest) ! (8 + n) = rest ! n" "(hdr @ rest) ! (9 + n) = rest ! (n + 1)"
    using assms by (simp_all add: nth_append)
  with False assms show ?thesis
    by (auto simp: mstp_body_def mstp_check_data_def mstp_decode_data_def)
qed

lemma mstp_decode_Cons:
  "mstp_decode (0x55 # 0xFF # a # b # c # d # e # f # rest) =
    (case mft_from_u8 a of
       None \<Rightarrow> Err (UnknownFrameType a)
     | Some ty \<Rightarrow>
         if f \<noteq> crc8 [a, b, c, d, e] then Err BadHeaderCrc
         else mstp_body ty b c (unat (u16_from_be d e)) rest)"
proof -
  let ?buf = "0x55 # 0xFF # a # b # c # d # e # f # rest"
  have "(index ?buf 2 :: (u8, mstp_decode_error) rres) = Ok a"
      "(index ?buf 3 :: (u8, mstp_decode_error) rres) = Ok b"
      "(index ?buf 4 :: (u8, mstp_decode_error) rres) = Ok c"
      "(index ?buf 5 :: (u8, mstp_decode_error) rres) = Ok d"
      "(index ?buf 6 :: (u8, mstp_decode_error) rres) = Ok e"
      "(index ?buf 7 :: (u8, mstp_decode_error) rres) = Ok f"
      "(slice ?buf 2 7 :: (bytes, mstp_decode_error) rres) = Ok [a, b, c, d, e]"
    by (simp_all add: index_def slice_def numeral_eq_Suc)
  note i = this
  show ?thesis
    using mstp_decode_data_eq [of "[0x55, 0xFF, a, b, c, d, e, f]" rest _ b c "unat (u16_from_be d e)"]
    by (auto simp: mstp_decode_def mstp_decode_body_def i Let_def split: option.split)
qed

lemma list_8_cases:
  assumes "8 \<le> length buf"
  obtains a0 a1 a b c d e f rest where "buf = a0 # a1 # a # b # c # d # e # f # rest"
  using assms by (auto simp: numeral_eq_Suc Suc_le_length_iff)

lemma mstp_decode_no_panic: "mstp_decode buf \<noteq> Panic"
proof (cases "8 \<le> length buf \<and> buf ! 0 = 0x55 \<and> buf ! 1 = 0xFF")
  case True
  then obtain a0 a1 a b c d e f rest where buf: "buf = a0 # a1 # a # b # c # d # e # f # rest"
    using list_8_cases by blast
  with True have "buf = 0x55 # 0xFF # a # b # c # d # e # f # rest" by simp
  then show ?thesis by (simp add: mstp_decode_Cons mstp_body_def split: option.split)
next
  case False
  then show ?thesis by (cases "length buf < 2") (auto simp: mstp_decode_def index_def)
qed

lemma u16_le_roundtrip: "u16_to_le w = [lo, hi] \<Longrightarrow> u16_from_be hi lo = w"
  by (auto simp: u16_to_le_def)

lemma mstp_decode_encode:
  assumes "mstp_ok f"
  shows "mstp_decode (mstp_encode f) = Ok f"
proof -
  let ?n = "length (mstp_data f)"
  have n: "unat (of_nat ?n :: u16) = ?n"
    using assms by (simp add: mstp_ok_def unat_of_nat)
  show ?thesis
  proof (cases "mstp_data f = []")
    case True
    then show ?thesis
      by (simp add: mstp_encode_def mstp_header_def u16_to_be_def mstp_decode_Cons mstp_body_def
          u16_from_be_def)
  next
    case False
    have "length (u16_to_le w) = 2" for w by (simp add: u16_to_le_def)
    moreover have "(mstp_data f @ u16_to_le w) ! ?n = ucast w"
        "(mstp_data f @ u16_to_le w) ! Suc ?n = ucast (drop_bit 8 w)" for w
      by (simp_all add: u16_to_le_def nth_append)
    ultimately show ?thesis using False n
      by (simp add: mstp_encode_def mstp_header_def u16_to_be_def mstp_decode_Cons mstp_body_def)
  qed
qed

interpretation mstp_frames: frame_codec mstp_encode mstp_decode mstp_ok
  by unfold_locales (rule mstp_decode_encode)

subsection \<open>What the header CRC detects\<close>

text \<open>
  Each shift of the CRC register is a bijection (the polynomial has the top bit that the shift
  clears), so two headers that differ in one byte never have the same CRC.
\<close>

lemma inj_crc_step:
  fixes p :: "'a::len word"
  assumes "bit p (LENGTH('a) - 1)"
  shows "inj (\<lambda>x. drop_bit 1 x XOR (if bit x 0 then p else 0))"
proof (rule injI)
  fix x y :: "'a word"
  let ?s = "\<lambda>x. drop_bit 1 x XOR (if bit x 0 then p else 0)"
  assume eq: "?s x = ?s y"
  have "bit (?s z) (LENGTH('a) - 1) \<longleftrightarrow> bit z 0" for z
    using assms by (auto simp: bit_xor_iff bit_drop_bit_eq dest: bit_imp_le_length)
  with eq have z: "bit x 0 \<longleftrightarrow> bit y 0" by metis
  with eq have "(?s x XOR (if bit x 0 then p else 0)) = (?s y XOR (if bit y 0 then p else 0))"
    by simp
  then have "drop_bit 1 x = drop_bit 1 y"
    by (simp add: xor.assoc)
  then have "bit x (Suc n) \<longleftrightarrow> bit y (Suc n)" for n
    by (metis bit_drop_bit_eq comp_apply plus_1_eq_Suc)
  with z have "bit x n \<longleftrightarrow> bit y n" for n by (cases n) auto
  then show "x = y" by (simp add: bit_eq_iff)
qed

lemma and_1_bit_0: "x AND 1 \<noteq> 0 \<longleftrightarrow> bit x 0" for x :: "'a::len word"
  by (simp add: and_one_eq bit_0 odd_iff_mod_2_eq_one)

lemma inj_crc8_bit: "inj crc8_bit"
proof -
  have "(0xE0 :: u8) = push_bit 5 7" by (simp add: push_bit_eq_mult)
  then have "bit (0xE0 :: u8) (LENGTH(8) - 1)" by simp
  then have "inj (\<lambda>x :: u8. drop_bit 1 x XOR (if bit x 0 then 0xE0 else 0))"
    by (rule inj_crc_step)
  moreover have "crc8_bit = (\<lambda>x. drop_bit 1 x XOR (if bit x 0 then 0xE0 else 0))"
    by (rule ext) (simp only: crc8_bit_def and_1_bit_0, simp)
  ultimately show ?thesis by simp
qed

lemma inj_crc16_bit: "inj crc16_bit"
proof -
  have "bit (0xA001 :: u16) (LENGTH(16) - 1)" by simp
  then have "inj (\<lambda>x :: u16. drop_bit 1 x XOR (if bit x 0 then 0xA001 else 0))"
    by (rule inj_crc_step)
  moreover have "crc16_bit = (\<lambda>x. drop_bit 1 x XOR (if bit x 0 then 0xA001 else 0))"
    by (rule ext) (simp only: crc16_bit_def and_1_bit_0, simp)
  ultimately show ?thesis by simp
qed

lemma crc8_byte_inject: "crc8_byte a x = crc8_byte b y \<longleftrightarrow> a XOR x = b XOR y"
  using inj_crc8_bit by (auto simp: crc8_byte_def dest!: injD [OF inj_fn])

lemma crc16_byte_inject: "crc16_byte a x = crc16_byte b y \<longleftrightarrow> a XOR ucast x = b XOR ucast y"
  using inj_crc16_bit by (auto simp: crc16_byte_def dest!: injD [OF inj_fn])

lemma xor_cancel: "a XOR x = a XOR y \<longleftrightarrow> x = y" for a :: "'a::len word"
  by (metis xor.assoc xor.left_neutral xor_self_eq)

lemma xor_cancel_right: "x XOR a = y XOR a \<longleftrightarrow> x = y" for a :: "'a::len word"
  by (metis xor.commute xor_cancel)

lemma fold_crc8_inject: "foldl crc8_byte a bs = foldl crc8_byte b bs \<longleftrightarrow> a = b"
  by (induction bs arbitrary: a b) (simp_all add: crc8_byte_inject xor_cancel_right)

lemma fold_crc16_inject: "foldl crc16_byte a bs = foldl crc16_byte b bs \<longleftrightarrow> a = b"
  by (induction bs arbitrary: a b) (simp_all add: crc16_byte_inject xor_cancel_right)

lemma not_inject: "NOT x = NOT y \<longleftrightarrow> x = y" for x y :: "'a::len word"
  by (metis bit.double_compl)

lemma crc8_single_byte:
  "crc8 (xs @ x # ys) = crc8 (xs @ y # ys) \<longleftrightarrow> x = y"
  by (simp add: crc8_def not_inject fold_crc8_inject crc8_byte_inject xor_cancel)

lemma ucast_u8_inject: "(ucast x :: u16) = ucast y \<Longrightarrow> x = y" for x y :: u8
proof (rule bit_word_eqI)
  fix n
  assume e: "(ucast x :: u16) = ucast y" and "n < LENGTH(8)"
  then have "n < 16" by simp
  then show "bit x n \<longleftrightarrow> bit y n"
    using arg_cong [OF e, of "\<lambda>w. bit w n"] by (simp add: bit_unsigned_iff)
qed

lemma crc16_single_byte:
  "crc16 (xs @ x # ys) = crc16 (xs @ y # ys) \<longleftrightarrow> x = y"
  by (auto simp: crc16_def not_inject fold_crc16_inject crc16_byte_inject xor_cancel
      dest: ucast_u8_inject)

lemma crc8_header_byte:
  "crc8 [a, b, c, d, e] = crc8 [x, b, c, d, e] \<longleftrightarrow> a = x"
  "crc8 [a, b, c, d, e] = crc8 [a, x, c, d, e] \<longleftrightarrow> b = x"
  "crc8 [a, b, c, d, e] = crc8 [a, b, x, d, e] \<longleftrightarrow> c = x"
  "crc8 [a, b, c, d, e] = crc8 [a, b, c, x, e] \<longleftrightarrow> d = x"
  "crc8 [a, b, c, d, e] = crc8 [a, b, c, d, x] \<longleftrightarrow> e = x"
  using crc8_single_byte [of "[]"] crc8_single_byte [of "[a]"] crc8_single_byte [of "[a, b]"]
    crc8_single_byte [of "[a, b, c]"] crc8_single_byte [of "[a, b, c, d]"]
  by simp_all

lemma mstp_decode_Ok_shape:
  assumes "mstp_decode buf = Ok f"
  obtains a b c d e rest where
    "buf = 0x55 # 0xFF # a # b # c # d # e # crc8 [a, b, c, d, e] # rest"
    "mft_from_u8 a = Some (mstp_type f)" "b = mstp_destination f" "c = mstp_source f"
    "mstp_data f = take (unat (u16_from_be d e)) rest"
    "mstp_body (mstp_type f) b c (unat (u16_from_be d e)) rest = Ok f"
proof -
  have "8 \<le> length buf \<and> buf ! 0 = 0x55 \<and> buf ! 1 = 0xFF"
    using assms by (cases "length buf < 2") (auto simp: mstp_decode_def index_def split: if_splits)
  moreover from this obtain a0 a1 a b c d e crc rest
    where buf: "buf = a0 # a1 # a # b # c # d # e # crc # rest"
    using list_8_cases by blast
  ultimately have buf: "buf = 0x55 # 0xFF # a # b # c # d # e # crc # rest" by simp
  with assms obtain ty where ty: "mft_from_u8 a = Some ty" "crc = crc8 [a, b, c, d, e]"
      "mstp_body ty b c (unat (u16_from_be d e)) rest = Ok f"
    by (auto simp: mstp_decode_Cons split: option.splits if_splits)
  from ty(3) have "ty = mstp_type f" "b = mstp_destination f" "c = mstp_source f"
      "mstp_data f = take (unat (u16_from_be d e)) rest"
    by (auto simp: mstp_body_def split: if_splits)
  with buf ty that show ?thesis by blast
qed

lemma mstp_header_corruption:
  assumes "mstp_decode buf = Ok f" and "2 \<le> i" and "i < 8" and "x \<noteq> buf ! i"
  shows "mstp_decode (buf[i := x]) = Err BadHeaderCrc \<or>
    mstp_decode (buf[i := x]) = Err (UnknownFrameType x)"
  using assms(1)
proof (rule mstp_decode_Ok_shape)
  fix a b c d e rest
  assume buf: "buf = 0x55 # 0xFF # a # b # c # d # e # crc8 [a, b, c, d, e] # rest"
    and ty: "mft_from_u8 a = Some (mstp_type f)"
  have "i = 2 \<or> i = 3 \<or> i = 4 \<or> i = 5 \<or> i = 6 \<or> i = 7" using assms(2,3) by arith
  then show ?thesis
    using assms(4) ty unfolding buf
    by (elim disjE) (auto simp: mstp_decode_Cons numeral_eq_Suc crc8_header_byte split: option.split)
qed

lemma take_update_split:
  assumes "i < n" and "n \<le> length xs"
  obtains us vs where "take n xs = us @ xs ! i # vs" "take n (xs[i := x]) = us @ x # vs"
proof
  show "take n xs = take i xs @ xs ! i # drop (Suc i) (take n xs)"
    using assms id_take_nth_drop [of i "take n xs"] by (simp add: min_def)
  show "take n (xs[i := x]) = take i xs @ x # drop (Suc i) (take n xs)"
    using assms upd_conv_take_nth_drop [of i "take n xs" x] by (simp add: take_update_swap min_def)
qed

lemma u16_from_be_bytes: "ucast (drop_bit 8 (u16_from_be a b)) = a" "ucast (u16_from_be a b) = b"
  by (rule bit_word_eqI; auto simp: u16_from_be_def bit_simps dest: bit_imp_le_length)+

lemma u16_from_be_inject: "u16_from_be a b = u16_from_be c d \<longleftrightarrow> a = c \<and> b = d"
  by (metis u16_from_be_bytes)

lemma mstp_data_corruption:
  assumes "mstp_decode buf = Ok f" and "8 \<le> i" and "mstp_data f \<noteq> []"
    and "i < 10 + length (mstp_data f)" and "x \<noteq> buf ! i"
  shows "mstp_decode (buf[i := x]) = Err BadDataCrc"
  using assms(1)
proof (rule mstp_decode_Ok_shape)
  fix a b c d e rest
  define n where "n = unat (u16_from_be d e)"
  assume buf: "buf = 0x55 # 0xFF # a # b # c # d # e # crc8 [a, b, c, d, e] # rest"
    and ty: "mft_from_u8 a = Some (mstp_type f)"
    and data: "mstp_data f = take (unat (u16_from_be d e)) rest"
    and body: "mstp_body (mstp_type f) b c (unat (u16_from_be d e)) rest = Ok f"
  have n: "0 < n" using data assms(3) by (auto simp: n_def)
  with body have len: "n + 2 \<le> length rest" and crc: "u16_from_be (rest ! (n + 1)) (rest ! n) = crc16 (take n rest)"
    by (auto simp: mstp_body_def n_def [symmetric] split: if_splits)
  define j where "j = i - 8"
  have i: "i = 8 + j" and j: "j < n + 2"
    using assms(2,4) data len by (auto simp: j_def n_def)
  have upd: "buf[i := x] = 0x55 # 0xFF # a # b # c # d # e # crc8 [a, b, c, d, e] # rest[j := x]"
    and x: "x \<noteq> rest ! j"
    using assms(5) by (simp_all add: buf i numeral_eq_Suc)
  have "u16_from_be (rest[j := x] ! (n + 1)) (rest[j := x] ! n) \<noteq> crc16 (take n (rest[j := x]))"
  proof (cases "j < n")
    case True
    obtain us vs where "take n rest = us @ rest ! j # vs" "take n (rest[j := x]) = us @ x # vs"
      using take_update_split [of j n rest x] True len by auto
    with x crc True show ?thesis by (auto simp: crc16_single_byte)
  next
    case False
    then have "j = n \<or> j = n + 1" using j by arith
    moreover have "take n (rest[j := x]) = take n rest" using False by simp
    ultimately show ?thesis using x len by (auto simp: u16_from_be_inject crc [symmetric])
  qed
  then show ?thesis
    using n len by (simp add: upd mstp_decode_Cons ty mstp_body_def n_def [symmetric])
qed

subsection \<open>Errors in transit\<close>

lemma mstp_decode_preamble:
  assumes "mstp_decode buf = Ok f" and "i < 2" and "x \<noteq> buf ! i"
  shows "mstp_decode (buf[i := x]) = Err BadPreamble"
  using assms(1)
proof (rule mstp_decode_Ok_shape)
  fix a b c d e rest
  assume buf: "buf = 0x55 # 0xFF # a # b # c # d # e # crc8 [a, b, c, d, e] # rest"
  from assms(2) have "i = 0 \<or> i = 1" by arith
  then show ?thesis
    using assms(3) by (auto simp: buf mstp_decode_def index_def)
qed

lemma length_mstp_encode:
  "length (mstp_encode f) = 8 + (if mstp_data f = [] then 0 else length (mstp_data f) + 2)"
  by (simp add: mstp_encode_def mstp_header_def u16_to_be_def u16_to_le_def)

subsection \<open>Properties\<close>

text \<open>
  C33. An MS/TP frame of fewer than 2^16 data bytes is decoded as it was encoded, and the two
  checksums catch every error in a single byte of it, wherever it falls: the changed frame is
  refused, never taken for another one.
\<close>

theorem mstp_frame_protected:
  assumes "mstp_ok f" and "i < length (mstp_encode f)" and "x \<noteq> mstp_encode f ! i"
  shows "mstp_decode (mstp_encode f) = Ok f \<and> (\<exists>e. mstp_decode ((mstp_encode f)[i := x]) = Err e)"
proof -
  have dec: "mstp_decode (mstp_encode f) = Ok f" using assms(1) by (rule mstp_frames.dec_enc)
  consider "i < 2" | "2 \<le> i" "i < 8" | "8 \<le> i" "mstp_data f \<noteq> []" "i < 10 + length (mstp_data f)"
    using assms(2) by (auto simp: length_mstp_encode split: if_splits) linarith+
  then show ?thesis
  proof cases
    case 1
    then show ?thesis using mstp_decode_preamble [OF dec _ assms(3)] dec by blast
  next
    case 2
    then show ?thesis using mstp_header_corruption [OF dec _ _ assms(3)] dec by blast
  next
    case 3
    then show ?thesis using mstp_data_corruption [OF dec _ _ _ assms(3)] dec by blast
  qed
qed

theorem mstp_frame_protected_witness:
  "let f = \<lparr>mstp_type = MFT_BacnetDataExpectingReply, mstp_destination = 3, mstp_source = 1,
     mstp_data = [0x01, 0x04]\<rparr>
   in \<exists>e. mstp_decode ((mstp_encode f)[9 := 0x05]) = Err e"
  unfolding Let_def
  by (rule mstp_frame_protected [THEN conjunct2])
    (simp_all add: mstp_ok_def length_mstp_encode, simp add: mstp_encode_def mstp_header_def u16_to_be_def)

text \<open>No bytes make the MS/TP decoder panic: its slices are guarded by the length checks.\<close>

theorem mstp_decoder_total: "mstp_decode buf \<noteq> Panic"
  by (rule mstp_decode_no_panic)

end
