(* ===== verification/Mstp_Master.thy ===== *)
theory Mstp_Master
  imports Mstp_Frame
begin

text \<open>
  \<^verbatim>\<open>crates/bacnet-transport/src/mstp/\<close>: the virtual MS/TP bus (\<^verbatim>\<open>virtual_link.rs\<close>) and the
  token-passing master (\<^verbatim>\<open>master.rs\<close>).  A master is a record; the bus is the list of the masters
  that joined it, each with the frames of its broadcast receiver it has not looked at yet.  A step
  is what one task does from one await to the next: start, take one frame off its receiver, time
  out; callers queue data, and other holders of the bus sender may put frames that are not tokens
  on the bus.  Time is not modelled, so a timeout may happen at any moment.
\<close>

subsection \<open>A master\<close>

datatype master_state =
    MS_Initialize | MS_Idle | MS_UseToken | MS_WaitForReply | MS_PassToken | MS_DoneWithToken
  | MS_PollForMaster | MS_NoToken

text \<open>\<open>ms_started\<close> is the position of \<^verbatim>\<open>run\<close> before or after the bootstrap of address 0.\<close>

record mstp_master =
  ms_address :: u8
  ms_max_master :: u8
  ms_state :: master_state
  ms_next_station :: u8
  ms_token_count :: u8
  ms_token_received :: u64
  ms_pending :: "(u8 \<times> bytes) list"
  ms_inbox :: "mstp_frame list"
  ms_started :: bool

text \<open>Both \<^verbatim>\<open>address + 1\<close> and \<^verbatim>\<open>max_master + 1\<close> are additions on \<^verbatim>\<open>u8\<close>: at 255 they panic.\<close>

definition ms_join :: "u8 \<Rightarrow> u8 \<Rightarrow> (mstp_master, unit) rres" where
  "ms_join address max_master =
     (if address = 255 \<or> max_master = 255 then Panic
      else Ok \<lparr>ms_address = address, ms_max_master = max_master, ms_state = MS_Initialize,
          ms_next_station = (address + 1) mod (max_master + 1), ms_token_count = 0,
          ms_token_received = 0, ms_pending = [], ms_inbox = [], ms_started = False\<rparr>)"

definition token_frame :: "u8 \<Rightarrow> u8 \<Rightarrow> mstp_frame" where
  "token_frame destination source =
     \<lparr>mstp_type = MFT_Token, mstp_destination = destination, mstp_source = source, mstp_data = []\<rparr>"

definition data_frame :: "mstp_master \<Rightarrow> u8 \<Rightarrow> bytes \<Rightarrow> bool \<Rightarrow> mstp_frame" where
  "data_frame m destination data expecting_reply =
     \<lparr>mstp_type = if expecting_reply then MFT_BacnetDataExpectingReply else MFT_BacnetDataNotExpectingReply,
      mstp_destination = destination, mstp_source = ms_address m, mstp_data = data\<rparr>"

definition pass_token :: "mstp_master \<Rightarrow> mstp_frame" where
  "pass_token m = token_frame (ms_next_station m) (ms_address m)"

text \<open>A handler gives the master after it and the frames it sends, in order.\<close>

definition ms_start :: "mstp_master \<Rightarrow> mstp_master \<times> mstp_frame list" where
  "ms_start m = (m\<lparr>ms_started := True\<rparr>, if ms_address m = 0 then [token_frame 0 0] else [])"

definition ms_use_token :: "mstp_master \<Rightarrow> mstp_master \<times> mstp_frame list" where
  "ms_use_token m =
     (let m = m\<lparr>ms_token_received := ms_token_received m + 1, ms_state := MS_UseToken\<rparr> in
      case ms_pending m of
        [] \<Rightarrow> (m\<lparr>ms_state := MS_Idle\<rparr>, [pass_token m])
      | (dst, npdu) # rest \<Rightarrow>
          (m\<lparr>ms_pending := rest, ms_state := MS_Idle\<rparr>, [data_frame m dst npdu False, pass_token m]))"

definition is_token_for :: "u8 \<Rightarrow> mstp_frame \<Rightarrow> bool" where
  "is_token_for a f \<longleftrightarrow> mstp_type f = MFT_Token \<and> mstp_destination f = a"

definition ms_receive :: "mstp_frame \<Rightarrow> mstp_master \<Rightarrow> mstp_master \<times> mstp_frame list" where
  "ms_receive f m =
     (if is_token_for (ms_address m) f then ms_use_token m
      else if mstp_type f = MFT_PollForMaster \<and> mstp_destination f = ms_address m
      then (m, [\<lparr>mstp_type = MFT_ReplyToPollForMaster, mstp_destination = mstp_source f,
                 mstp_source = ms_address m, mstp_data = []\<rparr>])
      else (m, []))"

definition ms_timeout :: "mstp_master \<Rightarrow> mstp_master \<times> mstp_frame list" where
  "ms_timeout m = (m, if ms_address m = 0 then [token_frame 0 0] else [])"

text \<open>
  The direct interface of a master that is not run: what it takes off its receiver.  Waiting for
  a token ends with an error when the deadline passes and no token came; \<^verbatim>\<open>recv_data\<close> waits on.
\<close>

fun ms_wait_for_token :: "mstp_master \<Rightarrow> mstp_frame list \<Rightarrow> (unit, unit) rres \<times> mstp_master" where
  "ms_wait_for_token m [] = (Err (), m\<lparr>ms_inbox := []\<rparr>)"
| "ms_wait_for_token m (f # fs) =
     (if is_token_for (ms_address m) f
      then (Ok (), m\<lparr>ms_token_received := ms_token_received m + 1, ms_inbox := fs\<rparr>)
      else ms_wait_for_token m fs)"

fun ms_recv_data :: "mstp_master \<Rightarrow> mstp_frame list \<Rightarrow> (u8 \<times> bytes) option \<times> mstp_master" where
  "ms_recv_data m [] = (None, m\<lparr>ms_inbox := []\<rparr>)"
| "ms_recv_data m (f # fs) =
     (if mstp_destination f = ms_address m \<and>
         mstp_type f \<in> {MFT_BacnetDataExpectingReply, MFT_BacnetDataNotExpectingReply}
      then (Some (mstp_source f, mstp_data f), m\<lparr>ms_inbox := fs\<rparr>)
      else ms_recv_data m fs)"

subsection \<open>The bus\<close>

text \<open>
  A \<^verbatim>\<open>broadcast\<close> channel of 512 slots: every receiver, the sender's own too, sees every frame, and
  a receiver that lags by more than that loses the oldest.  \<open>bus_log\<close> is what was sent, with the
  position of the master that sent it; no code reads it.
\<close>

definition bus_capacity :: nat where
  "bus_capacity = 512"

definition bus_push :: "mstp_frame \<Rightarrow> mstp_frame list \<Rightarrow> mstp_frame list" where
  "bus_push f fs = (if length fs < bus_capacity then fs @ [f] else tl fs @ [f])"

record mstp_bus =
  bus_nodes :: "mstp_master list"
  bus_log :: "(nat option \<times> mstp_frame) list"

definition bus_send :: "nat option \<Rightarrow> mstp_frame \<Rightarrow> mstp_bus \<Rightarrow> mstp_bus" where
  "bus_send src f b =
     b\<lparr>bus_nodes := map (\<lambda>m. m\<lparr>ms_inbox := bus_push f (ms_inbox m)\<rparr>) (bus_nodes b),
       bus_log := bus_log b @ [(src, f)]\<rparr>"

definition bus_act :: "nat \<Rightarrow> mstp_master \<times> mstp_frame list \<Rightarrow> mstp_bus \<Rightarrow> mstp_bus" where
  "bus_act i r b = fold (bus_send (Some i)) (snd r) (b\<lparr>bus_nodes := (bus_nodes b)[i := fst r]\<rparr>)"

datatype mstp_event =
    Ev_Start nat | Ev_Receive nat | Ev_Timeout nat | Ev_Enqueue nat u8 bytes | Ev_Inject mstp_frame

text \<open>The queue for outgoing NPDUs has 64 slots; a caller waits while it is full.\<close>

inductive mstp_step :: "mstp_bus \<Rightarrow> mstp_event \<Rightarrow> mstp_bus \<Rightarrow> bool" where
  start: "i < length (bus_nodes b) \<Longrightarrow> \<not> ms_started (bus_nodes b ! i) \<Longrightarrow>
    mstp_step b (Ev_Start i) (bus_act i (ms_start (bus_nodes b ! i)) b)"
| receive: "i < length (bus_nodes b) \<Longrightarrow> ms_started (bus_nodes b ! i) \<Longrightarrow>
    ms_inbox (bus_nodes b ! i) = f # fs \<Longrightarrow>
    mstp_step b (Ev_Receive i) (bus_act i (ms_receive f ((bus_nodes b ! i)\<lparr>ms_inbox := fs\<rparr>)) b)"
| timeout: "i < length (bus_nodes b) \<Longrightarrow> ms_started (bus_nodes b ! i) \<Longrightarrow>
    mstp_step b (Ev_Timeout i) (bus_act i (ms_timeout (bus_nodes b ! i)) b)"
| enqueue: "i < length (bus_nodes b) \<Longrightarrow> length (ms_pending (bus_nodes b ! i)) < 64 \<Longrightarrow>
    mstp_step b (Ev_Enqueue i dst npdu)
      (bus_act i ((bus_nodes b ! i)\<lparr>ms_pending := ms_pending (bus_nodes b ! i) @ [(dst, npdu)]\<rparr>, []) b)"
| inject: "mstp_type f \<noteq> MFT_Token \<Longrightarrow> mstp_step b (Ev_Inject f) (bus_send None f b)"

inductive_cases mstp_step_cases [elim!]:
  "mstp_step b (Ev_Start i) b'" "mstp_step b (Ev_Receive i) b'" "mstp_step b (Ev_Timeout i) b'"
  "mstp_step b (Ev_Enqueue i d x) b'" "mstp_step b (Ev_Inject f) b'"

inductive mstp_run :: "mstp_bus \<Rightarrow> mstp_event list \<Rightarrow> mstp_bus \<Rightarrow> bool" where
  run_Nil: "mstp_run b [] b"
| run_snoc: "mstp_run b evs b' \<Longrightarrow> mstp_step b' e b'' \<Longrightarrow> mstp_run b (evs @ [e]) b''"

text \<open>The bus as \<^verbatim>\<open>join\<close> sets it up: nobody has started, nothing is on it.\<close>

definition joined :: "u8 \<Rightarrow> u8 list \<Rightarrow> mstp_bus \<Rightarrow> bool" where
  "joined max_master addresses b \<longleftrightarrow>
     list_all2 (\<lambda>a m. ms_join a max_master = Ok m) addresses (bus_nodes b) \<and> bus_log b = []"

subsection \<open>What a step changes\<close>

lemma bus_sends:
  "bus_nodes (fold (bus_send src) fs b) =
     map (\<lambda>m. m\<lparr>ms_inbox := fold bus_push fs (ms_inbox m)\<rparr>) (bus_nodes b)"
  "bus_log (fold (bus_send src) fs b) = bus_log b @ map (Pair src) fs"
  by (induction fs arbitrary: b) (simp_all add: bus_send_def)

lemma bus_act_nodes:
  "bus_nodes (bus_act i r b) =
     map (\<lambda>m. m\<lparr>ms_inbox := fold bus_push (snd r) (ms_inbox m)\<rparr>) ((bus_nodes b)[i := fst r])"
  "bus_log (bus_act i r b) = bus_log b @ map (Pair (Some i)) (snd r)"
  by (simp_all add: bus_act_def bus_sends)

text \<open>The fields the handlers never touch.\<close>

definition station :: "mstp_master \<Rightarrow> u8 \<times> u8 \<times> u8" where
  "station m = (ms_address m, ms_max_master m, ms_next_station m)"

lemma station_simps [simp]:
  "station (m\<lparr>ms_inbox := x\<rparr>) = station m" "station (m\<lparr>ms_pending := y\<rparr>) = station m"
  "station (m\<lparr>ms_started := z\<rparr>) = station m" "station (m\<lparr>ms_state := u\<rparr>) = station m"
  "station (m\<lparr>ms_token_received := v\<rparr>) = station m"
  by (simp_all add: station_def)

lemma station_handlers [simp]:
  "station (fst (ms_start m)) = station m" "station (fst (ms_receive f m)) = station m"
  "station (fst (ms_timeout m)) = station m"
  by (simp_all add: ms_start_def ms_receive_def ms_use_token_def ms_timeout_def Let_def
      split: list.split prod.split)

lemma map_station_act:
  "station (fst r) = station (bus_nodes b ! i) \<Longrightarrow>
   map station (bus_nodes (bus_act i r b)) = map station (bus_nodes b)"
  by (cases "i < length (bus_nodes b)")
    (auto simp: bus_act_nodes nth_list_update intro!: nth_equalityI)

lemma mstp_step_stations:
  "mstp_step b e b' \<Longrightarrow> map station (bus_nodes b') = map station (bus_nodes b)"
  by (induction rule: mstp_step.induct) (simp_all add: map_station_act bus_send_def)

lemma mstp_run_stations:
  "mstp_run b evs b' \<Longrightarrow> map station (bus_nodes b') = map station (bus_nodes b)"
  by (induction rule: mstp_run.induct) (simp_all add: mstp_step_stations)

lemma map_address_station: "map ms_address ns = map fst (map station ns)"
  by (simp add: station_def)

lemma mstp_run_addresses:
  "mstp_run b evs b' \<Longrightarrow> map ms_address (bus_nodes b') = map ms_address (bus_nodes b)"
  by (simp only: map_address_station mstp_run_stations)

lemma ms_join_fields:
  "ms_join a mm = Ok m \<Longrightarrow> ms_address m = a \<and> ms_max_master m = mm \<and>
    ms_next_station m = (a + 1) mod (mm + 1) \<and> ms_token_received m = 0 \<and> ms_pending m = [] \<and>
    ms_inbox m = [] \<and> \<not> ms_started m"
  by (auto simp: ms_join_def split: if_splits)

lemma joined_addresses: "joined mm as b \<Longrightarrow> map ms_address (bus_nodes b) = as"
proof -
  assume "joined mm as b"
  then have "list_all2 (\<lambda>a m. ms_join a mm = Ok m) as (bus_nodes b)" by (simp add: joined_def)
  then show ?thesis by (induction rule: list_all2_induct) (auto dest: ms_join_fields)
qed

lemma joined_member:
  assumes "joined mm as b" and "m \<in> set (bus_nodes b)"
  shows "\<exists>a \<in> set as. ms_join a mm = Ok m"
proof -
  have "list_all2 (\<lambda>a m. ms_join a mm = Ok m) as (bus_nodes b)" using assms(1) by (simp add: joined_def)
  then have "\<forall>m \<in> set (bus_nodes b). \<exists>a \<in> set as. ms_join a mm = Ok m"
    by (induction rule: list_all2_induct) auto
  with assms(2) show ?thesis by blast
qed

lemma joined_nth:
  "joined mm as b \<Longrightarrow> i < length as \<Longrightarrow> ms_join (as ! i) mm = Ok (bus_nodes b ! i)"
  by (simp add: joined_def list_all2_conv_all_nth)

subsection \<open>Tokens on the bus\<close>

definition tokens_for :: "u8 \<Rightarrow> mstp_frame list \<Rightarrow> nat" where
  "tokens_for a fs = length (filter (is_token_for a) fs)"

text \<open>
  A token is live while the master it is addressed to has it unread; until the master of address 0
  has started, the token it is going to send counts as well.
\<close>

definition tokens_of :: "mstp_master \<Rightarrow> nat" where
  "tokens_of m = tokens_for (ms_address m) (ms_inbox m) + of_bool (ms_address m = 0 \<and> \<not> ms_started m)"

definition live_tokens :: "mstp_bus \<Rightarrow> nat" where
  "live_tokens b = sum_list (map (\<lambda>m. tokens_for (ms_address m) (ms_inbox m)) (bus_nodes b))"

definition tokens :: "mstp_bus \<Rightarrow> nat" where
  "tokens b = sum_list (map tokens_of (bus_nodes b))"

lemma tokens_for_simps [simp]:
  "tokens_for a [] = 0"
  "tokens_for a (f # fs) = of_bool (is_token_for a f) + tokens_for a fs"
  "tokens_for a (fs @ gs) = tokens_for a fs + tokens_for a gs"
  by (simp_all add: tokens_for_def)

lemma tokens_for_push: "tokens_for a (bus_push f fs) \<le> tokens_for a fs + tokens_for a [f]"
  by (cases fs) (simp_all add: bus_push_def)

lemma tokens_for_pushes: "tokens_for a (fold bus_push fs gs) \<le> tokens_for a gs + tokens_for a fs"
proof (induction fs arbitrary: gs)
  case (Cons f fs)
  have "tokens_for a (fold bus_push (f # fs) gs) \<le> tokens_for a (bus_push f gs) + tokens_for a fs"
    using Cons by simp
  then show ?case using tokens_for_push [of a f gs] by simp
qed simp

lemma is_token_for_token [simp]: "is_token_for a (token_frame d s) \<longleftrightarrow> a = d"
  by (auto simp: is_token_for_def token_frame_def)

lemma is_token_for_data [simp]: "\<not> is_token_for a (data_frame m d x er)"
  by (simp add: is_token_for_def data_frame_def)

definition sent_tokens :: "mstp_frame list \<Rightarrow> nat" where
  "sent_tokens fs = length (filter (\<lambda>f. mstp_type f = MFT_Token) fs)"

text \<open>With distinct addresses the tokens among some frames are live at one master at most each.\<close>

lemma sum_tokens_for:
  assumes "distinct (map ms_address ns)"
  shows "sum_list (map (\<lambda>m. tokens_for (ms_address m) fs) ns) \<le> sent_tokens fs"
proof (induction fs)
  case (Cons f fs)
  have "sum_list (map (\<lambda>m. of_bool (is_token_for (ms_address m) f) :: nat) ns) \<le> of_bool (mstp_type f = MFT_Token)"
    using assms by (induction ns) (auto simp: is_token_for_def image_iff sum_list_eq_0_iff)
  then show ?case using Cons by (cases "mstp_type f = MFT_Token") (simp_all add: sum_list_addf is_token_for_def sent_tokens_def)
qed (simp add: sent_tokens_def)

lemma tokens_act:
  assumes "i < length (bus_nodes b)" and "distinct (map ms_address (bus_nodes b))"
    and "station (fst r) = station (bus_nodes b ! i)"
    and "tokens_of (fst r) + sent_tokens (snd r) \<le> tokens_of (bus_nodes b ! i)"
  shows "tokens (bus_act i r b) \<le> tokens b"
proof -
  let ?ns = "(bus_nodes b)[i := fst r]"
  have "map ms_address ?ns = map ms_address (bus_nodes b)"
    using assms(1,3) by (auto simp: list_eq_iff_nth_eq nth_list_update station_def)
  then have d: "distinct (map ms_address ?ns)" using assms(2) by simp
  have "tokens (bus_act i r b) \<le> sum_list (map (\<lambda>m. tokens_of m + tokens_for (ms_address m) (snd r)) ?ns)"
    unfolding tokens_def bus_act_nodes map_map o_def
  proof (rule sum_list_mono)
    fix m
    show "tokens_of (m\<lparr>ms_inbox := fold bus_push (snd r) (ms_inbox m)\<rparr>) \<le> tokens_of m + tokens_for (ms_address m) (snd r)"
      using tokens_for_pushes [of "ms_address m" "snd r" "ms_inbox m"] by (simp add: tokens_of_def)
  qed
  also have "\<dots> = sum_list (map tokens_of ?ns) + sum_list (map (\<lambda>m. tokens_for (ms_address m) (snd r)) ?ns)"
    by (simp add: sum_list_addf)
  also have "\<dots> \<le> sum_list (map tokens_of ?ns) + sent_tokens (snd r)"
    using sum_tokens_for [OF d] by simp
  finally have "tokens (bus_act i r b) + tokens_of (bus_nodes b ! i) \<le>
      (sum_list (map tokens_of ?ns) + tokens_of (bus_nodes b ! i)) + sent_tokens (snd r)"
    by simp
  also have "sum_list (map tokens_of ?ns) + tokens_of (bus_nodes b ! i) = tokens b + tokens_of (fst r)"
    using assms(1) member_le_sum_list [of "tokens_of (bus_nodes b ! i)" "map tokens_of (bus_nodes b)"]
    by (simp add: tokens_def map_update sum_list_update)
  finally show ?thesis using assms(4) by simp
qed

lemma tokens_start:
  "\<not> ms_started m \<Longrightarrow> tokens_of (fst (ms_start m)) + sent_tokens (snd (ms_start m)) \<le> tokens_of m"
  by (simp add: ms_start_def tokens_of_def token_frame_def sent_tokens_def)

lemma tokens_receive:
  assumes "ms_inbox m = f # fs"
  shows "tokens_of (fst (ms_receive f (m\<lparr>ms_inbox := fs\<rparr>))) + sent_tokens (snd (ms_receive f (m\<lparr>ms_inbox := fs\<rparr>)))
    \<le> tokens_of m"
  using assms
  by (auto simp: ms_receive_def ms_use_token_def tokens_of_def token_frame_def sent_tokens_def
      pass_token_def data_frame_def Let_def split: list.split)

definition is_timeout :: "mstp_event \<Rightarrow> bool" where
  "is_timeout e = (case e of Ev_Timeout _ \<Rightarrow> True | _ \<Rightarrow> False)"

lemma tokens_step:
  assumes "mstp_step b e b'" and "\<not> is_timeout e" and "distinct (map ms_address (bus_nodes b))"
  shows "tokens b' \<le> tokens b"
  using assms
proof (induction rule: mstp_step.induct)
  case (start i b)
  then show ?case by (intro tokens_act) (simp_all add: tokens_start)
next
  case (receive i b f fs)
  then show ?case by (intro tokens_act) (simp_all add: tokens_receive)
next
  case (enqueue i b dst npdu)
  then show ?case by (intro tokens_act) (simp_all add: tokens_of_def sent_tokens_def)
next
  case (inject f b)
  have "tokens_of (m\<lparr>ms_inbox := bus_push f (ms_inbox m)\<rparr>) \<le> tokens_of m" for m
    using tokens_for_push [of "ms_address m" f "ms_inbox m"] inject(1)
    by (simp add: tokens_of_def is_token_for_def)
  then show ?case by (auto simp: tokens_def bus_send_def intro!: sum_list_mono)
qed (simp add: is_timeout_def)

lemma tokens_run:
  assumes "mstp_run b evs b'" and "\<forall>e \<in> set evs. \<not> is_timeout e" and "distinct (map ms_address (bus_nodes b))"
  shows "tokens b' \<le> tokens b"
  using assms
proof (induction rule: mstp_run.induct)
  case (run_snoc b evs b' e b'')
  then have "tokens b'' \<le> tokens b'"
    using mstp_run_addresses [OF run_snoc.hyps(1)] by (intro tokens_step) auto
  with run_snoc show ?case by simp
qed simp

lemma sum_address_count: "sum_list (map (\<lambda>m. of_bool (ms_address m = a)) ns) = count_list (map ms_address ns) a"
  by (induction ns) auto

lemma distinct_count: "distinct xs \<Longrightarrow> count_list xs a \<le> 1"
  by (induction xs) (auto simp: count_list_0_iff)

lemma tokens_joined:
  assumes "joined mm as b" and "distinct as"
  shows "tokens b \<le> 1"
proof -
  have m: "ms_inbox m = []" if "m \<in> set (bus_nodes b)" for m
    using joined_member [OF assms(1) that] by (auto dest: ms_join_fields)
  have "tokens b = sum_list (map (\<lambda>m. of_bool (ms_address m = 0 \<and> \<not> ms_started m)) (bus_nodes b))"
    unfolding tokens_def by (rule arg_cong [where f = sum_list]) (simp add: tokens_of_def m)
  also have "\<dots> \<le> sum_list (map (\<lambda>m. of_bool (ms_address m = 0)) (bus_nodes b))"
    by (rule sum_list_mono) simp
  also have "\<dots> = count_list as 0"
    unfolding joined_addresses [OF assms(1), symmetric] by (rule sum_address_count)
  also have "\<dots> \<le> 1" using assms(2) by (rule distinct_count)
  finally show ?thesis .
qed

lemma live_le_tokens: "live_tokens b \<le> tokens b"
  unfolding live_tokens_def tokens_def by (rule sum_list_mono) (simp add: tokens_of_def)

subsection \<open>A gap in the addresses\<close>

text \<open>All tokens on the bus are for stations up to \<open>d\<close>.\<close>

definition tokens_up_to :: "u8 \<Rightarrow> mstp_frame list \<Rightarrow> bool" where
  "tokens_up_to d fs \<longleftrightarrow> (\<forall>f \<in> set fs. mstp_type f = MFT_Token \<longrightarrow> mstp_destination f \<le> d)"

lemma tokens_up_to_pushes:
  "tokens_up_to d fs \<Longrightarrow> tokens_up_to d gs \<Longrightarrow> tokens_up_to d (fold bus_push fs gs)"
proof (induction fs arbitrary: gs)
  case (Cons f fs)
  then have "tokens_up_to d (bus_push f gs)"
    by (cases gs) (simp_all add: tokens_up_to_def bus_push_def)
  moreover have "tokens_up_to d fs" using Cons.prems(1) by (simp add: tokens_up_to_def)
  ultimately show ?case using Cons.IH by simp
qed simp

text \<open>Nobody has address \<open>d\<close>, and nobody beyond it ever held the token.\<close>

definition below_gap :: "u8 \<Rightarrow> mstp_master \<Rightarrow> bool" where
  "below_gap d m \<longleftrightarrow> tokens_up_to d (ms_inbox m) \<and> ms_address m \<noteq> d \<and>
     (ms_address m < d \<longrightarrow> ms_next_station m \<le> d) \<and> (d < ms_address m \<longrightarrow> ms_token_received m = 0)"

lemma below_gap_act:
  assumes "\<forall>m \<in> set (bus_nodes b). below_gap d m" and "below_gap d (fst r)" and "tokens_up_to d (snd r)"
  shows "\<forall>m \<in> set (bus_nodes (bus_act i r b)). below_gap d m"
proof
  fix m
  assume "m \<in> set (bus_nodes (bus_act i r b))"
  then obtain n where m: "m = n\<lparr>ms_inbox := fold bus_push (snd r) (ms_inbox n)\<rparr>"
    and n: "n \<in> set ((bus_nodes b)[i := fst r])" by (auto simp: bus_act_nodes)
  from n assms(1,2) have "below_gap d n"
    using set_update_subset_insert [of "bus_nodes b" i "fst r"] by auto
  then show "below_gap d m" using assms(3) by (simp add: m below_gap_def tokens_up_to_pushes)
qed

lemma tokens_up_to_Cons [simp]:
  "tokens_up_to d [] = True"
  "tokens_up_to d (f # fs) \<longleftrightarrow> (mstp_type f = MFT_Token \<longrightarrow> mstp_destination f \<le> d) \<and> tokens_up_to d fs"
  by (simp_all add: tokens_up_to_def)

lemma below_gap_receive:
  assumes "below_gap d m" and "ms_inbox m = f # fs"
  shows "below_gap d (fst (ms_receive f (m\<lparr>ms_inbox := fs\<rparr>)))"
    and "tokens_up_to d (snd (ms_receive f (m\<lparr>ms_inbox := fs\<rparr>)))"
proof -
  have a: "ms_address m < d" if "is_token_for (ms_address m) f"
    using that assms by (auto simp: below_gap_def is_token_for_def)
  then show "below_gap d (fst (ms_receive f (m\<lparr>ms_inbox := fs\<rparr>)))"
    using assms by (auto simp: below_gap_def ms_receive_def ms_use_token_def Let_def split: list.split)
  from a show "tokens_up_to d (snd (ms_receive f (m\<lparr>ms_inbox := fs\<rparr>)))"
    using assms by (auto simp: below_gap_def ms_receive_def ms_use_token_def Let_def token_frame_def
        pass_token_def data_frame_def split: list.split)
qed

lemma below_gap_step:
  assumes "mstp_step b e b'" and "\<forall>m \<in> set (bus_nodes b). below_gap d m"
  shows "\<forall>m \<in> set (bus_nodes b'). below_gap d m"
  using assms
proof (induction rule: mstp_step.induct)
  case (start i b)
  then have "below_gap d (bus_nodes b ! i)" by simp
  with start(3) show ?case by (intro below_gap_act) (simp_all add: ms_start_def below_gap_def token_frame_def)
next
  case (receive i b f fs)
  then have "below_gap d (bus_nodes b ! i)" by simp
  from below_gap_receive [OF this receive(3)] receive(4) show ?case by (intro below_gap_act)
next
  case (timeout i b)
  then have "below_gap d (bus_nodes b ! i)" by simp
  with timeout(3) show ?case by (intro below_gap_act) (simp_all add: ms_timeout_def below_gap_def token_frame_def)
next
  case (enqueue i b dst npdu)
  then have "below_gap d (bus_nodes b ! i)" by simp
  with enqueue(3) show ?case by (intro below_gap_act) (simp_all add: below_gap_def)
next
  case (inject f b)
  then show ?case
    using tokens_up_to_pushes [of d "[f]"] by (auto simp: bus_send_def below_gap_def)
qed

lemma below_gap_run:
  assumes "mstp_run b evs b'" and "\<forall>m \<in> set (bus_nodes b). below_gap d m"
  shows "\<forall>m \<in> set (bus_nodes b'). below_gap d m"
  using assms by (induction rule: mstp_run.induct) (use below_gap_step in blast)+

lemma u8_mod_le: "x mod n \<le> x" for x n :: u8
  by (simp add: word_le_nat_alt unat_mod_distrib)

lemma next_station_bound: "a < d \<Longrightarrow> (a + 1) mod n \<le> d" for a d n :: u8
proof -
  assume "a < d"
  then have "a + 1 \<le> d" by (rule inc_le)
  with u8_mod_le [of "a + 1" n] show ?thesis by (rule order_trans)
qed

lemma below_gap_joined:
  assumes "joined mm as b" and "d \<notin> set as" and "m \<in> set (bus_nodes b)"
  shows "below_gap d m"
proof -
  obtain a where a: "a \<in> set as" "ms_join a mm = Ok m" using joined_member [OF assms(1,3)] by auto
  then have "a \<noteq> d" using assms(2) by auto
  with ms_join_fields [OF a(2)] show ?thesis by (auto simp: below_gap_def intro: next_station_bound)
qed

subsection \<open>A complete ring\<close>

text \<open>
  A ring of \<open>N\<close> masters with the addresses \<open>0\<close> to \<open>N - 1\<close> and nobody else on the bus.  After \<open>T\<close>
  tokens the next one is for station \<open>T mod N\<close>; \<open>visits\<close> counts those of a station.
\<close>

definition visits :: "nat \<Rightarrow> nat \<Rightarrow> nat \<Rightarrow> nat" where
  "visits N T i = length (filter (\<lambda>k. k mod N = i) [0..<T])"

lemma visits_Suc [simp]: "visits N (Suc T) i = visits N T i + of_bool (T mod N = i)"
  by (simp add: visits_def)

lemma visits_0 [simp]: "visits N 0 i = 0"
  by (simp add: visits_def)

text \<open>How many frames a receiver can have unread, at most two per token since its own.\<close>

definition unread_bound :: "nat \<Rightarrow> nat \<Rightarrow> nat \<Rightarrow> nat" where
  "unread_bound N T i = 2 * (if T \<le> i then T + 1 else (T - 1 - i) mod N + 1)"

definition ring_frame :: "mstp_frame \<Rightarrow> bool" where
  "ring_frame f \<longleftrightarrow> mstp_type f \<in> {MFT_Token, MFT_BacnetDataNotExpectingReply}"

definition token_last :: "nat \<Rightarrow> mstp_frame list \<Rightarrow> bool" where
  "token_last i fs \<longleftrightarrow>
     (\<exists>pre s. fs = pre @ [token_frame (of_nat i) s] \<and> tokens_for (of_nat i) pre = 0)"

definition ring_turn :: "nat \<Rightarrow> nat \<Rightarrow> nat \<Rightarrow> mstp_frame list \<Rightarrow> bool" where
  "ring_turn N T i fs \<longleftrightarrow> (if i = T mod N then token_last i fs else tokens_for (of_nat i) fs = 0)"

definition ring_node :: "nat \<Rightarrow> nat \<Rightarrow> nat \<Rightarrow> mstp_master \<Rightarrow> bool" where
  "ring_node N T i m \<longleftrightarrow>
     ms_address m = of_nat i \<and> ms_next_station m = of_nat (Suc i mod N) \<and>
     ms_token_received m = of_nat (visits N T i) \<and> (i = 0 \<longrightarrow> ms_started m) \<and>
     length (ms_inbox m) \<le> unread_bound N T i \<and> list_all ring_frame (ms_inbox m) \<and>
     ring_turn N T i (ms_inbox m)"

text \<open>What the master that uses the token sends: a data frame, if it has one, and the token.\<close>

definition ring_sends :: "nat \<Rightarrow> nat \<Rightarrow> mstp_frame list \<Rightarrow> bool" where
  "ring_sends N T fs \<longleftrightarrow> (\<exists>d s. fs = d @ [token_frame (of_nat (Suc T mod N)) s] \<and> length d \<le> 1 \<and>
     list_all (\<lambda>f. mstp_type f = MFT_BacnetDataNotExpectingReply) d)"

lemma bus_pushes_fit: "length gs + length fs \<le> bus_capacity \<Longrightarrow> fold bus_push fs gs = gs @ fs"
  by (induction fs arbitrary: gs) (simp_all add: bus_push_def)

lemma unread_bound_le: "0 < N \<Longrightarrow> i < N \<Longrightarrow> unread_bound N T i \<le> 2 * N"
  using mod_less_divisor [of N "T - Suc i"] by (simp add: unread_bound_def Suc_le_eq)

lemma unread_bound_other:
  assumes "i < N" and "i \<noteq> T mod N"
  shows "unread_bound N (Suc T) i = unread_bound N T i + 2"
proof (cases "T \<le> i")
  case True
  with assms have "T < i" by (cases "T = i") auto
  then show ?thesis by (simp add: unread_bound_def)
next
  case False
  then obtain k where k: "T = Suc (i + k)" by (metis add_Suc_right less_natE not_le add.commute)
  have "Suc (k mod N) \<noteq> N"
  proof
    assume "Suc (k mod N) = N"
    then have "(i + Suc k) mod N = i mod N" using assms(1)
      by (metis add.right_neutral mod_Suc mod_add_right_eq)
    with assms show False by (simp add: k)
  qed
  then show ?thesis using k by (simp add: unread_bound_def mod_Suc)
qed

lemma unread_bound_own: "i = T mod N \<Longrightarrow> unread_bound N (Suc T) i = 2"
  using mod_less_eq_dividend [of T N]
  by (simp add: unread_bound_def minus_mod_eq_mult_div not_less_eq_eq [symmetric] le_imp_less_Suc)

lemma unat_of_nat_u8: "i < 256 \<Longrightarrow> unat (of_nat i :: u8) = i"
  by (simp add: unsigned_of_nat take_bit_nat_eq_self)

lemma of_nat_u8_eq: "i < 256 \<Longrightarrow> j < 256 \<Longrightarrow> (of_nat i = (of_nat j :: u8)) \<longleftrightarrow> i = j"
  by (metis unat_of_nat_u8)

lemma ring_turn_drop:
  assumes "ring_turn N T i (f # fs)" and "\<not> is_token_for (of_nat i) f"
  shows "ring_turn N T i fs"
proof -
  have "token_last i fs" if last: "token_last i (f # fs)"
  proof -
    obtain pre s where "f # fs = pre @ [token_frame (of_nat i) s]" "tokens_for (of_nat i) pre = 0"
      using last by (auto simp: token_last_def)
    then show ?thesis using assms(2) by (cases pre) (auto simp: token_last_def)
  qed
  then show ?thesis using assms by (simp add: ring_turn_def split: if_splits)
qed

lemma ring_node_drop:
  assumes "ring_node N T i m" and "ms_inbox m = f # fs" and "\<not> is_token_for (of_nat i) f"
  shows "ring_node N T i (m\<lparr>ms_inbox := fs\<rparr>)"
  using assms ring_turn_drop [of N T i f fs] by (simp add: ring_node_def)

lemma ring_frame_sends: "ring_sends N T fs \<Longrightarrow> list_all ring_frame fs \<and> length fs \<le> 2"
  by (auto simp: ring_sends_def list_all_iff ring_frame_def token_frame_def)

lemma tokens_for_none: "list_all (\<lambda>f. mstp_type f = MFT_BacnetDataNotExpectingReply) d \<Longrightarrow> tokens_for a d = 0"
  by (auto simp: tokens_for_def list_all_iff is_token_for_def)

text \<open>Frames arrive at a station that did not send them: the token, if it is for it, is the last.\<close>

lemma ring_node_next:
  assumes "N \<le> 255" and "i < N" and "i \<noteq> T mod N" and "ring_node N T i m" and "ring_sends N T fs"
  shows "ring_node N (Suc T) i (m\<lparr>ms_inbox := ms_inbox m @ fs\<rparr>)"
proof -
  obtain d s where fs: "fs = d @ [token_frame (of_nat (Suc T mod N)) s]" "length d \<le> 1"
    and d: "list_all (\<lambda>f. mstp_type f = MFT_BacnetDataNotExpectingReply) d"
    using assms(5) by (auto simp: ring_sends_def)
  have t: "tokens_for (of_nat i) (ms_inbox m) = 0" using assms(3,4) by (simp add: ring_node_def ring_turn_def)
  have "Suc T mod N < 256" "i < 256" using assms(1,2) mod_less_divisor [of N "Suc T"] by linarith+
  then have e: "(of_nat i = (of_nat (Suc T mod N) :: u8)) \<longleftrightarrow> i = Suc T mod N"
    using of_nat_u8_eq [of i "Suc T mod N"] by simp
  have l: "length (ms_inbox m @ fs) \<le> unread_bound N (Suc T) i"
    using assms(4) fs(2) unread_bound_other [OF assms(2,3)] by (simp add: ring_node_def fs(1))
  have f: "list_all ring_frame (ms_inbox m @ fs)"
    using assms(4) ring_frame_sends [OF assms(5)] by (simp add: ring_node_def)
  have "ring_turn N (Suc T) i (ms_inbox m @ fs)"
  proof (cases "i = Suc T mod N")
    case True
    have "ms_inbox m @ fs = (ms_inbox m @ d) @ [token_frame (of_nat i) s]" using True by (simp add: fs(1))
    moreover have "tokens_for (of_nat i) (ms_inbox m @ d) = 0" using t tokens_for_none [OF d] by simp
    ultimately have "token_last i (ms_inbox m @ fs)" unfolding token_last_def by blast
    then show ?thesis using True by (simp add: ring_turn_def)
  next
    case False
    then show ?thesis using t e tokens_for_none [OF d] by (simp add: fs(1) ring_turn_def)
  qed
  then show ?thesis using assms(3,4) l f by (simp add: ring_node_def)
qed

text \<open>The station whose turn it is takes the token, sends, and has only its own frames unread.\<close>

lemma ms_use_token_sends:
  assumes "ms_next_station m = of_nat (Suc (T mod N) mod N)"
  shows "ring_sends N T (snd (ms_use_token m))"
proof (cases "ms_pending m")
  case Nil
  then show ?thesis using assms
    by (auto simp: ring_sends_def ms_use_token_def pass_token_def Let_def mod_Suc_eq
        intro: exI [of _ "[]"])
next
  case (Cons p rest)
  then show ?thesis using assms
    by (auto simp: ring_sends_def ms_use_token_def pass_token_def data_frame_def Let_def mod_Suc_eq
        split: prod.split intro!: exI [of _ "[data_frame m (fst p) (snd p) False]"])
qed

lemma ring_node_uses:
  assumes "N \<le> 255" and "i < N" and "i = T mod N" and "ring_node N T i m"
  shows "ring_node N (Suc T) i
      (fst (ms_use_token (m\<lparr>ms_inbox := []\<rparr>))\<lparr>ms_inbox := snd (ms_use_token (m\<lparr>ms_inbox := []\<rparr>))\<rparr>) \<and>
    ring_sends N T (snd (ms_use_token (m\<lparr>ms_inbox := []\<rparr>)))"
proof -
  let ?m = "m\<lparr>ms_inbox := []\<rparr>" and ?fs = "snd (ms_use_token (m\<lparr>ms_inbox := []\<rparr>))"
  have "ms_next_station ?m = of_nat (Suc (T mod N) mod N)" using assms(3,4) by (simp add: ring_node_def)
  then have s: "ring_sends N T ?fs" by (rule ms_use_token_sends)
  then obtain d s where fs: "?fs = d @ [token_frame (of_nat (Suc T mod N)) s]"
    and d: "list_all (\<lambda>f. mstp_type f = MFT_BacnetDataNotExpectingReply) d"
    by (auto simp: ring_sends_def)
  have "Suc T mod N < 256" "i < 256" using assms(1,2) mod_less_divisor [of N "Suc T"] by linarith+
  then have e: "(of_nat i = (of_nat (Suc T mod N) :: u8)) \<longleftrightarrow> i = Suc T mod N"
    using of_nat_u8_eq [of i "Suc T mod N"] by simp
  have turn: "ring_turn N (Suc T) i ?fs"
    using tokens_for_none [OF d, of "of_nat i"] e fs by (auto simp: ring_turn_def token_last_def)
  have f: "ms_address (fst (ms_use_token ?m)) = of_nat i" "ms_next_station (fst (ms_use_token ?m)) = of_nat (Suc i mod N)"
    "ms_token_received (fst (ms_use_token ?m)) = of_nat (visits N (Suc T) i)" "i = 0 \<longrightarrow> ms_started (fst (ms_use_token ?m))"
    using assms(3,4) by (auto simp: ring_node_def ms_use_token_def Let_def split: list.split)
  show ?thesis using s ring_frame_sends [OF s] unread_bound_own [OF assms(3)] turn f
    by (simp add: ring_node_def)
qed

text \<open>
  The stations the tokens on the bus were passed to, oldest first, and the frames a station took
  off its receiver.
\<close>

definition token_route :: "mstp_bus \<Rightarrow> u8 list" where
  "token_route b =
     map mstp_destination (filter (\<lambda>f. mstp_type f = MFT_Token) (map snd (bus_log b)))"

definition received_by :: "nat \<Rightarrow> mstp_event list \<Rightarrow> nat" where
  "received_by i evs = length (filter (\<lambda>e. e = Ev_Receive i) evs)"

definition in_turn :: "nat \<Rightarrow> nat \<Rightarrow> u8 list" where
  "in_turn N S = map (\<lambda>k. of_nat (k mod N)) [0..<S]"

lemma token_route_act:
  "token_route (bus_act i r b) =
     token_route b @ map mstp_destination (filter (\<lambda>f. mstp_type f = MFT_Token) (snd r))"
  by (simp add: token_route_def bus_act_nodes comp_def)

lemma token_route_sends:
  assumes "ring_sends N T (snd r)"
  shows "token_route (bus_act i r b) = token_route b @ [of_nat (Suc T mod N)]"
proof -
  obtain d s where fs: "snd r = d @ [token_frame (of_nat (Suc T mod N)) s]"
    and d: "list_all (\<lambda>f. mstp_type f = MFT_BacnetDataNotExpectingReply) d"
    using assms by (auto simp: ring_sends_def)
  have "filter (\<lambda>f. mstp_type f = MFT_Token) d = []"
    using d by (auto simp: filter_empty_conv list_all_iff)
  then show ?thesis by (simp add: token_route_act fs token_frame_def)
qed

lemma in_turn_Suc [simp]: "in_turn N (Suc S) = in_turn N S @ [of_nat (S mod N)]"
  by (simp add: in_turn_def)

lemma in_turn_0 [simp]: "in_turn N 0 = []"
  by (simp add: in_turn_def)

text \<open>
  The invariant of the ring after \<open>T\<close> tokens were taken and \<open>R i\<close> frames received by station
  \<open>i\<close>: every station is where its turn says, the tokens went round in order, and no frame was
  lost, so what a station received and what it has unread is all that was sent.
\<close>

definition ring_at :: "nat \<Rightarrow> nat \<Rightarrow> (nat \<Rightarrow> nat) \<Rightarrow> mstp_bus \<Rightarrow> bool" where
  "ring_at N T R b \<longleftrightarrow> length (bus_nodes b) = N \<and>
     (\<forall>i < N. ring_node N T i (bus_nodes b ! i) \<and>
       R i + length (ms_inbox (bus_nodes b ! i)) = length (bus_log b)) \<and>
     length (bus_log b) \<le> 2 * T + 1 \<and> token_route b = in_turn N (Suc T)"

definition of_ring :: "mstp_event \<Rightarrow> bool" where
  "of_ring e = (case e of Ev_Timeout _ \<Rightarrow> False | Ev_Inject _ \<Rightarrow> False | _ \<Rightarrow> True)"

lemma bus_act_nodes_fit:
  assumes "\<forall>m \<in> set ((bus_nodes b)[i := fst r]). length (ms_inbox m) + length (snd r) \<le> bus_capacity"
  shows "bus_nodes (bus_act i r b) = map (\<lambda>m. m\<lparr>ms_inbox := ms_inbox m @ snd r\<rparr>) ((bus_nodes b)[i := fst r])"
  unfolding bus_act_nodes by (rule map_cong) (use assms in \<open>simp_all add: bus_pushes_fit\<close>)

lemma ring_at_quiet:
  assumes "ring_at N T R b" and "i < N" and "ring_node N T i m"
    and "length (ms_inbox m) + k = length (ms_inbox (bus_nodes b ! i))"
    and "\<And>j. R' j = R j + (if i = j then k else 0)"
  shows "ring_at N T R' (bus_act i (m, []) b)"
  using assms by (auto simp: ring_at_def bus_act_nodes nth_list_update token_route_act)

lemma ring_node_fits:
  assumes "N \<le> 255" and "i < N" and "ring_node N T i m"
  shows "length (ms_inbox m) + 2 \<le> bus_capacity"
  using assms unread_bound_le [of N i T] by (simp add: ring_node_def bus_capacity_def)

lemma ring_at_token:
  assumes "ring_at N T R b" and "N \<le> 255" and "i < N" and "i = T mod N"
    and "ms_inbox (bus_nodes b ! i) = [f]" and "\<And>j. R' j = R j + of_bool (i = j)"
  shows "ring_at N (Suc T) R' (bus_act i (ms_use_token ((bus_nodes b ! i)\<lparr>ms_inbox := []\<rparr>)) b)"
proof -
  let ?m = "bus_nodes b ! i"
  let ?r = "ms_use_token (?m\<lparr>ms_inbox := []\<rparr>)"
  have l: "length (bus_nodes b) = N" and nodes: "\<And>j. j < N \<Longrightarrow> ring_node N T j (bus_nodes b ! j)"
    using assms(1) by (auto simp: ring_at_def)
  note use = ring_node_uses [OF assms(2-4) nodes [OF assms(3)]]
  have two: "length (snd ?r) \<le> 2" using use ring_frame_sends by blast
  have own: "ms_inbox (fst ?r) = []" by (simp add: ms_use_token_def Let_def split: list.split)
  have fit: "\<forall>n \<in> set ((bus_nodes b)[i := fst ?r]). length (ms_inbox n) + length (snd ?r) \<le> bus_capacity"
  proof
    fix n
    assume "n \<in> set ((bus_nodes b)[i := fst ?r])"
    then have "n = fst ?r \<or> n \<in> set (bus_nodes b)"
      using set_update_subset_insert [of "bus_nodes b" i "fst ?r"] by auto
    then consider "n = fst ?r" | j where "j < N" "n = bus_nodes b ! j"
      using l by (metis in_set_conv_nth)
    then show "length (ms_inbox n) + length (snd ?r) \<le> bus_capacity"
    proof cases
      case 1
      then show ?thesis using own two by (simp add: bus_capacity_def)
    next
      case (2 j)
      then show ?thesis using ring_node_fits [OF assms(2) _ nodes] two by fastforce
    qed
  qed
  have ns: "bus_nodes (bus_act i ?r b) = map (\<lambda>m. m\<lparr>ms_inbox := ms_inbox m @ snd ?r\<rparr>) ((bus_nodes b)[i := fst ?r])"
    by (rule bus_act_nodes_fit [OF fit])
  have "ring_node N (Suc T) j (bus_nodes (bus_act i ?r b) ! j)" if j: "j < N" for j
  proof (cases "j = i")
    case True
    then show ?thesis using use own j l by (simp add: ns)
  next
    case False
    with assms(4) have "j \<noteq> T mod N" by simp
    from ring_node_next [OF assms(2) j this nodes [OF j], of "snd ?r"] use False j l show ?thesis
      by (simp add: ns)
  qed
  moreover have "R' j + length (ms_inbox (bus_nodes (bus_act i ?r b) ! j)) = length (bus_log (bus_act i ?r b))"
    if j: "j < N" for j
    using assms(1,5,6) own l j by (cases "j = i") (auto simp: ring_at_def ns bus_act_nodes(2))
  moreover have "token_route (bus_act i ?r b) = in_turn N (Suc (Suc T))"
    using assms(1) token_route_sends [of N T ?r i b] use
    by (simp add: ring_at_def)
  ultimately show ?thesis using assms(1) l two by (simp add: ring_at_def ns bus_act_nodes(2))
qed

lemma ring_at_step:
  assumes "mstp_step b e b'" and "of_ring e" and "ring_at N T R b" and "N \<le> 255"
  shows "\<exists>T'. ring_at N T' (\<lambda>j. R j + of_bool (e = Ev_Receive j)) b'"
  using assms
proof (induction rule: mstp_step.induct)
  case (start i b)
  then have i: "i < N" "ring_node N T i (bus_nodes b ! i)" by (auto simp: ring_at_def)
  then have "ms_address (bus_nodes b ! i) \<noteq> 0"
    using start(2,5) of_nat_u8_eq [of i 0] by (auto simp: ring_node_def)
  then have "ms_start (bus_nodes b ! i) = ((bus_nodes b ! i)\<lparr>ms_started := True\<rparr>, [])"
    by (simp add: ms_start_def)
  then show ?case
    using ring_at_quiet [OF start(4) i(1), of "(bus_nodes b ! i)\<lparr>ms_started := True\<rparr>" 0 R] i(2)
    by (auto simp: ring_node_def)
next
  case (receive i b f fs)
  let ?m = "bus_nodes b ! i"
  have i: "i < N" "ring_node N T i ?m" using receive(1,5) by (auto simp: ring_at_def)
  show ?case
  proof (cases "is_token_for (of_nat i) f")
    case True
    have turn: "ring_turn N T i (f # fs)" using i(2) receive(3) by (simp add: ring_node_def)
    with True have it: "i = T mod N" by (auto simp: ring_turn_def split: if_splits)
    with turn obtain pre s where p: "f # fs = pre @ [token_frame (of_nat i) s]" "tokens_for (of_nat i) pre = 0"
      by (auto simp: ring_turn_def token_last_def)
    with True have "fs = []" by (cases pre) auto
    with ring_at_token [OF receive(5,6) i(1) it, of f "\<lambda>j. R j + of_bool (i = j)"] receive(3)
    have "ring_at N (Suc T) (\<lambda>j. R j + of_bool (i = j)) (bus_act i (ms_use_token (?m\<lparr>ms_inbox := []\<rparr>)) b)"
      by simp
    moreover have "ms_receive f (?m\<lparr>ms_inbox := fs\<rparr>) = ms_use_token (?m\<lparr>ms_inbox := []\<rparr>)"
      using i(2) True \<open>fs = []\<close> by (simp add: ms_receive_def ring_node_def)
    ultimately show ?thesis unfolding mstp_event.inject by metis
  next
    case False
    have "mstp_type f \<noteq> MFT_PollForMaster" using i(2) receive(3) by (auto simp: ring_node_def ring_frame_def)
    with False have "ms_receive f (?m\<lparr>ms_inbox := fs\<rparr>) = (?m\<lparr>ms_inbox := fs\<rparr>, [])"
      using i(2) by (simp add: ms_receive_def ring_node_def)
    then show ?thesis
      using ring_at_quiet [OF receive(5) i(1) ring_node_drop [OF i(2) receive(3) False], of 1 "\<lambda>j. R j + of_bool (i = j)"]
        receive(3)
      by (intro exI [of _ T]) (simp add: of_bool_def)
  qed
next
  case (enqueue i b dst npdu)
  then have i: "i < N" "ring_node N T i (bus_nodes b ! i)" by (auto simp: ring_at_def)
  then show ?case
    using ring_at_quiet [OF enqueue(4) i(1), of "(bus_nodes b ! i)\<lparr>ms_pending := ms_pending (bus_nodes b ! i) @ [(dst, npdu)]\<rparr>" 0 R]
    by (auto simp: ring_node_def)
qed (simp_all add: of_ring_def)

text \<open>Before the master of address 0 starts, nothing happens.\<close>

definition ring_idle :: "nat \<Rightarrow> mstp_bus \<Rightarrow> bool" where
  "ring_idle N b \<longleftrightarrow> length (bus_nodes b) = N \<and> bus_log b = [] \<and> \<not> ms_started (bus_nodes b ! 0) \<and>
     (\<forall>i < N. let m = bus_nodes b ! i in ms_address m = of_nat i \<and> ms_inbox m = [] \<and>
       ms_next_station m = of_nat (Suc i mod N) \<and> ms_token_received m = 0)"

lemma ring_idle_start:
  assumes "ring_idle N b" and "0 < N" and "N \<le> 255"
  shows "ring_at N 0 (\<lambda>_. 0) (bus_act 0 (ms_start (bus_nodes b ! 0)) b)"
proof -
  let ?m = "(bus_nodes b ! 0)\<lparr>ms_started := True\<rparr>" and ?t = "token_frame 0 0"
  have l: "length (bus_nodes b) = N" using assms(1) by (simp add: ring_idle_def)
  have st: "ms_start (bus_nodes b ! 0) = (?m, [?t])"
    using assms(1,2) by (auto simp: ring_idle_def ms_start_def Let_def)
  have e: "\<forall>n \<in> set ((bus_nodes b)[0 := ?m]). ms_inbox n = []"
  proof
    fix n
    assume "n \<in> set ((bus_nodes b)[0 := ?m])"
    then have "n = ?m \<or> n \<in> set (bus_nodes b)" using set_update_subset_insert [of "bus_nodes b" 0 ?m] by auto
    then show "ms_inbox n = []" using assms(1,2) l by (auto simp: ring_idle_def Let_def in_set_conv_nth)
  qed
  then have fit: "\<forall>n \<in> set ((bus_nodes b)[0 := fst (?m, [?t])]).
      length (ms_inbox n) + length (snd (?m, [?t])) \<le> bus_capacity"
    by (simp add: bus_capacity_def)
  have ns: "bus_nodes (bus_act 0 (?m, [?t]) b) = map (\<lambda>m. m\<lparr>ms_inbox := [?t]\<rparr>) ((bus_nodes b)[0 := ?m])"
    unfolding bus_act_nodes_fit [OF fit] by (rule map_cong) (use e in simp_all)
  have "ring_node N 0 i (bus_nodes (bus_act 0 (?m, [?t]) b) ! i)" if i: "i < N" for i
  proof -
    have "ring_turn N 0 i [?t]"
      using i assms of_nat_u8_eq [of i 0] by (auto simp: ring_turn_def token_last_def)
    moreover have "bus_nodes (bus_act 0 (?m, [?t]) b) ! i = ((bus_nodes b)[0 := ?m] ! i)\<lparr>ms_inbox := [?t]\<rparr>"
      using i l by (simp add: ns)
    moreover have "ring_frame ?t" by (simp add: ring_frame_def token_frame_def)
    ultimately show ?thesis
      using i l assms(1) by (cases "i = 0") (simp_all add: ring_node_def ring_idle_def Let_def unread_bound_def)
  qed
  moreover have "token_route (bus_act 0 (?m, [?t]) b) = in_turn N (Suc 0)"
    using assms(1) by (simp add: token_route_act ring_idle_def token_frame_def)
      (simp add: token_route_def)
  ultimately show ?thesis using assms(1) l
    by (simp add: st ring_at_def bus_act_nodes(2) ns ring_idle_def)
qed

lemma ring_idle_step:
  assumes "mstp_step b e b'" and "of_ring e" and "ring_idle N b" and "0 < N" and "N \<le> 255"
  shows "(ring_idle N b' \<or> ring_at N 0 (\<lambda>_. 0) b') \<and> (\<forall>j. e \<noteq> Ev_Receive j)"
  using assms
proof (induction rule: mstp_step.induct)
  case (start i b)
  show ?case
  proof (cases "i = 0")
    case True
    then show ?thesis using ring_idle_start [OF start(4-6)] by simp
  next
    case False
    then have "ms_address (bus_nodes b ! i) \<noteq> 0"
      using start(1,4,6) of_nat_u8_eq [of i 0] by (auto simp: ring_idle_def Let_def)
    then show ?thesis using start(1,4) False
      by (auto simp: ring_idle_def ms_start_def bus_act_nodes Let_def nth_list_update)
  qed
next
  case (receive i b f fs)
  then show ?case by (auto simp: ring_idle_def Let_def)
next
  case (enqueue i b dst npdu)
  then show ?case
    by (auto simp: ring_idle_def bus_act_nodes Let_def nth_list_update)
qed (simp_all add: of_ring_def)

lemma received_by_simps [simp]:
  "received_by i [] = 0"
  "received_by i (evs @ [e]) = received_by i evs + of_bool (e = Ev_Receive i)"
  by (simp_all add: received_by_def)

lemma ring_run:
  assumes "mstp_run b evs b'" and "\<forall>e \<in> set evs. of_ring e" and "ring_idle N b" and "0 < N" and "N \<le> 255"
  shows "ring_idle N b' \<and> (\<forall>i. received_by i evs = 0) \<or> (\<exists>T. ring_at N T (\<lambda>i. received_by i evs) b')"
  using assms
proof (induction rule: mstp_run.induct)
  case (run_snoc b evs b' e b'')
  then have e: "of_ring e" and IH: "ring_idle N b' \<and> (\<forall>i. received_by i evs = 0) \<or>
      (\<exists>T. ring_at N T (\<lambda>i. received_by i evs) b')"
    by auto
  from IH show ?case
  proof (elim disjE conjE exE)
    assume "ring_idle N b'" and "\<forall>i. received_by i evs = 0"
    with ring_idle_step [OF run_snoc(2) e _ run_snoc(6,7)] show ?thesis by auto
  next
    fix T
    assume "ring_at N T (\<lambda>i. received_by i evs) b'"
    from ring_at_step [OF run_snoc(2) e this run_snoc(7)] show ?thesis by auto
  qed
qed simp

definition ring_addresses :: "nat \<Rightarrow> u8 list" where
  "ring_addresses N = map of_nat [0..<N]"

lemma ring_idle_joined:
  assumes "joined (of_nat (N - 1)) (ring_addresses N) b" and "0 < N" and "N \<le> 255"
  shows "ring_idle N b"
proof -
  have l: "length (bus_nodes b) = N"
    using joined_addresses [OF assms(1)] by (metis length_map length_upt minus_nat.diff_0 ring_addresses_def)
  have m: "ms_join (of_nat i) (of_nat (N - 1)) = Ok (bus_nodes b ! i)" if "i < N" for i
    using joined_nth [OF assms(1), of i] that by (simp add: ring_addresses_def)
  have n: "(of_nat i + 1 :: u8) mod (of_nat (N - 1) + 1) = of_nat (Suc i mod N)" if "i < N" for i
  proof -
    have lt: "Suc i mod N < 256" using assms(2,3) mod_less_divisor [of N "Suc i"] by linarith
    have i: "(of_nat i + 1 :: u8) = of_nat (Suc i)" by simp
    have n: "(of_nat (N - 1) + 1 :: u8) = of_nat N"
      using assms(2) by (metis Suc_pred' add.commute of_nat_Suc)
    have "unat ((of_nat (Suc i) :: u8) mod of_nat N) = Suc i mod N"
      using assms(2,3) that unat_of_nat_u8 [of "Suc i"] unat_of_nat_u8 [of N]
      by (simp add: unat_mod_distrib del: of_nat_Suc)
    then show ?thesis
      unfolding i n by (simp only: word_unat_eq_iff unat_of_nat_u8 [OF lt])
  qed
  show ?thesis
    using l m [THEN ms_join_fields] n assms(1,2) by (auto simp: ring_idle_def Let_def joined_def)
qed

lemma visits_eq: "i < N \<Longrightarrow> visits N T i = T div N + of_bool (i < T mod N)"
proof (induction T)
  case (Suc T)
  then show ?case by (auto simp: mod_Suc div_Suc)
qed simp

text \<open>Some master of the ring can always go on.\<close>

lemma ring_progress:
  assumes "ring_idle N b \<or> ring_at N T R b" and "0 < N"
  shows "\<exists>e b'. mstp_step b e b' \<and> (\<exists>i. e = Ev_Start i \<or> e = Ev_Receive i)"
  using assms(1)
proof
  assume "ring_idle N b"
  then have "0 < length (bus_nodes b)" "\<not> ms_started (bus_nodes b ! 0)"
    using assms(2) by (auto simp: ring_idle_def)
  then show ?thesis by (blast intro: mstp_step.start)
next
  assume at: "ring_at N T R b"
  let ?m = "bus_nodes b ! (T mod N)"
  have l: "T mod N < length (bus_nodes b)" using at assms(2) by (simp add: ring_at_def)
  then have "ring_node N T (T mod N) ?m" using at by (simp add: ring_at_def)
  then obtain f fs where "ms_inbox ?m = f # fs"
    by (cases "ms_inbox ?m") (auto simp: ring_node_def ring_turn_def token_last_def)
  with l show ?thesis
    by (cases "ms_started ?m") (blast intro: mstp_step.start mstp_step.receive)+
qed

subsection \<open>The data frames of a master\<close>

definition data_of :: "mstp_frame list \<Rightarrow> (u8 \<times> bytes) list" where
  "data_of fs = map (\<lambda>f. (mstp_destination f, mstp_data f))
     (filter (\<lambda>f. mstp_type f = MFT_BacnetDataNotExpectingReply) fs)"

definition sent_data :: "nat \<Rightarrow> mstp_bus \<Rightarrow> (u8 \<times> bytes) list" where
  "sent_data i b = data_of (map snd (filter (\<lambda>(src, _). src = Some i) (bus_log b)))"

fun enqueued_by :: "nat \<Rightarrow> mstp_event \<Rightarrow> (u8 \<times> bytes) list" where
  "enqueued_by i (Ev_Enqueue j dst npdu) = (if i = j then [(dst, npdu)] else [])"
| "enqueued_by i _ = []"

lemma data_of_simps [simp]:
  "data_of [] = []" "data_of (token_frame d s # fs) = data_of fs"
  "data_of (data_frame m d x False # fs) = (d, x) # data_of fs"
  by (simp_all add: data_of_def token_frame_def data_frame_def)

lemma sent_data_act: "sent_data i (bus_act j r b) = sent_data i b @ (if i = j then data_of (snd r) else [])"
  by (simp add: sent_data_def bus_act_nodes data_of_def comp_def filter_map)

lemma sent_data_send [simp]: "sent_data i (bus_send None f b) = sent_data i b"
  by (simp add: sent_data_def bus_send_def)

lemma data_of_receive:
  "data_of (snd (ms_receive f m)) @ ms_pending (fst (ms_receive f m)) = ms_pending m"
  by (simp add: ms_receive_def ms_use_token_def pass_token_def data_of_def token_frame_def data_frame_def Let_def
      split: list.split)

lemma data_only_with_token:
  "data_of (snd (ms_receive f m)) \<noteq> [] \<Longrightarrow> is_token_for (ms_address m) f"
  by (auto simp: ms_receive_def data_of_def split: if_splits)

lemma pending_act:
  "i < length (bus_nodes b) \<Longrightarrow>
   ms_pending (bus_nodes (bus_act j r b) ! i) = ms_pending (if i = j then fst r else bus_nodes b ! i)"
  by (simp add: bus_act_nodes nth_list_update)

lemma pending_send:
  "i < length (bus_nodes b) \<Longrightarrow>
   ms_pending (bus_nodes (bus_send None f b) ! i) = ms_pending (bus_nodes b ! i)"
  by (simp add: bus_send_def)

lemma fifo_step:
  assumes "mstp_step b e b'" and "i < length (bus_nodes b)"
  shows "sent_data i b' @ ms_pending (bus_nodes b' ! i) =
    sent_data i b @ ms_pending (bus_nodes b ! i) @ enqueued_by i e"
  using assms
proof (induction rule: mstp_step.induct)
  case (start j b)
  then show ?case by (simp add: sent_data_act pending_act ms_start_def)
next
  case (receive j b f fs)
  then show ?case
    using data_of_receive [of f "(bus_nodes b ! j)\<lparr>ms_inbox := fs\<rparr>"] by (simp add: sent_data_act pending_act)
next
  case (timeout j b)
  then show ?case by (simp add: sent_data_act pending_act ms_timeout_def)
next
  case (enqueue j b dst npdu)
  then show ?case by (simp add: sent_data_act pending_act)
next
  case (inject f b)
  then show ?case by (simp add: pending_send)
qed

lemma fifo_run:
  assumes "mstp_run b evs b'" and "i < length (bus_nodes b)"
  shows "sent_data i b' @ ms_pending (bus_nodes b' ! i) =
    sent_data i b @ ms_pending (bus_nodes b ! i) @ concat (map (enqueued_by i) evs)"
  using assms
proof (induction rule: mstp_run.induct)
  case (run_snoc b evs b' e b'')
  have "length (bus_nodes b') = length (bus_nodes b)"
    using arg_cong [OF mstp_run_addresses [OF run_snoc(1)], of length] by simp
  with fifo_step [OF run_snoc(2), of i] run_snoc(3,4) show ?case by simp
qed simp

lemma sent_data_step:
  assumes "mstp_step b e b'" and "sent_data i b' \<noteq> sent_data i b"
  shows "\<exists>f fs. e = Ev_Receive i \<and> ms_inbox (bus_nodes b ! i) = f # fs \<and>
    is_token_for (ms_address (bus_nodes b ! i)) f"
  using assms
proof (induction rule: mstp_step.induct)
  case (receive j b f fs)
  then show ?case
    using data_only_with_token [of f "(bus_nodes b ! j)\<lparr>ms_inbox := fs\<rparr>"]
    by (auto simp: sent_data_act split: if_splits)
qed (simp_all add: sent_data_act ms_start_def ms_timeout_def split: if_splits)

lemma joined_start:
  assumes "joined mm as b" and "i < length as"
  shows "i < length (bus_nodes b)" and "ms_pending (bus_nodes b ! i) = []" and "sent_data i b = []"
  using assms ms_join_fields [OF joined_nth [OF assms]]
  by (auto simp: joined_def sent_data_def list_all2_lengthD)

subsection \<open>Running the relation\<close>

fun mstp_exec :: "mstp_bus \<Rightarrow> mstp_event \<Rightarrow> mstp_bus option" where
  "mstp_exec b (Ev_Start i) =
     (if i < length (bus_nodes b) \<and> \<not> ms_started (bus_nodes b ! i)
      then Some (bus_act i (ms_start (bus_nodes b ! i)) b) else None)"
| "mstp_exec b (Ev_Receive i) =
     (if i < length (bus_nodes b) \<and> ms_started (bus_nodes b ! i)
      then (case ms_inbox (bus_nodes b ! i) of
              [] \<Rightarrow> None
            | f # fs \<Rightarrow> Some (bus_act i (ms_receive f ((bus_nodes b ! i)\<lparr>ms_inbox := fs\<rparr>)) b))
      else None)"
| "mstp_exec b (Ev_Timeout i) =
     (if i < length (bus_nodes b) \<and> ms_started (bus_nodes b ! i)
      then Some (bus_act i (ms_timeout (bus_nodes b ! i)) b) else None)"
| "mstp_exec b (Ev_Enqueue i dst npdu) =
     (if i < length (bus_nodes b) \<and> length (ms_pending (bus_nodes b ! i)) < 64
      then Some (bus_act i ((bus_nodes b ! i)\<lparr>ms_pending := ms_pending (bus_nodes b ! i) @ [(dst, npdu)]\<rparr>, []) b)
      else None)"
| "mstp_exec b (Ev_Inject f) = (if mstp_type f \<noteq> MFT_Token then Some (bus_send None f b) else None)"

lemma mstp_step_exec: "mstp_step b e b' \<longleftrightarrow> mstp_exec b e = Some b'"
proof
  show "mstp_step b e b' \<Longrightarrow> mstp_exec b e = Some b'" by (induction rule: mstp_step.induct) simp_all
  show "mstp_exec b e = Some b' \<Longrightarrow> mstp_step b e b'"
    by (cases e) (auto intro: mstp_step.intros split: if_splits list.splits)
qed

fun mstp_execs :: "mstp_bus \<Rightarrow> mstp_event list \<Rightarrow> mstp_bus option" where
  "mstp_execs b [] = Some b"
| "mstp_execs b (e # es) = Option.bind (mstp_exec b e) (\<lambda>b'. mstp_execs b' es)"

lemma mstp_run_Cons: "mstp_run b' es b'' \<Longrightarrow> mstp_step b e b' \<Longrightarrow> mstp_run b (e # es) b''"
proof (induction rule: mstp_run.induct)
  case (run_Nil b')
  then show ?case using mstp_run.run_snoc [OF mstp_run.run_Nil] by fastforce
next
  case (run_snoc b1 evs b2 e' b3)
  then show ?case using mstp_run.run_snoc by fastforce
qed

lemma mstp_execs_run: "mstp_execs b es = Some b' \<Longrightarrow> mstp_run b es b'"
  by (induction es arbitrary: b)
    (auto simp: bind_eq_Some_conv intro: mstp_run.run_Nil mstp_run_Cons mstp_step_exec [THEN iffD2])

definition example_bus :: "u8 \<Rightarrow> u8 list \<Rightarrow> mstp_bus" where
  "example_bus mm as = \<lparr>bus_nodes = map (\<lambda>a.
     \<lparr>ms_address = a, ms_max_master = mm, ms_state = MS_Initialize,
      ms_next_station = (a + 1) mod (mm + 1), ms_token_count = 0, ms_token_received = 0,
      ms_pending = [], ms_inbox = [], ms_started = False\<rparr>) as, bus_log = []\<rparr>"

lemma joined_example: "mm \<noteq> 255 \<Longrightarrow> 255 \<notin> set as \<Longrightarrow> joined mm as (example_bus mm as)"
  by (auto simp: joined_def example_bus_def ms_join_def list_all2_map2 intro!: list.rel_refl_strong)

text \<open>Without the condition on timeouts the token is not unique: a restart adds a second one.\<close>

lemma timeout_duplicates_token:
  "\<exists>b'. mstp_run (example_bus 1 [0, 1]) [Ev_Start 0, Ev_Timeout 0] b' \<and> live_tokens b' = 2"
proof -
  let ?b = "example_bus 1 [0, 1]" and ?evs = "[Ev_Start 0, Ev_Timeout 0]"
  let ?b' = "the (mstp_execs ?b ?evs)"
  have "mstp_execs ?b ?evs = Some ?b'" by code_simp
  then have "mstp_run ?b ?evs ?b'" by (rule mstp_execs_run)
  moreover have "live_tokens ?b' = 2" by code_simp
  ultimately show ?thesis by blast
qed

subsection \<open>Properties\<close>

text \<open>
  C9. Whatever the addresses on the bus, as long as they differ and no master times out, at most one
  token is live, and a master sends data only in the step in which it takes that token, so two
  masters never hold the bus at once.
\<close>

theorem token_is_exclusive:
  assumes "joined mm as b" and "distinct as" and "mstp_run b evs b'" and "\<forall>e \<in> set evs. \<not> is_timeout e"
  shows "live_tokens b' \<le> 1 \<and>
    (\<forall>e b'' i. mstp_step b' e b'' \<and> sent_data i b'' \<noteq> sent_data i b' \<longrightarrow>
      (\<exists>f fs. e = Ev_Receive i \<and> ms_inbox (bus_nodes b' ! i) = f # fs \<and>
        is_token_for (ms_address (bus_nodes b' ! i)) f))"
  using tokens_run [OF assms(3,4)] tokens_joined [OF assms(1,2)] live_le_tokens [of b']
    joined_addresses [OF assms(1)] assms(2) sent_data_step by simp blast

theorem token_is_exclusive_witness:
  "\<exists>b'. mstp_run (example_bus 3 [3, 0, 1]) [Ev_Start 1, Ev_Start 2, Ev_Receive 1] b' \<and> live_tokens b' = 1"
proof -
  let ?b = "example_bus 3 [3, 0, 1]" and ?evs = "[Ev_Start 1, Ev_Start 2, Ev_Receive 1]"
  let ?b' = "the (mstp_execs ?b ?evs)"
  have "mstp_execs ?b ?evs = Some ?b'" by code_simp
  then have r: "mstp_run ?b ?evs ?b'" by (rule mstp_execs_run)
  have j: "joined 3 [3, 0, 1] ?b" by (rule joined_example) simp_all
  have "live_tokens ?b' \<le> 1"
    using token_is_exclusive [OF j _ r] by (simp add: is_timeout_def)
  moreover have "live_tokens ?b' \<noteq> 0" by code_simp
  ultimately show ?thesis using r by (intro exI [of _ ?b']) simp
qed

text \<open>
  C5. In a complete ring of at most 255 masters, nobody else on the bus and no master timing out,
  however the masters are scheduled and whatever is queued, the token goes round.  Let \<open>S\<close> be the
  number of tokens sent so far: they were sent to the stations \<open>0, 1, \<dots>, N - 1, 0, \<dots>\<close> in this order;
  all but the last have been taken, so the counter of station \<open>i\<close> is the number of its turns among
  the first \<open>S - 1\<close> (in its 64 bits).  No frame is lost: what a station has received and what its
  receiver still holds, at most \<open>2 N\<close> of the 512 slots, is every frame sent.  No station receives
  more than \<open>2 S\<close> frames, so the token moves on with every two, and some master can always go on.
\<close>

theorem token_goes_round:
  assumes "joined (of_nat (N - 1)) (ring_addresses N) b" and "0 < N" and "N \<le> 255"
    and "mstp_run b evs b'" and "\<forall>e \<in> set evs. of_ring e" and "S = length (token_route b')"
  shows "(\<forall>k < S. token_route b' ! k = of_nat (k mod N)) \<and>
    (\<forall>i < N. ms_token_received (bus_nodes b' ! i) =
       of_nat ((S - 1) div N + of_bool (i < (S - 1) mod N))) \<and>
    (\<forall>i < N. received_by i evs + length (ms_inbox (bus_nodes b' ! i)) = length (bus_log b') \<and>
       length (ms_inbox (bus_nodes b' ! i)) \<le> 2 * N \<and> received_by i evs \<le> 2 * S) \<and>
    (\<exists>e b''. mstp_step b' e b'' \<and> (\<exists>i. e = Ev_Start i \<or> e = Ev_Receive i))"
proof -
  from ring_run [OF assms(4,5) ring_idle_joined [OF assms(1-3)] assms(2,3)]
  consider (idle) "ring_idle N b'" "\<forall>i. received_by i evs = 0"
    | (ring) T where "ring_at N T (\<lambda>i. received_by i evs) b'" by blast
  then show ?thesis
  proof cases
    case idle
    then have "\<exists>e b''. mstp_step b' e b'' \<and> (\<exists>i. e = Ev_Start i \<or> e = Ev_Receive i)"
      using ring_progress assms(2) by blast
    with idle show ?thesis by (simp add: assms(6) ring_idle_def token_route_def Let_def)
  next
    case (ring T)
    have S: "S = Suc T" "token_route b' = in_turn N (Suc T)" "length (bus_log b') \<le> 2 * T + 1"
      using ring assms(6) by (simp_all add: ring_at_def in_turn_def)
    have node: "ring_node N T i (bus_nodes b' ! i)"
        "received_by i evs + length (ms_inbox (bus_nodes b' ! i)) = length (bus_log b')" if "i < N" for i
      using ring that by (simp_all add: ring_at_def)
    have "length (ms_inbox (bus_nodes b' ! i)) \<le> 2 * N \<and> received_by i evs \<le> 2 * S" if "i < N" for i
      using node [OF that] S unread_bound_le [OF assms(2) that, of T] by (simp add: ring_node_def)
    moreover have "\<forall>k < S. token_route b' ! k = of_nat (k mod N)"
      unfolding S(1,2) in_turn_def by (simp del: upt_Suc)
    moreover have "\<forall>i < N. ms_token_received (bus_nodes b' ! i) =
        of_nat ((S - 1) div N + of_bool (i < (S - 1) mod N))"
      using node(1) by (auto simp: S(1) ring_node_def visits_eq)
    ultimately show ?thesis using ring_progress [OF disjI2 [OF ring] assms(2)] node(2) by blast
  qed
qed

theorem token_goes_round_witness:
  "\<exists>b'. mstp_run (example_bus 1 [0, 1]) [Ev_Start 0, Ev_Start 1, Ev_Receive 0, Ev_Receive 1, Ev_Receive 1] b' \<and>
     token_route b' = [0, 1, 0] \<and> (\<forall>i < 2. ms_token_received (bus_nodes b' ! i) = 1) \<and>
     (\<exists>e b''. mstp_step b' e b'' \<and> (\<exists>i. e = Ev_Start i \<or> e = Ev_Receive i))"
proof -
  let ?b = "example_bus 1 [0, 1]" and ?evs = "[Ev_Start 0, Ev_Start 1, Ev_Receive 0, Ev_Receive 1, Ev_Receive 1]"
  let ?b' = "the (mstp_execs ?b ?evs)"
  have "mstp_execs ?b ?evs = Some ?b'" by code_simp
  then have r: "mstp_run ?b ?evs ?b'" by (rule mstp_execs_run)
  have route: "token_route ?b' = [0, 1, 0]" by code_simp
  then have S: "3 = length (token_route ?b')" by simp
  have "joined 1 [0, 1] ?b" by (rule joined_example) simp_all
  then have j: "joined (of_nat (2 - 1)) (ring_addresses 2) ?b" by (simp add: ring_addresses_def numeral_2_eq_2)
  have n: "0 < (2::nat)" "(2::nat) \<le> 255" by simp_all
  have e: "\<forall>e \<in> set ?evs. of_ring e" by (simp add: of_ring_def)
  have last: "(\<forall>i < 2. ms_token_received (bus_nodes ?b' ! i) = 1) \<and>
     (\<exists>e b''. mstp_step ?b' e b'' \<and> (\<exists>i. e = Ev_Start i \<or> e = Ev_Receive i))"
    using token_goes_round [OF j n r e S] by simp
  show ?thesis by (rule exI [of _ ?b'], rule conjI [OF r conjI [OF route last]])
qed

text \<open>
  A station that is missing cuts the ring: no master polls for its successor, so if nobody has
  address \<open>d\<close>, no station beyond \<open>d\<close> ever gets the token, whatever happens on the bus, timeouts and
  restarts of the ring included.
\<close>

theorem missing_station_cuts_ring:
  assumes "joined mm as b" and "d \<notin> set as" and "mstp_run b evs b'" and "m \<in> set (bus_nodes b')"
    and "d < ms_address m"
  shows "ms_token_received m = 0 \<and> tokens_for (ms_address m) (ms_inbox m) = 0"
proof -
  have "\<forall>m \<in> set (bus_nodes b). below_gap d m" using below_gap_joined [OF assms(1,2)] by blast
  from below_gap_run [OF assms(3) this] assms(4) have g: "below_gap d m" by blast
  then have "tokens_for (ms_address m) (ms_inbox m) = 0"
    using assms(5) by (auto simp: below_gap_def tokens_up_to_def tokens_for_def is_token_for_def filter_empty_conv)
  with g assms(5) show ?thesis by (simp add: below_gap_def)
qed

theorem missing_station_cuts_ring_witness:
  "\<exists>b'. mstp_run (example_bus 2 [0, 2]) [Ev_Start 0, Ev_Start 1, Ev_Receive 0, Ev_Timeout 0, Ev_Receive 0] b' \<and>
    ms_token_received (bus_nodes b' ! 1) = 0 \<and> ms_address (bus_nodes b' ! 1) = 2"
proof -
  let ?b = "example_bus 2 [0, 2]" and ?evs = "[Ev_Start 0, Ev_Start 1, Ev_Receive 0, Ev_Timeout 0, Ev_Receive 0]"
  let ?b' = "the (mstp_execs ?b ?evs)"
  have "mstp_execs ?b ?evs = Some ?b'" by code_simp
  then have r: "mstp_run ?b ?evs ?b'" by (rule mstp_execs_run)
  have j: "joined 2 [0, 2] ?b" by (rule joined_example) simp_all
  have m: "bus_nodes ?b' ! 1 \<in> set (bus_nodes ?b')" "ms_address (bus_nodes ?b' ! 1) = 2" by code_simp+
  show ?thesis
    using missing_station_cuts_ring [OF j, of 1, OF _ r m(1)] r m(2) by (intro exI [of _ ?b']) simp
qed

text \<open>
  C36. Nothing a caller queues at a master is lost, duplicated or reordered: what the master has sent as
  data frames, then what still waits in its queue, is what was queued, whatever else happens on the
  bus.
\<close>

theorem data_sent_in_order:
  assumes "joined mm as b" and "mstp_run b evs b'" and "i < length as"
  shows "sent_data i b' @ ms_pending (bus_nodes b' ! i) = concat (map (enqueued_by i) evs)"
  using fifo_run [OF assms(2)] joined_start [OF assms(1,3)] by simp

theorem data_sent_in_order_witness:
  "\<exists>b'. mstp_run (example_bus 1 [0, 1]) [Ev_Enqueue 0 1 [7], Ev_Enqueue 0 1 [8], Ev_Start 0, Ev_Receive 0] b' \<and>
    sent_data 0 b' = [(1, [7])] \<and> ms_pending (bus_nodes b' ! 0) = [(1, [8])]"
proof -
  let ?b = "example_bus 1 [0, 1]"
    and ?evs = "[Ev_Enqueue 0 1 [7], Ev_Enqueue 0 1 [8], Ev_Start 0, Ev_Receive 0]"
  let ?b' = "the (mstp_execs ?b ?evs)"
  have "mstp_execs ?b ?evs = Some ?b'" by code_simp
  then have r: "mstp_run ?b ?evs ?b'" by (rule mstp_execs_run)
  have j: "joined 1 [0, 1] ?b" by (rule joined_example) simp_all
  have "ms_pending (bus_nodes ?b' ! 0) = [(1, [8])]" by code_simp
  with data_sent_in_order [OF j r, of 0] r show ?thesis by (intro exI [of _ ?b']) simp
qed

end
