(* ===== verification/Bvll.thy ===== *)
theory Bvll
  imports Codec_Laws
begin

text \<open>
  \<^verbatim>\<open>crates/bacnet-codec/src/bvll.rs\<close>: the BACnet/IP virtual link frames.
\<close>

record bdt_entry =
  bdt_address :: socket_addr_v4
  bdt_mask :: bytes

record fdt_entry =
  fdt_address :: socket_addr_v4
  fdt_ttl :: u16
  fdt_remaining :: u16

datatype bvll_frame =
    BvlcResult (result_code: u16)
  | WriteBroadcastDistributionTable "bdt_entry list"
  | ReadBroadcastDistributionTable
  | ReadBroadcastDistributionTableAck "bdt_entry list"
  | ForwardedNpdu (originating_address: socket_addr_v4) (forwarded_npdu: bytes)
  | RegisterForeignDevice (register_ttl: u16)
  | ReadForeignDeviceTable
  | ReadForeignDeviceTableAck "fdt_entry list"
  | DeleteForeignDeviceTableEntry socket_addr_v4
  | DistributeBroadcastToNetwork bytes
  | OriginalUnicastNpdu bytes
  | OriginalBroadcastNpdu bytes

definition bvll_length :: "nat \<Rightarrow> bytes" where
  "bvll_length n = u16_to_be (of_nat n)"

text \<open>Variants without an arm append nothing after the type byte.\<close>

definition bvll_encode :: "bvll_frame \<Rightarrow> bytes" where
  "bvll_encode frame = 0x81 #
     (case frame of
        OriginalUnicastNpdu npdu \<Rightarrow> [0x0A] @ bvll_length (4 + length npdu) @ npdu
      | OriginalBroadcastNpdu npdu \<Rightarrow> [0x0B] @ bvll_length (4 + length npdu) @ npdu
      | RegisterForeignDevice ttl \<Rightarrow> [0x05] @ u16_to_be 6 @ u16_to_be ttl
      | ForwardedNpdu orig npdu \<Rightarrow>
          [0x04] @ bvll_length (4 + 6 + length npdu) @ u32_to_be (sa_ip orig)
          @ u16_to_be (sa_port orig) @ npdu
      | BvlcResult code \<Rightarrow> [0x01] @ u16_to_be 6 @ u16_to_be code
      | DistributeBroadcastToNetwork npdu \<Rightarrow> [0x09] @ bvll_length (4 + length npdu) @ npdu
      | _ \<Rightarrow> [])"

definition read_u16_be :: "bytes \<Rightarrow> nat \<Rightarrow> u16 bres" where
  "read_u16_be buf pos =
     rbind (index buf pos) (\<lambda>a. rbind (index buf (pos + 1)) (\<lambda>b. Ok (u16_from_be a b)))"

definition bvll_decode_forwarded :: "nat \<Rightarrow> bytes \<Rightarrow> bvll_frame bres" where
  "bvll_decode_forwarded len payload =
     (if len < 10 then Err DecodeError
      else if length payload < 6 then Err DecodeError
      else rbind (index payload 0) (\<lambda>a. rbind (index payload 1) (\<lambda>b.
        rbind (index payload 2) (\<lambda>c. rbind (index payload 3) (\<lambda>d.
        rbind (read_u16_be payload 4) (\<lambda>port.
        rbind (slice payload 6 (length payload)) (\<lambda>npdu.
          Ok (ForwardedNpdu (SocketAddrV4 (u32_from_be a b c d) port) npdu))))))))"

definition bvll_decode :: "bytes \<Rightarrow> bvll_frame bres" where
  "bvll_decode buf =
     (if length buf < 4 then Err DecodeError
      else rbind (index buf 0) (\<lambda>ty.
        if ty \<noteq> 0x81 then Err DecodeError
        else rbind (index buf 1) (\<lambda>function.
          rbind (read_u16_be buf 2) (\<lambda>l.
          let len = unat l in
          if length buf < len then Err DecodeError
          else rbind (slice buf 4 len) (\<lambda>payload.
            if function = 0x01 then
              (if length payload < 2 then Err DecodeError
               else rbind (read_u16_be payload 0) (\<lambda>code. Ok (BvlcResult code)))
            else if function = 0x04 then bvll_decode_forwarded len payload
            else if function = 0x05 then
              (if length payload < 2 then Err DecodeError
               else rbind (read_u16_be payload 0) (\<lambda>ttl. Ok (RegisterForeignDevice ttl)))
            else if function = 0x09 then Ok (DistributeBroadcastToNetwork payload)
            else if function = 0x0A then Ok (OriginalUnicastNpdu payload)
            else if function = 0x0B then Ok (OriginalBroadcastNpdu payload)
            else Err DecodeError)))))"

text \<open>The frames that have an encoding: an arm of the encoder, and a length that fits 16 bits.\<close>

fun bvll_ok :: "bvll_frame \<Rightarrow> bool" where
  "bvll_ok (BvlcResult c) = True"
| "bvll_ok (RegisterForeignDevice t) = True"
| "bvll_ok (ForwardedNpdu a npdu) \<longleftrightarrow> length npdu + 10 < 2 ^ 16"
| "bvll_ok (DistributeBroadcastToNetwork npdu) \<longleftrightarrow> length npdu + 4 < 2 ^ 16"
| "bvll_ok (OriginalUnicastNpdu npdu) \<longleftrightarrow> length npdu + 4 < 2 ^ 16"
| "bvll_ok (OriginalBroadcastNpdu npdu) \<longleftrightarrow> length npdu + 4 < 2 ^ 16"
| "bvll_ok _ = False"

subsection \<open>Round trip\<close>

lemma u16_from_to_be: "u16_to_be w = [a, b] \<Longrightarrow> u16_from_be a b = w"
  by (auto simp: u16_to_be_def)

lemma unat_of_nat_u16: "n < 2 ^ 16 \<Longrightarrow> unat (of_nat n :: u16) = n"
  by (simp add: unat_of_nat)

lemma bvll_header:
  assumes "n = length payload + 4" and "n < 2 ^ 16"
  shows "read_u16_be (0x81 # f # u16_to_be (of_nat n) @ payload) 2 = Ok (of_nat n)"
    and "slice (0x81 # f # u16_to_be (of_nat n) @ payload) 4 (unat (of_nat n :: u16)) = Ok payload"
  using assms unat_of_nat_u16 [OF assms(2)]
  by (simp_all add: read_u16_be_def u16_to_be_def index_def slice_def del: of_nat_add)

lemma bvll_decode_header:
  assumes "n = length payload + 4" and "n < 2 ^ 16"
  shows "bvll_decode (0x81 # f # u16_to_be (of_nat n) @ payload) =
    (if f = 0x01 then
       (if length payload < 2 then Err DecodeError
        else rbind (read_u16_be payload 0) (\<lambda>code. Ok (BvlcResult code)))
     else if f = 0x04 then bvll_decode_forwarded n payload
     else if f = 0x05 then
       (if length payload < 2 then Err DecodeError
        else rbind (read_u16_be payload 0) (\<lambda>ttl. Ok (RegisterForeignDevice ttl)))
     else if f = 0x09 then Ok (DistributeBroadcastToNetwork payload)
     else if f = 0x0A then Ok (OriginalUnicastNpdu payload)
     else if f = 0x0B then Ok (OriginalBroadcastNpdu payload)
     else Err DecodeError)"
  using bvll_header [OF assms, of f] unat_of_nat_u16 [OF assms(2)] assms
  by (simp add: bvll_decode_def Let_def del: of_nat_add)

lemma bvll_decode_encode:
  assumes "bvll_ok frame"
  shows "bvll_decode (bvll_encode frame) = Ok frame"
proof (cases frame)
  case (BvlcResult c)
  then show ?thesis using bvll_decode_header [of 6 "u16_to_be c" 1]
    by (simp add: bvll_encode_def read_u16_be_def u16_to_be_def)
next
  case (RegisterForeignDevice t)
  then show ?thesis using bvll_decode_header [of 6 "u16_to_be t" 5]
    by (simp add: bvll_encode_def read_u16_be_def u16_to_be_def)
next
  case (ForwardedNpdu a npdu)
  let ?p = "u32_to_be (sa_ip a) @ u16_to_be (sa_port a) @ npdu"
  show ?thesis using ForwardedNpdu assms bvll_decode_header [of "4 + 6 + length npdu" ?p 4]
    by (simp add: bvll_encode_def bvll_length_def bvll_decode_forwarded_def read_u16_be_def
        u32_to_be_def u16_to_be_def index_def)
qed (use assms in \<open>simp_all add: bvll_encode_def bvll_length_def bvll_decode_header del: of_nat_add\<close>)

interpretation bvll: frame_codec bvll_encode bvll_decode bvll_ok
  by unfold_locales (rule bvll_decode_encode)

subsection \<open>Where the decoder panics\<close>

lemma read_u16_be_no_panic [no_panic]: "pos + 2 \<le> length buf \<Longrightarrow> read_u16_be buf pos \<noteq> Panic"
  by (simp add: read_u16_be_def)

lemma bvll_decode_forwarded_no_panic [no_panic]: "bvll_decode_forwarded len payload \<noteq> Panic"
  by (auto simp: bvll_decode_forwarded_def read_u16_be_def index_def)

text \<open>\<^verbatim>\<open>&buf[4..length]\<close> has a start past its end when the length field is below four.\<close>

lemma bvll_decode_eq_Panic:
  "bvll_decode buf = Panic \<longleftrightarrow>
     4 \<le> length buf \<and> buf ! 0 = 0x81 \<and> unat (u16_from_be (buf ! 2) (buf ! 3)) < 4"
proof (cases "4 \<le> length buf \<and> buf ! 0 = 0x81")
  case True
  then have i: "(index buf 0 :: u8 bres) = Ok 0x81" "(index buf 1 :: u8 bres) = Ok (buf ! 1)"
      "read_u16_be buf 2 = Ok (u16_from_be (buf ! 2) (buf ! 3))"
    by (auto simp: index_def read_u16_be_def numeral_3_eq_3 numeral_2_eq_2)
  with True show ?thesis
    by (auto simp: bvll_decode_def Let_def rbind_eq_Panic slice_eq_Panic no_panic read_u16_be_no_panic)
next
  case False
  then show ?thesis by (cases "length buf < 4") (auto simp: bvll_decode_def index_def)
qed

subsection \<open>Properties\<close>

text \<open>
  The six BVLL functions the encoder writes out survive the trip, with the length field
  counting the whole frame, and no two different frames share their bytes.
\<close>

theorem bvll_roundtrip:
  assumes "bvll_ok f"
  shows "bvll_decode (bvll_encode f) = Ok f \<and>
    (bvll_ok g \<and> bvll_encode f = bvll_encode g \<longrightarrow> f = g)"
  using assms bvll.dec_enc bvll.enc_inject by blast

theorem bvll_roundtrip_witness:
  "bvll_decode (bvll_encode (ForwardedNpdu (SocketAddrV4 0x0A000001 47808) [1, 2, 3])) =
    Ok (ForwardedNpdu (SocketAddrV4 0x0A000001 47808) [1, 2, 3])"
  by (rule bvll_roundtrip [THEN conjunct1]) simp

text \<open>
  The BVLL decoder slices \<^verbatim>\<open>buf[4..length]\<close> without checking that the length field counts its
  own header: it panics exactly on a frame of four bytes or more that announces fewer than four.
\<close>

theorem bvll_decoder_panics:
  "bvll_decode buf = Panic \<longleftrightarrow>
     4 \<le> length buf \<and> buf ! 0 = 0x81 \<and> unat (u16_from_be (buf ! 2) (buf ! 3)) < 4"
  by (rule bvll_decode_eq_Panic)

end
