(* ===== verification/Sc_Frame.thy ===== *)
theory Sc_Frame
  imports Codec_Laws
begin

text \<open>
  \<^verbatim>\<open>crates/bacnet-codec/src/sc.rs\<close>: the BACnet/SC frames.  A vMAC \<^verbatim>\<open>[u8; 6]\<close> is a byte list
  whose length the well-formedness predicate fixes.
\<close>

datatype sc_function =
    SC_BvlcResult | SC_EncapsulatedNpdu | SC_AddressResolution | SC_AddressResolutionAck
  | SC_Advertisement | SC_AdvertisementSolicitation | SC_ConnectRequest | SC_ConnectAccept
  | SC_DisconnectRequest | SC_DisconnectAck | SC_Heartbeat | SC_HeartbeatAck | SC_SecurePath

primrec sc_function_code :: "sc_function \<Rightarrow> u8" where
  "sc_function_code SC_BvlcResult = 0x00"
| "sc_function_code SC_EncapsulatedNpdu = 0x01"
| "sc_function_code SC_AddressResolution = 0x02"
| "sc_function_code SC_AddressResolutionAck = 0x03"
| "sc_function_code SC_Advertisement = 0x04"
| "sc_function_code SC_AdvertisementSolicitation = 0x05"
| "sc_function_code SC_ConnectRequest = 0x06"
| "sc_function_code SC_ConnectAccept = 0x07"
| "sc_function_code SC_DisconnectRequest = 0x08"
| "sc_function_code SC_DisconnectAck = 0x09"
| "sc_function_code SC_Heartbeat = 0x0A"
| "sc_function_code SC_HeartbeatAck = 0x0B"
| "sc_function_code SC_SecurePath = 0x0C"

record sc_control_flags =
  orig_vaddr_present :: bool
  dest_vaddr_present :: bool
  dest_options_present :: bool
  data_options_present :: bool

record sc_frame =
  sc_function :: u8
  sc_control :: sc_control_flags
  sc_message_id :: u16
  originating_vmac :: "bytes option"
  destination_vmac :: "bytes option"
  sc_payload :: bytes

definition sc_encapsulated_npdu :: "u16 \<Rightarrow> bytes option \<Rightarrow> bytes option \<Rightarrow> bytes \<Rightarrow> sc_frame" where
  "sc_encapsulated_npdu message_id orig dest npdu =
     \<lparr>sc_function = sc_function_code SC_EncapsulatedNpdu,
      sc_control = \<lparr>orig_vaddr_present = (orig \<noteq> None), dest_vaddr_present = (dest \<noteq> None),
                    dest_options_present = False, data_options_present = False\<rparr>,
      sc_message_id = message_id, originating_vmac = orig, destination_vmac = dest,
      sc_payload = npdu\<rparr>"

definition sc_ctrl_byte :: "sc_control_flags \<Rightarrow> u8" where
  "sc_ctrl_byte c =
     (let ctrl = 0;
          ctrl = (if orig_vaddr_present c then ctrl OR 0x08 else ctrl);
          ctrl = (if dest_vaddr_present c then ctrl OR 0x04 else ctrl);
          ctrl = (if dest_options_present c then ctrl OR 0x02 else ctrl)
      in (if data_options_present c then ctrl OR 0x01 else ctrl))"

definition sc_vmac_bytes :: "bool \<Rightarrow> bytes option \<Rightarrow> bytes" where
  "sc_vmac_bytes present vmac = (if present then (case vmac of None \<Rightarrow> [] | Some v \<Rightarrow> v) else [])"

definition sc_encode :: "sc_frame \<Rightarrow> bytes" where
  "sc_encode f = [sc_function f, sc_ctrl_byte (sc_control f)] @ u16_to_be (sc_message_id f)
     @ sc_vmac_bytes (orig_vaddr_present (sc_control f)) (originating_vmac f)
     @ sc_vmac_bytes (dest_vaddr_present (sc_control f)) (destination_vmac f)
     @ sc_payload f"

definition sc_control_of_byte :: "u8 \<Rightarrow> sc_control_flags" where
  "sc_control_of_byte b =
     \<lparr>orig_vaddr_present = (b AND 0x08 \<noteq> 0), dest_vaddr_present = (b AND 0x04 \<noteq> 0),
      dest_options_present = (b AND 0x02 \<noteq> 0), data_options_present = (b AND 0x01 \<noteq> 0)\<rparr>"

definition sc_decode_vmac :: "bool \<Rightarrow> bytes \<Rightarrow> nat \<Rightarrow> (bytes option \<times> nat) bres" where
  "sc_decode_vmac present buf pos =
     (if present then
        (if length buf < pos + 6 then Err DecodeError
         else rbind (slice buf pos (pos + 6)) (\<lambda>v. Ok (Some v, pos + 6)))
      else Ok (None, pos))"

definition sc_decode :: "bytes \<Rightarrow> sc_frame bres" where
  "sc_decode buf =
     (if length buf < 4 then Err DecodeError
      else rbind (index buf 0) (\<lambda>function. rbind (index buf 1) (\<lambda>ctrl_byte.
        rbind (index buf 2) (\<lambda>a. rbind (index buf 3) (\<lambda>b.
        let control = sc_control_of_byte ctrl_byte in
        rbind (sc_decode_vmac (orig_vaddr_present control) buf 4) (\<lambda>(orig, pos).
        rbind (sc_decode_vmac (dest_vaddr_present control) buf pos) (\<lambda>(dest, pos).
        rbind (slice buf pos (length buf)) (\<lambda>payload.
          Ok \<lparr>sc_function = function, sc_control = control, sc_message_id = u16_from_be a b,
              originating_vmac = orig, destination_vmac = dest, sc_payload = payload\<rparr>))))))))"

definition sc_ok :: "sc_frame \<Rightarrow> bool" where
  "sc_ok f \<longleftrightarrow>
     (orig_vaddr_present (sc_control f) \<longleftrightarrow> originating_vmac f \<noteq> None)
     \<and> (dest_vaddr_present (sc_control f) \<longleftrightarrow> destination_vmac f \<noteq> None)
     \<and> (case originating_vmac f of None \<Rightarrow> True | Some v \<Rightarrow> length v = 6)
     \<and> (case destination_vmac f of None \<Rightarrow> True | Some v \<Rightarrow> length v = 6)"

lemma sc_control_roundtrip: "sc_control_of_byte (sc_ctrl_byte c) = c"
  by (cases c) (simp add: sc_control_of_byte_def sc_ctrl_byte_def Let_def)

lemma sc_encapsulated_npdu_ok:
  "(\<And>v. orig = Some v \<Longrightarrow> length v = 6) \<Longrightarrow> (\<And>v. dest = Some v \<Longrightarrow> length v = 6) \<Longrightarrow>
     sc_ok (sc_encapsulated_npdu i orig dest npdu)"
  by (cases orig; cases dest) (simp_all add: sc_ok_def sc_encapsulated_npdu_def)

lemma sc_decode_vmac_at:
  assumes "pos = length pre" and "case x of None \<Rightarrow> True | Some v \<Rightarrow> length v = 6"
  shows "sc_decode_vmac (x \<noteq> None) (pre @ sc_vmac_bytes (x \<noteq> None) x @ post) pos =
    Ok (x, pos + length (sc_vmac_bytes (x \<noteq> None) x))"
  using assms by (cases x) (simp_all add: sc_decode_vmac_def sc_vmac_bytes_def)

lemma sc_decode_encode:
  assumes "sc_ok f"
  shows "sc_decode (sc_encode f) = Ok f"
proof -
  let ?c = "sc_control f"
  let ?h = "[sc_function f, sc_ctrl_byte ?c] @ u16_to_be (sc_message_id f)"
  let ?o = "sc_vmac_bytes (orig_vaddr_present ?c) (originating_vmac f)"
  let ?d = "sc_vmac_bytes (dest_vaddr_present ?c) (destination_vmac f)"
  have ok: "orig_vaddr_present ?c = (originating_vmac f \<noteq> None)"
      "dest_vaddr_present ?c = (destination_vmac f \<noteq> None)"
      "case originating_vmac f of None \<Rightarrow> True | Some v \<Rightarrow> length v = 6"
      "case destination_vmac f of None \<Rightarrow> True | Some v \<Rightarrow> length v = 6"
    using assms by (simp_all add: sc_ok_def)
  have e: "sc_encode f = ?h @ ?o @ ?d @ sc_payload f" by (simp add: sc_encode_def)
  have o: "sc_decode_vmac (orig_vaddr_present ?c) (sc_encode f) 4 =
      Ok (originating_vmac f, 4 + length ?o)"
    using sc_decode_vmac_at [of 4 ?h "originating_vmac f" "?d @ sc_payload f"] ok(3)
    by (simp add: e ok(1) del: not_None_eq)
  have d: "sc_decode_vmac (dest_vaddr_present ?c) (sc_encode f) (4 + length ?o) =
      Ok (destination_vmac f, 4 + length ?o + length ?d)"
    using sc_decode_vmac_at [of "4 + length ?o" "?h @ ?o" "destination_vmac f" "sc_payload f"] ok(4)
    by (simp add: e ok(2) del: not_None_eq)
  have i: "sc_encode f ! 0 = sc_function f" "sc_encode f ! 1 = sc_ctrl_byte ?c"
      "u16_from_be (sc_encode f ! 2) (sc_encode f ! 3) = sc_message_id f"
      "length (sc_encode f) = 4 + length ?o + length ?d + length (sc_payload f)"
      "drop (4 + length ?o + length ?d) (sc_encode f) = sc_payload f"
    by (simp_all add: e u16_to_be_def nth_append) (simp add: numeral_eq_Suc)
  show ?thesis
    using o d i by (simp add: sc_decode_def sc_control_roundtrip Let_def index_def)
qed

interpretation sc_frames: frame_codec sc_encode sc_decode sc_ok
  by unfold_locales (rule sc_decode_encode)

lemma sc_decode_vmac_bounds:
  "sc_decode_vmac p buf pos = Ok (x, q) \<Longrightarrow> pos \<le> length buf \<Longrightarrow> pos \<le> q \<and> q \<le> length buf"
  by (auto simp: sc_decode_vmac_def split: if_splits)

lemma sc_decode_no_panic: "sc_decode buf \<noteq> Panic"
proof (cases "length buf < 4")
  case False
  have "sc_decode_vmac p buf pos \<noteq> Panic" for p pos
    by (simp add: sc_decode_vmac_def)
  with False show ?thesis
    by (auto simp: sc_decode_def Let_def rbind_eq_Panic index_eq_Panic slice_eq_Panic
        dest!: sc_decode_vmac_bounds)
qed (simp add: sc_decode_def)

subsection \<open>Properties\<close>

text \<open>
  A BACnet/SC frame whose flags say which addresses it has survives the trip, the frames
  \<^verbatim>\<open>encapsulated_npdu\<close> builds are of this kind, and the decoder panics on no bytes at all.
\<close>

theorem sc_roundtrip:
  assumes "sc_ok f" and "\<forall>v. orig = Some v \<longrightarrow> length v = 6" and "\<forall>v. dest = Some v \<longrightarrow> length v = 6"
  shows "sc_decode (sc_encode f) = Ok f \<and>
    sc_decode (sc_encode (sc_encapsulated_npdu i orig dest npdu)) = Ok (sc_encapsulated_npdu i orig dest npdu)
    \<and> sc_decode buf \<noteq> Panic"
  using assms sc_encapsulated_npdu_ok sc_decode_no_panic by (simp add: sc_frames.dec_enc)

theorem sc_roundtrip_witness:
  "sc_decode (sc_encode (sc_encapsulated_npdu 7 (Some [1, 2, 3, 4, 5, 6]) None [0x01, 0x00])) =
    Ok (sc_encapsulated_npdu 7 (Some [1, 2, 3, 4, 5, 6]) None [0x01, 0x00])"
  by (rule sc_roundtrip [THEN conjunct2, THEN conjunct1,
      of "sc_encapsulated_npdu 7 None None []"]) (simp_all add: sc_ok_def sc_encapsulated_npdu_def)

end
