(* ===== verification/Utf8.thy ===== *)
theory Utf8
  imports Prelude
begin

text \<open>
  \<^verbatim>\<open>String::from_utf8_lossy\<close> of the Rust standard library, which \<^verbatim>\<open>tags.rs\<close> uses to read
  character strings: a maximal invalid prefix of a character is replaced by U+FFFD.
\<close>

definition is_cont :: "u8 \<Rightarrow> bool" where
  "is_cont b \<longleftrightarrow> 0x80 \<le> b \<and> b \<le> 0xBF"

text \<open>The second byte that may follow a lead byte of a three or four byte sequence.\<close>

definition second_ok :: "u8 \<Rightarrow> u8 \<Rightarrow> bool" where
  "second_ok b c \<longleftrightarrow>
     (if b = 0xE0 then 0xA0 \<le> c \<and> c \<le> 0xBF
      else if b = 0xED then 0x80 \<le> c \<and> c \<le> 0x9F
      else if b = 0xF0 then 0x90 \<le> c \<and> c \<le> 0xBF
      else if b = 0xF4 then 0x80 \<le> c \<and> c \<le> 0x8F
      else is_cont c)"

text \<open>The byte at position \<open>i\<close>, or 0 past the end, as the library's \<^verbatim>\<open>safe_get\<close>.\<close>

definition byte_at :: "bytes \<Rightarrow> nat \<Rightarrow> u8" where
  "byte_at bs i = (if i < length bs then bs ! i else 0)"

text \<open>
  One chunk: whether the buffer starts with a well-formed character, and how many bytes the
  character, or the maximal invalid prefix, takes.
\<close>

definition utf8_char_width :: "u8 \<Rightarrow> nat" where
  "utf8_char_width b =
     (if b < 0x80 then 1
      else if 0xC2 \<le> b \<and> b \<le> 0xDF then 2
      else if 0xE0 \<le> b \<and> b \<le> 0xEF then 3
      else if 0xF0 \<le> b \<and> b \<le> 0xF4 then 4
      else 0)"

definition utf8_step4 :: "u8 \<Rightarrow> u8 \<Rightarrow> u8 \<Rightarrow> u8 \<Rightarrow> bool \<times> nat" where
  "utf8_step4 b0 b1 b2 b3 =
     (let w = utf8_char_width b0 in
      if w = 1 then (True, 1)
      else if w = 2 then
        (if is_cont b1 then (True, 2) else (False, 1))
      else if w = 3 then
        (if \<not> second_ok b0 b1 then (False, 1)
         else if \<not> is_cont b2 then (False, 2)
         else (True, 3))
      else if w = 4 then
        (if \<not> second_ok b0 b1 then (False, 1)
         else if \<not> is_cont b2 then (False, 2)
         else if \<not> is_cont b3 then (False, 3)
         else (True, 4))
      else (False, 1))"

definition utf8_step :: "bytes \<Rightarrow> bool \<times> nat" where
  "utf8_step bs = utf8_step4 (byte_at bs 0) (byte_at bs 1) (byte_at bs 2) (byte_at bs 3)"

lemma utf8_step_pos: "0 < snd (utf8_step bs)"
  by (simp add: utf8_step_def utf8_step4_def Let_def)

function utf8_lossy :: "bytes \<Rightarrow> bytes" where
  "utf8_lossy bs =
     (if bs = [] then []
      else (if fst (utf8_step bs) then take (snd (utf8_step bs)) bs else [0xEF, 0xBF, 0xBD])
           @ utf8_lossy (drop (snd (utf8_step bs)) bs))"
  by pat_completeness auto
termination
  by (relation "measure length") (auto simp: utf8_step_pos)

function utf8_valid :: "bytes \<Rightarrow> bool" where
  "utf8_valid bs \<longleftrightarrow>
     (if bs = [] then True
      else if fst (utf8_step bs) then utf8_valid (drop (snd (utf8_step bs)) bs) else False)"
  by pat_completeness auto
termination
  by (relation "measure length") (auto simp: utf8_step_pos)

declare utf8_lossy.simps [simp del] utf8_valid.simps [simp del]

lemma utf8_lossy_Nil [simp]: "utf8_lossy [] = []"
  by (simp add: utf8_lossy.simps)

lemma utf8_valid_Nil [simp]: "utf8_valid []"
  by (simp add: utf8_valid.simps)

lemma utf8_valid_step:
  "bs \<noteq> [] \<Longrightarrow> utf8_valid bs \<longleftrightarrow> fst (utf8_step bs) \<and> utf8_valid (drop (snd (utf8_step bs)) bs)"
  by (subst utf8_valid.simps) simp

lemma utf8_lossy_step:
  "bs \<noteq> [] \<Longrightarrow> utf8_lossy bs =
     (if fst (utf8_step bs) then take (snd (utf8_step bs)) bs else [0xEF, 0xBF, 0xBD])
       @ utf8_lossy (drop (snd (utf8_step bs)) bs)"
  by (subst utf8_lossy.simps) simp

text \<open>A well-formed string is read back unchanged.\<close>

lemma utf8_lossy_valid [simp]: "utf8_valid bs \<Longrightarrow> utf8_lossy bs = bs"
proof (induction bs rule: utf8_lossy.induct)
  case (1 bs)
  show ?case
  proof (cases "bs = []")
    case False
    with "1.prems" have "fst (utf8_step bs)" and "utf8_valid (drop (snd (utf8_step bs)) bs)"
      by (simp_all add: utf8_valid_step)
    with "1.IH" False show ?thesis
      by (simp add: utf8_lossy_step)
  qed simp
qed

text \<open>The outcome of a step depends on the bytes it takes only, when these are a character.\<close>

lemma is_cont_byte_at: "is_cont (byte_at bs i) \<Longrightarrow> Suc i \<le> length bs"
  by (cases "i < length bs") (simp_all add: byte_at_def is_cont_def)

lemma second_ok_byte_at: "second_ok b (byte_at bs i) \<Longrightarrow> Suc i \<le> length bs"
  by (cases "i < length bs") (simp_all add: byte_at_def second_ok_def is_cont_def split: if_splits)

lemma utf8_step_length: "fst (utf8_step bs) \<Longrightarrow> bs \<noteq> [] \<Longrightarrow> snd (utf8_step bs) \<le> length bs"
  using is_cont_byte_at [of bs 1] is_cont_byte_at [of bs 2] is_cont_byte_at [of bs 3]
  by (cases bs) (simp_all add: utf8_step_def utf8_step4_def Let_def split: if_splits)

lemma byte_at_take_append:
  "i < n \<Longrightarrow> n \<le> length bs \<Longrightarrow> byte_at (take n bs @ cs) i = byte_at bs i"
  by (simp add: byte_at_def nth_append)

lemma utf8_step4_prefix:
  assumes "utf8_step4 b0 b1 b2 b3 = (True, n)"
    and "c0 = b0" and "1 < n \<Longrightarrow> c1 = b1" and "2 < n \<Longrightarrow> c2 = b2" and "3 < n \<Longrightarrow> c3 = b3"
  shows "utf8_step4 c0 c1 c2 c3 = (True, n)"
  using assms by (auto simp: utf8_step4_def Let_def split: if_splits)

lemma utf8_step_append:
  assumes "fst (utf8_step bs)" and "bs \<noteq> []"
  shows "utf8_step (take (snd (utf8_step bs)) bs @ cs) = utf8_step bs"
proof -
  define n where "n = snd (utf8_step bs)"
  have step: "utf8_step bs = (True, n)" using assms(1) by (simp add: n_def prod_eq_iff)
  have n: "n \<le> length bs" using utf8_step_length [OF assms] by (simp add: n_def)
  have at: "byte_at (take n bs @ cs) i = byte_at bs i" if "i < n" for i
    using that n by (rule byte_at_take_append)
  have "0 < n" by (simp add: n_def utf8_step_pos)
  then have "utf8_step (take n bs @ cs) = (True, n)"
    using step unfolding utf8_step_def by (intro utf8_step4_prefix [OF _ at at at at])
  then show ?thesis by (simp add: step)
qed

text \<open>Whatever the input, the result is a well-formed Rust \<^verbatim>\<open>String\<close>.\<close>

lemma utf8_valid_ascii: "\<forall>b \<in> set bs. b < 0x80 \<Longrightarrow> utf8_valid bs"
proof (induction bs)
  case (Cons b bs)
  then have "utf8_step (b # bs) = (True, 1)"
    by (simp add: utf8_step_def utf8_step4_def utf8_char_width_def byte_at_def)
  with Cons show ?case by (simp add: utf8_valid_step)
qed simp

lemma utf8_valid_replacement: "utf8_valid cs \<Longrightarrow> utf8_valid (0xEF # 0xBF # 0xBD # cs)"
  by (simp add: utf8_valid_step utf8_step_def utf8_step4_def utf8_char_width_def Let_def
      byte_at_def is_cont_def second_ok_def)

lemma utf8_valid_lossy: "utf8_valid (utf8_lossy bs)"
proof (induction bs rule: utf8_lossy.induct)
  case (1 bs)
  let ?n = "snd (utf8_step bs)" and ?r = "utf8_lossy (drop (snd (utf8_step bs)) bs)"
  show ?case
  proof (cases "bs = []")
    case False
    with 1 have IH: "utf8_valid ?r" by simp
    show ?thesis
    proof (cases "fst (utf8_step bs)")
      case True
      have step: "utf8_step (take ?n bs @ ?r) = utf8_step bs"
        using True False by (rule utf8_step_append)
      have "length (take ?n bs) = ?n"
        using utf8_step_length [OF True False] by simp
      then have "drop ?n (take ?n bs @ ?r) = ?r" by simp
      then have "utf8_valid (take ?n bs @ ?r)"
        using IH True False step utf8_step_pos [of bs] by (subst utf8_valid_step) auto
      then show ?thesis
        using True False by (simp add: utf8_lossy_step)
    next
      case nok: False
      then show ?thesis
        using IH False by (simp add: utf8_lossy_step utf8_valid_replacement)
    qed
  qed simp
qed

end
