(* ===== verification/Tags.thy ===== *)
theory Tags
  imports Codec_Laws Utf8
begin

text \<open>
  \<^verbatim>\<open>crates/bacnet-types/src/encoding/tags.rs\<close>: context-tag tests, the context-tagged and
  application-tagged decoders (each takes the buffer and a position and returns the value and
  the advanced position), and the context-tagged encoders.
\<close>

subsection \<open>Primitive helpers\<close>

definition decode_lvt_len :: "bytes \<Rightarrow> nat \<Rightarrow> u8 \<Rightarrow> (nat \<times> nat) bres" where
  "decode_lvt_len buf pos lvt =
     (if lvt < 5 then Ok (unat lvt, pos)
      else if lvt = 5 then
        (case peek buf pos of None \<Rightarrow> Err DecodeError | Some l \<Rightarrow> Ok (unat l, pos + 1))
      else Err DecodeError)"

text \<open>The loop \<^verbatim>\<open>v = (v << 8) | b as u32\<close>; bytes past the fourth push the first ones out.\<close>

definition be_fold :: "bytes \<Rightarrow> u32" where
  "be_fold bs = foldl (\<lambda>v b. push_bit 8 v OR ucast b) 0 bs"

definition read_uint :: "bytes \<Rightarrow> nat \<Rightarrow> nat \<Rightarrow> (u32 \<times> nat) bres" where
  "read_uint buf pos len =
     (if length buf < pos + len then Err DecodeError
      else rbind (slice buf pos (pos + len)) (\<lambda>bs. Ok (be_fold bs, pos + len)))"

subsection \<open>Context tag presence checks\<close>

definition is_opening :: "bytes \<Rightarrow> nat \<Rightarrow> u8 \<Rightarrow> bool" where
  "is_opening buf pos number =
     (case peek buf pos of
        None \<Rightarrow> False
      | Some b \<Rightarrow> b AND 0x08 \<noteq> 0 \<and> drop_bit 4 b AND 0x0F = number \<and> b AND 0x07 = 6)"

definition is_closing :: "bytes \<Rightarrow> nat \<Rightarrow> u8 \<Rightarrow> bool" where
  "is_closing buf pos number =
     (case peek buf pos of
        None \<Rightarrow> False
      | Some b \<Rightarrow> b AND 0x08 \<noteq> 0 \<and> drop_bit 4 b AND 0x0F = number \<and> b AND 0x07 = 7)"

definition has_context_tag :: "bytes \<Rightarrow> nat \<Rightarrow> u8 \<Rightarrow> bool" where
  "has_context_tag buf pos number =
     (case peek buf pos of
        None \<Rightarrow> False
      | Some b \<Rightarrow> b AND 0x08 \<noteq> 0 \<and> drop_bit 4 b AND 0x0F = number \<and> b AND 0x07 < 6)"

subsection \<open>Context-tagged decoders\<close>

definition decode_ctx_u32 :: "bytes \<Rightarrow> nat \<Rightarrow> u8 \<Rightarrow> (u32 \<times> nat) bres" where
  "decode_ctx_u32 buf pos expected =
     rbind (ok_or DecodeError (peek buf pos)) (\<lambda>b.
       if b AND 0x08 = 0 \<or> drop_bit 4 b AND 0x0F \<noteq> expected then Err DecodeError
       else rbind (decode_lvt_len buf (pos + 1) (b AND 0x07)) (\<lambda>(len, pos).
         read_uint buf pos len))"

definition decode_ctx_bool :: "bytes \<Rightarrow> nat \<Rightarrow> u8 \<Rightarrow> (bool \<times> nat) bres" where
  "decode_ctx_bool buf pos expected =
     rbind (decode_ctx_u32 buf pos expected) (\<lambda>(v, pos). Ok (v \<noteq> 0, pos))"

text \<open>
  The four value bytes of an object identifier: ten bits of type, 22 of instance.  An object
  type without an entry in \<^verbatim>\<open>from_u16\<close> is read as \<^verbatim>\<open>Device\<close>.
\<close>

definition object_id_of_raw :: "u32 \<Rightarrow> object_id" where
  "object_id_of_raw raw =
     \<lparr>oid_type = (case object_type_from_u16 (ucast (drop_bit 22 raw)) of
                    None \<Rightarrow> OT_Device | Some t \<Rightarrow> t),
      oid_instance = raw AND 0x3FFFFF\<rparr>"

definition read_u32_be :: "bytes \<Rightarrow> nat \<Rightarrow> u32 bres" where
  "read_u32_be buf pos =
     rbind (index buf pos) (\<lambda>a. rbind (index buf (pos + 1)) (\<lambda>b.
     rbind (index buf (pos + 2)) (\<lambda>c. rbind (index buf (pos + 3)) (\<lambda>d.
       Ok (u32_from_be a b c d)))))"

definition decode_ctx_object_id :: "bytes \<Rightarrow> nat \<Rightarrow> u8 \<Rightarrow> (object_id \<times> nat) bres" where
  "decode_ctx_object_id buf pos expected =
     rbind (ok_or DecodeError (peek buf pos)) (\<lambda>b.
       if b AND 0x08 = 0 \<or> drop_bit 4 b AND 0x0F \<noteq> expected then Err DecodeError
       else rbind (decode_lvt_len buf (pos + 1) (b AND 0x07)) (\<lambda>(len, pos).
         if len \<noteq> 4 then Err DecodeError
         else if length buf < pos + 4 then Err DecodeError
         else rbind (read_u32_be buf pos) (\<lambda>raw. Ok (object_id_of_raw raw, pos + 4))))"

definition decode_ctx_property_id :: "bytes \<Rightarrow> nat \<Rightarrow> u8 \<Rightarrow> (property_identifier \<times> nat) bres" where
  "decode_ctx_property_id buf pos expected =
     rbind (decode_ctx_u32 buf pos expected) (\<lambda>(v, pos). Ok (pid_from_u32 v, pos))"

subsection \<open>Application-tagged decoder\<close>

text \<open>
  The bits of one data byte of a bit string as \<^verbatim>\<open>tags.rs\<close> reads them: bit \<open>n - 1\<close> down to 0.
  The loop over the data bytes takes \<open>8 - unused\<close> bits of the last one.
\<close>

definition low_bits :: "nat \<Rightarrow> u8 \<Rightarrow> bool list" where
  "low_bits n b = map (\<lambda>i. drop_bit i b AND 1 \<noteq> 0) (rev [0..<n])"

fun read_low_bits :: "nat \<Rightarrow> bytes \<Rightarrow> bool list bres" where
  "read_low_bits unused [] = Ok []"
| "read_low_bits unused [b] = rbind (usub 8 unused) (\<lambda>n. Ok (low_bits n b))"
| "read_low_bits unused (b # bs) =
     rbind (read_low_bits unused bs) (\<lambda>r. Ok (low_bits 8 b @ r))"

definition weekday_of_byte :: "u8 \<Rightarrow> weekday" where
  "weekday_of_byte b =
     (if b = 1 then WD_Monday else if b = 2 then WD_Tuesday else if b = 3 then WD_Wednesday
      else if b = 4 then WD_Thursday else if b = 5 then WD_Friday
      else if b = 6 then WD_Saturday else WD_Sunday)"

text \<open>One definition per arm of the \<^verbatim>\<open>match tag\<close>; \<open>pos\<close> is past the tag byte.\<close>

definition decode_app_integer :: "bytes \<Rightarrow> nat \<Rightarrow> u8 \<Rightarrow> (property_value \<times> nat) bres" where
  "decode_app_integer buf pos lvt =
     rbind (decode_lvt_len buf pos lvt) (\<lambda>(len, pos).
       if length buf < pos + len then Err DecodeError
       else rbind (slice buf pos (pos + len)) (\<lambda>bs. Ok (PV_Integer (be_fold bs), pos + len)))"

definition decode_app_real :: "bytes \<Rightarrow> nat \<Rightarrow> u8 \<Rightarrow> (property_value \<times> nat) bres" where
  "decode_app_real buf pos lvt =
     rbind (decode_lvt_len buf pos lvt) (\<lambda>(_, pos).
       if length buf < pos + 4 then Err DecodeError
       else rbind (read_u32_be buf pos) (\<lambda>v. Ok (PV_Real v, pos + 4)))"

definition decode_app_double :: "bytes \<Rightarrow> nat \<Rightarrow> u8 \<Rightarrow> (property_value \<times> nat) bres" where
  "decode_app_double buf pos lvt =
     rbind (decode_lvt_len buf pos lvt) (\<lambda>(_, pos).
       if length buf < pos + 8 then Err DecodeError
       else rbind (read_u32_be buf pos) (\<lambda>hi. rbind (read_u32_be buf (pos + 4)) (\<lambda>lo.
         Ok (PV_Double (push_bit 32 (ucast hi) OR ucast lo), pos + 8))))"

definition decode_app_octets :: "bytes \<Rightarrow> nat \<Rightarrow> u8 \<Rightarrow> (property_value \<times> nat) bres" where
  "decode_app_octets buf pos lvt =
     rbind (decode_lvt_len buf pos lvt) (\<lambda>(len, pos).
       if length buf < pos + len then Err DecodeError
       else rbind (slice buf pos (pos + len)) (\<lambda>bs. Ok (PV_OctetString bs, pos + len)))"

definition decode_app_string :: "bytes \<Rightarrow> nat \<Rightarrow> u8 \<Rightarrow> (property_value \<times> nat) bres" where
  "decode_app_string buf pos lvt =
     rbind (decode_lvt_len buf pos lvt) (\<lambda>(len, pos).
       if len = 0 \<or> length buf < pos + len then Err DecodeError
       else rbind (slice buf (pos + 1) (pos + len)) (\<lambda>bs.
         Ok (PV_CharacterString (utf8_lossy bs), pos + len)))"

definition decode_app_bits :: "bytes \<Rightarrow> nat \<Rightarrow> u8 \<Rightarrow> (property_value \<times> nat) bres" where
  "decode_app_bits buf pos lvt =
     rbind (decode_lvt_len buf pos lvt) (\<lambda>(len, pos).
       if len = 0 \<or> length buf < pos + len then Err DecodeError
       else rbind (index buf pos) (\<lambda>unused.
         rbind (slice buf (pos + 1) (pos + len)) (\<lambda>data.
         rbind (usub (8 * length data) (unat unused)) (\<lambda>_.
         rbind (read_low_bits (unat unused) data) (\<lambda>bits.
           Ok (PV_BitString bits, pos + len))))))"

definition decode_app_date :: "bytes \<Rightarrow> nat \<Rightarrow> u8 \<Rightarrow> (property_value \<times> nat) bres" where
  "decode_app_date buf pos lvt =
     rbind (decode_lvt_len buf pos lvt) (\<lambda>(_, pos).
       if length buf < pos + 4 then Err DecodeError
       else rbind (index buf pos) (\<lambda>y. rbind (index buf (pos + 1)) (\<lambda>m.
         rbind (index buf (pos + 2)) (\<lambda>d. rbind (index buf (pos + 3)) (\<lambda>w.
           Ok (PV_Date \<lparr>date_year = ucast y + 1900, date_month = m, date_day = d,
                        date_weekday = weekday_of_byte w\<rparr>, pos + 4))))))"

definition decode_app_time :: "bytes \<Rightarrow> nat \<Rightarrow> u8 \<Rightarrow> (property_value \<times> nat) bres" where
  "decode_app_time buf pos lvt =
     rbind (decode_lvt_len buf pos lvt) (\<lambda>(_, pos).
       if length buf < pos + 4 then Err DecodeError
       else rbind (index buf pos) (\<lambda>h. rbind (index buf (pos + 1)) (\<lambda>m.
         rbind (index buf (pos + 2)) (\<lambda>s. rbind (index buf (pos + 3)) (\<lambda>c.
           Ok (PV_Time \<lparr>time_hour = h, time_minute = m, time_second = s,
                        time_hundredths = c\<rparr>, pos + 4))))))"

definition decode_app_object_id :: "bytes \<Rightarrow> nat \<Rightarrow> u8 \<Rightarrow> (property_value \<times> nat) bres" where
  "decode_app_object_id buf pos lvt =
     rbind (decode_lvt_len buf pos lvt) (\<lambda>(_, pos).
       if length buf < pos + 4 then Err DecodeError
       else rbind (read_u32_be buf pos) (\<lambda>raw.
         Ok (PV_ObjectId (object_id_of_raw raw), pos + 4)))"

definition decode_application_value :: "bytes \<Rightarrow> nat \<Rightarrow> (property_value \<times> nat) bres" where
  "decode_application_value buf pos =
     rbind (ok_or DecodeError (peek buf pos)) (\<lambda>b.
       let tag = drop_bit 4 b AND 0x0F; lvt = b AND 0x07; p = pos + 1 in
       if b AND 0x08 \<noteq> 0 then Err DecodeError
       else if tag = 0 then Ok (PV_Null, p)
       else if tag = 1 then Ok (PV_Boolean (lvt \<noteq> 0), p)
       else if tag = 2 then
         rbind (decode_lvt_len buf p lvt) (\<lambda>(len, p).
         rbind (read_uint buf p len) (\<lambda>(v, p). Ok (PV_Unsigned v, p)))
       else if tag = 3 then decode_app_integer buf p lvt
       else if tag = 4 then decode_app_real buf p lvt
       else if tag = 5 then decode_app_double buf p lvt
       else if tag = 6 then decode_app_octets buf p lvt
       else if tag = 7 then decode_app_string buf p lvt
       else if tag = 8 then decode_app_bits buf p lvt
       else if tag = 9 then
         rbind (decode_lvt_len buf p lvt) (\<lambda>(len, p).
         rbind (read_uint buf p len) (\<lambda>(v, p). Ok (PV_Enumerated v, p)))
       else if tag = 10 then decode_app_date buf p lvt
       else if tag = 11 then decode_app_time buf p lvt
       else if tag = 12 then decode_app_object_id buf p lvt
       else Err DecodeError)"

subsection \<open>Context-tagged encoders\<close>

text \<open>\<^verbatim>\<open>uint_bytes\<close> with the slice \<^verbatim>\<open>[..len]\<close> that both its callers take.\<close>

definition uint_bytes :: "u32 \<Rightarrow> bytes" where
  "uint_bytes value =
     (if value < 0x100 then [ucast value]
      else if value < 0x10000 then [ucast (drop_bit 8 value), ucast value]
      else if value < 0x1000000 then
        [ucast (drop_bit 16 value), ucast (drop_bit 8 value), ucast value]
      else [ucast (drop_bit 24 value), ucast (drop_bit 16 value), ucast (drop_bit 8 value),
            ucast value])"

definition raw_of_object_id :: "object_id \<Rightarrow> u32" where
  "raw_of_object_id oid =
     push_bit 22 (ot_code (oid_type oid)) OR (oid_instance oid AND 0x3FFFFF)"

definition encode_ctx_object_id :: "u8 \<Rightarrow> object_id \<Rightarrow> bytes" where
  "encode_ctx_object_id tag_num oid =
     (push_bit 4 tag_num OR 0x08 OR 4) # u32_to_be (raw_of_object_id oid)"

definition encode_ctx_u32 :: "u8 \<Rightarrow> u32 \<Rightarrow> bytes" where
  "encode_ctx_u32 tag_num value =
     (push_bit 4 tag_num OR 0x08 OR of_nat (length (uint_bytes value))) # uint_bytes value"

definition encode_opening_tag :: "u8 \<Rightarrow> bytes" where
  "encode_opening_tag tag_num = [push_bit 4 tag_num OR 0x08 OR 6]"

definition encode_closing_tag :: "u8 \<Rightarrow> bytes" where
  "encode_closing_tag tag_num = [push_bit 4 tag_num OR 0x08 OR 7]"

subsection \<open>Locality\<close>

lemma decode_lvt_len_shift:
  "decode_lvt_len (pre @ xs) (length pre + k) lvt = shift (length pre) (decode_lvt_len xs k lvt)"
  by (simp add: decode_lvt_len_def shift_base del: add_Suc_right One_nat_def split: option.split)

lemma read_uint_shift:
  "read_uint (pre @ xs) (length pre + k) len = shift (length pre) (read_uint xs k len)"
  by (simp add: read_uint_def shift_base cong: if_cong)

lemma read_u32_be_shift: "read_u32_be (pre @ xs) (length pre + k) = read_u32_be xs k"
  by (simp add: read_u32_be_def shift_base
      del: add_Suc_right One_nat_def add_2_eq_Suc add_2_eq_Suc')

lemma is_opening_shift: "is_opening (pre @ xs) (length pre + k) t = is_opening xs k t"
  by (simp add: is_opening_def peek_shift)

lemma is_closing_shift: "is_closing (pre @ xs) (length pre + k) t = is_closing xs k t"
  by (simp add: is_closing_def peek_shift)

lemma has_context_tag_shift: "has_context_tag (pre @ xs) (length pre + k) t = has_context_tag xs k t"
  by (simp add: has_context_tag_def peek_shift)

lemmas tags_shift = shift_base decode_lvt_len_shift read_uint_shift read_u32_be_shift
  is_opening_shift is_closing_shift has_context_tag_shift

lemma decode_ctx_u32_shift:
  "decode_ctx_u32 (pre @ xs) (length pre + k) t = shift (length pre) (decode_ctx_u32 xs k t)"
  by (simp add: decode_ctx_u32_def tags_shift cong: if_cong del: add_Suc_right One_nat_def)

lemma decode_ctx_object_id_shift:
  "decode_ctx_object_id (pre @ xs) (length pre + k) t = shift (length pre) (decode_ctx_object_id xs k t)"
  by (simp add: decode_ctx_object_id_def tags_shift cong: if_cong del: add_Suc_right One_nat_def)

lemma decode_ctx_property_id_shift:
  "decode_ctx_property_id (pre @ xs) (length pre + k) t =
     shift (length pre) (decode_ctx_property_id xs k t)"
  by (simp add: decode_ctx_property_id_def tags_shift decode_ctx_u32_shift)

lemma decode_ctx_bool_shift:
  "decode_ctx_bool (pre @ xs) (length pre + k) t = shift (length pre) (decode_ctx_bool xs k t)"
  by (simp add: decode_ctx_bool_def tags_shift decode_ctx_u32_shift)

lemmas decode_app_defs = decode_app_integer_def decode_app_real_def decode_app_double_def
  decode_app_octets_def decode_app_string_def decode_app_bits_def decode_app_date_def
  decode_app_time_def decode_app_object_id_def

lemma decode_application_value_shift:
  "decode_application_value (pre @ xs) (length pre + k) =
     shift (length pre) (decode_application_value xs k)"
  unfolding decode_application_value_def Let_def decode_app_defs
  by (simp add: tags_shift cong: if_cong
      del: add_Suc_right One_nat_def add_2_eq_Suc add_2_eq_Suc')

subsection \<open>Integers and object identifiers\<close>

lemma be_fold_zero: "be_fold (0 # bs) = be_fold bs"
  by (simp add: be_fold_def)

lemma be_fold_4: "be_fold [a, b, c, d] = u32_from_be a b c d"
  by (simp add: be_fold_def u32_from_be_def push_bit_or push_bit_push_bit or.assoc)

lemma be_fold_u32_to_be [simp]: "be_fold (u32_to_be v) = v"
  by (simp add: u32_to_be_def be_fold_4)

lemma drop_bit_0_if_less: "v < 2 ^ k \<Longrightarrow> k \<le> n \<Longrightarrow> drop_bit n v = 0" for v :: "'a::len word"
  by (rule bit_word_eqI) (auto simp: bit_simps dest: bit_bound)

lemma be_fold_uint_bytes [simp]: "be_fold (uint_bytes v) = v"
proof -
  have "be_fold (uint_bytes v) = be_fold (u32_to_be v)"
    using drop_bit_0_if_less [of v 8 8] drop_bit_0_if_less [of v 8 16] drop_bit_0_if_less [of v 8 24]
      drop_bit_0_if_less [of v 16 16] drop_bit_0_if_less [of v 16 24]
      drop_bit_0_if_less [of v 24 24]
    by (simp add: uint_bytes_def u32_to_be_def be_fold_zero)
  then show ?thesis by simp
qed

lemma length_uint_bytes: "1 \<le> length (uint_bytes v)" "length (uint_bytes v) \<le> 4"
  by (simp_all add: uint_bytes_def)

definition wf_oid :: "object_id \<Rightarrow> bool" where
  "wf_oid oid \<longleftrightarrow> known_type (oid_type oid) \<and> oid_instance oid < 2 ^ 22"

lemma object_id_roundtrip [simp]:
  assumes "wf_oid oid"
  shows "object_id_of_raw (raw_of_object_id oid) = oid"
proof -
  let ?t = "ot_code (oid_type oid)" and ?i = "oid_instance oid"
  have t: "bit ?t n \<Longrightarrow> n < 6" for n
    using bit_bound [of ?t 6 n] ot_code_less by simp
  have i: "bit ?i n \<Longrightarrow> n < 22" for n
    using bit_bound [of ?i 22 n] assms by (simp add: wf_oid_def)
  have m: "(0x3FFFFF :: u32) = mask 22" by (simp add: mask_numeral)
  have "drop_bit 22 (push_bit 22 ?t OR (?i AND mask 22)) = ?t"
    by (rule bit_word_eqI) (auto simp: bit_simps dest: t)
  moreover have "(push_bit 22 ?t OR (?i AND mask 22)) AND mask 22 = ?i"
    by (rule bit_word_eqI) (auto simp: bit_simps dest: i)
  ultimately show ?thesis
    using assms by (simp add: object_id_of_raw_def raw_of_object_id_def m wf_oid_def)
qed

subsection \<open>Round trips of the context-tagged fields\<close>

lemma of_nat_len_u8:
  assumes "n < 8"
  shows "(of_nat n :: u8) < 8" and "unat (of_nat n :: u8) = n"
  using assms by (simp_all add: word_less_nat_alt unat_of_nat)

lemma decode_lvt_len_direct: "lvt < 5 \<Longrightarrow> decode_lvt_len buf pos lvt = Ok (unat lvt, pos)"
  by (simp add: decode_lvt_len_def)

lemma decode_ctx_u32_start:
  assumes "t < 16"
  shows "decode_ctx_u32 (encode_ctx_u32 t v @ post) 0 t = Ok (v, length (encode_ctx_u32 t v))"
proof -
  let ?n = "length (uint_bytes v)"
  have n: "?n < 8" "?n < 5" using length_uint_bytes(2) [of v] by simp_all
  have l: "(of_nat ?n :: u8) < 8" "(of_nat ?n :: u8) < 5" "unat (of_nat ?n :: u8) = ?n"
    using n by (simp_all add: word_less_nat_alt unat_of_nat)
  show ?thesis
    using tag_byte_fields [OF assms l(1)] l
    by (simp add: decode_ctx_u32_def encode_ctx_u32_def peek_def decode_lvt_len_direct
        read_uint_def)
qed

lemma decode_ctx_object_id_start:
  assumes "t < 16" and "wf_oid oid"
  shows "decode_ctx_object_id (encode_ctx_object_id t oid @ post) 0 t =
    Ok (oid, length (encode_ctx_object_id t oid))"
proof -
  have l: "(4::u8) < 8" by simp
  show ?thesis
    using tag_byte_fields [OF assms(1) l] object_id_roundtrip [OF assms(2)]
    by (simp add: decode_ctx_object_id_def encode_ctx_object_id_def peek_def
        decode_lvt_len_direct read_u32_be_def u32_to_be_def)
qed

interpretation ctx_u32: wire_codec "encode_ctx_u32 t" "\<lambda>buf pos. decode_ctx_u32 buf pos t"
    "\<lambda>v. t < 16" for t
  by (rule wire_codecI) (simp_all only: decode_ctx_u32_shift decode_ctx_u32_start)

interpretation ctx_oid: wire_codec "encode_ctx_object_id t" "\<lambda>buf pos. decode_ctx_object_id buf pos t"
    "\<lambda>oid. t < 16 \<and> wf_oid oid" for t
  by (rule wire_codecI) (simp_all only: decode_ctx_object_id_shift decode_ctx_object_id_start)

interpretation ctx_pid: wire_codec "\<lambda>p. encode_ctx_u32 t (pid_to_u32 p)"
    "\<lambda>buf pos. decode_ctx_property_id buf pos t" "\<lambda>p. t < 16 \<and> pid_canonical p" for t
proof (rule wire_codecI)
  show "decode_ctx_property_id (pre @ xs) (length pre + 0) t =
      shift (length pre) (decode_ctx_property_id xs 0 t)" for pre xs
    by (rule decode_ctx_property_id_shift)
  show "decode_ctx_property_id (encode_ctx_u32 t (pid_to_u32 p) @ post) 0 t =
      Ok (p, length (encode_ctx_u32 t (pid_to_u32 p)))" if "t < 16 \<and> pid_canonical p" for p post
    using that by (simp add: decode_ctx_property_id_def decode_ctx_u32_start)
qed

text \<open>The tags of an encoded field are seen by the presence checks, and by no other.\<close>

lemma has_context_tag_encode_ctx_u32:
  assumes "t < 16" and "u < 16"
  shows "has_context_tag (encode_ctx_u32 t v @ post) 0 u \<longleftrightarrow> t = u"
    and "\<not> is_opening (encode_ctx_u32 t v @ post) 0 u"
    and "\<not> is_closing (encode_ctx_u32 t v @ post) 0 u"
proof -
  let ?n = "length (uint_bytes v)"
  have l: "(of_nat ?n :: u8) < 8" "(of_nat ?n :: u8) < 6"
    using length_uint_bytes(2) [of v] by (simp_all add: word_less_nat_alt unat_of_nat)
  have "(of_nat ?n :: u8) \<noteq> 6" "(of_nat ?n :: u8) \<noteq> 7" using l(2) by auto
  then show "has_context_tag (encode_ctx_u32 t v @ post) 0 u \<longleftrightarrow> t = u"
    and "\<not> is_opening (encode_ctx_u32 t v @ post) 0 u"
    and "\<not> is_closing (encode_ctx_u32 t v @ post) 0 u"
    using tag_byte_fields [OF assms(1) l(1)] l(2)
    by (simp_all add: has_context_tag_def is_opening_def is_closing_def encode_ctx_u32_def peek_def)
qed

lemma open_close_tags:
  assumes "t < 16"
  shows "is_opening (encode_opening_tag t @ post) 0 u \<longleftrightarrow> t = u"
    and "is_closing (encode_closing_tag t @ post) 0 u \<longleftrightarrow> t = u"
    and "\<not> is_closing (encode_opening_tag t @ post) 0 u"
    and "\<not> is_opening (encode_closing_tag t @ post) 0 u"
    and "\<not> has_context_tag (encode_opening_tag t @ post) 0 u"
    and "\<not> has_context_tag (encode_closing_tag t @ post) 0 u"
proof -
  have l: "(6::u8) < 8" "(7::u8) < 8" by simp_all
  show "is_opening (encode_opening_tag t @ post) 0 u \<longleftrightarrow> t = u"
    and "is_closing (encode_closing_tag t @ post) 0 u \<longleftrightarrow> t = u"
    and "\<not> is_closing (encode_opening_tag t @ post) 0 u"
    and "\<not> is_opening (encode_closing_tag t @ post) 0 u"
    and "\<not> has_context_tag (encode_opening_tag t @ post) 0 u"
    and "\<not> has_context_tag (encode_closing_tag t @ post) 0 u"
    using tag_byte_fields [OF assms l(1)] tag_byte_fields [OF assms l(2)]
    by (simp_all add: has_context_tag_def is_opening_def is_closing_def encode_opening_tag_def
        encode_closing_tag_def peek_def)
qed

subsection \<open>Positions and panics\<close>

lemma decode_lvt_len_bounds:
  "decode_lvt_len buf pos lvt = Ok (len, p) \<Longrightarrow> pos \<le> length buf \<Longrightarrow> pos \<le> p \<and> p \<le> length buf"
  by (auto simp: decode_lvt_len_def peek_Some split: if_splits option.splits)

lemma read_uint_bounds: "read_uint buf pos len = Ok (v, p) \<Longrightarrow> p = pos + len \<and> p \<le> length buf"
  by (auto simp: read_uint_def rbind_eq_Ok split: if_splits)

lemma decode_ctx_u32_bounds:
  "decode_ctx_u32 buf pos t = Ok (v, p) \<Longrightarrow> pos < p \<and> p \<le> length buf"
  by (fastforce simp: decode_ctx_u32_def rbind_eq_Ok peek_Some
      dest: decode_lvt_len_bounds read_uint_bounds split: if_splits)

lemma decode_ctx_property_id_bounds:
  "decode_ctx_property_id buf pos t = Ok (v, p) \<Longrightarrow> pos < p \<and> p \<le> length buf"
  by (auto simp: decode_ctx_property_id_def rbind_eq_Ok dest: decode_ctx_u32_bounds)

lemma decode_ctx_object_id_bounds:
  "decode_ctx_object_id buf pos t = Ok (v, p) \<Longrightarrow> pos < p \<and> p \<le> length buf"
  by (fastforce simp: decode_ctx_object_id_def rbind_eq_Ok peek_Some
      dest: decode_lvt_len_bounds split: if_splits)

lemma decode_lvt_len_no_panic [no_panic]: "decode_lvt_len buf pos lvt \<noteq> Panic"
  by (simp add: decode_lvt_len_def split: option.split)

lemma read_uint_no_panic [no_panic]: "read_uint buf pos len \<noteq> Panic"
  by (simp add: read_uint_def)

lemma read_u32_be_no_panic [no_panic]: "pos + 4 \<le> length buf \<Longrightarrow> read_u32_be buf pos \<noteq> Panic"
  by (simp add: read_u32_be_def)

lemma decode_ctx_u32_no_panic [no_panic]: "decode_ctx_u32 buf pos t \<noteq> Panic"
  by (auto simp: decode_ctx_u32_def rbind_eq_Panic no_panic)

lemma decode_ctx_bool_no_panic [no_panic]: "decode_ctx_bool buf pos t \<noteq> Panic"
  by (auto simp: decode_ctx_bool_def rbind_eq_Panic no_panic)

lemma decode_ctx_property_id_no_panic [no_panic]: "decode_ctx_property_id buf pos t \<noteq> Panic"
  by (auto simp: decode_ctx_property_id_def rbind_eq_Panic no_panic)

lemma decode_ctx_object_id_no_panic [no_panic]: "decode_ctx_object_id buf pos t \<noteq> Panic"
  by (auto simp: decode_ctx_object_id_def rbind_eq_Panic no_panic)

end
