(* ===== verification/Asn1.thy ===== *)
theory Asn1
  imports Tags
begin

text \<open>
  \<^verbatim>\<open>crates/bacnet-types/src/encoding/asn1.rs\<close> and \<^verbatim>\<open>context.rs\<close>: the application-tag primitives.
  An encoder is the list of bytes it appends; a decoder reads from the start of its buffer and
  returns the value and the number of bytes consumed.
\<close>

subsection \<open>Helpers\<close>

definition tag_byte :: "u8 \<Rightarrow> u8 \<Rightarrow> u8" where
  "tag_byte tag len = push_bit 4 tag OR (len AND 0x07)"

definition context_tag_byte :: "u8 \<Rightarrow> u8 \<Rightarrow> u8" where
  "context_tag_byte tag len = push_bit 4 (tag AND 0x0F) OR (len AND 0x07) OR 0x08"

text \<open>The bytes of \<^verbatim>\<open>value.to_be_bytes()\<close> that the callers keep.\<close>

definition asn1_uint_bytes :: "u32 \<Rightarrow> bytes" where
  "asn1_uint_bytes value =
     (if value < 0x100 then [ucast value]
      else let b = u32_to_be value in
        if value < 0x10000 then [b ! 2, b ! 3]
        else if value < 0x1000000 then [b ! 1, b ! 2, b ! 3]
        else [b ! 0, b ! 1, b ! 2, b ! 3])"

definition with_context_tag :: "u8 \<Rightarrow> bytes \<Rightarrow> bytes" where
  "with_context_tag tag inner = [push_bit 4 tag OR 0x0E] @ inner @ [push_bit 4 tag OR 0x0F]"

subsection \<open>Unsigned\<close>

definition encode_application_unsigned :: "u32 \<Rightarrow> bytes" where
  "encode_application_unsigned value =
     tag_byte 2 (of_nat (length (asn1_uint_bytes value))) # asn1_uint_bytes value"

definition decode_application_unsigned :: "bytes \<Rightarrow> (u32 \<times> nat) bres" where
  "decode_application_unsigned buf =
     (if buf = [] then Err DecodeError
      else rbind (index buf 0) (\<lambda>tag.
        if drop_bit 4 tag \<noteq> 2 then Err DecodeError
        else let len = unat (tag AND 0x07) in
          if length buf < 1 + len then Err DecodeError
          else rbind (slice buf 1 (1 + len)) (\<lambda>bs. Ok (be_fold bs, 1 + len))))"

definition encode_context_unsigned :: "u8 \<Rightarrow> u32 \<Rightarrow> bytes" where
  "encode_context_unsigned context_tag value =
     context_tag_byte context_tag (of_nat (length (asn1_uint_bytes value))) # asn1_uint_bytes value"

subsection \<open>Real\<close>

definition encode_application_real :: "f32 \<Rightarrow> bytes" where
  "encode_application_real value = tag_byte 4 4 # u32_to_be value"

definition decode_application_real :: "bytes \<Rightarrow> (f32 \<times> nat) bres" where
  "decode_application_real buf =
     (if length buf < 5 then Err DecodeError
      else rbind (index buf 0) (\<lambda>t.
        if drop_bit 4 t \<noteq> 4 \<or> t AND 0x07 \<noteq> 4 then Err DecodeError
        else rbind (read_u32_be buf 1) (\<lambda>v. Ok (v, 5))))"

subsection \<open>Object identifier\<close>

definition encode_application_object_id :: "object_id \<Rightarrow> bytes" where
  "encode_application_object_id oid = 0xC4 # u32_to_be (raw_of_object_id oid)"

definition decode_application_object_id :: "bytes \<Rightarrow> (object_id \<times> nat) bres" where
  "decode_application_object_id buf =
     (if length buf < 5 then Err DecodeError
      else rbind (index buf 0) (\<lambda>t.
        if t \<noteq> 0xC4 then Err DecodeError
        else rbind (read_u32_be buf 1) (\<lambda>raw.
          rbind (ok_or DecodeError (object_type_from_u16 (ucast (drop_bit 22 raw)))) (\<lambda>ty.
            Ok (\<lparr>oid_type = ty, oid_instance = raw AND 0x3FFFFF\<rparr>, 5)))))"

subsection \<open>Date\<close>

definition sat_sub_u16 :: "u16 \<Rightarrow> u16 \<Rightarrow> u16" where
  "sat_sub_u16 a b = (if a < b then 0 else a - b)"

definition encode_application_date :: "bacnet_date \<Rightarrow> bytes" where
  "encode_application_date date =
     [tag_byte 10 4, ucast (sat_sub_u16 (date_year date) 1900), date_month date, date_day date,
      weekday_code (date_weekday date)]"

definition asn1_weekday_of_byte :: "u8 \<Rightarrow> weekday" where
  "asn1_weekday_of_byte b =
     (if b = 1 then WD_Monday else if b = 2 then WD_Tuesday else if b = 3 then WD_Wednesday
      else if b = 4 then WD_Thursday else if b = 5 then WD_Friday
      else if b = 6 then WD_Saturday else if b = 7 then WD_Sunday else WD_Unspecified)"

definition decode_application_date :: "bytes \<Rightarrow> (bacnet_date \<times> nat) bres" where
  "decode_application_date buf =
     (if length buf < 5 then Err DecodeError
      else rbind (index buf 0) (\<lambda>t.
        if drop_bit 4 t \<noteq> 10 then Err DecodeError
        else rbind (index buf 1) (\<lambda>y. rbind (index buf 2) (\<lambda>m.
          rbind (index buf 3) (\<lambda>d. rbind (index buf 4) (\<lambda>w.
            Ok (\<lparr>date_year = ucast y + 1900, date_month = m, date_day = d,
                 date_weekday = asn1_weekday_of_byte w\<rparr>, 5)))))))"

subsection \<open>Bit string\<close>

text \<open>
  The packing loop: \<open>i\<close> counts the bits taken, \<open>byte\<close> is the byte being filled, most
  significant bit first; a last partial byte is flushed.
\<close>

fun encode_bits :: "nat \<Rightarrow> u8 \<Rightarrow> bool list \<Rightarrow> bytes" where
  "encode_bits i byte [] = (if i mod 8 = 0 then [] else [byte])"
| "encode_bits i byte (b # bs) =
     (let byte' = (if b then byte OR drop_bit (i mod 8) 0x80 else byte) in
      if i mod 8 = 7 then byte' # encode_bits (i + 1) 0 bs
      else encode_bits (i + 1) byte' bs)"

definition unused_bits :: "bool list \<Rightarrow> nat" where
  "unused_bits data = (if data = [] then 0 else (8 - length data mod 8) mod 8)"

definition encode_application_bitstring :: "bool list \<Rightarrow> bytes" where
  "encode_application_bitstring data =
     (let unused = of_nat (unused_bits data); total_len = 1 + (length data + 7) div 8 in
      (if total_len \<le> 4 then [tag_byte 8 (of_nat total_len), unused]
       else [tag_byte 8 5, of_nat total_len, unused])
      @ encode_bits 0 0 data)"

definition high_bits :: "nat \<Rightarrow> u8 \<Rightarrow> bool list" where
  "high_bits n b = map (\<lambda>j. b AND drop_bit j 0x80 \<noteq> 0) [0..<n]"

fun read_high_bits :: "nat \<Rightarrow> bytes \<Rightarrow> bool list bres" where
  "read_high_bits unused [] = Ok []"
| "read_high_bits unused [b] = rbind (usub 8 unused) (\<lambda>n. Ok (high_bits n b))"
| "read_high_bits unused (b # bs) =
     rbind (read_high_bits unused bs) (\<lambda>r. Ok (high_bits 8 b @ r))"

text \<open>\<open>total_len\<close> and \<open>value_start\<close> as the two LVT forms give them.\<close>

definition bitstring_header :: "bytes \<Rightarrow> (nat \<times> nat) bres" where
  "bitstring_header buf =
     rbind (index buf 0) (\<lambda>t.
       let lvt = unat (t AND 0x07) in
       if lvt \<le> 4 then Ok (lvt, 1)
       else if lvt = 5 then
         (if length buf < 3 then Err DecodeError
          else rbind (index buf 1) (\<lambda>l. Ok (unat l, 2)))
       else Err DecodeError)"

definition decode_application_bitstring :: "bytes \<Rightarrow> (bool list \<times> nat) bres" where
  "decode_application_bitstring buf =
     (if length buf < 2 then Err DecodeError
      else rbind (index buf 0) (\<lambda>t.
        if drop_bit 4 t \<noteq> 8 then Err DecodeError
        else rbind (bitstring_header buf) (\<lambda>(total_len, value_start).
          if length buf < value_start + total_len then Err DecodeError
          else rbind (index buf value_start) (\<lambda>unused.
            rbind (slice buf (value_start + 1) (value_start + total_len)) (\<lambda>data_bytes.
            rbind (if data_bytes = [] then Ok 0
                   else usub (8 * length data_bytes) (unat unused)) (\<lambda>_.
            rbind (read_high_bits (unat unused) data_bytes) (\<lambda>bits.
              Ok (bits, value_start + total_len))))))))"

subsection \<open>The two byte-sizing helpers agree\<close>

lemma asn1_uint_bytes_eq: "asn1_uint_bytes v = uint_bytes v"
  by (simp add: asn1_uint_bytes_def uint_bytes_def u32_to_be_def Let_def numeral_2_eq_2
      numeral_3_eq_3)

lemma and_7_less: "(b AND 7 :: u8) < 8"
proof -
  have "b AND 7 \<le> 7" by (rule word_and_le1)
  then show ?thesis by (rule order_le_less_trans) simp
qed

lemma and_7_id: "l < 8 \<Longrightarrow> (l AND 7 :: u8) = l"
  unfolding mask_nums by (rule bit_word_eqI) (auto simp: bit_simps dest: bit_bound [of l 3, simplified])

lemma context_tag_byte_eq:
  assumes "t < 16" and "l < 8"
  shows "context_tag_byte t l = push_bit 4 t OR 8 OR l"
proof -
  have t: "bit t n \<Longrightarrow> n < 4" for n using bit_bound [of t 4 n] assms(1) by simp
  have "t AND 0x0F = t"
    unfolding mask_nums by (rule bit_word_eqI) (auto simp: bit_simps dest: t)
  then show ?thesis
    by (simp add: context_tag_byte_def and_7_id [OF assms(2)] or.commute or.left_commute)
qed

lemma encode_context_unsigned_eq: "t < 16 \<Longrightarrow> encode_context_unsigned t v = encode_ctx_u32 t v"
proof -
  assume "t < 16"
  moreover have "(of_nat (length (uint_bytes v)) :: u8) < 8"
    using length_uint_bytes(2) [of v] by (intro of_nat_len_u8) simp
  ultimately show ?thesis
    by (simp add: encode_context_unsigned_def encode_ctx_u32_def asn1_uint_bytes_eq
        context_tag_byte_eq)
qed

lemma with_context_tag_eq:
  "with_context_tag t inner = encode_opening_tag t @ inner @ encode_closing_tag t"
proof -
  have "(8 OR 6 :: u8) = 0x0E" and "(8 OR 7 :: u8) = 0x0F" by simp_all
  then show ?thesis
    by (simp add: with_context_tag_def encode_opening_tag_def encode_closing_tag_def or.assoc)
qed

subsection \<open>Packing bits\<close>

fun pack :: "nat \<Rightarrow> u8 \<Rightarrow> bool list \<Rightarrow> u8" where
  "pack j byte [] = byte"
| "pack j byte (b # bs) = pack (Suc j) (if b then byte OR drop_bit j 0x80 else byte) bs"

lemma encode_bits_full:
  assumes "j + length cs = 8" and "cs \<noteq> []"
  shows "encode_bits (8 * k + j) byte (cs @ bs) = pack j byte cs # encode_bits (8 * k + 8) 0 bs"
  using assms
proof (induction cs arbitrary: j byte)
  case (Cons c cs)
  have m: "(8 * k + j) mod 8 = j" using Cons.prems by (simp add: mod_less)
  show ?case
  proof (cases cs)
    case Nil
    then have "j = 7" using Cons.prems by simp
    with Nil m show ?thesis by (simp add: Let_def add.commute [of "8 * k" 8])
  next
    case (Cons d ds)
    with \<open>j + length (c # cs) = 8\<close> Cons.IH [of "Suc j"] m show ?thesis
      by (simp add: Let_def)
  qed
qed simp

lemma encode_bits_part:
  assumes "j + length cs < 8" and "0 < j + length cs"
  shows "encode_bits (8 * k + j) byte cs = [pack j byte cs]"
  using assms
proof (induction cs arbitrary: j byte)
  case (Cons c cs)
  have "(8 * k + j) mod 8 = j" using Cons.prems by (simp add: mod_less)
  with Cons.IH [of "Suc j"] Cons.prems show ?case by (simp add: Let_def)
qed (simp add: mod_less)

lemma bit_drop_0x80: "bit (drop_bit j (0x80 :: u8)) n \<longleftrightarrow> n + j = 7"
proof -
  have "(0x80 :: u8) = push_bit 7 1" by (simp add: push_bit_eq_mult)
  then show ?thesis
    by (simp only: bit_drop_bit_eq bit_push_bit_iff bit_1_iff comp_apply) auto
qed

lemma and_0x80:
  fixes b :: u8
  assumes "m < 8"
  shows "b AND drop_bit m 0x80 \<noteq> 0 \<longleftrightarrow> bit b (7 - m)"
proof -
  have "n + m = 7 \<longleftrightarrow> n = 7 - m" for n using assms by arith
  then have "bit (b AND drop_bit m 0x80) n \<longleftrightarrow> n = 7 - m \<and> bit b (7 - m)" for n
    by (auto simp: bit_and_iff bit_drop_0x80)
  then show ?thesis by (metis bit_0_eq bit_eq_iff bot_apply bot_bool_def)
qed

lemma bit_pack:
  assumes "m < 8" and "j + length cs \<le> 8"
  shows "bit (pack j byte cs) (7 - m) \<longleftrightarrow>
    bit byte (7 - m) \<or> (j \<le> m \<and> m < j + length cs \<and> cs ! (m - j))"
  using assms(2)
proof (induction cs arbitrary: j byte)
  case (Cons c cs)
  have b: "bit (if c then byte OR drop_bit j 0x80 else byte) (7 - m) \<longleftrightarrow>
      bit byte (7 - m) \<or> (c \<and> j = m)"
    using assms(1) Cons.prems by (auto simp: bit_or_iff bit_drop_0x80)
  have "pack j byte (c # cs) = pack (Suc j) (if c then byte OR drop_bit j 0x80 else byte) cs"
    by simp
  then have "bit (pack j byte (c # cs)) (7 - m) \<longleftrightarrow> bit byte (7 - m) \<or> (c \<and> j = m) \<or>
      (Suc j \<le> m \<and> m < Suc j + length cs \<and> cs ! (m - Suc j))"
    using Cons.IH [of "Suc j" "if c then byte OR drop_bit j 0x80 else byte"] Cons.prems b
    by (simp only:) auto
  moreover have "(c # cs) ! (m - j) = (if m = j then c else cs ! (m - Suc j))" if "j \<le> m"
    using that by (auto simp: nth_Cons')
  ultimately show ?case by (cases "m = j") auto
qed auto

lemma high_bits_pack:
  assumes "length cs \<le> 8"
  shows "high_bits (length cs) (pack 0 0 cs) = cs"
  using assms by (auto simp: high_bits_def and_0x80 bit_pack intro!: nth_equalityI)

lemma low_bits_8: "low_bits 8 b = high_bits 8 b"
proof -
  have "rev [0..<8] = map (\<lambda>j. 7 - j) [0..<8]" by (simp add: upt_rec)
  moreover have "(drop_bit i b AND 1 \<noteq> 0) = bit b i" for i
    by (simp add: bit_iff_odd_drop_bit odd_iff_mod_2_eq_one and_one_eq)
  ultimately show ?thesis
    by (simp add: low_bits_def high_bits_def and_0x80)
qed

lemma encode_bits_chunk:
  "length cs = 8 \<Longrightarrow> encode_bits (8 * k) 0 (cs @ bs) = pack 0 0 cs # encode_bits (8 * Suc k) 0 bs"
  using encode_bits_full [of 0 cs k 0 bs] by (cases cs) (simp_all add: add.commute)

lemma encode_bits_Nil_iff: "encode_bits (8 * k) 0 bs = [] \<longleftrightarrow> bs = []"
proof (cases "length bs < 8")
  case True
  then show ?thesis using encode_bits_part [of 0 bs k 0] by (cases bs) auto
next
  case False
  then have "length (take 8 bs) = 8" by simp
  from encode_bits_chunk [OF this, of k "drop 8 bs"] show ?thesis using False by auto
qed

lemma length_encode_bits: "length (encode_bits (8 * k) 0 bs) = (length bs + 7) div 8"
proof (induction "length bs" arbitrary: bs k rule: less_induct)
  case less
  show ?case
  proof (cases "length bs < 8")
    case True
    then show ?thesis using encode_bits_part [of 0 bs k 0] by (cases bs) auto
  next
    case False
    then have c: "length (take 8 bs) = 8" by simp
    from False have "length (drop 8 bs) < length bs" by simp
    from less [OF this, of "Suc k"] have "length (encode_bits (8 * Suc k) 0 (drop 8 bs)) = (length bs - 8 + 7) div 8"
      by simp
    with encode_bits_chunk [OF c, of k "drop 8 bs"] False show ?thesis by simp
  qed
qed

lemma read_high_bits_Cons:
  "bs \<noteq> [] \<Longrightarrow> read_high_bits u (b # bs) = rbind (read_high_bits u bs) (\<lambda>r. Ok (high_bits 8 b @ r))"
  by (cases bs) simp_all

lemma read_high_bits_encode:
  "read_high_bits (unused_bits bs) (encode_bits (8 * k) 0 bs) = Ok bs"
proof (induction "length bs" arbitrary: bs k rule: less_induct)
  case less
  show ?case
  proof (cases "length bs < 8")
    case True
    show ?thesis
    proof (cases "bs = []")
      case False
      then have "unused_bits bs = 8 - length bs" using True by (simp add: unused_bits_def)
      moreover have "encode_bits (8 * k) 0 bs = [pack 0 0 bs]"
        using encode_bits_part [of 0 bs k 0] True False by simp
      ultimately show ?thesis using True high_bits_pack [of bs] by simp
    qed simp
  next
    case False
    define cs ds where "cs = take 8 bs" and "ds = drop 8 bs"
    have bs: "bs = cs @ ds" by (simp add: cs_def ds_def)
    have c: "length cs = 8" using False by (simp add: cs_def)
    have e: "encode_bits (8 * k) 0 bs = pack 0 0 cs # encode_bits (8 * Suc k) 0 ds"
      unfolding bs by (rule encode_bits_chunk [OF c])
    have h: "high_bits 8 (pack 0 0 cs) = cs" using high_bits_pack [of cs] c by simp
    show ?thesis
    proof (cases "ds = []")
      case True
      then have "encode_bits (8 * Suc k) 0 ds = []" by (simp only: encode_bits_Nil_iff)
      moreover have "unused_bits bs = 0" using True bs c by (simp add: unused_bits_def)
      ultimately show ?thesis using e h True bs by simp
    next
      case ne: False
      have "unused_bits bs = unused_bits ds" using bs c ne by (simp add: unused_bits_def)
      moreover have "length ds < length bs" using bs c by simp
      moreover have "encode_bits (8 * Suc k) 0 ds \<noteq> []" using ne by (simp only: encode_bits_Nil_iff not_False_eq_True)
      ultimately show ?thesis
        using less [of ds "Suc k"] e h bs by (simp add: read_high_bits_Cons)
    qed
  qed
qed

text \<open>\<^verbatim>\<open>tags.rs\<close> agrees with \<^verbatim>\<open>asn1.rs\<close> where no bit is unused.\<close>

lemma read_low_bits_0: "read_low_bits 0 bs = read_high_bits 0 bs"
  by (induction "0::nat" bs rule: read_low_bits.induct) (simp_all add: low_bits_8)

end
