(* ===== verification/Application.thy ===== *)
theory Application
  imports Asn1
begin

text \<open>
  \<^verbatim>\<open>crates/bacnet-types/src/encoding/application.rs\<close>: the application-tagged encoder of a
  property value, and its inverse, the decoder of \<^verbatim>\<open>tags.rs\<close>.
\<close>

definition encode_enumerated :: "u32 \<Rightarrow> bytes" where
  "encode_enumerated v =
     (if v < 0x100 then [0x90 OR 1, ucast v] else (0x90 OR 4) # u32_to_be v)"

definition encode_octets :: "bytes \<Rightarrow> bytes" where
  "encode_octets bs =
     (if length bs \<le> 4 then [0x60 OR of_nat (length bs)] else [0x65, of_nat (length bs)]) @ bs"

text \<open>Every arm succeeds, so the encoder is the bytes it appends.\<close>

fun encode_property_value :: "property_value \<Rightarrow> bytes" where
  "encode_property_value PV_Null = [0x00]"
| "encode_property_value (PV_Boolean v) = [0x11, if v then 0x01 else 0x00]"
| "encode_property_value (PV_Unsigned v) = encode_application_unsigned v"
| "encode_property_value (PV_Real v) = encode_application_real v"
| "encode_property_value (PV_CharacterString s) = [0x75, of_nat (length s + 1), 0x00] @ s"
| "encode_property_value (PV_ObjectId oid) = encode_application_object_id oid"
| "encode_property_value (PV_Date d) = encode_application_date d"
| "encode_property_value (PV_BitString b) = encode_application_bitstring b"
| "encode_property_value (PV_Enumerated v) = encode_enumerated v"
| "encode_property_value (PV_Any raw) = raw"
| "encode_property_value (PV_Array items) = concat (map encode_property_value items)"
| "encode_property_value (PV_List items) = concat (map encode_property_value items)"
| "encode_property_value (PV_Integer v) = 0x34 # u32_to_be v"
| "encode_property_value (PV_Double v) = [0x55, 0x08] @ u64_to_be v"
| "encode_property_value (PV_OctetString bs) = encode_octets bs"
| "encode_property_value (PV_Time t) =
     [0xB4, time_hour t, time_minute t, time_second t, time_hundredths t]"

text \<open>
  The values the wire can carry and the decoder gives back.  A Boolean is not among them (the
  encoder writes its value in a byte of its own, the decoder takes it from the tag), nor a date
  without a weekday or outside 1900..2155, nor a text or an octet string whose length byte would
  wrap, nor a bit string with unused bits.
\<close>

fun wire_value :: "property_value \<Rightarrow> bool" where
  "wire_value (PV_Boolean v) = False"
| "wire_value (PV_CharacterString s) \<longleftrightarrow> length s \<le> 254 \<and> utf8_valid s"
| "wire_value (PV_ObjectId oid) = wf_oid oid"
| "wire_value (PV_Date d) \<longleftrightarrow>
     1900 \<le> date_year d \<and> date_year d \<le> 2155 \<and> date_weekday d \<noteq> WD_Unspecified"
| "wire_value (PV_BitString b) \<longleftrightarrow> 8 dvd length b \<and> b \<noteq> [] \<and> length b \<le> 2032"
| "wire_value (PV_Any raw) = False"
| "wire_value (PV_Array items) = False"
| "wire_value (PV_List items) = False"
| "wire_value (PV_OctetString bs) \<longleftrightarrow> length bs \<le> 255"
| "wire_value _ = True"

lemma decode_encode_unsigned:
  "decode_application_value (encode_application_unsigned v @ post) 0 =
     Ok (PV_Unsigned v, length (encode_application_unsigned v))"
proof -
  let ?n = "length (uint_bytes v)"
  have n: "?n < 8" "?n < 5" using length_uint_bytes(2) [of v] by simp_all
  have l: "(of_nat ?n :: u8) < 8" "(of_nat ?n :: u8) < 5" "unat (of_nat ?n :: u8) = ?n"
    using n by (simp_all add: word_less_nat_alt unat_of_nat)
  have t: "(2::u8) < 16" by simp
  show ?thesis
    using tag_byte_fields(4-6) [OF t l(1)] l
    by (simp add: decode_application_value_def encode_application_unsigned_def peek_def
        asn1_uint_bytes_eq tag_byte_def and_7_id decode_lvt_len_direct read_uint_def)
qed

lemma decode_encode_real:
  "decode_application_value (encode_application_real v @ post) 0 = Ok (PV_Real v, length (encode_application_real v))"
  by (simp add: decode_application_value_def encode_application_real_def peek_def
        tag_byte_def decode_lvt_len_direct decode_app_real_def read_u32_be_def u32_to_be_def)

lemmas app_start = decode_application_value_def peek_def decode_lvt_len_def decode_app_defs
  read_u32_be_def u32_to_be_def read_uint_def slice_def index_def

lemma of_nat_u8: "n \<le> 255 \<Longrightarrow> unat (of_nat n :: u8) = n"
  by (simp add: unat_of_nat)

lemma decode_encode_enumerated:
  "decode_application_value (encode_enumerated v @ post) 0 =
     Ok (PV_Enumerated v, length (encode_enumerated v))"
proof (cases "v < 0x100")
  case True
  then have "be_fold [ucast v] = v"
    using be_fold_uint_bytes [of v] by (simp add: uint_bytes_def)
  with True show ?thesis by (simp add: app_start encode_enumerated_def)
next
  case False
  then show ?thesis
    using be_fold_u32_to_be [of v] by (simp add: app_start encode_enumerated_def)
qed

lemma decode_encode_integer:
  "decode_application_value (0x34 # u32_to_be v @ post) 0 = Ok (PV_Integer v, 5)"
  using be_fold_u32_to_be [of v] by (simp add: app_start)

lemma u64_be_roundtrip:
  "push_bit 32 (ucast (ucast (drop_bit 32 w) :: u32)) OR ucast (ucast w :: u32) = w" for w :: u64
  by (rule bit_eqI) (auto simp: bit_simps)

lemma decode_encode_double:
  "decode_application_value (0x55 # 0x08 # u64_to_be v @ post) 0 = Ok (PV_Double v, 10)"
  by (simp add: app_start u64_to_be_def u64_be_roundtrip)

lemma decode_encode_octets:
  assumes "length bs \<le> 255"
  shows "decode_application_value (encode_octets bs @ post) 0 =
    Ok (PV_OctetString bs, length (encode_octets bs))"
proof (cases "length bs \<le> 4")
  case True
  let ?l = "of_nat (length bs) :: u8"
  have l: "?l < 8" "?l < 5" "unat ?l = length bs"
    using True by (simp_all add: word_less_nat_alt unat_of_nat)
  have "(6::u8) < 16" and p: "push_bit 4 (6::u8) = 0x60" by simp_all
  note f = tag_byte_fields(4-6) [OF this(1) l(1), unfolded p]
  with True l show ?thesis
    by (simp add: app_start encode_octets_def)
next
  case False
  with assms show ?thesis by (simp add: app_start encode_octets_def of_nat_u8)
qed

lemma decode_encode_string:
  assumes "length s \<le> 254" and "utf8_valid s"
  shows "decode_application_value ([0x75, of_nat (length s + 1), 0x00] @ s @ post) 0 =
    Ok (PV_CharacterString s, 3 + length s)"
proof -
  have "unat (of_nat (length s + 1) :: u8) = length s + 1"
    using assms(1) by (intro of_nat_u8) simp
  with assms(2) show ?thesis by (simp add: app_start utf8_lossy_valid)
qed

lemma decode_encode_object_id:
  "wf_oid oid \<Longrightarrow> decode_application_value (encode_application_object_id oid @ post) 0 =
     Ok (PV_ObjectId oid, length (encode_application_object_id oid))"
  by (simp add: app_start encode_application_object_id_def)

lemma decode_encode_time:
  "decode_application_value
     ([0xB4, time_hour t, time_minute t, time_second t, time_hundredths t] @ post) 0 =
   Ok (PV_Time t, 5)"
  by (simp add: app_start)

lemma weekday_of_code: "w \<noteq> WD_Unspecified \<Longrightarrow> weekday_of_byte (weekday_code w) = w"
  by (cases w) (simp_all add: weekday_of_byte_def)

lemma ucast_u8_u16: "unat x \<le> 255 \<Longrightarrow> ucast (ucast x :: u8) = x" for x :: u16
  by (simp add: word_unat_eq_iff unsigned_ucast_eq take_bit_word_eq_self take_bit_nat_eq_self unsigned_take_bit_eq)

lemma year_roundtrip:
  assumes "1900 \<le> y" and "y \<le> (2155 :: u16)"
  shows "ucast (ucast (sat_sub_u16 y 1900) :: u8) + 1900 = y"
proof -
  have "\<not> y < 1900" using assms(1) by simp
  moreover have "unat (y - 1900) = unat y - 1900" using assms(1) by (simp add: unat_sub)
  moreover have "unat y \<le> 2155" using assms(2) by (simp add: word_le_nat_alt)
  ultimately show ?thesis by (simp add: sat_sub_u16_def ucast_u8_u16)
qed

lemma decode_encode_date:
  assumes "1900 \<le> date_year d" and "date_year d \<le> 2155" and "date_weekday d \<noteq> WD_Unspecified"
  shows "decode_application_value (encode_application_date d @ post) 0 = Ok (PV_Date d, length (encode_application_date d))"
  using assms by (simp add: app_start encode_application_date_def tag_byte_def weekday_of_code
      year_roundtrip)

lemma tag_byte_fields':
  assumes "t < 16" and "l < 8"
  shows "drop_bit 4 (tag_byte t l) = t" and "tag_byte t l AND 7 = l" and "tag_byte t l AND 8 = 0"
proof -
  note f = tag_byte_fields(4-6) [OF assms]
  have "drop_bit 4 b AND 15 = drop_bit 4 b" for b :: u8
    unfolding mask_nums by (rule bit_word_eqI) (auto simp: bit_simps dest: bit_imp_le_length)
  note g = f(1) [unfolded this] f(2,3)
  from g show "drop_bit 4 (tag_byte t l) = t" "tag_byte t l AND 7 = l" "tag_byte t l AND 8 = 0"
    by (simp_all only: tag_byte_def and_7_id [OF assms(2)])
qed

lemma unused_bits_le: "unused_bits bs \<le> 7"
  by (simp add: unused_bits_def less_Suc_eq_le [symmetric])

text \<open>The two header forms: the length in the tag, or in a byte of its own.\<close>

lemma encode_bitstring_forms:
  assumes "length bs \<le> 2032"
  obtains (short) l where "l < 5" "unat l = 1 + length (encode_bits 0 0 bs)"
      "encode_application_bitstring bs = [tag_byte 8 l, of_nat (unused_bits bs)] @ encode_bits 0 0 bs"
      "drop_bit 4 (tag_byte 8 l) = 8" "tag_byte 8 l AND 8 = 0" "tag_byte 8 l AND 7 = l"
    | (long) l where "unat l = 1 + length (encode_bits 0 0 bs)"
      "encode_application_bitstring bs = [0x85, l, of_nat (unused_bits bs)] @ encode_bits 0 0 bs"
proof -
  define n where "n = 1 + (length bs + 7) div 8"
  have n: "n = 1 + length (encode_bits 0 0 bs)" "n \<le> 255"
    using length_encode_bits [of 0 bs] assms by (simp_all add: n_def)
  have enc: "encode_application_bitstring bs = (if n \<le> 4 then [tag_byte 8 (of_nat n), of_nat (unused_bits bs)]
      else [tag_byte 8 5, of_nat n, of_nat (unused_bits bs)]) @ encode_bits 0 0 bs"
    by (simp only: encode_application_bitstring_def n_def Let_def)
  show ?thesis
  proof (cases "n \<le> 4")
    case True
    then have l: "(of_nat n :: u8) < 8" "(of_nat n :: u8) < 5" "unat (of_nat n :: u8) = n"
      by (simp_all add: word_less_nat_alt unat_of_nat)
    have "(8::u8) < 16" by simp
    note f = tag_byte_fields' [OF this l(1)]
    show ?thesis
      by (rule short [OF l(2) _ _ f(1) f(3) f(2)]) (use True l n enc in simp_all)
  next
    case False
    show ?thesis
      by (rule long [of "of_nat n"]) (use False n(1) enc of_nat_u8 [OF n(2)] in \<open>simp_all add: tag_byte_def\<close>)
  qed
qed

lemma bitstring_payload:
  shows "unat (of_nat (unused_bits bs) :: u8) = unused_bits bs"
    and "read_high_bits (unused_bits bs) (encode_bits 0 0 bs) = Ok bs"
    and "encode_bits 0 0 bs \<noteq> [] \<Longrightarrow> unused_bits bs \<le> 8 * length (encode_bits 0 0 bs)"
proof -
  show "unat (of_nat (unused_bits bs) :: u8) = unused_bits bs"
    using unused_bits_le [of bs] by (intro of_nat_u8) simp
  show "read_high_bits (unused_bits bs) (encode_bits 0 0 bs) = Ok bs"
    using read_high_bits_encode [of bs 0] by simp
  show "encode_bits 0 0 bs \<noteq> [] \<Longrightarrow> unused_bits bs \<le> 8 * length (encode_bits 0 0 bs)"
    using unused_bits_le [of bs] by (cases "encode_bits 0 0 bs") auto
qed

lemma asn1_bitstring_roundtrip:
  assumes "length bs \<le> 2032"
  shows "decode_application_bitstring (encode_application_bitstring bs @ post) =
    Ok (bs, length (encode_application_bitstring bs))"
  using assms
proof (cases rule: encode_bitstring_forms)
  case (short l)
  then have "unat l \<le> 4" by (simp add: word_less_nat_alt)
  with short bitstring_payload [of bs] show ?thesis
    by (simp add: decode_application_bitstring_def bitstring_header_def)
next
  case (long l)
  with bitstring_payload [of bs] show ?thesis
    by (simp add: decode_application_bitstring_def bitstring_header_def)
qed

lemma decode_encode_bitstring:
  assumes "8 dvd length bs" and "bs \<noteq> []" and "length bs \<le> 2032"
  shows "decode_application_value (encode_application_bitstring bs @ post) 0 =
    Ok (PV_BitString bs, length (encode_application_bitstring bs))"
proof -
  have u: "unused_bits bs = 0" using assms(1) by (auto simp: unused_bits_def)
  note payload = bitstring_payload [of bs, unfolded u read_low_bits_0 [symmetric]]
  show ?thesis
    using assms(3)
  proof (cases rule: encode_bitstring_forms)
    case (short l)
    with payload show ?thesis by (simp add: app_start u)
  next
    case (long l)
    with payload show ?thesis by (simp add: app_start u)
  qed
qed

interpretation app_value: wire_codec encode_property_value decode_application_value wire_value
proof (rule wire_codecI)
  show "decode_application_value (pre @ xs) (length pre + 0) =
      shift (length pre) (decode_application_value xs 0)" for pre xs
    by (rule decode_application_value_shift)
  show "decode_application_value (encode_property_value x @ post) 0 =
      Ok (x, length (encode_property_value x))" if "wire_value x" for x post
  proof (cases x)
    case PV_Null
    then show ?thesis by (simp add: app_start)
  next
    case (PV_CharacterString s)
    with that show ?thesis using decode_encode_string [of s post] by simp
  next
    case (PV_Time t)
    then show ?thesis using decode_encode_time [of t post] by simp
  qed (use that decode_encode_bitstring in \<open>simp_all add: decode_encode_unsigned decode_encode_real
      decode_encode_enumerated decode_encode_integer decode_encode_double decode_encode_octets
      decode_encode_object_id decode_encode_date\<close>)
qed

subsection \<open>Positions and panics\<close>

lemma decode_application_value_bounds:
  "decode_application_value buf pos = Ok (v, p) \<Longrightarrow> pos < p \<and> p \<le> length buf"
  by (fastforce simp: decode_application_value_def Let_def decode_app_defs rbind_eq_Ok peek_Some
      dest: decode_lvt_len_bounds read_uint_bounds split: if_splits)

lemma read_low_bits_eq_Panic: "read_low_bits u bs = Panic \<longleftrightarrow> bs \<noteq> [] \<and> 8 < u"
  by (induction u bs rule: read_low_bits.induct) (auto simp: rbind_eq_Panic usub_eq_Panic)

text \<open>The bit-string headers on which the decoder subtracts below zero.\<close>

definition bad_bit_string :: "bytes \<Rightarrow> nat \<Rightarrow> bool" where
  "bad_bit_string buf pos =
     (case decode_lvt_len buf (pos + 1) (buf ! pos AND 0x07) of
        Ok (len, p) \<Rightarrow> len \<noteq> 0 \<and> p + len \<le> length buf
          \<and> (if len = 1 then 0 else 8) < unat (buf ! p)
      | _ \<Rightarrow> False)"

lemma decode_app_bits_eq_Panic:
  "decode_app_bits buf (pos + 1) (buf ! pos AND 0x07) = Panic \<longleftrightarrow> bad_bit_string buf pos"
proof (cases "decode_lvt_len buf (pos + 1) (buf ! pos AND 0x07)")
  case (Ok lp)
  obtain len p where lp: "lp = (len, p)" by (cases lp)
  show ?thesis
  proof (cases "len = 0 \<or> length buf < p + len")
    case True
    with Ok lp show ?thesis by (auto simp: decode_app_bits_def bad_bit_string_def)
  next
    case False
    define d where "d = take (p + len - (p + 1)) (drop (p + 1) buf)"
    let ?u = "unat (buf ! p)"
    have d: "length d = len - 1" using False by (auto simp: d_def)
    have "decode_app_bits buf (pos + 1) (buf ! pos AND 0x07) =
        rbind (usub (8 * length d) ?u) (\<lambda>_. rbind (read_low_bits ?u d) (\<lambda>bits.
          Ok (PV_BitString bits, p + len)))"
      using False Ok lp by (auto simp: decode_app_bits_def d_def)
    then have "decode_app_bits buf (pos + 1) (buf ! pos AND 0x07) = Panic \<longleftrightarrow>
        8 * length d < ?u \<or> d \<noteq> [] \<and> 8 < ?u"
      by (auto simp: rbind_eq_Panic usub_eq_Panic usub_eq_Ok read_low_bits_eq_Panic)
    also have "\<dots> \<longleftrightarrow> (if len = 1 then 0 else 8) < ?u"
      using False unfolding length_0_conv [symmetric] d by (cases "len = 1") auto
    also have "\<dots> \<longleftrightarrow> bad_bit_string buf pos"
      using False Ok lp by (simp add: bad_bit_string_def)
    finally show ?thesis .
  qed
qed (simp_all add: decode_app_bits_def bad_bit_string_def decode_lvt_len_no_panic
    del: add_Suc_right add_0_right One_nat_def)

lemma decode_app_no_panic [no_panic]:
  "decode_app_integer buf pos lvt \<noteq> Panic" "decode_app_real buf pos lvt \<noteq> Panic"
  "decode_app_double buf pos lvt \<noteq> Panic" "decode_app_octets buf pos lvt \<noteq> Panic"
  "decode_app_string buf pos lvt \<noteq> Panic" "decode_app_date buf pos lvt \<noteq> Panic"
  "decode_app_time buf pos lvt \<noteq> Panic" "decode_app_object_id buf pos lvt \<noteq> Panic"
  by (auto simp: decode_app_defs rbind_eq_Panic read_u32_be_no_panic decode_lvt_len_no_panic
      slice_eq_Panic index_eq_Panic split: if_splits)

lemma decode_application_value_eq_Panic:
  "decode_application_value buf pos = Panic \<longleftrightarrow>
     pos < length buf \<and> buf ! pos AND 0x08 = 0 \<and> drop_bit 4 (buf ! pos) AND 0x0F = 8
     \<and> bad_bit_string buf pos"
  using decode_app_bits_eq_Panic [of buf pos]
  by (auto simp: decode_application_value_def Let_def rbind_eq_Panic peek_Some no_panic
      split: if_splits)

subsection \<open>Properties\<close>

text \<open>
  C20. A property value the wire can carry, encoded anywhere in a buffer, is decoded as itself, and
  the decoder stops at its last byte; so what follows one encoding never changes how it is read,
  and two streams of values with the same bytes begin with the same value.
\<close>

theorem property_value_roundtrip:
  assumes "wire_value v"
  shows "decode_application_value (pre @ encode_property_value v @ post) (length pre) =
      Ok (v, length pre + length (encode_property_value v)) \<and>
    (wire_value w \<and> encode_property_value v @ post = encode_property_value w @ post' \<longrightarrow>
      v = w \<and> post = post')"
  using assms app_value.dec_enc app_value.prefix_free by blast

theorem property_value_roundtrip_witness:
  "decode_application_value ([0x3E] @ encode_property_value (PV_CharacterString [0x41, 0xC3, 0xA9]) @ [0x3F])
      (length [0x3E :: u8]) =
    Ok (PV_CharacterString [0x41, 0xC3, 0xA9], length [0x3E :: u8] +
      length (encode_property_value (PV_CharacterString [0x41, 0xC3, 0xA9])))"
proof -
  have "wire_value (PV_CharacterString [0x41, 0xC3, 0xA9])"
    by code_simp
  from property_value_roundtrip [OF this, of "[0x3E]" "[0x3F]" PV_Null "[]"] show ?thesis by simp
qed

text \<open>
  The application decoder panics exactly on a bit string whose data bytes are fewer than its
  unused bits need: a nonzero unused-bits octet with no data byte, or one above 8.
\<close>

theorem application_decoder_panics:
  "decode_application_value buf pos = Panic \<longleftrightarrow>
     pos < length buf \<and> buf ! pos AND 0x08 = 0 \<and> drop_bit 4 (buf ! pos) AND 0x0F = 8
     \<and> bad_bit_string buf pos"
  by (rule decode_application_value_eq_Panic)

text \<open>
  A Boolean does not survive the trip: the encoder puts its value in a byte of its own and 1
  in the tag's length field, the decoder takes the value from that field, so both values are read
  as true and the value byte is left behind.
\<close>

theorem boolean_decoded_as_true:
  "decode_application_value (encode_property_value (PV_Boolean b) @ post) 0 = Ok (PV_Boolean True, 1)
   \<and> drop 1 (encode_property_value (PV_Boolean b) @ post) = (if b then 1 else 0) # post"
  by (simp add: app_start)

text \<open>
  The bit-string codec of \<^verbatim>\<open>asn1.rs\<close> gives back every bit string of up to 2032 bits, of any
  length modulo 8, and consumes exactly its encoding.
\<close>

theorem bitstring_roundtrip:
  assumes "length bs \<le> 2032"
  shows "decode_application_bitstring (encode_application_bitstring bs @ post) =
    Ok (bs, length (encode_application_bitstring bs))"
  using assms by (rule asn1_bitstring_roundtrip)

theorem bitstring_roundtrip_witness:
  "decode_application_bitstring (encode_application_bitstring [True, False, True] @ [0xFF]) =
    Ok ([True, False, True], 3)"
  using bitstring_roundtrip [of "[True, False, True]" "[0xFF]"]
  by (simp add: encode_application_bitstring_def length_encode_bits)

end
