(* ===== verification/Confirmed.thy ===== *)
theory Confirmed
  imports Application
begin

text \<open>
  \<^verbatim>\<open>crates/bacnet-codec/src/apdu/confirmed.rs\<close>: the confirmed requests and the decoders of
  their service bodies.  The code does not encode the bodies; the layouts its comments give
  (\<open>rp_wire\<close>, \<open>wp_wire\<close>, \<open>rpm_wire\<close>, \<open>scov_wire\<close>) are the reference for the decoders.
\<close>

datatype confirmed_service_choice =
    CS_AcknowledgeAlarm | CS_CovNotification | CS_EventNotification | CS_GetAlarmSummary
  | CS_GetEnrollmentSummary | CS_SubscribeCov | CS_AtomicReadFile | CS_AtomicWriteFile
  | CS_AddListElement | CS_RemoveListElement | CS_CreateObject | CS_DeleteObject
  | CS_ReadProperty | CS_ReadPropertyMultiple | CS_WriteProperty | CS_WritePropertyMultiple
  | CS_DeviceCommunicationControl | CS_PrivateTransfer | CS_TextMessage | CS_ReinitializeDevice
  | CS_VtOpen | CS_VtClose | CS_VtData | CS_Authenticate | CS_RequestKey | CS_ReadRange
  | CS_LifeSafetyOperation | CS_SubscribeCovProperty | CS_GetEventInformation
  | CS_SubscribeCovPropertyMultiple | CS_ConfirmedCovNotificationMultiple
  | CS_ConfirmedAuditNotification | CS_AuditLogQuery

datatype segmentation = Seg_Both | Seg_Transmit | Seg_Receive | Seg_NoSegmentation

datatype max_segments =
  MS_Two | MS_Four | MS_Eight | MS_Sixteen | MS_ThirtyTwo | MS_SixtyFour | MS_MoreThan64 | MS_Unspecified

record read_property_request =
  rp_object_id :: object_id
  rp_property_id :: property_identifier
  rp_array_index :: "u32 option"

record write_property_request =
  wp_object_id :: object_id
  wp_property_id :: property_identifier
  wp_array_index :: "u32 option"
  wp_value :: property_value
  wp_priority :: "u8 option"

record subscribe_cov_request =
  scov_process_id :: u32
  scov_object :: object_id
  scov_issue_confirmed :: "bool option"
  scov_lifetime :: "u32 option"

record who_is_request =
  wi_low_limit :: "u32 option"
  wi_high_limit :: "u32 option"

type_synonym property_ref = "property_identifier \<times> u32 option"
type_synonym rpm_spec = "object_id \<times> property_ref list"

datatype confirmed_service_request =
    Req_ReadProperty read_property_request
  | Req_WriteProperty write_property_request
  | Req_SubscribeCov subscribe_cov_request
  | Req_ReadPropertyMultiple "rpm_spec list"

record confirmed_request =
  segmented_accepted :: bool
  more_follows :: bool
  segmented_response_accepted :: bool
  cr_max_segments :: max_segments
  cr_max_response :: u16
  cr_invoke_id :: u8
  cr_sequence_number :: "u8 option"
  cr_proposed_window :: "u8 option"
  cr_service :: confirmed_service_request

subsection \<open>Header\<close>

definition service_choice :: "confirmed_service_request \<Rightarrow> u8" where
  "service_choice s =
     (case s of
        Req_ReadProperty _ \<Rightarrow> 12
      | Req_WriteProperty _ \<Rightarrow> 15
      | Req_SubscribeCov _ \<Rightarrow> 5
      | Req_ReadPropertyMultiple _ \<Rightarrow> 14)"

definition confirmed_encode :: "confirmed_request \<Rightarrow> bytes" where
  "confirmed_encode r =
     [(if segmented_accepted r then 0x08 else 0x00) OR (if more_follows r then 0x04 else 0x00),
      0x04, cr_invoke_id r, service_choice (cr_service r)]"

subsection \<open>Service bodies\<close>

text \<open>The four optional fields run the same test: a context tag of the number, then the value.\<close>

definition decode_opt_u32 :: "bytes \<Rightarrow> nat \<Rightarrow> u8 \<Rightarrow> (u32 option \<times> nat) bres" where
  "decode_opt_u32 body pos t =
     (if has_context_tag body pos t
      then rbind (decode_ctx_u32 body pos t) (\<lambda>(v, pos). Ok (Some v, pos))
      else Ok (None, pos))"

definition decode_opt_bool :: "bytes \<Rightarrow> nat \<Rightarrow> u8 \<Rightarrow> (bool option \<times> nat) bres" where
  "decode_opt_bool body pos t =
     (if has_context_tag body pos t
      then rbind (decode_ctx_bool body pos t) (\<lambda>(v, pos). Ok (Some v, pos))
      else Ok (None, pos))"

definition decode_read_property :: "bytes \<Rightarrow> read_property_request bres" where
  "decode_read_property body =
     rbind (decode_ctx_object_id body 0 0) (\<lambda>(oid, pos).
     rbind (decode_ctx_property_id body pos 1) (\<lambda>(pid, pos).
     rbind (decode_opt_u32 body pos 2) (\<lambda>(idx, pos).
       Ok \<lparr>rp_object_id = oid, rp_property_id = pid, rp_array_index = idx\<rparr>)))"

definition decode_write_property :: "bytes \<Rightarrow> write_property_request bres" where
  "decode_write_property body =
     rbind (decode_ctx_object_id body 0 0) (\<lambda>(oid, pos).
     rbind (decode_ctx_property_id body pos 1) (\<lambda>(pid, pos).
     rbind (decode_opt_u32 body pos 2) (\<lambda>(idx, pos).
       if \<not> is_opening body pos 3 then Err DecodeError
       else rbind (decode_application_value body (pos + 1)) (\<lambda>(value, pos).
         if \<not> is_closing body pos 3 then Err DecodeError
         else rbind (decode_opt_u32 body (pos + 1) 4) (\<lambda>(prio, pos).
           Ok \<lparr>wp_object_id = oid, wp_property_id = pid, wp_array_index = idx, wp_value = value,
               wp_priority = map_option ucast prio\<rparr>)))))"

definition decode_subscribe_cov :: "bytes \<Rightarrow> subscribe_cov_request bres" where
  "decode_subscribe_cov body =
     rbind (decode_ctx_u32 body 0 0) (\<lambda>(process_id, pos).
     rbind (decode_ctx_object_id body pos 1) (\<lambda>(oid, pos).
     rbind (decode_opt_bool body pos 2) (\<lambda>(issue, pos).
     rbind (decode_opt_u32 body pos 3) (\<lambda>(lifetime, pos).
       Ok \<lparr>scov_process_id = process_id, scov_object = oid, scov_issue_confirmed = issue,
           scov_lifetime = lifetime\<rparr>))))"

lemma decode_opt_u32_bounds:
  "decode_opt_u32 body pos t = Ok (v, p) \<Longrightarrow> pos \<le> length body \<Longrightarrow> pos \<le> p \<and> p \<le> length body"
  by (auto simp: decode_opt_u32_def rbind_eq_Ok split: if_splits dest: decode_ctx_u32_bounds)

text \<open>The inner loop of \<^verbatim>\<open>decode_rpm\<close>, to the closing tag, and the outer one, to the end.\<close>

function rpm_props :: "bytes \<Rightarrow> nat \<Rightarrow> (property_ref list \<times> nat) bres" where
  "rpm_props body pos =
     (if is_closing body pos 1 then Ok ([], pos)
      else if length body \<le> pos then Err DecodeError
      else rbind (decode_ctx_property_id body pos 0) (\<lambda>(pid, p).
        rbind (decode_opt_u32 body p 1) (\<lambda>(idx, p).
        rbind (rpm_props body p) (\<lambda>(ps, p). Ok ((pid, idx) # ps, p)))))"
  by pat_completeness auto
termination
proof (relation "measure (\<lambda>(body, pos). length body - pos)")
  fix body :: bytes and pos p q pid idx x y
  assume "\<not> length body \<le> pos" and "decode_ctx_property_id body pos 0 = Ok x" and "(pid, p) = x"
    and "decode_opt_u32 body p 1 = Ok y" and "(idx, q) = y"
  then have "pos < length body" and "pos < p \<and> p \<le> length body" and "p \<le> q \<and> q \<le> length body"
    using decode_ctx_property_id_bounds [of body pos 0 pid p] decode_opt_u32_bounds [of body p 1 idx q]
    by auto
  then show "((body, q), body, pos) \<in> measure (\<lambda>(body, pos). length body - pos)"
    by (simp add: diff_less_mono2)
qed simp

declare rpm_props.simps [simp del]

lemma is_closing_bound: "is_closing buf pos t \<Longrightarrow> pos < length buf"
  by (auto simp: is_closing_def peek_def split: if_splits)

lemma is_opening_bound: "is_opening buf pos t \<Longrightarrow> pos < length buf"
  by (auto simp: is_opening_def peek_def split: if_splits)

lemma rpm_props_bounds:
  "rpm_props body pos = Ok (ps, p) \<Longrightarrow> pos \<le> p \<and> p < length body"
proof (induction body pos arbitrary: ps p rule: rpm_props.induct)
  case (1 body pos)
  show ?case
  proof (cases "is_closing body pos 1")
    case True
    with 1(2) show ?thesis by (auto simp: rpm_props.simps [of body pos] dest: is_closing_bound)
  next
    case False
    with 1(2) obtain pid p1 idx p2 ps' where
      ne: "\<not> length body \<le> pos"
      and s1: "decode_ctx_property_id body pos 0 = Ok (pid, p1)"
      and s2: "decode_opt_u32 body p1 1 = Ok (idx, p2)"
      and s3: "rpm_props body p2 = Ok (ps', p)"
      by (auto simp: rpm_props.simps [of body pos] rbind_eq_Ok split: if_splits)
    from 1(1) [OF False ne s1 refl s2 refl s3] show ?thesis
      using decode_ctx_property_id_bounds [OF s1] decode_opt_u32_bounds [OF s2] by auto
  qed
qed

function rpm_specs :: "bytes \<Rightarrow> nat \<Rightarrow> rpm_spec list bres" where
  "rpm_specs body pos =
     (if pos < length body then
        rbind (decode_ctx_object_id body pos 0) (\<lambda>(oid, p).
          if \<not> is_opening body p 1 then Err DecodeError
          else rbind (rpm_props body (p + 1)) (\<lambda>(props, p).
            rbind (rpm_specs body (p + 1)) (\<lambda>specs. Ok ((oid, props) # specs))))
      else Ok [])"
  by pat_completeness auto
termination
proof (relation "measure (\<lambda>(body, pos). length body - pos)")
  fix body :: bytes and pos p q oid props x y
  assume "pos < length body" and "decode_ctx_object_id body pos 0 = Ok x" and "(oid, p) = x"
    and "rpm_props body (p + 1) = Ok y" and "(props, q) = y"
  then have "pos < p" and "p + 1 \<le> q"
    using decode_ctx_object_id_bounds [of body pos 0 oid p] rpm_props_bounds [of body "p + 1" props q]
    by auto
  then show "((body, q + 1), body, pos) \<in> measure (\<lambda>(body, pos). length body - pos)"
    using \<open>pos < length body\<close> by simp
qed simp

declare rpm_specs.simps [simp del]

definition decode_rpm :: "bytes \<Rightarrow> rpm_spec list bres" where
  "decode_rpm body = rpm_specs body 0"

definition decode_service :: "u8 \<Rightarrow> bytes \<Rightarrow> confirmed_service_request bres" where
  "decode_service choice body =
     (if choice = 12 then rbind (decode_read_property body) (\<lambda>r. Ok (Req_ReadProperty r))
      else if choice = 14 then rbind (decode_rpm body) (\<lambda>r. Ok (Req_ReadPropertyMultiple r))
      else if choice = 15 then rbind (decode_write_property body) (\<lambda>r. Ok (Req_WriteProperty r))
      else if choice = 5 then rbind (decode_subscribe_cov body) (\<lambda>r. Ok (Req_SubscribeCov r))
      else Err DecodeError)"

definition confirmed_decode :: "bytes \<Rightarrow> confirmed_request bres" where
  "confirmed_decode buf =
     (if length buf < 4 then Err DecodeError
      else rbind (index buf 0) (\<lambda>flags. rbind (index buf 2) (\<lambda>invoke_id.
        rbind (index buf 3) (\<lambda>choice. rbind (slice buf 4 (length buf)) (\<lambda>body.
        rbind (decode_service choice body) (\<lambda>service.
          Ok \<lparr>segmented_accepted = (flags AND 0x08 \<noteq> 0), more_follows = (flags AND 0x04 \<noteq> 0),
              segmented_response_accepted = True, cr_max_segments = MS_Unspecified,
              cr_max_response = 480, cr_invoke_id = invoke_id, cr_sequence_number = None,
              cr_proposed_window = None, cr_service = service\<rparr>))))))"

subsection \<open>Panics\<close>

lemma decode_opt_no_panic [no_panic]:
  "decode_opt_u32 body pos t \<noteq> Panic" "decode_opt_bool body pos t \<noteq> Panic"
  by (auto simp: decode_opt_u32_def decode_opt_bool_def rbind_eq_Panic no_panic)

lemma rpm_props_no_panic [no_panic]: "rpm_props body pos \<noteq> Panic"
proof (induction body pos rule: rpm_props.induct)
  case (1 body pos)
  then show ?case
    by (subst rpm_props.simps) (auto simp: rbind_eq_Panic no_panic)
qed

lemma rpm_specs_no_panic [no_panic]: "rpm_specs body pos \<noteq> Panic"
proof (induction body pos rule: rpm_specs.induct)
  case (1 body pos)
  then show ?case
    by (subst rpm_specs.simps) (auto simp: rbind_eq_Panic no_panic)
qed

lemma decode_read_property_no_panic [no_panic]: "decode_read_property body \<noteq> Panic"
  by (auto simp: decode_read_property_def rbind_eq_Panic no_panic)

lemma decode_subscribe_cov_no_panic [no_panic]: "decode_subscribe_cov body \<noteq> Panic"
  by (auto simp: decode_subscribe_cov_def rbind_eq_Panic no_panic)

lemma decode_write_property_panic:
  assumes "decode_write_property body = Panic"
  obtains pos where "is_opening body pos 3" "decode_application_value body (pos + 1) = Panic"
  using assms
  by (auto simp: decode_write_property_def rbind_eq_Panic no_panic split: if_splits)

lemma confirmed_decode_panic:
  assumes "confirmed_decode buf = Panic"
  shows "4 \<le> length buf \<and> buf ! 3 = 15 \<and> (\<exists>pos. bad_bit_string (drop 4 buf) pos)"
proof -
  from assms have len: "4 \<le> length buf" by (auto simp: confirmed_decode_def split: if_splits)
  then have i: "(index buf 0 :: u8 bres) = Ok (buf ! 0)" by (auto simp: index_def)
  from assms len have "decode_service (buf ! 3) (drop 4 buf) = Panic"
    by (simp add: confirmed_decode_def i rbind_eq_Panic)
  then have "buf ! 3 = 15" and "decode_write_property (drop 4 buf) = Panic"
    by (auto simp: decode_service_def decode_rpm_def rbind_eq_Panic no_panic split: if_splits)
  from this(2) have "\<exists>pos. bad_bit_string (drop 4 buf) pos"
    by (rule decode_write_property_panic) (auto simp: decode_application_value_eq_Panic)
  with len \<open>buf ! 3 = 15\<close> show ?thesis by simp
qed

subsection \<open>The layouts the decoders read\<close>

definition opt_u32_wire :: "u8 \<Rightarrow> u32 option \<Rightarrow> bytes" where
  "opt_u32_wire t x = (case x of None \<Rightarrow> [] | Some v \<Rightarrow> encode_ctx_u32 t v)"

definition opt_bool_wire :: "u8 \<Rightarrow> bool option \<Rightarrow> bytes" where
  "opt_bool_wire t x = opt_u32_wire t (map_option (\<lambda>b. if b then 1 else 0) x)"

definition rp_wire :: "read_property_request \<Rightarrow> bytes" where
  "rp_wire r = encode_ctx_object_id 0 (rp_object_id r)
     @ encode_ctx_u32 1 (pid_to_u32 (rp_property_id r)) @ opt_u32_wire 2 (rp_array_index r)"

text \<open>The value of a WriteProperty may be any bytes; \<open>wp_wire\<close> takes those the program would write.\<close>

definition wp_bytes :: "bytes \<Rightarrow> write_property_request \<Rightarrow> bytes" where
  "wp_bytes vs r = encode_ctx_object_id 0 (wp_object_id r)
     @ encode_ctx_u32 1 (pid_to_u32 (wp_property_id r)) @ opt_u32_wire 2 (wp_array_index r)
     @ encode_opening_tag 3 @ vs @ encode_closing_tag 3
     @ opt_u32_wire 4 (map_option ucast (wp_priority r))"

definition wp_wire :: "write_property_request \<Rightarrow> bytes" where
  "wp_wire r = wp_bytes (encode_property_value (wp_value r)) r"

definition scov_wire :: "subscribe_cov_request \<Rightarrow> bytes" where
  "scov_wire r = encode_ctx_u32 0 (scov_process_id r) @ encode_ctx_object_id 1 (scov_object r)
     @ opt_bool_wire 2 (scov_issue_confirmed r) @ opt_u32_wire 3 (scov_lifetime r)"

definition ref_wire :: "property_ref \<Rightarrow> bytes" where
  "ref_wire r = encode_ctx_u32 0 (pid_to_u32 (fst r)) @ opt_u32_wire 1 (snd r)"

definition rpm_spec_wire :: "rpm_spec \<Rightarrow> bytes" where
  "rpm_spec_wire s = encode_ctx_object_id 0 (fst s) @ encode_opening_tag 1
     @ concat (map ref_wire (snd s)) @ encode_closing_tag 1"

definition rpm_wire :: "rpm_spec list \<Rightarrow> bytes" where
  "rpm_wire specs = concat (map rpm_spec_wire specs)"

subsection \<open>The decoders invert the layouts\<close>

lemma has_context_tag_at: "pos = length pre \<Longrightarrow> has_context_tag (pre @ xs) pos t = has_context_tag xs 0 t"
  using has_context_tag_shift [of pre xs 0 t] by simp

lemma is_opening_at: "pos = length pre \<Longrightarrow> is_opening (pre @ xs) pos t = is_opening xs 0 t"
  using is_opening_shift [of pre xs 0 t] by simp

lemma is_closing_at: "pos = length pre \<Longrightarrow> is_closing (pre @ xs) pos t = is_closing xs 0 t"
  using is_closing_shift [of pre xs 0 t] by simp

lemma decode_opt_u32_at:
  assumes "t < 16" and "pos = length pre" and "x = None \<Longrightarrow> \<not> has_context_tag post 0 t"
  shows "decode_opt_u32 (pre @ opt_u32_wire t x @ post) pos t = Ok (x, pos + length (opt_u32_wire t x))"
  using assms
  by (cases x) (simp_all add: decode_opt_u32_def opt_u32_wire_def has_context_tag_at
      has_context_tag_encode_ctx_u32 ctx_u32.dec_enc)

lemma decode_opt_bool_at:
  assumes "t < 16" and "pos = length pre" and "x = None \<Longrightarrow> \<not> has_context_tag post 0 t"
  shows "decode_opt_bool (pre @ opt_bool_wire t x @ post) pos t = Ok (x, pos + length (opt_bool_wire t x))"
  using assms
  by (cases x) (simp_all add: decode_opt_bool_def opt_bool_wire_def opt_u32_wire_def has_context_tag_at
      has_context_tag_encode_ctx_u32 ctx_u32.dec_enc decode_ctx_bool_def)

lemma has_context_tag_Nil [simp]: "\<not> has_context_tag [] 0 t"
  by (simp add: has_context_tag_def peek_def)

lemma open_close_length [simp]:
  "length (encode_opening_tag t) = 1" "length (encode_closing_tag t) = 1"
  by (simp_all add: encode_opening_tag_def encode_closing_tag_def)

definition rp_ok :: "read_property_request \<Rightarrow> bool" where
  "rp_ok r \<longleftrightarrow> wf_oid (rp_object_id r) \<and> pid_canonical (rp_property_id r)"

definition wp_ok :: "write_property_request \<Rightarrow> bool" where
  "wp_ok r \<longleftrightarrow> wf_oid (wp_object_id r) \<and> pid_canonical (wp_property_id r) \<and> wire_value (wp_value r)"

definition rpm_ok :: "rpm_spec list \<Rightarrow> bool" where
  "rpm_ok specs \<longleftrightarrow> (\<forall>(oid, refs) \<in> set specs. wf_oid oid \<and> (\<forall>(pid, idx) \<in> set refs. pid_canonical pid))"

lemma decode_rp_wire:
  assumes "rp_ok r"
  shows "decode_read_property (rp_wire r) = Ok r"
proof -
  let ?a = "encode_ctx_object_id 0 (rp_object_id r)"
  let ?b = "encode_ctx_u32 1 (pid_to_u32 (rp_property_id r))"
  let ?c = "opt_u32_wire 2 (rp_array_index r)"
  have "decode_ctx_object_id (?a @ ?b @ ?c) 0 0 = Ok (rp_object_id r, length ?a)"
    using assms by (intro ctx_oid.dec_enc_start) (simp add: rp_ok_def)
  moreover have "decode_ctx_property_id (?a @ ?b @ ?c) (length ?a) 1 =
      Ok (rp_property_id r, length ?a + length ?b)"
    using assms by (intro ctx_pid.dec_enc) (simp add: rp_ok_def)
  moreover have "decode_opt_u32 (?a @ ?b @ ?c) (length ?a + length ?b) 2 =
      Ok (rp_array_index r, length ?a + length ?b + length ?c)"
    using decode_opt_u32_at [of 2 "length ?a + length ?b" "?a @ ?b" "rp_array_index r" "[]"] by simp
  ultimately show ?thesis by (simp add: decode_read_property_def rp_wire_def)
qed

lemma decode_scov_wire:
  assumes "wf_oid (scov_object r)"
  shows "decode_subscribe_cov (scov_wire r) = Ok r"
proof -
  let ?a = "encode_ctx_u32 0 (scov_process_id r)"
  let ?b = "encode_ctx_object_id 1 (scov_object r)"
  let ?c = "opt_bool_wire 2 (scov_issue_confirmed r)"
  let ?d = "opt_u32_wire 3 (scov_lifetime r)"
  have "decode_ctx_u32 (?a @ ?b @ ?c @ ?d) 0 0 = Ok (scov_process_id r, length ?a)"
    by (intro ctx_u32.dec_enc_start) simp
  moreover have "decode_ctx_object_id (?a @ ?b @ ?c @ ?d) (length ?a) 1 =
      Ok (scov_object r, length ?a + length ?b)"
    using assms by (intro ctx_oid.dec_enc) simp
  moreover have "\<not> has_context_tag (?d @ []) 0 2"
    by (cases "scov_lifetime r") (simp_all add: opt_u32_wire_def has_context_tag_encode_ctx_u32(1) [of _ _ _ "[]", simplified])
  then have "decode_opt_bool (?a @ ?b @ ?c @ ?d) (length ?a + length ?b) 2 =
      Ok (scov_issue_confirmed r, length ?a + length ?b + length ?c)"
    using decode_opt_bool_at [of 2 "length ?a + length ?b" "?a @ ?b" "scov_issue_confirmed r" ?d] by simp
  moreover have "decode_opt_u32 (?a @ ?b @ ?c @ ?d) (length ?a + length ?b + length ?c) 3 =
      Ok (scov_lifetime r, length ?a + length ?b + length ?c + length ?d)"
    using decode_opt_u32_at [of 3 "length ?a + length ?b + length ?c" "?a @ ?b @ ?c" "scov_lifetime r" "[]"]
    by (simp add: add.assoc)
  ultimately show ?thesis by (simp add: decode_subscribe_cov_def scov_wire_def)
qed

lemma ucast_u8_u32: "ucast (ucast x :: u32) = x" for x :: u8
  by (rule bit_word_eqI) (simp add: bit_simps)

text \<open>Bytes that the value decoder reads, wherever they stand, as a value.\<close>

definition reads_as :: "bytes \<Rightarrow> property_value \<Rightarrow> bool" where
  "reads_as vs v \<longleftrightarrow> (\<forall>pre post.
     decode_application_value (pre @ vs @ post) (length pre) = Ok (v, length pre + length vs))"

lemma reads_as_wire: "wire_value v \<Longrightarrow> reads_as (encode_property_value v) v"
  by (simp add: reads_as_def app_value.dec_enc)

text \<open>A Boolean, with its value in the tag, and a bit string of any length.\<close>

lemma reads_as_boolean: "reads_as [if b then 0x11 else 0x10] (PV_Boolean b)"
  unfolding reads_as_def
proof (intro allI)
  fix pre post
  have "decode_application_value ([if b then 0x11 else 0x10] @ post) 0 = Ok (PV_Boolean b, 1)"
    by (simp add: app_start)
  with decode_application_value_shift [of pre "[if b then 0x11 else 0x10] @ post" 0]
  show "decode_application_value (pre @ [if b then 0x11 else 0x10] @ post) (length pre) =
      Ok (PV_Boolean b, length pre + length [if b then 0x11 else 0x10 :: u8])"
    by (simp add: shift_def)
qed

lemma decode_wp_bytes:
  assumes "wf_oid (wp_object_id r)" and "pid_canonical (wp_property_id r)" and "reads_as vs (wp_value r)"
  shows "decode_write_property (wp_bytes vs r) = Ok r"
proof -
  let ?a = "encode_ctx_object_id 0 (wp_object_id r)"
  let ?b = "encode_ctx_u32 1 (pid_to_u32 (wp_property_id r))"
  let ?c = "opt_u32_wire 2 (wp_array_index r)"
  let ?o = "encode_opening_tag 3" and ?z = "encode_closing_tag 3"
  let ?p = "opt_u32_wire 4 (map_option ucast (wp_priority r))"
  let ?w = "?a @ ?b @ ?c @ ?o @ vs @ ?z @ ?p"
  let ?n = "length ?a + length ?b + length ?c"
  have "decode_ctx_object_id ?w 0 0 = Ok (wp_object_id r, length ?a)"
    using assms(1) by (intro ctx_oid.dec_enc_start) simp
  moreover have "decode_ctx_property_id ?w (length ?a) 1 = Ok (wp_property_id r, length ?a + length ?b)"
    using assms(2) by (intro ctx_pid.dec_enc) simp
  moreover have "decode_opt_u32 ?w (length ?a + length ?b) 2 = Ok (wp_array_index r, ?n)"
    using decode_opt_u32_at [of 2 "length ?a + length ?b" "?a @ ?b" "wp_array_index r" "?o @ vs @ ?z @ ?p"]
    by (simp add: open_close_tags)
  moreover have "is_opening ?w ?n 3"
    using is_opening_at [of ?n "?a @ ?b @ ?c" "?o @ vs @ ?z @ ?p" 3] by (simp add: open_close_tags)
  moreover have "decode_application_value ?w (?n + 1) = Ok (wp_value r, ?n + 1 + length vs)"
    using assms(3) [unfolded reads_as_def, rule_format, of "?a @ ?b @ ?c @ ?o" "?z @ ?p"]
    by (simp add: add.assoc)
  moreover have "is_closing ?w (?n + 1 + length vs) 3"
    using is_closing_at [of "?n + 1 + length vs" "?a @ ?b @ ?c @ ?o @ vs" "?z @ ?p" 3]
    by (simp add: open_close_tags)
  moreover have "decode_opt_u32 ?w (?n + 1 + length vs + 1) 4 =
      Ok (map_option ucast (wp_priority r), ?n + 1 + length vs + 1 + length ?p)"
    using decode_opt_u32_at [of 4 "?n + 1 + length vs + 1" "?a @ ?b @ ?c @ ?o @ vs @ ?z"
        "map_option ucast (wp_priority r)" "[]"]
    by simp
  moreover have "map_option ucast (map_option (ucast :: u8 \<Rightarrow> u32) (wp_priority r)) = wp_priority r"
    by (cases "wp_priority r") (simp_all add: ucast_u8_u32)
  ultimately show ?thesis
    by (simp add: decode_write_property_def wp_bytes_def del: One_nat_def add_Suc_right)
qed

lemma decode_wp_wire: "wp_ok r \<Longrightarrow> decode_write_property (wp_wire r) = Ok r"
  unfolding wp_wire_def wp_ok_def by (intro decode_wp_bytes reads_as_wire) simp_all

lemma rpm_props_wire:
  assumes "\<forall>(pid, idx) \<in> set refs. pid_canonical pid" and "pos = length pre"
  shows "rpm_props (pre @ concat (map ref_wire refs) @ encode_closing_tag 1 @ post) pos =
    Ok (refs, pos + length (concat (map ref_wire refs)))"
  using assms
proof (induction refs arbitrary: pre pos)
  case Nil
  then show ?case
    by (subst rpm_props.simps) (simp add: is_closing_at open_close_tags)
next
  case (Cons r refs)
  obtain pid idx where r: "r = (pid, idx)" by (cases r)
  let ?b = "encode_ctx_u32 0 (pid_to_u32 pid)" and ?i = "opt_u32_wire 1 idx"
  let ?t = "concat (map ref_wire refs) @ encode_closing_tag 1 @ post"
  let ?w = "pre @ ?b @ ?i @ ?t"
  have nt: "\<not> has_context_tag ?t 0 1"
    by (cases refs) (auto simp: open_close_tags ref_wire_def has_context_tag_encode_ctx_u32)
  have c: "\<not> is_closing ?w pos 1"
    using Cons.prems(2) is_closing_at [of pos pre "?b @ ?i @ ?t" 1]
    by (simp add: has_context_tag_encode_ctx_u32)
  have l: "\<not> length ?w \<le> pos"
    unfolding Cons.prems(2) by simp
  have p: "decode_ctx_property_id ?w pos 0 = Ok (pid, pos + length ?b)"
    using ctx_pid.dec_enc_at [of 0 pid pos pre "?i @ ?t"] Cons.prems r by simp
  have i: "decode_opt_u32 ?w (pos + length ?b) 1 = Ok (idx, pos + length ?b + length ?i)"
    using decode_opt_u32_at [of 1 "pos + length ?b" "pre @ ?b" idx ?t] nt Cons.prems(2) by simp
  have t: "rpm_props ?w (pos + length ?b + length ?i) =
      Ok (refs, pos + length ?b + length ?i + length (concat (map ref_wire refs)))"
    using Cons.IH [of "pos + length ?b + length ?i" "pre @ ?b @ ?i"] Cons.prems by simp
  have "rpm_props ?w pos = Ok (r # refs, pos + length (concat (map ref_wire (r # refs))))"
    using l by (subst rpm_props.simps) (simp add: c p i t r ref_wire_def [of "(pid, idx)"])
  then show ?case by (simp add: r ref_wire_def [of "(pid, idx)"])
qed

lemma rpm_specs_wire:
  assumes "rpm_ok specs" and "pos = length pre"
  shows "rpm_specs (pre @ rpm_wire specs) pos = Ok specs"
  using assms
proof (induction specs arbitrary: pre pos)
  case Nil
  then show ?case by (subst rpm_specs.simps) (simp add: rpm_wire_def)
next
  case (Cons s specs)
  obtain oid refs where s: "s = (oid, refs)" by (cases s)
  let ?a = "encode_ctx_object_id 0 oid" and ?o = "encode_opening_tag 1" and ?z = "encode_closing_tag 1"
  let ?r = "concat (map ref_wire refs)" and ?t = "rpm_wire specs"
  let ?w = "pre @ ?a @ ?o @ ?r @ ?z @ ?t"
  have oid: "decode_ctx_object_id ?w pos 0 = Ok (oid, pos + length ?a)"
    using ctx_oid.dec_enc_at [of 0 oid pos pre "?o @ ?r @ ?z @ ?t"] Cons.prems s
    by (simp add: rpm_ok_def)
  have o: "is_opening ?w (pos + length ?a) 1"
    using is_opening_at [of "pos + length ?a" "pre @ ?a" "?o @ ?r @ ?z @ ?t" 1] Cons.prems
    by (simp add: open_close_tags)
  have r: "rpm_props ?w (pos + length ?a + 1) = Ok (refs, pos + length ?a + 1 + length ?r)"
    using rpm_props_wire [of refs "pos + length ?a + 1" "pre @ ?a @ ?o" ?t] Cons.prems s
    by (simp add: rpm_ok_def)
  have t: "rpm_specs ?w (pos + length ?a + 1 + length ?r + 1) = Ok specs"
    using Cons.IH [of "pos + length ?a + 1 + length ?r + 1" "pre @ ?a @ ?o @ ?r @ ?z"] Cons.prems
    by (simp add: rpm_ok_def)
  have "pos < length ?w" using Cons.prems(2) by simp
  then have "rpm_specs ?w pos = Ok (s # specs)"
    using oid o r t by (subst rpm_specs.simps) (simp add: s)
  then show ?case by (simp add: s rpm_wire_def rpm_spec_wire_def)
qed

lemma decode_rpm_wire: "rpm_ok specs \<Longrightarrow> decode_rpm (rpm_wire specs) = Ok specs"
  using rpm_specs_wire [of specs 0 "[]"] by (simp add: decode_rpm_def)

subsection \<open>Whole requests\<close>

definition service_wire :: "confirmed_service_request \<Rightarrow> bytes" where
  "service_wire s =
     (case s of
        Req_ReadProperty r \<Rightarrow> rp_wire r
      | Req_WriteProperty r \<Rightarrow> wp_wire r
      | Req_SubscribeCov r \<Rightarrow> scov_wire r
      | Req_ReadPropertyMultiple specs \<Rightarrow> rpm_wire specs)"

definition service_ok :: "confirmed_service_request \<Rightarrow> bool" where
  "service_ok s =
     (case s of
        Req_ReadProperty r \<Rightarrow> rp_ok r
      | Req_WriteProperty r \<Rightarrow> wp_ok r
      | Req_SubscribeCov r \<Rightarrow> wf_oid (scov_object r)
      | Req_ReadPropertyMultiple specs \<Rightarrow> rpm_ok specs)"

lemma decode_service_wire:
  "service_ok s \<Longrightarrow> decode_service (service_choice s) (service_wire s) = Ok s"
  by (cases s) (simp_all add: service_ok_def decode_service_def service_choice_def service_wire_def
      decode_rp_wire decode_wp_wire decode_scov_wire decode_rpm_wire)

text \<open>
  A request as any peer may send it: the first octet with its flags, the octet of the sizes the peer
  accepts, and for a WriteProperty a value in any bytes the value decoder reads as it.
\<close>

definition service_bytes :: "bytes \<Rightarrow> confirmed_service_request \<Rightarrow> bytes" where
  "service_bytes vs s = (case s of Req_WriteProperty r \<Rightarrow> wp_bytes vs r | _ \<Rightarrow> service_wire s)"

definition service_sent :: "bytes \<Rightarrow> confirmed_service_request \<Rightarrow> bool" where
  "service_sent vs s =
     (case s of
        Req_WriteProperty r \<Rightarrow>
          wf_oid (wp_object_id r) \<and> pid_canonical (wp_property_id r) \<and> reads_as vs (wp_value r)
      | _ \<Rightarrow> service_ok s)"

lemma decode_service_bytes:
  "service_sent vs s \<Longrightarrow> decode_service (service_choice s) (service_bytes vs s) = Ok s"
  using decode_service_wire [of s]
  by (cases s) (simp_all add: service_sent_def service_bytes_def decode_service_def service_choice_def decode_wp_bytes)

text \<open>
  A request as the program itself would send it: the header of \<^verbatim>\<open>ConfirmedRequest::encode\<close>, then
  the body.  The fields the decoder does not read are its defaults.
\<close>

definition confirmed_wire :: "confirmed_request \<Rightarrow> bytes" where
  "confirmed_wire r = confirmed_encode r @ service_wire (cr_service r)"

definition confirmed_ok :: "confirmed_request \<Rightarrow> bool" where
  "confirmed_ok r \<longleftrightarrow> service_ok (cr_service r) \<and> segmented_response_accepted r
     \<and> cr_max_segments r = MS_Unspecified \<and> cr_max_response r = 480
     \<and> cr_sequence_number r = None \<and> cr_proposed_window r = None"

lemma confirmed_decode_wire: "confirmed_ok r \<Longrightarrow> confirmed_decode (confirmed_wire r) = Ok r"
  by (cases r) (auto simp: confirmed_ok_def confirmed_decode_def confirmed_wire_def
      confirmed_encode_def decode_service_wire)

interpretation confirmed: frame_codec confirmed_wire confirmed_decode confirmed_ok
  by unfold_locales (rule confirmed_decode_wire)

subsection \<open>Properties\<close>

text \<open>
  C19. A confirmed request of any of the four services, laid out by the clauses the decoders quote
  (tags, optional fields, the nested lists of ReadPropertyMultiple), is decoded as exactly that
  service, whatever the number of objects and of property references, with the invoke id and the
  two flags of its first octet; the octet of accepted sizes is not read, so the fields for it
  have the decoder's defaults whatever the peer sent.  The object identifiers are those of known
  types with 22-bit instances, property identifiers are named by their own constructor if they have
  one, and the value of a WriteProperty is in bytes the value decoder reads as that value: those
  of C20, and others, as a Boolean with its value in the tag.
\<close>

theorem confirmed_request_roundtrip:
  assumes "service_sent vs s"
  shows "confirmed_decode ([flags, sizes, invoke, service_choice s] @ service_bytes vs s) =
    Ok \<lparr>segmented_accepted = bit flags 3, more_follows = bit flags 2, segmented_response_accepted = True,
        cr_max_segments = MS_Unspecified, cr_max_response = 480, cr_invoke_id = invoke,
        cr_sequence_number = None, cr_proposed_window = None, cr_service = s\<rparr>"
proof -
  have "(flags AND 0x08 \<noteq> 0) = bit flags 3" "(flags AND 0x04 \<noteq> 0) = bit flags 2"
    by (simp_all add: bit_word_iff_drop_bit_and [of flags] and_exp_eq_0_iff_not_bit [of flags 3, simplified]
        and_exp_eq_0_iff_not_bit [of flags 2, simplified])
  then show ?thesis
    by (simp add: confirmed_decode_def decode_service_bytes [OF assms])
qed

theorem confirmed_request_roundtrip_witness:
  "let s = Req_WriteProperty \<lparr>wp_object_id = \<lparr>oid_type = OT_BinaryValue, oid_instance = 3\<rparr>,
       wp_property_id = PID_OutOfService, wp_array_index = None, wp_value = PV_Boolean True, wp_priority = Some 8\<rparr>
   in confirmed_decode ([0x0A, 0x75, 42, 15] @ service_bytes [0x11] s) =
     Ok \<lparr>segmented_accepted = True, more_follows = False, segmented_response_accepted = True,
       cr_max_segments = MS_Unspecified, cr_max_response = 480, cr_invoke_id = 42,
       cr_sequence_number = None, cr_proposed_window = None, cr_service = s\<rparr>"
proof -
  let ?s = "Req_WriteProperty \<lparr>wp_object_id = \<lparr>oid_type = OT_BinaryValue, oid_instance = 3\<rparr>,
       wp_property_id = PID_OutOfService, wp_array_index = None, wp_value = PV_Boolean True, wp_priority = Some 8\<rparr>"
  have "service_sent [0x11] ?s"
    using reads_as_boolean [of True]
    by (simp add: service_sent_def wf_oid_def pid_canonical_def known_type_def
        object_type_from_u16_def pid_from_u32_def)
  from confirmed_request_roundtrip [OF this, of "0x0A" "0x75" 42] show ?thesis
    by (simp add: Let_def service_choice_def)
qed

text \<open>
  Decoding a confirmed request always ends, and it panics on no bytes but those of a
  WriteProperty whose value is a bit string with too few data bytes for its unused bits.
\<close>

theorem confirmed_decoder_panics:
  assumes "confirmed_decode buf = Panic"
  shows "4 \<le> length buf \<and> buf ! 3 = 15 \<and> (\<exists>pos. bad_bit_string (drop 4 buf) pos)"
  using assms by (rule confirmed_decode_panic)

theorem confirmed_decoder_panics_witness:
  "\<exists>pos. bad_bit_string (drop 4
     [0x00, 0x04, 0x01, 15, 0x0C, 0x00, 0x80, 0x00, 0x01, 0x19, 85, 0x3E, 0x82, 0x09, 0xFF, 0x3F]) pos"
  by (rule confirmed_decoder_panics [THEN conjunct2, THEN conjunct2]) code_simp

end
