(* ===== verification/Responses.thy ===== *)
theory Responses
  imports Confirmed
begin

text \<open>
  \<^verbatim>\<open>crates/bacnet-codec/src/apdu/\<close>\<^verbatim>\<open>ack.rs\<close>, \<^verbatim>\<open>error.rs\<close> and \<^verbatim>\<open>unconfirmed.rs\<close>: the PDUs the
  simulator sends back, and the unconfirmed requests.
\<close>

subsection \<open>Acknowledgements\<close>

record read_property_ack =
  rpa_object_id :: object_id
  rpa_property_id :: property_identifier
  rpa_array_index :: "u32 option"
  rpa_value :: property_value

text \<open>\<^verbatim>\<open>Result<PropertyValue, BacnetError>\<close> is a sum, the error on the left.\<close>

record property_result =
  pr_property_id :: property_identifier
  pr_array_index :: "u32 option"
  pr_value :: "bacnet_error + property_value"

record object_property_result =
  opr_object_id :: object_id
  opr_property_results :: "property_result list"

datatype complex_ack_service =
    Ack_ReadProperty read_property_ack
  | Ack_ReadPropertyMultiple "object_property_result list"

record complex_ack =
  ca_invoke_id :: u8
  ca_service :: complex_ack_service

primrec error_class_num :: "error_class \<Rightarrow> u32" where
  "error_class_num EClass_Device = 0"
| "error_class_num EClass_Object = 1"
| "error_class_num EClass_Property = 2"
| "error_class_num EClass_Resources = 3"
| "error_class_num EClass_Security = 4"
| "error_class_num EClass_Services = 5"
| "error_class_num EClass_Vt = 6"
| "error_class_num EClass_Communication = 7"

primrec ack_error_code_num :: "error_code \<Rightarrow> u32" where
  "ack_error_code_num ECode_UnknownObject = 31"
| "ack_error_code_num ECode_UnknownProperty = 32"
| "ack_error_code_num ECode_WriteAccessDenied = 40"
| "ack_error_code_num ECode_ValueOutOfRange = 37"
| "ack_error_code_num ECode_InvalidDataType = 9"
| "ack_error_code_num ECode_ServiceRequestDenied = 29"
| "ack_error_code_num ECode_NotConfigured = 140"
| "ack_error_code_num (ECode_Other v) = v"

definition error_class_code :: "bacnet_error \<Rightarrow> u32 \<times> u32" where
  "error_class_code e =
     (case e of
        UnknownObject \<Rightarrow> (1, 31)
      | UnknownProperty \<Rightarrow> (2, 32)
      | WriteAccessDenied \<Rightarrow> (2, 40)
      | ValueOutOfRange \<Rightarrow> (2, 37)
      | InvalidDataType \<Rightarrow> (2, 9)
      | ServiceError c k \<Rightarrow> (error_class_num c, ack_error_code_num k)
      | _ \<Rightarrow> (5, 0))"

definition encode_read_property_ack :: "read_property_ack \<Rightarrow> bytes" where
  "encode_read_property_ack ack =
     encode_ctx_object_id 0 (rpa_object_id ack)
     @ encode_ctx_u32 1 (pid_to_u32 (rpa_property_id ack))
     @ (case rpa_array_index ack of None \<Rightarrow> [] | Some idx \<Rightarrow> encode_ctx_u32 2 idx)
     @ encode_opening_tag 3 @ encode_property_value (rpa_value ack) @ encode_closing_tag 3"

definition encode_property_result :: "property_result \<Rightarrow> bytes" where
  "encode_property_result prop =
     encode_ctx_u32 2 (pid_to_u32 (pr_property_id prop))
     @ (case pr_array_index prop of None \<Rightarrow> [] | Some idx \<Rightarrow> encode_ctx_u32 3 idx)
     @ (case pr_value prop of
          Inr pv \<Rightarrow> encode_opening_tag 4 @ encode_property_value pv @ encode_closing_tag 4
        | Inl e \<Rightarrow> encode_opening_tag 5 @ encode_ctx_u32 0 (fst (error_class_code e))
            @ encode_ctx_u32 1 (snd (error_class_code e)) @ encode_closing_tag 5)"

definition encode_object_result :: "object_property_result \<Rightarrow> bytes" where
  "encode_object_result r =
     encode_ctx_object_id 0 (opr_object_id r) @ encode_opening_tag 1
     @ concat (map encode_property_result (opr_property_results r)) @ encode_closing_tag 1"

definition encode_rpm_ack :: "object_property_result list \<Rightarrow> bytes" where
  "encode_rpm_ack results = concat (map encode_object_result results)"

definition complex_ack_encode :: "complex_ack \<Rightarrow> bytes" where
  "complex_ack_encode ca = [0x30, ca_invoke_id ca]
     @ (case ca_service ca of
          Ack_ReadProperty ack \<Rightarrow> [12] @ encode_read_property_ack ack
        | Ack_ReadPropertyMultiple results \<Rightarrow> [14] @ encode_rpm_ack results)"

text \<open>The decoder of the code reads the invoke id only: the body it returns is a constant.\<close>

definition complex_ack_decode :: "bytes \<Rightarrow> complex_ack bres" where
  "complex_ack_decode buf =
     (if length buf < 3 then Err DecodeError
      else rbind (index buf 0) (\<lambda>t.
        if t AND 0xF0 \<noteq> 0x30 then Err DecodeError
        else rbind (index buf 1) (\<lambda>invoke_id.
          Ok \<lparr>ca_invoke_id = invoke_id,
              ca_service = Ack_ReadProperty
                \<lparr>rpa_object_id = \<lparr>oid_type = OT_Device, oid_instance = 0\<rparr>,
                 rpa_property_id = PID_ObjectIdentifier, rpa_array_index = None,
                 rpa_value = PV_Null\<rparr>\<rparr>)))"

record simple_ack =
  sack_invoke_id :: u8
  sack_service_choice :: u8

definition simple_ack_encode :: "simple_ack \<Rightarrow> bytes" where
  "simple_ack_encode a = [0x20, sack_invoke_id a, sack_service_choice a]"

subsection \<open>Errors, rejects, aborts\<close>

record error_pdu =
  ep_invoke_id :: u8
  ep_service :: u8
  ep_error_class :: error_class
  ep_error_code :: error_code

primrec error_class_byte :: "error_class \<Rightarrow> u8" where
  "error_class_byte EClass_Device = 0"
| "error_class_byte EClass_Object = 1"
| "error_class_byte EClass_Property = 2"
| "error_class_byte EClass_Resources = 3"
| "error_class_byte EClass_Security = 4"
| "error_class_byte EClass_Services = 5"
| "error_class_byte EClass_Vt = 6"
| "error_class_byte EClass_Communication = 7"

primrec error_code_byte :: "error_code \<Rightarrow> u8" where
  "error_code_byte ECode_UnknownObject = 31"
| "error_code_byte ECode_UnknownProperty = 32"
| "error_code_byte ECode_WriteAccessDenied = 40"
| "error_code_byte ECode_InvalidDataType = 9"
| "error_code_byte ECode_ValueOutOfRange = 37"
| "error_code_byte ECode_ServiceRequestDenied = 29"
| "error_code_byte ECode_NotConfigured = 133"
| "error_code_byte (ECode_Other v) = ucast v"

definition error_pdu_encode :: "error_pdu \<Rightarrow> bytes" where
  "error_pdu_encode e = [0x50, ep_invoke_id e, ep_service e, 0x91,
     error_class_byte (ep_error_class e), 0x91, error_code_byte (ep_error_code e)]"

datatype reject_reason =
    RR_Other | RR_BufferOverflow | RR_InconsistentParameters | RR_InvalidParameterDataType
  | RR_InvalidTag | RR_MissingRequiredParameter | RR_ParameterOutOfRange | RR_TooManyArguments
  | RR_UndefinedEnumeration | RR_UnrecognizedService

primrec reject_reason_code :: "reject_reason \<Rightarrow> u8" where
  "reject_reason_code RR_Other = 0"
| "reject_reason_code RR_BufferOverflow = 1"
| "reject_reason_code RR_InconsistentParameters = 2"
| "reject_reason_code RR_InvalidParameterDataType = 3"
| "reject_reason_code RR_InvalidTag = 4"
| "reject_reason_code RR_MissingRequiredParameter = 5"
| "reject_reason_code RR_ParameterOutOfRange = 6"
| "reject_reason_code RR_TooManyArguments = 7"
| "reject_reason_code RR_UndefinedEnumeration = 8"
| "reject_reason_code RR_UnrecognizedService = 9"

record reject_pdu =
  rj_invoke_id :: u8
  rj_reason :: reject_reason

definition reject_pdu_encode :: "reject_pdu \<Rightarrow> bytes" where
  "reject_pdu_encode r = [0x60, rj_invoke_id r, reject_reason_code (rj_reason r)]"

datatype abort_reason =
    AR_Other | AR_BufferOverflow | AR_InvalidApduInThisState | AR_PreemptedByHigherPriorityTask
  | AR_SegmentationNotSupported

primrec abort_reason_code :: "abort_reason \<Rightarrow> u8" where
  "abort_reason_code AR_Other = 0"
| "abort_reason_code AR_BufferOverflow = 1"
| "abort_reason_code AR_InvalidApduInThisState = 2"
| "abort_reason_code AR_PreemptedByHigherPriorityTask = 3"
| "abort_reason_code AR_SegmentationNotSupported = 4"

record abort_pdu =
  ab_invoke_id :: u8
  ab_server :: bool
  ab_reason :: abort_reason

definition abort_pdu_encode :: "abort_pdu \<Rightarrow> bytes" where
  "abort_pdu_encode a = [0x70 OR (if ab_server a then 0x01 else 0x00), ab_invoke_id a,
     abort_reason_code (ab_reason a)]"

subsection \<open>Unconfirmed requests\<close>

record i_am_request =
  iam_device_instance :: u32
  iam_max_apdu :: u16
  iam_segmentation :: segmentation
  iam_vendor_id :: u16

record cov_notification =
  cn_process_id :: u32
  cn_initiating_device :: u32
  cn_object :: object_id
  cn_time_remaining :: u32
  cn_values :: "(property_identifier \<times> property_value) list"

datatype unconfirmed_request =
    UR_WhoIs who_is_request
  | UR_IAm i_am_request
  | UR_UnconfirmedCovNotification cov_notification
  | UR_TimeSynchronization bytes

primrec segmentation_code :: "segmentation \<Rightarrow> u32" where
  "segmentation_code Seg_Both = 0"
| "segmentation_code Seg_Transmit = 1"
| "segmentation_code Seg_Receive = 2"
| "segmentation_code Seg_NoSegmentation = 3"

definition encode_i_am :: "i_am_request \<Rightarrow> bytes" where
  "encode_i_am i = [0x10, 0x00]
     @ encode_application_object_id \<lparr>oid_type = OT_Device, oid_instance = iam_device_instance i\<rparr>
     @ encode_application_unsigned (ucast (iam_max_apdu i))
     @ [0x91, ucast (segmentation_code (iam_segmentation i))]
     @ encode_application_unsigned (ucast (iam_vendor_id i))"

definition unconfirmed_encode :: "unconfirmed_request \<Rightarrow> bytes" where
  "unconfirmed_encode r =
     (case r of
        UR_WhoIs w \<Rightarrow> [0x10, 0x08]
          @ (case (wi_low_limit w, wi_high_limit w) of
               (Some lo, Some hi) \<Rightarrow> encode_ctx_u32 0 lo @ encode_ctx_u32 1 hi
             | _ \<Rightarrow> [])
      | UR_IAm i \<Rightarrow> encode_i_am i
      | _ \<Rightarrow> [])"

definition decode_who_is :: "bytes \<Rightarrow> unconfirmed_request bres" where
  "decode_who_is body =
     rbind (decode_opt_u32 body 0 0) (\<lambda>(low, pos).
     rbind (decode_opt_u32 body pos 1) (\<lambda>(high, pos).
       Ok (UR_WhoIs \<lparr>wi_low_limit = low, wi_high_limit = high\<rparr>)))"

definition decode_i_am :: "bytes \<Rightarrow> unconfirmed_request bres" where
  "decode_i_am body =
     rbind (if 5 \<le> length body
            then rbind (index body 0) (\<lambda>t.
              if t = 0xC4 then rbind (read_u32_be body 1) (\<lambda>raw. Ok (raw AND 0x3FFFFF))
              else Ok 0)
            else Ok 0) (\<lambda>device_instance.
       Ok (UR_IAm \<lparr>iam_device_instance = device_instance, iam_max_apdu = 1476,
                   iam_segmentation = Seg_NoSegmentation, iam_vendor_id = 999\<rparr>))"

definition unconfirmed_decode :: "bytes \<Rightarrow> unconfirmed_request bres" where
  "unconfirmed_decode buf =
     (if length buf < 2 then Err DecodeError
      else rbind (index buf 0) (\<lambda>t.
        if t \<noteq> 0x10 then Err DecodeError
        else rbind (slice buf 2 (length buf)) (\<lambda>body.
          rbind (index buf 1) (\<lambda>choice.
            if choice = 0x08 then decode_who_is body
            else if choice = 0x00 then decode_i_am body
            else Err DecodeError))))"

subsection \<open>What the encoders and decoders promise\<close>

text \<open>
  A ReadProperty-ACK has the layout of a WriteProperty body without a priority, so the decoder
  of the latter reads it back.
\<close>

definition rpa_ok :: "read_property_ack \<Rightarrow> bool" where
  "rpa_ok a \<longleftrightarrow> wf_oid (rpa_object_id a) \<and> pid_canonical (rpa_property_id a) \<and> wire_value (rpa_value a)"

definition write_of_ack :: "read_property_ack \<Rightarrow> write_property_request" where
  "write_of_ack a =
     \<lparr>wp_object_id = rpa_object_id a, wp_property_id = rpa_property_id a,
      wp_array_index = rpa_array_index a, wp_value = rpa_value a, wp_priority = None\<rparr>"

lemma write_of_ack_inject: "write_of_ack a = write_of_ack b \<longleftrightarrow> a = b"
  by (cases a; cases b) (simp add: write_of_ack_def)

lemma encode_ack_wp_wire: "encode_read_property_ack a = wp_wire (write_of_ack a)"
  by (simp add: encode_read_property_ack_def wp_wire_def wp_bytes_def write_of_ack_def opt_u32_wire_def)

lemma read_property_ack_decodes:
  "rpa_ok a \<Longrightarrow> decode_write_property (encode_read_property_ack a) = Ok (write_of_ack a)"
  by (simp add: encode_ack_wp_wire decode_wp_wire wp_ok_def rpa_ok_def write_of_ack_def)

lemma error_codes_agree:
  "error_code_byte c = ucast (ack_error_code_num c) \<longleftrightarrow> c \<noteq> ECode_NotConfigured"
  by (cases c) simp_all

lemma decode_who_is_no_panic [no_panic]: "decode_who_is body \<noteq> Panic"
  by (auto simp: decode_who_is_def rbind_eq_Panic no_panic)

lemma decode_i_am_no_panic [no_panic]: "decode_i_am body \<noteq> Panic"
  by (auto simp: decode_i_am_def rbind_eq_Panic no_panic index_eq_Panic
      read_u32_be_no_panic split: if_splits)

lemma unconfirmed_decode_no_panic: "unconfirmed_decode buf \<noteq> Panic"
proof (cases "length buf < 2")
  case False
  then show ?thesis
    by (auto simp: unconfirmed_decode_def rbind_eq_Panic no_panic index_eq_Panic slice_eq_Panic)
qed (simp add: unconfirmed_decode_def)

lemma complex_ack_decode_no_panic: "complex_ack_decode buf \<noteq> Panic"
  by (auto simp: complex_ack_decode_def rbind_eq_Panic index_eq_Panic)

definition who_is_ok :: "who_is_request \<Rightarrow> bool" where
  "who_is_ok w \<longleftrightarrow> (wi_low_limit w = None \<longleftrightarrow> wi_high_limit w = None)"

lemma who_is_roundtrip:
  assumes "who_is_ok w"
  shows "unconfirmed_decode (unconfirmed_encode (UR_WhoIs w)) = Ok (UR_WhoIs w)"
proof (cases "wi_low_limit w")
  case None
  then show ?thesis
    using assms by (cases w) (simp add: who_is_ok_def unconfirmed_encode_def unconfirmed_decode_def
        decode_who_is_def decode_opt_u32_def)
next
  case (Some lo)
  with assms obtain hi where hi: "wi_high_limit w = Some hi"
    by (auto simp: who_is_ok_def)
  have "decode_opt_u32 (encode_ctx_u32 0 lo @ encode_ctx_u32 1 hi) 0 0 =
      Ok (Some lo, length (encode_ctx_u32 0 lo))"
    using decode_opt_u32_at [of 0 0 "[]" "Some lo" "encode_ctx_u32 1 hi"] by (simp add: opt_u32_wire_def)
  moreover have "decode_opt_u32 (encode_ctx_u32 0 lo @ encode_ctx_u32 1 hi) (length (encode_ctx_u32 0 lo)) 1 =
      Ok (Some hi, length (encode_ctx_u32 0 lo) + length (encode_ctx_u32 1 hi))"
    using decode_opt_u32_at [of 1 _ "encode_ctx_u32 0 lo" "Some hi" "[]"] by (simp add: opt_u32_wire_def)
  ultimately show ?thesis
    using Some hi by (cases w) (simp add: unconfirmed_encode_def unconfirmed_decode_def decode_who_is_def)
qed

lemma raw_of_object_id_instance:
  "oid_instance oid < 2 ^ 22 \<Longrightarrow> raw_of_object_id oid AND 0x3FFFFF = oid_instance oid"
proof -
  let ?t = "ot_code (oid_type oid)" and ?i = "oid_instance oid"
  assume "?i < 2 ^ 22"
  then have i: "bit ?i n \<Longrightarrow> n < 22" for n
    using bit_bound [of ?i 22 n] by simp
  have "(push_bit 22 ?t OR (?i AND mask 22)) AND mask 22 = ?i"
    by (rule bit_word_eqI) (auto simp: bit_simps dest: i)
  then show ?thesis by (simp add: raw_of_object_id_def mask_numeral)
qed

lemma i_am_device_instance:
  assumes "iam_device_instance i < 2 ^ 22"
  shows "\<exists>i'. unconfirmed_decode (unconfirmed_encode (UR_IAm i)) = Ok (UR_IAm i') \<and>
    iam_device_instance i' = iam_device_instance i"
proof -
  let ?d = "\<lparr>oid_type = OT_Device, oid_instance = iam_device_instance i\<rparr>"
  have "raw_of_object_id ?d AND 0x3FFFFF = iam_device_instance i"
    using raw_of_object_id_instance [of ?d] assms by simp
  then show ?thesis
    by (simp add: unconfirmed_encode_def encode_i_am_def unconfirmed_decode_def decode_i_am_def
        encode_application_object_id_def read_u32_be_def u32_to_be_def index_def)
qed

subsection \<open>Properties\<close>

text \<open>
  The body of a ReadProperty answer carries the object, the property, the index and the value
  it was built from: it has the layout of a WriteProperty request without priority, and the
  decoder of these reads it back.
\<close>

theorem read_property_ack_readable:
  assumes "rpa_ok a"
  shows "decode_write_property (encode_read_property_ack a) = Ok (write_of_ack a)"
  using assms by (rule read_property_ack_decodes)

theorem read_property_ack_readable_witness:
  "let a = \<lparr>rpa_object_id = \<lparr>oid_type = OT_AnalogInput, oid_instance = 3\<rparr>,
     rpa_property_id = PID_PresentValue, rpa_array_index = None, rpa_value = PV_Real 0x41A80000\<rparr>
   in decode_write_property (encode_read_property_ack a) = Ok (write_of_ack a)"
  unfolding Let_def
  by (rule read_property_ack_readable)
    (simp add: rpa_ok_def wf_oid_def pid_canonical_def known_type_def object_type_from_u16_def
      pid_from_u32_def)

text \<open>
  The two tables of error codes agree on every named code but one: an error PDU reports
  NotConfigured as 133, the error of a ReadPropertyMultiple result as 140.  (A numeric code above
  255 is cut to its low byte in the error PDU.)
\<close>

theorem error_code_tables_agree:
  "error_code_byte c = ucast (ack_error_code_num c) \<longleftrightarrow> c \<noteq> ECode_NotConfigured"
  by (rule error_codes_agree)

text \<open>
  Device discovery is readable by its own decoder: a Who-Is with both limits or none comes
  back as it was sent, an I-Am comes back with its device instance, and no bytes make the decoder
  of unconfirmed requests panic.
\<close>

theorem discovery_roundtrip:
  assumes "who_is_ok w" and "iam_device_instance i < 2 ^ 22"
  shows "unconfirmed_decode (unconfirmed_encode (UR_WhoIs w)) = Ok (UR_WhoIs w) \<and>
    (\<exists>i'. unconfirmed_decode (unconfirmed_encode (UR_IAm i)) = Ok (UR_IAm i') \<and>
       iam_device_instance i' = iam_device_instance i) \<and>
    unconfirmed_decode buf \<noteq> Panic"
  using assms who_is_roundtrip i_am_device_instance unconfirmed_decode_no_panic by simp

theorem discovery_roundtrip_witness:
  "let w = \<lparr>wi_low_limit = Some 1000, wi_high_limit = Some 1999\<rparr>
   in unconfirmed_decode (unconfirmed_encode (UR_WhoIs w)) = Ok (UR_WhoIs w)"
  unfolding Let_def
  by (rule discovery_roundtrip [THEN conjunct1, of _
      "\<lparr>iam_device_instance = 7, iam_max_apdu = 480, iam_segmentation = Seg_Both, iam_vendor_id = 1\<rparr>"])
    (simp_all add: who_is_ok_def)

end
