(* ===== verification/Fuzz_Targets.thy ===== *)
theory Fuzz_Targets
  imports Npdu Bvll Mstp_Frame Sc_Frame Responses Confirmed Asn1
begin

text \<open>
  The targets of \<^verbatim>\<open>fuzz/fuzz_targets\<close>: what each runs on an input.  A target fails when it panics;
  what the decoders return is thrown away.
\<close>

definition survives :: "('a, 'e) rres \<Rightarrow> bool" where
  "survives r \<longleftrightarrow> (case r of Panic \<Rightarrow> False | _ \<Rightarrow> True)"

lemma survives_iff: "survives r \<longleftrightarrow> r \<noteq> Panic"
  by (cases r) (simp_all add: survives_def)

definition fuzz_apdu_decode :: "bytes \<Rightarrow> bool" where
  "fuzz_apdu_decode data \<longleftrightarrow>
     survives (confirmed_decode data) \<and> survives (unconfirmed_decode data) \<and> survives (complex_ack_decode data)"

definition fuzz_bvll_decode :: "bytes \<Rightarrow> bool" where
  "fuzz_bvll_decode data \<longleftrightarrow> survives (bvll_decode data)"

definition fuzz_mstp_decode :: "bytes \<Rightarrow> bool" where
  "fuzz_mstp_decode data \<longleftrightarrow> survives (mstp_decode data)"

definition fuzz_npdu_decode :: "bytes \<Rightarrow> bool" where
  "fuzz_npdu_decode data \<longleftrightarrow> survives (npdu_decode data)"

definition fuzz_property_value_decode :: "bytes \<Rightarrow> bool" where
  "fuzz_property_value_decode data \<longleftrightarrow>
     survives (decode_application_unsigned data) \<and> survives (decode_application_real data) \<and>
     survives (decode_application_object_id data) \<and> survives (decode_application_date data) \<and>
     survives (decode_application_bitstring data)"

text \<open>A frame that decodes is encoded again, which returns bytes.\<close>

definition fuzz_sc_decode :: "bytes \<Rightarrow> bool" where
  "fuzz_sc_decode data \<longleftrightarrow>
     survives (sc_decode data) \<and> survives (rbind (sc_decode data) (\<lambda>frame. Ok (sc_encode frame)))"

subsection \<open>The bit string decoder\<close>

text \<open>An announced length of zero, or more than eight unused bits: the slice, or the subtraction, panics.\<close>

definition bad_bit_octets :: "bytes \<Rightarrow> bool" where
  "bad_bit_octets buf \<longleftrightarrow> 2 \<le> length buf \<and> drop_bit 4 (buf ! 0) = 8 \<and>
     (case bitstring_header buf of
        Ok (total_len, value_start) \<Rightarrow>
          value_start + total_len \<le> length buf \<and>
          (total_len = 0 \<or> 2 \<le> total_len \<and> 8 < unat (buf ! value_start))
      | _ \<Rightarrow> False)"

lemma read_high_bits_Panic: "read_high_bits unused bs = Panic \<longleftrightarrow> bs \<noteq> [] \<and> 8 < unused"
  by (induction unused bs rule: read_high_bits.induct) (auto simp: usub_def rbind_eq_Panic)

lemma bitstring_header_cases:
  assumes "2 \<le> length buf"
  obtains l where "bitstring_header buf = Ok (l, 1)" | l where "bitstring_header buf = Ok (l, 2)" "3 \<le> length buf"
    | e where "bitstring_header buf = Err e"
proof -
  have "index buf 0 = (Ok (buf ! 0) :: u8 bres)" "index buf 1 = (Ok (buf ! 1) :: u8 bres)" using assms by (auto simp: index_def)
  then have "bitstring_header buf =
      (if unat (buf ! 0 AND 7) \<le> 4 then Ok (unat (buf ! 0 AND 7), 1)
       else if unat (buf ! 0 AND 7) = 5 then (if length buf < 3 then Err DecodeError else Ok (unat (buf ! 1), 2))
       else Err DecodeError)" by (simp add: bitstring_header_def Let_def)
  with that show thesis by (auto split: if_splits)
qed

text \<open>What follows the header.\<close>

definition bits_after :: "bytes \<Rightarrow> nat \<times> nat \<Rightarrow> (bool list \<times> nat) bres" where
  "bits_after buf = (\<lambda>(total_len, value_start).
     if length buf < value_start + total_len then Err DecodeError
     else rbind (index buf value_start) (\<lambda>unused.
       rbind (slice buf (value_start + 1) (value_start + total_len)) (\<lambda>data_bytes.
       rbind (if data_bytes = [] then Ok 0
              else usub (8 * length data_bytes) (unat unused)) (\<lambda>_.
       rbind (read_high_bits (unat unused) data_bytes) (\<lambda>bits.
         Ok (bits, value_start + total_len))))))"

lemma bits_after_Panic:
  "p < length buf \<Longrightarrow> bits_after buf (l, p) = Panic \<longleftrightarrow>
    p + l \<le> length buf \<and> (l = 0 \<or> 2 \<le> l \<and> 8 < unat (buf ! p))"
  by (auto simp: bits_after_def index_def slice_def usub_def rbind_eq_Panic read_high_bits_Panic not_less split: if_splits)

lemma decode_application_bitstring_Panic: "decode_application_bitstring buf = Panic \<longleftrightarrow> bad_bit_octets buf"
proof (cases "2 \<le> length buf \<and> drop_bit 4 (buf ! 0) = 8")
  case True
  then have len: "2 \<le> length buf" and "index buf 0 = (Ok (buf ! 0) :: u8 bres)" by (auto simp: index_def)
  then have d: "decode_application_bitstring buf = rbind (bitstring_header buf) (bits_after buf)"
    using True unfolding decode_application_bitstring_def bits_after_def by simp
  show ?thesis
    using True unfolding d bad_bit_octets_def
    by (cases rule: bitstring_header_cases [OF len]) (simp_all add: bits_after_Panic)
qed (auto simp: decode_application_bitstring_def bad_bit_octets_def index_def)

subsection \<open>Properties\<close>

text \<open>
  C39. What fuzzing can find.  The MS/TP and BACnet/SC targets survive every input.  The BVLL target,
  whose comment says that it must not panic on any input, fails exactly on a length field below
  4; the NPDU target exactly on a cut address; the APDU target exactly where the decoder
  of confirmed requests does; the property value target exactly on a bit string
  announced with no bytes at all or with more than eight unused bits.
\<close>

theorem fuzz_verdicts:
  "fuzz_mstp_decode data \<and> fuzz_sc_decode data \<and>
   (fuzz_bvll_decode data \<longleftrightarrow>
     \<not> (4 \<le> length data \<and> data ! 0 = 0x81 \<and> unat (u16_from_be (data ! 2) (data ! 3)) < 4)) \<and>
   (fuzz_npdu_decode data \<longleftrightarrow>
     \<not> (2 \<le> length data \<and> data ! 0 = 1 \<and>
       (destination_specifier (npdu_control_of_byte (data ! 1)) \<and> cut_address data 2
        \<or> source_specifier (npdu_control_of_byte (data ! 1)) \<and> cut_address data (source_pos data)))) \<and>
   (fuzz_apdu_decode data \<longleftrightarrow> confirmed_decode data \<noteq> Panic) \<and>
   (fuzz_property_value_decode data \<longleftrightarrow> \<not> bad_bit_octets data) \<and>
   \<not> fuzz_bvll_decode [0x81, 0x0A, 0x00, 0x00] \<and> \<not> fuzz_npdu_decode [0x01, 0x20, 0x00, 0x05, 0x06] \<and>
   \<not> fuzz_apdu_decode [0x00, 0x04, 0x01, 15, 0x0C, 0x00, 0x80, 0x00, 0x01, 0x19, 85, 0x3E, 0x82, 0x09, 0xFF, 0x3F] \<and>
   \<not> fuzz_property_value_decode [0x80, 0x00]"
proof (intro conjI)
  have "npdu_decode [0x01, 0x20, 0x00, 0x05, 0x06] = Panic" "bvll_decode [0x81, 0x0A, 0x00, 0x00] = Panic"
    "confirmed_decode [0x00, 0x04, 0x01, 15, 0x0C, 0x00, 0x80, 0x00, 0x01, 0x19, 85, 0x3E, 0x82, 0x09, 0xFF, 0x3F] = Panic"
    "decode_application_bitstring [0x80, 0x00] = Panic"
    by code_simp+
  then show "\<not> fuzz_bvll_decode [0x81, 0x0A, 0x00, 0x00]" "\<not> fuzz_npdu_decode [0x01, 0x20, 0x00, 0x05, 0x06]"
    "\<not> fuzz_apdu_decode [0x00, 0x04, 0x01, 15, 0x0C, 0x00, 0x80, 0x00, 0x01, 0x19, 85, 0x3E, 0x82, 0x09, 0xFF, 0x3F]"
    "\<not> fuzz_property_value_decode [0x80, 0x00]"
    by (simp_all add: fuzz_bvll_decode_def fuzz_npdu_decode_def fuzz_apdu_decode_def fuzz_property_value_decode_def survives_iff)
  have "decode_application_unsigned data \<noteq> Panic" "decode_application_real data \<noteq> Panic"
    "decode_application_object_id data \<noteq> Panic" "decode_application_date data \<noteq> Panic"
    by (auto simp: decode_application_unsigned_def decode_application_real_def decode_application_object_id_def
        decode_application_date_def read_u32_be_def rbind_eq_Panic index_def slice_def Let_def split: if_splits list.splits)
  then show "fuzz_property_value_decode data \<longleftrightarrow> \<not> bad_bit_octets data"
    by (simp add: fuzz_property_value_decode_def survives_iff decode_application_bitstring_Panic)
qed (simp_all add: fuzz_mstp_decode_def fuzz_sc_decode_def fuzz_bvll_decode_def fuzz_npdu_decode_def fuzz_apdu_decode_def
    survives_iff rbind_eq_Panic mstp_decode_no_panic sc_decode_no_panic bvll_decode_eq_Panic npdu_decode_eq_Panic
    unconfirmed_decode_no_panic complex_ack_decode_no_panic)

end
