(* ===== verification/Application_Tags.thy ===== *)
theory Application_Tags
  imports Application
begin

text \<open>
  \<^verbatim>\<open>crates/bacnet-types/src/application_tags.rs\<close>, the conversions into \<^verbatim>\<open>PropertyValue\<close> of
  \<^verbatim>\<open>property_value.rs\<close>, and \<^verbatim>\<open>ScNodeId::random\<close> of \<^verbatim>\<open>lib.rs\<close>.
\<close>

subsection \<open>Tag numbers\<close>

datatype application_tag =
    AT_Null
  | AT_Boolean
  | AT_UnsignedInt
  | AT_SignedInt
  | AT_Real
  | AT_Double
  | AT_OctetString
  | AT_CharacterString
  | AT_BitString
  | AT_Enumerated
  | AT_Date
  | AT_Time
  | AT_BacnetObjectId

primrec at_code :: "application_tag \<Rightarrow> u8" where
  "at_code AT_Null = 0"
| "at_code AT_Boolean = 1"
| "at_code AT_UnsignedInt = 2"
| "at_code AT_SignedInt = 3"
| "at_code AT_Real = 4"
| "at_code AT_Double = 5"
| "at_code AT_OctetString = 6"
| "at_code AT_CharacterString = 7"
| "at_code AT_BitString = 8"
| "at_code AT_Enumerated = 9"
| "at_code AT_Date = 10"
| "at_code AT_Time = 11"
| "at_code AT_BacnetObjectId = 12"

definition application_tag_from_u8 :: "u8 \<Rightarrow> application_tag option" where
  "application_tag_from_u8 v =
     (if v = 0 then Some AT_Null
      else if v = 1 then Some AT_Boolean
      else if v = 2 then Some AT_UnsignedInt
      else if v = 3 then Some AT_SignedInt
      else if v = 4 then Some AT_Real
      else if v = 5 then Some AT_Double
      else if v = 6 then Some AT_OctetString
      else if v = 7 then Some AT_CharacterString
      else if v = 8 then Some AT_BitString
      else if v = 9 then Some AT_Enumerated
      else if v = 10 then Some AT_Date
      else if v = 11 then Some AT_Time
      else if v = 12 then Some AT_BacnetObjectId
      else None)"

lemma application_tag_from_u8_Some: "application_tag_from_u8 v = Some t \<longleftrightarrow> at_code t = v"
  by (cases t) (auto simp: application_tag_from_u8_def)

text \<open>The tag of a primitive value is the high nibble of the first byte the encoder writes.\<close>

fun tag_of_value :: "property_value \<Rightarrow> application_tag option" where
  "tag_of_value PV_Null = Some AT_Null"
| "tag_of_value (PV_Boolean v) = Some AT_Boolean"
| "tag_of_value (PV_Unsigned v) = Some AT_UnsignedInt"
| "tag_of_value (PV_Integer v) = Some AT_SignedInt"
| "tag_of_value (PV_Real v) = Some AT_Real"
| "tag_of_value (PV_Double v) = Some AT_Double"
| "tag_of_value (PV_OctetString b) = (if length b \<le> 255 then Some AT_OctetString else None)"
| "tag_of_value (PV_CharacterString s) = Some AT_CharacterString"
| "tag_of_value (PV_BitString b) = Some AT_BitString"
| "tag_of_value (PV_Enumerated v) = Some AT_Enumerated"
| "tag_of_value (PV_Date d) = Some AT_Date"
| "tag_of_value (PV_Time t) = Some AT_Time"
| "tag_of_value (PV_ObjectId oid) = Some AT_BacnetObjectId"
| "tag_of_value _ = None"

lemma tag_byte_high: "t < 16 \<Longrightarrow> drop_bit 4 (tag_byte t l) = t"
proof -
  assume "t < 16"
  then have "bit t n \<Longrightarrow> n < 4" for n using bit_bound [of t 4 n] by simp
  moreover have "\<not> bit (7 :: u8) (n + 4)" for n using bit_bound [of "7 :: u8" 3 "n + 4"] by auto
  ultimately show ?thesis by (intro bit_word_eqI) (auto simp: tag_byte_def bit_simps)
qed

lemma small_length_tag: "n \<le> 4 \<Longrightarrow> drop_bit 4 (of_nat n :: u8) = 0"
proof -
  assume "n \<le> 4"
  then consider "n = 0" | "n = 1" | "n = 2" | "n = 3" | "n = 4" by linarith
  then show ?thesis by cases simp_all
qed

lemma encoded_tag:
  assumes "tag_of_value v = Some t"
  shows "\<exists>b rest. encode_property_value v = b # rest \<and> drop_bit 4 b = at_code t"
  using assms
  by (cases v) (auto simp: encode_application_unsigned_def encode_application_real_def encode_application_object_id_def
      encode_application_date_def encode_application_bitstring_def encode_enumerated_def encode_octets_def
      tag_byte_high small_length_tag Let_def split: if_splits)

subsection \<open>Conversions\<close>

definition pv_from_f32 :: "f32 \<Rightarrow> property_value" where
  "pv_from_f32 v = PV_Real v"

definition pv_from_bool :: "bool \<Rightarrow> property_value" where
  "pv_from_bool v = PV_Boolean v"

definition pv_from_u32 :: "u32 \<Rightarrow> property_value" where
  "pv_from_u32 v = PV_Unsigned v"

definition pv_from_string :: "rstring \<Rightarrow> property_value" where
  "pv_from_string v = PV_CharacterString v"

subsection \<open>Node identifiers\<close>

text \<open>
  The nanoseconds of the current second, in four of sixteen bytes; a clock before 1970 counts as
  1970.  \<open>now\<close> is in nanoseconds.
\<close>

definition sc_node_id_random :: "int \<Rightarrow> bytes" where
  "sc_node_id_random now =
     (let t = (of_int (max 0 now mod 1000000000) :: u32)
      in [ucast t, ucast (drop_bit 8 t), ucast (drop_bit 16 t), ucast (drop_bit 24 t)] @ replicate 12 0)"

lemma sc_node_id_random_periodic:
  "0 \<le> now \<Longrightarrow> sc_node_id_random (now + int k * 1000000000) = sc_node_id_random now"
  by (simp add: sc_node_id_random_def Let_def)

lemma length_sc_node_id_random: "length (sc_node_id_random now) = 16"
  by (simp add: sc_node_id_random_def Let_def)

text \<open>Not more than the nanoseconds of a second, where sixteen bytes could tell \<open>2 ^ 128\<close> nodes apart.\<close>

lemma sc_node_id_random_range: "card (range sc_node_id_random) \<le> 1000000000"
proof -
  have "range sc_node_id_random \<subseteq> sc_node_id_random ` {0..<1000000000}"
  proof
    fix x assume "x \<in> range sc_node_id_random"
    then obtain now where x: "x = sc_node_id_random now" by blast
    have "sc_node_id_random now = sc_node_id_random (max 0 now mod 1000000000)"
      by (simp add: sc_node_id_random_def Let_def)
    moreover have "max 0 now mod 1000000000 \<in> {0..<1000000000}" by simp
    ultimately show "x \<in> sc_node_id_random ` {0..<1000000000}" using x by blast
  qed
  then have "card (range sc_node_id_random) \<le> card (sc_node_id_random ` {0..<1000000000})"
    by (intro card_mono) simp_all
  also have "\<dots> \<le> card {0..<1000000000 :: int}" by (rule card_image_le) simp
  finally show ?thesis by simp
qed

end
