(* ===== verification/Bbmd.thy ===== *)
theory Bbmd
  imports Bacnet_Types
begin

text \<open>
  \<^verbatim>\<open>crates/bacnet-transport/src/bbmd.rs\<close>: the tables of a broadcast management device.  The source
  has their types and empty ones; nothing fills or reads them.
\<close>

record bbmd_bdt_entry =
  bb_address :: socket_addr_v4
  bb_mask :: bytes

record bbmd_fdt_entry =
  bf_address :: socket_addr_v4
  bf_ttl :: u16
  bf_remaining :: u16

definition bdt_table_new :: "bbmd_bdt_entry list" where
  "bdt_table_new = []"

definition fdt_table_new :: "bbmd_fdt_entry list" where
  "fdt_table_new = []"

end
