(* ===== verification/Sc_Hub.thy ===== *)
theory Sc_Hub
  imports Sc_Frame Hash_Map
begin

text \<open>
  \<^verbatim>\<open>crates/bacnet-transport/src/sc/hub.rs\<close> and \<^verbatim>\<open>node.rs\<close>: the BACnet/SC hub, which takes the
  handshake of a node, keeps a registry of the connected nodes by vMAC and routes frames between
  them, and the node's side of the same connection.

  A WebSocket is the list of what \<^verbatim>\<open>next()\<close> returns; the end of the list is its \<^verbatim>\<open>None\<close>.  A
  connection is known to the hub by a number, and the tasks that serve it (the inbound loop and the
  outbound task) are the events \<^verbatim>\<open>Sc_Message\<close> and \<^verbatim>\<open>Sc_Outbound\<close>, taken in any order.
\<close>

subsection \<open>Channels and frames\<close>

datatype ws_item = WS_Binary bytes | WS_Close | WS_Other | WS_Error

definition sc_channel_capacity :: nat where
  "sc_channel_capacity = 64"

text \<open>\<^verbatim>\<open>try_send\<close> drops the bytes when the channel is full or its receiver is gone.\<close>

definition channel_try_send :: "bool \<Rightarrow> bytes \<Rightarrow> bytes list \<Rightarrow> bytes list" where
  "channel_try_send rx_open data q = (if rx_open \<and> length q < sc_channel_capacity then q @ [data] else q)"

text \<open>\<^verbatim>\<open>send().await\<close>: \<open>None\<close> is a call that waits for room, the flag whether the result is \<^verbatim>\<open>Ok\<close>.\<close>

definition channel_send :: "bool \<Rightarrow> bytes \<Rightarrow> bytes list \<Rightarrow> (bool \<times> bytes list) option" where
  "channel_send rx_open data q =
     (if \<not> rx_open then Some (False, q)
      else if length q < sc_channel_capacity then Some (True, q @ [data])
      else None)"

definition sc_plain_frame :: "sc_function \<Rightarrow> u16 \<Rightarrow> bytes \<Rightarrow> sc_frame" where
  "sc_plain_frame f message_id payload =
     \<lparr>sc_function = sc_function_code f,
      sc_control = \<lparr>orig_vaddr_present = False, dest_vaddr_present = False,
                    dest_options_present = False, data_options_present = False\<rparr>,
      sc_message_id = message_id, originating_vmac = None, destination_vmac = None,
      sc_payload = payload\<rparr>"

definition sc_connect_accept :: sc_frame where
  "sc_connect_accept = sc_plain_frame SC_ConnectAccept 0 []"

definition sc_heartbeat_ack :: "u16 \<Rightarrow> sc_frame" where
  "sc_heartbeat_ack message_id = sc_plain_frame SC_HeartbeatAck message_id []"

definition sc_connect_request :: "bytes \<Rightarrow> bytes \<Rightarrow> sc_frame" where
  "sc_connect_request node_id vmac = sc_plain_frame SC_ConnectRequest 1 (node_id @ vmac)"

lemma sc_plain_frame_sel [simp]:
  "sc_function (sc_plain_frame f i p) = sc_function_code f" "sc_payload (sc_plain_frame f i p) = p"
  "sc_message_id (sc_plain_frame f i p) = i" "destination_vmac (sc_plain_frame f i p) = None"
  "originating_vmac (sc_plain_frame f i p) = None"
  by (simp_all add: sc_plain_frame_def)

lemma sc_plain_frame_roundtrip [simp]: "sc_decode (sc_encode (sc_plain_frame f i p)) = Ok (sc_plain_frame f i p)"
  by (rule sc_frames.dec_enc) (simp add: sc_ok_def sc_plain_frame_def)

subsection \<open>The hub\<close>

record node_handle =
  nh_node_id :: bytes
  nh_vmac :: bytes
  nh_tx :: nat

text \<open>
  One connection: who it is once the handshake is over, the queue to its outbound task and whether
  that task still receives, and what has been written to its socket.
\<close>

record sc_session =
  ss_peer :: "(bytes \<times> bytes) option"
  ss_queue :: "bytes list"
  ss_outbound :: bool
  ss_written :: "bytes list"

record sc_hub =
  hub_nodes :: "(bytes \<times> node_handle) list"
  hub_sessions :: "nat \<Rightarrow> sc_session option"

definition hub_new :: sc_hub where
  "hub_new = \<lparr>hub_nodes = [], hub_sessions = (\<lambda>c. None)\<rparr>"

definition connected_nodes :: "sc_hub \<Rightarrow> bytes list" where
  "connected_nodes h = map (\<lambda>e. nh_node_id (snd e)) (hub_nodes h)"

definition put_session :: "nat \<Rightarrow> sc_session option \<Rightarrow> sc_hub \<Rightarrow> sc_hub" where
  "put_session c s h = h\<lparr>hub_sessions := (hub_sessions h)(c := s)\<rparr>"

definition hub_try_send :: "nat \<Rightarrow> bytes \<Rightarrow> sc_hub \<Rightarrow> sc_hub" where
  "hub_try_send c data h =
     (case hub_sessions h c of
        None \<Rightarrow> h
      | Some s \<Rightarrow> put_session c (Some (s\<lparr>ss_queue := channel_try_send (ss_outbound s) data (ss_queue s)\<rparr>)) h)"

definition send_to_vmac :: "bytes \<Rightarrow> bytes \<Rightarrow> sc_hub \<Rightarrow> (bool \<times> sc_hub) option" where
  "send_to_vmac vmac data h =
     (case map_of (hub_nodes h) vmac of
        None \<Rightarrow> Some (False, h)
      | Some handle \<Rightarrow>
          (case hub_sessions h (nh_tx handle) of
             None \<Rightarrow> Some (False, h)
           | Some s \<Rightarrow>
               (case channel_send (ss_outbound s) data (ss_queue s) of
                  None \<Rightarrow> None
                | Some (done, q) \<Rightarrow> Some (done, put_session (nh_tx handle) (Some (s\<lparr>ss_queue := q\<rparr>)) h))))"

datatype sc_handshake = Hs_Wait | Hs_Accepted bytes bytes | Hs_Failed

definition hub_handshake :: "ws_item option \<Rightarrow> sc_handshake" where
  "hub_handshake msg =
     (case msg of
        Some (WS_Binary data) \<Rightarrow>
          (case sc_decode data of
             Ok frame \<Rightarrow>
               (if sc_function frame = sc_function_code SC_ConnectRequest then
                  (if length (sc_payload frame) < 22 then Hs_Failed
                   else Hs_Accepted (take 16 (sc_payload frame)) (take 6 (drop 16 (sc_payload frame))))
                else Hs_Wait)
           | Err _ \<Rightarrow> Hs_Failed
           | Panic \<Rightarrow> Hs_Failed)
      | Some WS_Close \<Rightarrow> Hs_Failed
      | None \<Rightarrow> Hs_Failed
      | Some WS_Other \<Rightarrow> Hs_Wait
      | Some WS_Error \<Rightarrow> Hs_Wait)"

text \<open>The accept is written to the socket itself; only then is the node in the registry.\<close>

definition hub_register :: "nat \<Rightarrow> bytes \<Rightarrow> bytes \<Rightarrow> sc_session \<Rightarrow> sc_hub \<Rightarrow> sc_hub" where
  "hub_register c node_id vmac s h =
     put_session c (Some (s\<lparr>ss_peer := Some (node_id, vmac), ss_queue := [], ss_outbound := True,
                           ss_written := ss_written s @ [sc_encode sc_connect_accept]\<rparr>))
       (h\<lparr>hub_nodes := hm_insert vmac \<lparr>nh_node_id = node_id, nh_vmac = vmac, nh_tx = c\<rparr> (hub_nodes h)\<rparr>)"

definition hub_route :: "bytes \<Rightarrow> bytes \<Rightarrow> sc_hub \<Rightarrow> sc_hub" where
  "hub_route vmac data h =
     (case sc_decode data of
        Ok frame \<Rightarrow>
          (if sc_function frame = sc_function_code SC_EncapsulatedNpdu then
             (case destination_vmac frame of
                None \<Rightarrow> h
              | Some dest_vmac \<Rightarrow>
                  (case map_of (hub_nodes h) dest_vmac of
                     None \<Rightarrow> h
                   | Some dest \<Rightarrow> hub_try_send (nh_tx dest) data h))
           else if sc_function frame = sc_function_code SC_Heartbeat then
             (case map_of (hub_nodes h) vmac of
                None \<Rightarrow> h
              | Some handle \<Rightarrow>
                  hub_try_send (nh_tx handle) (sc_encode (sc_heartbeat_ack (sc_message_id frame))) h)
           else h)
      | Err _ \<Rightarrow> h
      | Panic \<Rightarrow> h)"

definition hub_disconnect :: "nat \<Rightarrow> bytes \<Rightarrow> sc_hub \<Rightarrow> sc_hub" where
  "hub_disconnect c vmac h = put_session c None (h\<lparr>hub_nodes := hm_remove vmac (hub_nodes h)\<rparr>)"

text \<open>
  One message of a connection: the handshake until it is over (\<open>accept_sent\<close> is whether writing the
  ConnectAccept succeeds), then the inbound loop.
\<close>

definition hub_message :: "nat \<Rightarrow> bool \<Rightarrow> ws_item option \<Rightarrow> sc_hub \<Rightarrow> sc_hub" where
  "hub_message c accept_sent msg h =
     (case hub_sessions h c of
        None \<Rightarrow> h
      | Some s \<Rightarrow>
          (case ss_peer s of
             None \<Rightarrow>
               (case hub_handshake msg of
                  Hs_Wait \<Rightarrow> h
                | Hs_Failed \<Rightarrow> put_session c None h
                | Hs_Accepted node_id vmac \<Rightarrow>
                    (if accept_sent then hub_register c node_id vmac s h else put_session c None h))
           | Some (node_id, vmac) \<Rightarrow>
               (case msg of
                  Some (WS_Binary data) \<Rightarrow> hub_route vmac data h
                | Some WS_Close \<Rightarrow> hub_disconnect c vmac h
                | Some WS_Error \<Rightarrow> hub_disconnect c vmac h
                | None \<Rightarrow> hub_disconnect c vmac h
                | Some WS_Other \<Rightarrow> h)))"

text \<open>
  One turn of the outbound task: it writes the head of its queue and ends, with its receiver, when
  that fails; it also ends when its queue is empty and no handle of the registry can send to it.
\<close>

definition hub_outbound :: "nat \<Rightarrow> bool \<Rightarrow> sc_hub \<Rightarrow> sc_hub" where
  "hub_outbound c write_ok h =
     (case hub_sessions h c of
        None \<Rightarrow> h
      | Some s \<Rightarrow>
          (if \<not> ss_outbound s then h
           else (case ss_queue s of
                   [] \<Rightarrow>
                     (if list_ex (\<lambda>e. nh_tx (snd e) = c) (hub_nodes h) then h
                      else put_session c (Some (s\<lparr>ss_outbound := False\<rparr>)) h)
                 | data # q \<Rightarrow>
                     (if write_ok then put_session c (Some (s\<lparr>ss_queue := q, ss_written := ss_written s @ [data]\<rparr>)) h
                      else put_session c (Some (s\<lparr>ss_queue := [], ss_outbound := False\<rparr>)) h))))"

text \<open>\<^verbatim>\<open>accept_loop\<close>: a connection whose WebSocket upgrade succeeds waits for its handshake.\<close>

definition hub_connect :: "nat \<Rightarrow> sc_hub \<Rightarrow> sc_hub" where
  "hub_connect c h =
     (case hub_sessions h c of
        Some _ \<Rightarrow> h
      | None \<Rightarrow> put_session c (Some \<lparr>ss_peer = None, ss_queue = [], ss_outbound = False, ss_written = []\<rparr>) h)"

datatype sc_event = Sc_Connect nat | Sc_Message nat bool "ws_item option" | Sc_Outbound nat bool

primrec hub_event :: "sc_event \<Rightarrow> sc_hub \<Rightarrow> sc_hub" where
  "hub_event (Sc_Connect c) h = hub_connect c h"
| "hub_event (Sc_Message c accept_sent msg) h = hub_message c accept_sent msg h"
| "hub_event (Sc_Outbound c write_ok) h = hub_outbound c write_ok h"

definition hub_run :: "sc_event list \<Rightarrow> sc_hub \<Rightarrow> sc_hub" where
  "hub_run evs h = fold hub_event evs h"

subsection \<open>The node\<close>

datatype sc_connection_state = Sc_Connecting | Sc_Connected | Sc_Disconnected

record sc_node =
  hn_node_id :: bytes
  hn_vmac :: bytes
  hn_tx :: "bytes list"
  hn_rx :: "bytes list"
  hn_state :: sc_connection_state

definition sc_send_npdu :: "bool \<Rightarrow> bytes \<Rightarrow> bytes \<Rightarrow> u16 \<Rightarrow> sc_node \<Rightarrow> (bool \<times> sc_node) option" where
  "sc_send_npdu rx_open dest_vmac npdu message_id nd =
     (case channel_send rx_open
          (sc_encode (sc_encapsulated_npdu message_id (Some (hn_vmac nd)) (Some dest_vmac) npdu)) (hn_tx nd) of
        None \<Rightarrow> None
      | Some (done, q) \<Rightarrow> Some (done, nd\<lparr>hn_tx := q\<rparr>))"

text \<open>\<^verbatim>\<open>recv_frame\<close> once the queue is not empty; an undecodable frame is read as \<open>None\<close>.\<close>

definition sc_recv_frame :: "sc_node \<Rightarrow> (sc_frame option \<times> sc_node) option" where
  "sc_recv_frame nd =
     (case hn_rx nd of
        [] \<Rightarrow> None
      | data # q \<Rightarrow>
          Some (case sc_decode data of Ok f \<Rightarrow> Some f | Err _ \<Rightarrow> None | Panic \<Rightarrow> None, nd\<lparr>hn_rx := q\<rparr>))"

datatype sc_connect_error = Ce_Io | Ce_Codec bacnet_error | Ce_Closed | Ce_Panic

text \<open>The wait for the ConnectAccept; what comes after it is left for the loop.\<close>

fun sc_wait_accept :: "ws_item list \<Rightarrow> sc_connect_error + ws_item list" where
  "sc_wait_accept [] = Inl Ce_Closed"
| "sc_wait_accept (WS_Binary data # rest) =
     (case sc_decode data of
        Err e \<Rightarrow> Inl (Ce_Codec e)
      | Panic \<Rightarrow> Inl Ce_Panic
      | Ok frame \<Rightarrow>
          (if sc_function frame = sc_function_code SC_ConnectAccept then Inr rest else sc_wait_accept rest))"
| "sc_wait_accept (WS_Close # rest) = Inl Ce_Closed"
| "sc_wait_accept (WS_Other # rest) = sc_wait_accept rest"
| "sc_wait_accept (WS_Error # rest) = sc_wait_accept rest"

text \<open>
  \<^verbatim>\<open>connect\<close>: \<open>socket\<close> is what the WebSocket client returns (what the hub will send on it, or a
  failure) and \<open>sent_ok\<close> whether the ConnectRequest is written to it.
\<close>

definition sc_connect ::
    "ws_item list option \<Rightarrow> bool \<Rightarrow> bytes \<Rightarrow> bytes \<Rightarrow> sc_connect_error + sc_node \<times> ws_item list" where
  "sc_connect socket sent_ok node_id vmac =
     (case socket of
        None \<Rightarrow> Inl Ce_Io
      | Some stream \<Rightarrow>
          (if \<not> sent_ok then Inl Ce_Io
           else (case sc_wait_accept stream of
                   Inl e \<Rightarrow> Inl e
                 | Inr rest \<Rightarrow>
                     Inr (\<lparr>hn_node_id = node_id, hn_vmac = vmac, hn_tx = [], hn_rx = [],
                           hn_state = Sc_Connected\<rparr>, rest))))"

text \<open>The inbound half of \<^verbatim>\<open>run_node_loop\<close>: what it forwards to the application, in order.\<close>

fun sc_node_loop :: "ws_item list \<Rightarrow> bytes list" where
  "sc_node_loop [] = []"
| "sc_node_loop (WS_Binary data # rest) =
     (case sc_decode data of
        Ok frame \<Rightarrow>
          (if sc_function frame = sc_function_code SC_Heartbeat then sc_node_loop rest
           else data # sc_node_loop rest)
      | Err _ \<Rightarrow> sc_node_loop rest
      | Panic \<Rightarrow> [])"
| "sc_node_loop (WS_Close # rest) = []"
| "sc_node_loop (WS_Error # rest) = []"
| "sc_node_loop (WS_Other # rest) = sc_node_loop rest"

text \<open>
  \<^verbatim>\<open>connect_with_retry\<close> over the attempts' outcomes: the first handle, and the time slept before it,
  in nanoseconds.  It need not return.
\<close>

partial_function (option) sc_retry :: "(nat \<Rightarrow> 'h option) \<Rightarrow> nat \<Rightarrow> nat \<Rightarrow> nat \<Rightarrow> ('h \<times> nat) option" where
  "sc_retry attempt i delay slept =
     (case attempt i of
        Some handle \<Rightarrow> Some (handle, slept)
      | None \<Rightarrow> sc_retry attempt (i + 1) (min (delay * 2) 30000000000) (slept + delay))"

definition connect_with_retry :: "(nat \<Rightarrow> 'h option) \<Rightarrow> ('h \<times> nat) option" where
  "connect_with_retry attempt = sc_retry attempt 0 100000000 0"

text \<open>The delay before the attempt after failure \<open>i\<close>, as the back-off means it.\<close>

definition backoff :: "nat \<Rightarrow> nat" where
  "backoff i = min (100000000 * 2 ^ i) 30000000000"

lemma backoff_0: "backoff 0 = 100000000"
  by (simp add: backoff_def)

lemma backoff_Suc: "min (backoff i * 2) 30000000000 = backoff (Suc i)"
  by (simp add: backoff_def min_def)

lemma backoff_cap: "9 \<le> i \<Longrightarrow> backoff i = 30000000000"
proof -
  assume "9 \<le> i"
  then have "(2 :: nat) ^ 9 \<le> 2 ^ i" by (intro power_increasing) simp_all
  then show ?thesis by (simp add: backoff_def)
qed

lemma sc_retry_returns:
  assumes "attempt (i + n) = Some handle" and "\<And>j. j < n \<Longrightarrow> attempt (i + j) = None"
  shows "sc_retry attempt i (backoff k) slept = Some (handle, slept + (\<Sum>j < n. backoff (k + j)))"
  using assms
proof (induction n arbitrary: i k slept)
  case 0
  then show ?case by (subst sc_retry.simps) simp
next
  case (Suc n)
  have "attempt i = None" using Suc.prems(2) [of 0] by simp
  moreover have "attempt (Suc i + n) = Some handle" "\<And>j. j < n \<Longrightarrow> attempt (Suc i + j) = None"
    using Suc.prems(1) Suc.prems(2) [of "Suc j" for j] by simp_all
  ultimately show ?case
    using Suc.IH [of "Suc i" "Suc k" "slept + backoff k"]
    by (subst sc_retry.simps) (simp add: backoff_Suc sum.lessThan_Suc_shift del: sum.lessThan_Suc)
qed

lemma sc_retry_reachable:
  assumes "sc_retry attempt i delay slept = Some y"
  shows "\<exists>j \<ge> i. attempt j \<noteq> None"
proof (rule sc_retry.raw_induct [OF _ assms, of "\<lambda>attempt i delay slept y. \<exists>j \<ge> i. attempt j \<noteq> None"])
  fix rec :: "(nat \<Rightarrow> 'a option) \<Rightarrow> nat \<Rightarrow> nat \<Rightarrow> nat \<Rightarrow> ('a \<times> nat) option" and attempt i delay slept y
  assume IH: "\<And>attempt i delay slept y. rec attempt i delay slept = Some y \<Longrightarrow> \<exists>j \<ge> i. attempt j \<noteq> None"
    and e: "(case attempt i of Some handle \<Rightarrow> Some (handle, slept)
      | None \<Rightarrow> rec attempt (i + 1) (min (delay * 2) 30000000000) (slept + delay)) = Some y"
  show "\<exists>j \<ge> i. attempt j \<noteq> None"
  proof (cases "attempt i")
    case None
    with e have "\<exists>j \<ge> i + 1. attempt j \<noteq> None" by (intro IH) simp
    then show ?thesis by (meson add_leD1)
  qed auto
qed

subsection \<open>The invariant of the hub\<close>

text \<open>What a connection with this vMAC may be sent after its ConnectAccept.\<close>

definition sc_meant_for :: "bytes \<Rightarrow> bytes \<Rightarrow> bool" where
  "sc_meant_for vmac data =
     (case sc_decode data of
        Ok f \<Rightarrow> (sc_function f = sc_function_code SC_EncapsulatedNpdu \<and> destination_vmac f = Some vmac)
          \<or> sc_function f = sc_function_code SC_HeartbeatAck
      | Err _ \<Rightarrow> False
      | Panic \<Rightarrow> False)"

definition session_ok :: "sc_session \<Rightarrow> bool" where
  "session_ok s \<longleftrightarrow> length (ss_queue s) \<le> sc_channel_capacity \<and>
     (case ss_peer s of
        None \<Rightarrow> ss_queue s = [] \<and> ss_written s = []
      | Some (node_id, vmac) \<Rightarrow>
          \<exists>w. ss_written s = sc_encode sc_connect_accept # w \<and> list_all (sc_meant_for vmac) (w @ ss_queue s))"

definition node_registered :: "sc_hub \<Rightarrow> bytes \<Rightarrow> node_handle \<Rightarrow> bool" where
  "node_registered h vmac n \<longleftrightarrow> nh_vmac n = vmac \<and> length vmac = 6 \<and> length (nh_node_id n) = 16 \<and>
     (\<exists>s. hub_sessions h (nh_tx n) = Some s \<and> ss_peer s = Some (nh_node_id n, vmac))"

definition hub_ok :: "sc_hub \<Rightarrow> bool" where
  "hub_ok h \<longleftrightarrow> hm_wf (hub_nodes h)
     \<and> (\<forall>vmac n. map_of (hub_nodes h) vmac = Some n \<longrightarrow> node_registered h vmac n)
     \<and> (\<forall>c s. hub_sessions h c = Some s \<longrightarrow> session_ok s)"

lemma put_session_sel [simp]:
  "hub_nodes (put_session c s h) = hub_nodes h" "hub_sessions (put_session c s h) = (hub_sessions h)(c := s)"
  by (simp_all add: put_session_def)

lemma hub_ok_new: "hub_ok hub_new"
  by (simp add: hub_ok_def hub_new_def)

lemma hub_okD:
  assumes "hub_ok h"
  shows "hm_wf (hub_nodes h)" "map_of (hub_nodes h) vmac = Some n \<Longrightarrow> node_registered h vmac n"
    "hub_sessions h c = Some s \<Longrightarrow> session_ok s"
  using assms by (simp_all add: hub_ok_def)

text \<open>A session may change as long as it stays the same peer's.\<close>

lemma hub_ok_put:
  assumes "hub_ok h" and "hub_sessions h c = Some s" and "ss_peer s' = ss_peer s" and "session_ok s'"
  shows "hub_ok (put_session c (Some s') h)"
proof -
  have "node_registered (put_session c (Some s') h) vmac n" if "node_registered h vmac n" for vmac n
    using that assms(2,3) by (cases "nh_tx n = c") (auto simp: node_registered_def)
  with assms(1,4) show ?thesis by (auto simp: hub_ok_def)
qed

text \<open>A session that no entry of the registry points to may end or become another's.\<close>

lemma node_registered_put:
  "node_registered h vmac n \<Longrightarrow> nh_tx n \<noteq> c \<Longrightarrow> node_registered (put_session c s h) vmac n"
  by (simp add: node_registered_def)

lemma handshake_unregistered:
  assumes "node_registered h vmac n" and "hub_sessions h c = Some s" and "ss_peer s = None"
  shows "nh_tx n \<noteq> c"
  using assms by (auto simp: node_registered_def)

lemma hub_ok_put_unregistered:
  assumes "hub_ok h" and "\<And>vmac n. map_of (hub_nodes h) vmac = Some n \<Longrightarrow> nh_tx n \<noteq> c"
    and "\<And>s'. s = Some s' \<Longrightarrow> session_ok s'"
  shows "hub_ok (put_session c s h)"
  using assms node_registered_put [of h _ _ c s] by (auto simp: hub_ok_def)

lemma hub_ok_connect: "hub_ok h \<Longrightarrow> hub_ok (hub_connect c h)"
  by (auto simp: hub_connect_def node_registered_def session_ok_def dest: hub_okD(2)
      intro!: hub_ok_put_unregistered split: option.splits)

lemma session_ok_queue:
  assumes "session_ok s" and "ss_peer s = Some (node_id, vmac)" and "sc_meant_for vmac data"
  shows "session_ok (s\<lparr>ss_queue := channel_try_send rx_open data (ss_queue s)\<rparr>)"
  using assms by (auto simp: session_ok_def channel_try_send_def)

lemma hub_ok_try_send:
  assumes "hub_ok h" and "map_of (hub_nodes h) vmac = Some n" and "sc_meant_for vmac data"
  shows "hub_ok (hub_try_send (nh_tx n) data h)"
proof -
  obtain s where s: "hub_sessions h (nh_tx n) = Some s" "ss_peer s = Some (nh_node_id n, vmac)"
    using hub_okD(2) [OF assms(1,2)] by (auto simp: node_registered_def)
  have "session_ok (s\<lparr>ss_queue := channel_try_send (ss_outbound s) data (ss_queue s)\<rparr>)"
    using hub_okD(3) [OF assms(1) s(1)] s(2) assms(3) by (rule session_ok_queue)
  with s show ?thesis by (auto simp: hub_try_send_def intro: hub_ok_put [OF assms(1)])
qed

lemma meant_for_heartbeat_ack: "sc_meant_for vmac (sc_encode (sc_heartbeat_ack i))"
  by (simp add: sc_meant_for_def sc_heartbeat_ack_def)

lemma meant_for_npdu:
  "sc_decode data = Ok f \<Longrightarrow> sc_function f = 1 \<Longrightarrow> destination_vmac f = Some vmac \<Longrightarrow> sc_meant_for vmac data"
  by (simp add: sc_meant_for_def)

lemma hub_ok_route: "hub_ok h \<Longrightarrow> hub_ok (hub_route vmac data h)"
  by (auto simp: hub_route_def intro: hub_ok_try_send meant_for_heartbeat_ack meant_for_npdu
      split: rres.splits option.splits)

lemma hub_ok_register:
  assumes "hub_ok h" and "hub_sessions h c = Some s" and "ss_peer s = None"
    and "length node_id = 16" and "length vmac = 6"
  shows "hub_ok (hub_register c node_id vmac s h)"
proof -
  let ?h = "hub_register c node_id vmac s h"
  have w: "ss_written s = []" using hub_okD(3) [OF assms(1,2)] assms(3) by (simp add: session_ok_def)
  have "node_registered ?h v n" if "map_of (hub_nodes ?h) v = Some n" for v n
  proof (cases "v = vmac")
    case True
    with that assms(4,5) show ?thesis by (auto simp: hub_register_def node_registered_def)
  next
    case False
    with that have "node_registered h v n" using hub_okD(2) [OF assms(1)] by (simp add: hub_register_def)
    with handshake_unregistered [OF this assms(2,3)] show ?thesis
      by (simp add: hub_register_def node_registered_def)
  qed
  moreover have "session_ok s'" if "hub_sessions ?h d = Some s'" for d s'
    using that w hub_okD(3) [OF assms(1)] by (auto simp: hub_register_def session_ok_def split: if_splits)
  ultimately show ?thesis using hub_okD(1) [OF assms(1)] by (simp add: hub_ok_def hub_register_def)
qed

lemma hub_ok_disconnect:
  assumes "hub_ok h" and "hub_sessions h c = Some s" and "ss_peer s = Some (node_id, vmac)"
  shows "hub_ok (hub_disconnect c vmac h)"
  unfolding hub_disconnect_def
proof (rule hub_ok_put_unregistered)
  show "hub_ok (h\<lparr>hub_nodes := hm_remove vmac (hub_nodes h)\<rparr>)"
    using assms(1) by (auto simp: hub_ok_def node_registered_def)
  fix v n
  assume "map_of (hub_nodes (h\<lparr>hub_nodes := hm_remove vmac (hub_nodes h)\<rparr>)) v = Some n"
  then have "node_registered h v n" "v \<noteq> vmac"
    using hub_okD(2) [OF assms(1)] by (auto split: if_splits)
  with assms(2,3) show "nh_tx n \<noteq> c" by (auto simp: node_registered_def)
qed simp

lemma handshake_lengths:
  "hub_handshake msg = Hs_Accepted node_id vmac \<Longrightarrow> length node_id = 16 \<and> length vmac = 6"
  by (auto simp: hub_handshake_def split: option.splits ws_item.splits rres.splits if_splits)

lemma hub_ok_message:
  assumes "hub_ok h"
  shows "hub_ok (hub_message c accept_sent msg h)"
proof (cases "hub_sessions h c")
  case None
  with assms show ?thesis by (simp add: hub_message_def)
next
  case (Some s)
  show ?thesis
  proof (cases "ss_peer s")
    case None
    have "hub_ok (put_session c None h)"
      using handshake_unregistered [OF hub_okD(2) [OF assms] Some None]
      by (intro hub_ok_put_unregistered [OF assms]) auto
    with assms Some None hub_ok_register [OF assms Some None] show ?thesis
      by (auto simp: hub_message_def split: sc_handshake.splits dest: handshake_lengths)
  next
    case (Some p)
    with assms \<open>hub_sessions h c = Some s\<close> show ?thesis
      by (cases p) (auto simp: hub_message_def hub_ok_route hub_ok_disconnect split: option.splits ws_item.splits)
  qed
qed

lemma hub_ok_outbound:
  assumes "hub_ok h"
  shows "hub_ok (hub_outbound c write_ok h)"
proof (cases "hub_sessions h c")
  case None
  with assms show ?thesis by (simp add: hub_outbound_def)
next
  case (Some s)
  from hub_okD(3) [OF assms Some] show ?thesis
    by (auto simp: hub_outbound_def Some assms session_ok_def
        intro!: hub_ok_put [OF assms Some] split: list.splits option.splits)
qed

lemma hub_ok_event: "hub_ok h \<Longrightarrow> hub_ok (hub_event ev h)"
  by (cases ev) (simp_all add: hub_ok_connect hub_ok_message hub_ok_outbound)

lemma hub_ok_run: "hub_ok h \<Longrightarrow> hub_ok (hub_run evs h)"
  by (induction evs arbitrary: h) (simp_all add: hub_run_def hub_ok_event)

subsection \<open>A connection and a frame, end to end\<close>

lemma hub_handshake_request:
  assumes "length node_id = 16" and "length vmac = 6"
  shows "hub_handshake (Some (WS_Binary (sc_encode (sc_connect_request node_id vmac)))) = Hs_Accepted node_id vmac"
  using assms by (simp add: hub_handshake_def sc_connect_request_def)

lemma connect_registers:
  assumes "length node_id = 16" and "length vmac = 6" and "hub_sessions h c = None"
  shows "hub_run [Sc_Connect c, Sc_Message c True (Some (WS_Binary (sc_encode (sc_connect_request node_id vmac))))] h =
    put_session c (Some \<lparr>ss_peer = Some (node_id, vmac), ss_queue = [], ss_outbound = True,
        ss_written = [sc_encode sc_connect_accept]\<rparr>)
      (h\<lparr>hub_nodes := hm_insert vmac \<lparr>nh_node_id = node_id, nh_vmac = vmac, nh_tx = c\<rparr> (hub_nodes h)\<rparr>)"
  using assms hub_handshake_request
  by (simp add: hub_run_def hub_connect_def hub_message_def hub_register_def put_session_def)

lemma connect_accepted:
  "sc_connect (Some (WS_Binary (sc_encode sc_connect_accept) # rest)) True node_id vmac =
    Inr (\<lparr>hn_node_id = node_id, hn_vmac = vmac, hn_tx = [], hn_rx = [], hn_state = Sc_Connected\<rparr>, rest)"
  by (simp add: sc_connect_def sc_connect_accept_def)

text \<open>A node that connects under a vMAC in use is dropped from the registry when the first one leaves.\<close>

lemma duplicate_vmac_unregistered:
  assumes "hub_sessions h a = Some sa" and "ss_peer sa = Some (na, vmac)"
    and "hub_sessions h b = Some sb" and "a \<noteq> b"
  shows "hub_sessions (hub_message a acc None h) b = Some sb \<and>
    map_of (hub_nodes (hub_message a acc None h)) vmac = None"
  using assms by (simp add: hub_message_def hub_disconnect_def)

lemma npdu_frame_decodes:
  "length va = 6 \<Longrightarrow> length vb = 6 \<Longrightarrow>
    sc_decode (sc_encode (sc_encapsulated_npdu i (Some va) (Some vb) npdu)) =
      Ok (sc_encapsulated_npdu i (Some va) (Some vb) npdu)"
  by (rule sc_frames.dec_enc, rule sc_encapsulated_npdu_ok) simp_all

lemma sc_encapsulated_npdu_sel [simp]:
  "sc_function (sc_encapsulated_npdu i orig dest npdu) = sc_function_code SC_EncapsulatedNpdu"
  "destination_vmac (sc_encapsulated_npdu i orig dest npdu) = dest"
  "originating_vmac (sc_encapsulated_npdu i orig dest npdu) = orig"
  "sc_payload (sc_encapsulated_npdu i orig dest npdu) = npdu"
  by (simp_all add: sc_encapsulated_npdu_def)

text \<open>
  The queue of a connection is written in order, whatever else the hub does meanwhile, as long as
  no event ends the connection itself.
\<close>

definition leaves_open :: "nat \<Rightarrow> sc_event \<Rightarrow> bool" where
  "leaves_open c e \<longleftrightarrow>
     (case e of
        Sc_Connect d \<Rightarrow> True
      | Sc_Message d acc msg \<Rightarrow> d \<noteq> c \<or> msg = Some WS_Other \<or> (\<exists>data. msg = Some (WS_Binary data))
      | Sc_Outbound d write_ok \<Rightarrow> d \<noteq> c \<or> write_ok)"

definition outbound_turns :: "nat \<Rightarrow> sc_event list \<Rightarrow> nat" where
  "outbound_turns c evs = length (filter (\<lambda>e. e = Sc_Outbound c True) evs)"

definition session_grows :: "sc_session \<Rightarrow> nat \<Rightarrow> sc_session \<Rightarrow> bool" where
  "session_grows s k s' \<longleftrightarrow> ss_peer s' = ss_peer s \<and> (ss_outbound s' \<or> ss_queue s' = []) \<and>
     (\<exists>rest. ss_written s' @ ss_queue s' = ss_written s @ ss_queue s @ rest) \<and>
     min (length (ss_written s @ ss_queue s)) (length (ss_written s) + k) \<le> length (ss_written s')"

lemma session_grows_refl: "ss_outbound s \<or> ss_queue s = [] \<Longrightarrow> session_grows s 0 s"
  by (simp add: session_grows_def)

lemma session_grows_trans:
  assumes "session_grows s j s'" and "session_grows s' k s''"
  shows "session_grows s (j + k) s''"
proof -
  obtain r r' where r: "ss_written s' @ ss_queue s' = ss_written s @ ss_queue s @ r"
      "ss_written s'' @ ss_queue s'' = ss_written s' @ ss_queue s' @ r'"
    using assms by (auto simp: session_grows_def)
  then have "ss_written s'' @ ss_queue s'' = ss_written s @ ss_queue s @ (r @ r')"
    by (metis append_assoc)
  moreover have "length (ss_written s @ ss_queue s) \<le> length (ss_written s' @ ss_queue s')"
    unfolding r(1) by simp
  ultimately show ?thesis using assms unfolding session_grows_def by (auto simp: min_def split: if_splits)
qed

lemma try_send_grows:
  assumes "hub_sessions h c = Some s" and "ss_outbound s \<or> ss_queue s = []"
  shows "\<exists>s'. hub_sessions (hub_try_send d data h) c = Some s' \<and> session_grows s 0 s'"
  using assms by (auto simp: hub_try_send_def channel_try_send_def session_grows_def split: option.split)

lemma route_grows:
  assumes "hub_sessions h c = Some s" and "ss_outbound s \<or> ss_queue s = []"
  shows "\<exists>s'. hub_sessions (hub_route vmac data h) c = Some s' \<and> session_grows s 0 s'"
  using try_send_grows [OF assms] session_grows_refl [OF assms(2)] assms(1)
  by (simp add: hub_route_def split: rres.split option.split)

lemma message_grows:
  assumes "hub_sessions h c = Some s" and "ss_peer s = Some p" and "ss_outbound s \<or> ss_queue s = []"
    and "leaves_open c (Sc_Message d acc msg)"
  shows "\<exists>s'. hub_sessions (hub_message d acc msg h) c = Some s' \<and> session_grows s 0 s'"
proof (cases "d = c")
  case True
  then show ?thesis
    using assms route_grows [OF assms(1,3)] session_grows_refl [OF assms(3)]
    by (auto simp: hub_message_def leaves_open_def split: prod.split)
next
  case False
  then show ?thesis
    using assms(1) route_grows [OF assms(1,3)] session_grows_refl [OF assms(3)]
    by (auto simp: hub_message_def hub_register_def hub_disconnect_def
        split: option.split prod.split ws_item.split sc_handshake.split)
qed

lemma outbound_grows:
  assumes "hub_sessions h c = Some s" and "ss_outbound s \<or> ss_queue s = []"
    and "leaves_open c (Sc_Outbound d write_ok)"
  shows "\<exists>s'. hub_sessions (hub_outbound d write_ok h) c = Some s' \<and> session_grows s (of_bool (d = c)) s'"
  using assms
  by (cases "d = c"; cases "ss_queue s")
    (auto simp: hub_outbound_def session_grows_def leaves_open_def split: option.split list.split)

lemma event_grows:
  assumes "hub_sessions h c = Some s" and "ss_peer s = Some p" and "ss_outbound s \<or> ss_queue s = []"
    and "leaves_open c e"
  shows "\<exists>s'. hub_sessions (hub_event e h) c = Some s' \<and>
    session_grows s (of_bool (e = Sc_Outbound c True)) s'"
proof (cases e)
  case (Sc_Connect d)
  then show ?thesis using assms(1) session_grows_refl [OF assms(3)]
    by (auto simp: hub_connect_def split: option.split)
next
  case (Sc_Message d acc msg)
  then show ?thesis using message_grows [OF assms(1-3)] assms(4) by simp
next
  case (Sc_Outbound d write_ok)
  then show ?thesis using outbound_grows [OF assms(1,3), of d write_ok] assms(4)
    by (cases "d = c") (auto simp: leaves_open_def)
qed

lemma run_grows:
  assumes "hub_sessions h c = Some s" and "ss_peer s = Some p" and "ss_outbound s \<or> ss_queue s = []"
    and "\<forall>e \<in> set evs. leaves_open c e"
  shows "\<exists>s'. hub_sessions (hub_run evs h) c = Some s' \<and> session_grows s (outbound_turns c evs) s'"
  using assms
proof (induction evs arbitrary: h s)
  case Nil
  then show ?case using session_grows_refl by (simp add: hub_run_def outbound_turns_def)
next
  case (Cons e evs)
  then obtain s1 where s1: "hub_sessions (hub_event e h) c = Some s1"
      "session_grows s (of_bool (e = Sc_Outbound c True)) s1"
    using event_grows [of h c s p e] by auto
  then have "ss_peer s1 = Some p" "ss_outbound s1 \<or> ss_queue s1 = []"
    using Cons.prems(2) by (simp_all add: session_grows_def)
  with Cons.IH [OF s1(1)] Cons.prems(4) obtain s2
    where s2: "hub_sessions (hub_run evs (hub_event e h)) c = Some s2" "session_grows s1 (outbound_turns c evs) s2"
    by auto
  have turns: "outbound_turns c (e # evs) = of_bool (e = Sc_Outbound c True) + outbound_turns c evs"
    by (simp add: outbound_turns_def)
  show ?case using s2(1) session_grows_trans [OF s1(2) s2(2)] unfolding turns
    by (simp add: hub_run_def)
qed

lemma outbound_drains:
  assumes "hub_sessions h c = Some s" and "ss_peer s = Some p" and "ss_outbound s \<or> ss_queue s = []"
    and "\<forall>e \<in> set evs. leaves_open c e" and "length (ss_queue s) \<le> outbound_turns c evs"
  shows "\<exists>s' rest. hub_sessions (hub_run evs h) c = Some s' \<and>
    ss_written s' = ss_written s @ ss_queue s @ rest"
proof -
  obtain s' rest where s': "hub_sessions (hub_run evs h) c = Some s'"
      "ss_written s' @ ss_queue s' = (ss_written s @ ss_queue s) @ rest"
      "length (ss_written s @ ss_queue s) \<le> length (ss_written s')"
    using run_grows [OF assms(1-4)] assms(5) by (auto simp: session_grows_def)
  have "take (length (ss_written s @ ss_queue s)) (ss_written s') = ss_written s @ ss_queue s"
    using arg_cong [OF s'(2), of "take (length (ss_written s @ ss_queue s))"] s'(3) by simp
  then have "ss_written s' =
      (ss_written s @ ss_queue s) @ drop (length (ss_written s @ ss_queue s)) (ss_written s')"
    by (metis append_take_drop_id)
  with s'(1) show ?thesis unfolding append_assoc by blast
qed

lemma hub_routes_npdu:
  assumes "hub_sessions h a = Some sa" and "ss_peer sa = Some (na, va)"
    and "map_of (hub_nodes h) vb = Some n" and "hub_sessions h (nh_tx n) = Some sb"
    and "ss_outbound sb" and "length (ss_queue sb) < sc_channel_capacity"
    and "length va = 6" and "length vb = 6"
    and data: "data = sc_encode (sc_encapsulated_npdu i (Some va) (Some vb) npdu)"
  shows "hub_message a acc (Some (WS_Binary data)) h =
    put_session (nh_tx n) (Some (sb\<lparr>ss_queue := ss_queue sb @ [data]\<rparr>)) h"
  using assms(1-6) npdu_frame_decodes [OF assms(7,8)]
  by (simp add: data hub_message_def hub_route_def hub_try_send_def channel_try_send_def)

lemma hub_drops_npdu:
  assumes "hub_sessions h a = Some sa" and "ss_peer sa = Some (na, va)"
    and "map_of (hub_nodes h) vb = Some n" and "hub_sessions h (nh_tx n) = Some sb"
    and "\<not> (ss_outbound sb \<and> length (ss_queue sb) < sc_channel_capacity)"
    and "length va = 6" and "length vb = 6"
    and data: "data = sc_encode (sc_encapsulated_npdu i (Some va) (Some vb) npdu)"
  shows "hub_message a acc (Some (WS_Binary data)) h = h"
  using assms(1-5) npdu_frame_decodes [OF assms(6,7)]
  by (simp add: data hub_message_def hub_route_def hub_try_send_def channel_try_send_def put_session_def
      fun_upd_idem)

subsection \<open>Properties\<close>

text \<open>
  C12. From an empty hub, after any interleaving of connections, messages and socket writes: every
  entry of the registry is the live connection that made its handshake under this vMAC and node id,
  no queue is longer than its channel, and after its ConnectAccept a connection has been sent, and
  has queued, nothing but NPDUs addressed to its own vMAC and heartbeat acknowledgements.
\<close>

theorem hub_keeps_traffic_apart:
  assumes "h = hub_run evs hub_new"
  shows "(\<forall>vmac n. map_of (hub_nodes h) vmac = Some n \<longrightarrow> node_registered h vmac n) \<and>
    (\<forall>c s. hub_sessions h c = Some s \<longrightarrow> length (ss_queue s) \<le> 64 \<and>
      (\<forall>node_id vmac. ss_peer s = Some (node_id, vmac) \<longrightarrow>
        hd (ss_written s) = sc_encode sc_connect_accept \<and>
        list_all (sc_meant_for vmac) (tl (ss_written s) @ ss_queue s)))"
proof -
  have ok: "hub_ok h" unfolding assms by (rule hub_ok_run [OF hub_ok_new])
  show ?thesis
    using hub_okD(2) [OF ok] hub_okD(3) [OF ok]
    by (fastforce simp: session_ok_def sc_channel_capacity_def)
qed

theorem hub_keeps_traffic_apart_witness:
  "node_registered (hub_run [Sc_Connect 3, Sc_Message 3 True (Some (WS_Binary
      (sc_encode (sc_connect_request (replicate 16 7) [1, 2, 3, 4, 5, 6]))))] hub_new)
    [1, 2, 3, 4, 5, 6] \<lparr>nh_node_id = replicate 16 7, nh_vmac = [1, 2, 3, 4, 5, 6], nh_tx = 3\<rparr>"
  by (rule hub_keeps_traffic_apart [OF refl, THEN conjunct1, rule_format])
    (simp add: connect_registers hub_new_def)

text \<open>
  C11. An NPDU that a node sends to the vMAC of another, over a hub both are registered with, and
  that the node's own queue takes, becomes one frame at the end of that queue, and the node is told
  it was sent.  When the hub reads it, it depends on the other node's connection.  If its outbound
  task runs and its queue holds fewer than 64 frames, the frame is written to the other node's
  socket whole and in order, after what was written and queued before: in every schedule of the
  hub's events in which the connection stays open (its socket is not closed, its writes succeed)
  and its outbound task gets a turn for every frame in the queue.  The application of the other
  node then reads a frame with this payload, this sender and itself as destination.  Otherwise the
  hub drops the frame and changes nothing at all, and neither node hears of it.
\<close>

theorem npdu_crosses_the_hub:
  assumes "sc_send_npdu True vb npdu i nd = Some (done, nd')" and "data = last (hn_tx nd')"
    and "hub_sessions h a = Some sa" and "ss_peer sa = Some (hn_node_id nd, hn_vmac nd)"
    and "map_of (hub_nodes h) vb = Some n" and "hub_sessions h (nh_tx n) = Some sb" and "ss_peer sb = Some p"
    and "length (hn_vmac nd) = 6" and "length vb = 6"
  shows "done \<and> hn_tx nd' = hn_tx nd @ [data] \<and>
    (if ss_outbound sb \<and> length (ss_queue sb) < 64
     then \<forall>evs. (\<forall>e \<in> set evs. leaves_open (nh_tx n) e) \<and>
         length (ss_queue sb) < outbound_turns (nh_tx n) evs \<longrightarrow>
         (\<exists>sb' rest. hub_sessions (hub_run (Sc_Message a acc (Some (WS_Binary data)) # evs) h) (nh_tx n) = Some sb' \<and>
           ss_written sb' = ss_written sb @ ss_queue sb @ [data] @ rest)
     else hub_message a acc (Some (WS_Binary data)) h = h) \<and>
    sc_node_loop [WS_Binary data] = [data] \<and>
    sc_recv_frame (ndb\<lparr>hn_rx := [data]\<rparr>) =
        Some (Some (sc_encapsulated_npdu i (Some (hn_vmac nd)) (Some vb) npdu), ndb\<lparr>hn_rx := []\<rparr>)"
proof -
  let ?sb = "sb\<lparr>ss_queue := ss_queue sb @ [data]\<rparr>"
  have snd: "done" "hn_tx nd' = hn_tx nd @ [data]"
    and data: "data = sc_encode (sc_encapsulated_npdu i (Some (hn_vmac nd)) (Some vb) npdu)"
    using assms(1,2) by (auto simp: sc_send_npdu_def channel_send_def split: if_splits)
  have "\<exists>sb' rest. hub_sessions (hub_run (Sc_Message a acc (Some (WS_Binary data)) # evs) h) (nh_tx n) = Some sb' \<and>
      ss_written sb' = ss_written sb @ ss_queue sb @ [data] @ rest"
    if "ss_outbound sb" "length (ss_queue sb) < 64" "\<forall>e \<in> set evs. leaves_open (nh_tx n) e"
      "length (ss_queue sb) < outbound_turns (nh_tx n) evs" for evs
  proof -
    have "hub_message a acc (Some (WS_Binary data)) h = put_session (nh_tx n) (Some ?sb) h"
      using assms(3-9) that(1,2) data by (intro hub_routes_npdu) (simp_all add: sc_channel_capacity_def)
    moreover have "\<exists>s' rest. hub_sessions (hub_run evs (put_session (nh_tx n) (Some ?sb) h)) (nh_tx n) = Some s' \<and>
        ss_written s' = ss_written ?sb @ ss_queue ?sb @ rest"
      using assms(7) that by (intro outbound_drains) simp_all
    ultimately show ?thesis by (simp add: hub_run_def)
  qed
  moreover have "hub_message a acc (Some (WS_Binary data)) h = h"
    if "\<not> (ss_outbound sb \<and> length (ss_queue sb) < 64)"
    using assms(3-9) that data by (intro hub_drops_npdu) (simp_all add: sc_channel_capacity_def)
  moreover have "sc_node_loop [WS_Binary data] = [data]"
      "sc_recv_frame (ndb\<lparr>hn_rx := [data]\<rparr>) =
        Some (Some (sc_encapsulated_npdu i (Some (hn_vmac nd)) (Some vb) npdu), ndb\<lparr>hn_rx := []\<rparr>)"
    using npdu_frame_decodes [OF assms(8,9)] by (simp_all add: sc_recv_frame_def data)
  ultimately show ?thesis using snd by simp
qed

definition example_hub :: sc_hub where
  "example_hub = hub_run
     [Sc_Connect 3, Sc_Message 3 True (Some (WS_Binary (sc_encode (sc_connect_request (replicate 16 7) [1, 2, 3, 4, 5, 6]))))]
     (hub_run
       [Sc_Connect 4, Sc_Message 4 True (Some (WS_Binary (sc_encode (sc_connect_request (replicate 16 9) [2, 2, 2, 2, 2, 2]))))]
       hub_new)"

theorem npdu_crosses_the_hub_witness:
  "\<exists>nd'. sc_send_npdu True [2, 2, 2, 2, 2, 2] [0x01, 0x00] 42
      \<lparr>hn_node_id = replicate 16 7, hn_vmac = [1, 2, 3, 4, 5, 6], hn_tx = [], hn_rx = [], hn_state = Sc_Connected\<rparr> = Some (True, nd')
    \<and> (\<exists>s rest. hub_sessions (hub_run [Sc_Message 3 True (Some (WS_Binary (last (hn_tx nd')))),
          Sc_Connect 9, Sc_Outbound 4 True] example_hub) 4 = Some s
      \<and> ss_written s = [sc_encode sc_connect_accept, last (hn_tx nd')] @ rest)"
proof -
  let ?nd = "\<lparr>hn_node_id = replicate 16 7, hn_vmac = [1, 2, 3, 4, 5, 6], hn_tx = [], hn_rx = [], hn_state = Sc_Connected\<rparr>"
  obtain nd' where snd: "sc_send_npdu True [2, 2, 2, 2, 2, 2] [0x01, 0x00] 42 ?nd = Some (True, nd')"
    by (simp add: sc_send_npdu_def channel_send_def sc_channel_capacity_def)
  have h: "hub_sessions example_hub 3 = Some \<lparr>ss_peer = Some (replicate 16 7, [1, 2, 3, 4, 5, 6]), ss_queue = [],
        ss_outbound = True, ss_written = [sc_encode sc_connect_accept]\<rparr>"
      "hub_sessions example_hub 4 = Some \<lparr>ss_peer = Some (replicate 16 9, [2, 2, 2, 2, 2, 2]), ss_queue = [],
        ss_outbound = True, ss_written = [sc_encode sc_connect_accept]\<rparr>"
      "map_of (hub_nodes example_hub) [2, 2, 2, 2, 2, 2] =
        Some \<lparr>nh_node_id = replicate 16 9, nh_vmac = [2, 2, 2, 2, 2, 2], nh_tx = 4\<rparr>"
    by (simp_all add: example_hub_def connect_registers hub_new_def)
  have turn: "(\<forall>e \<in> set [Sc_Connect 9, Sc_Outbound 4 True]. leaves_open 4 e) \<and>
      0 < outbound_turns 4 [Sc_Connect 9, Sc_Outbound 4 True]"
    by (simp add: leaves_open_def outbound_turns_def)
  define d where "d = last (hn_tx nd')"
  have "\<exists>s rest. hub_sessions (hub_run [Sc_Message 3 True (Some (WS_Binary (last (hn_tx nd')))),
          Sc_Connect 9, Sc_Outbound 4 True] example_hub) 4 = Some s
      \<and> ss_written s = [sc_encode sc_connect_accept, last (hn_tx nd')] @ rest"
    using npdu_crosses_the_hub [OF snd d_def h(1) _ h(3), simplified node_handle.select_convs, OF _ h(2),
        where p = "(replicate 16 9, [2, 2, 2, 2, 2, 2])" and acc = True] turn
    unfolding d_def [symmetric] by simp
  with snd show ?thesis by blast
qed

text \<open>
  \<^verbatim>\<open>connect_with_retry\<close> returns if the hub can ever be reached: when attempt \<open>n\<close> is the first
  that succeeds, its handle is the result, after sleeps that double from 100 ms and are never
  longer than 30 s, which they reach with the tenth; and when no attempt succeeds, it never returns.
\<close>

theorem retry_returns_iff_reachable:
  "connect_with_retry attempt =
    (if \<exists>n. attempt n \<noteq> None
     then (let n = LEAST n. attempt n \<noteq> None
           in Some (the (attempt n), \<Sum>i < n. min (100000000 * 2 ^ i) 30000000000))
     else None)"
proof (cases "\<exists>n. attempt n \<noteq> None")
  case True
  define n where "n = (LEAST n. attempt n \<noteq> None)"
  obtain handle where handle: "attempt n = Some handle"
    using LeastI_ex [OF True] by (auto simp: n_def)
  have "attempt j = None" if "j < n" for j
    using not_less_Least that unfolding n_def by blast
  then have "sc_retry attempt 0 (backoff 0) 0 = Some (handle, 0 + (\<Sum>i < n. backoff (0 + i)))"
    using handle by (intro sc_retry_returns) simp_all
  then have "connect_with_retry attempt = Some (the (attempt n), \<Sum>i < n. backoff i)"
    by (simp only: connect_with_retry_def backoff_0 handle option.sel add_0)
  with True show ?thesis
    unfolding Let_def n_def backoff_def by (simp only: if_True)
next
  case False
  then have "connect_with_retry attempt = None"
    using sc_retry_reachable [of attempt 0 100000000 0] unfolding connect_with_retry_def
    by (metis option.exhaust_sel surj_pair)
  with False show ?thesis by simp
qed

end
