(* ===== verification/Sc_Node_Loop.thy ===== *)
theory Sc_Node_Loop
  imports Sc_Hub
begin

text \<open>
  The rest of \<^verbatim>\<open>crates/bacnet-transport/src/sc/node.rs\<close> and \<^verbatim>\<open>sc/hub.rs\<close>: the two halves of
  \<^verbatim>\<open>run_node_loop\<close> together, what is left of a node when its socket closes, and the text of the
  errors of the hub.
\<close>

subsection \<open>The node loop\<close>

text \<open>
  The outbound half: the queued frames go to the socket until one cannot be sent.  \<open>sent_ok\<close> says of
  each send whether the socket took it.
\<close>

fun sc_write_loop :: "(nat \<Rightarrow> bool) \<Rightarrow> bytes list \<Rightarrow> bytes list" where
  "sc_write_loop sent_ok [] = []"
| "sc_write_loop sent_ok (data # q) =
     (if sent_ok 0 then data # sc_write_loop (\<lambda>i. sent_ok (Suc i)) q else [])"

text \<open>The bounded channels of the handle: what the loop takes from one and puts into the other.\<close>

definition run_node_loop :: "(nat \<Rightarrow> bool) \<Rightarrow> ws_item list \<Rightarrow> sc_node \<Rightarrow> bytes list \<times> sc_node" where
  "run_node_loop sent_ok stream nd =
     (sc_write_loop sent_ok (hn_tx nd), nd\<lparr>hn_tx := [], hn_rx := hn_rx nd @ sc_node_loop stream\<rparr>)"

definition sc_connection_state_of :: "sc_node \<Rightarrow> sc_connection_state" where
  "sc_connection_state_of nd = hn_state nd"

definition sc_vmac_of :: "sc_node \<Rightarrow> bytes" where
  "sc_vmac_of nd = hn_vmac nd"

lemma sc_write_loop_all: "\<forall>i. sent_ok i \<Longrightarrow> sc_write_loop sent_ok q = q"
  by (induction q arbitrary: sent_ok) simp_all

lemma sc_write_loop_prefix: "\<exists>rest. q = sc_write_loop sent_ok q @ rest"
  by (induction q arbitrary: sent_ok) auto

lemma sc_node_loop_closed: "sc_node_loop (before @ WS_Close # later) = sc_node_loop (before @ [WS_Close])"
proof (induction before)
  case (Cons x before)
  then show ?case by (cases x) (simp_all split: rres.split)
qed simp

subsection \<open>Errors of the hub\<close>

datatype sc_hub_error = Sh_NodeNotFound | Sh_SendFailed

primrec sc_hub_error_text :: "sc_hub_error \<Rightarrow> string" where
  "sc_hub_error_text Sh_NodeNotFound = ''SC node not found''"
| "sc_hub_error_text Sh_SendFailed = ''SC send failed''"

subsection \<open>Properties\<close>

text \<open>
  A node that has lost its hub does not know it: after the loop has ended with the socket, the
  handle still says that it is connected, whatever came before, everything it sends is refused and
  what came after the close is never received; nothing connects it again.
\<close>

theorem lost_node_says_connected:
  assumes "sc_connect (Some stream) True node_id vmac = Inr (nd, rest)"
    and "run_node_loop sent_ok (before @ WS_Close # later) nd = (sent, nd1)"
  shows "sc_connection_state_of nd1 = Sc_Connected \<and> sc_vmac_of nd1 = vmac \<and>
    sc_send_npdu False dest npdu i nd1 = Some (False, nd1) \<and>
    run_node_loop sent_ok (before @ [WS_Close]) nd = (sent, nd1)"
proof -
  have "hn_state nd = Sc_Connected" "hn_vmac nd = vmac"
    using assms(1) by (auto simp: sc_connect_def split: sum.splits)
  moreover have "nd1 = nd\<lparr>hn_tx := [], hn_rx := hn_rx nd @ sc_node_loop (before @ [WS_Close])\<rparr>"
      "sent = sc_write_loop sent_ok (hn_tx nd)"
    using assms(2) by (simp_all add: run_node_loop_def sc_node_loop_closed [of before later])
  ultimately show ?thesis
    by (simp add: sc_connection_state_of_def sc_vmac_of_def sc_send_npdu_def channel_send_def run_node_loop_def)
qed

theorem lost_node_says_connected_witness:
  "\<exists>nd sent nd1. sc_connect (Some [WS_Binary (sc_encode sc_connect_accept)]) True (replicate 16 0) [1, 2, 3, 4, 5, 6] = Inr (nd, []) \<and>
    run_node_loop (\<lambda>i. True) [WS_Close] nd = (sent, nd1) \<and> sc_connection_state_of nd1 = Sc_Connected"
proof -
  let ?nd = "\<lparr>hn_node_id = replicate 16 0, hn_vmac = [1, 2, 3, 4, 5, 6], hn_tx = [], hn_rx = [], hn_state = Sc_Connected\<rparr>"
  have c: "sc_connect (Some [WS_Binary (sc_encode sc_connect_accept)]) True (replicate 16 0) [1, 2, 3, 4, 5, 6] = Inr (?nd, [])"
    by (simp add: sc_connect_def sc_connect_accept_def)
  obtain sent nd1 where r: "run_node_loop (\<lambda>i. True) ([] @ WS_Close # []) ?nd = (sent, nd1)" by (rule prod.exhaust)
  from lost_node_says_connected [OF c r] c r show ?thesis by auto
qed

end
