(* ===== verification/Object_Base.thy ===== *)
theory Object_Base
  imports Bacnet_Types
begin

text \<open>
  \<^verbatim>\<open>crates/bacnet-object/src/property.rs\<close>: the trait every object implements, with its default
  method, and the contract the implementations share.

  \<^verbatim>\<open>Instant\<close> is the number of nanoseconds of the monotonic clock (\<open>instant\<close>); the operations that
  call \<^verbatim>\<open>Instant::now()\<close> take its value as an argument.  \<^verbatim>\<open>SystemTime\<close> is the nanoseconds since the
  Unix epoch, negative before it (\<open>system_time\<close>).  A \<^verbatim>\<open>&mut self\<close> method returns its result and the
  new object.
\<close>

type_synonym instant = nat
type_synonym duration = nat
type_synonym system_time = int

type_synonym 'o writer =
  "'o \<Rightarrow> property_identifier \<Rightarrow> u32 option \<Rightarrow> property_value \<Rightarrow> u8 option \<Rightarrow> unit bres \<times> 'o"
type_synonym 'o reader = "'o \<Rightarrow> property_identifier \<Rightarrow> u32 option \<Rightarrow> property_value bres"

text \<open>The \<^verbatim>\<open>status_flags_bits\<close> of the object files.\<close>

definition status_flags_bits :: "status_flags \<Rightarrow> bool list" where
  "status_flags_bits sf = [in_alarm sf, fault sf, overridden sf, sf_out_of_service sf]"

text \<open>The arm \<^verbatim>\<open>let x = opt.ok_or(e)?; self.f = x; Ok(())\<close> of the writers.\<close>

definition set_or :: "bacnet_error \<Rightarrow> 'a option \<Rightarrow> ('a \<Rightarrow> 'o) \<Rightarrow> 'o \<Rightarrow> unit bres \<times> 'o" where
  "set_or e x f ob = (case x of None \<Rightarrow> (Err e, ob) | Some v \<Rightarrow> (Ok (), f v))"

text \<open>Patterns of \<^verbatim>\<open>if let PropertyValue::Real(v) = value\<close> and its siblings.\<close>

definition real_of :: "property_value \<Rightarrow> f32 option" where
  "real_of v = (case v of PV_Real x \<Rightarrow> Some x | _ \<Rightarrow> None)"

definition boolean_of :: "property_value \<Rightarrow> bool option" where
  "boolean_of v = (case v of PV_Boolean x \<Rightarrow> Some x | _ \<Rightarrow> None)"

definition unsigned_of :: "property_value \<Rightarrow> u32 option" where
  "unsigned_of v = (case v of PV_Unsigned x \<Rightarrow> Some x | _ \<Rightarrow> None)"

definition string_of :: "property_value \<Rightarrow> rstring option" where
  "string_of v = (case v of PV_CharacterString x \<Rightarrow> Some x | _ \<Rightarrow> None)"

lemma set_or_simps [simp]:
  "set_or e None f ob = (Err e, ob)" "set_or e (Some v) f ob = (Ok (), f v)"
  by (simp_all add: set_or_def)

text \<open>The outcome of a write on \<open>ob\<close>: no panic, and an error changes nothing.\<close>

definition keeps :: "'o \<Rightarrow> unit bres \<times> 'o \<Rightarrow> bool" where
  "keeps ob r \<longleftrightarrow> fst r \<noteq> Panic \<and> (\<forall>e. fst r = Err e \<longrightarrow> snd r = ob)"

lemma keeps_simps [simp]:
  "keeps ob (Ok (), ob')" "keeps ob (Err e, ob)" "keeps ob (set_or e x f ob)"
  "keeps ob (if b then r else r') \<longleftrightarrow> (b \<longrightarrow> keeps ob r) \<and> (\<not> b \<longrightarrow> keeps ob r')"
  by (cases x; simp add: keeps_def)+

text \<open>The new object of a write, arm by arm.\<close>

lemma snd_set_or: "snd (set_or e x f ob) = (case x of None \<Rightarrow> ob | Some v \<Rightarrow> f v)"
  by (cases x) simp_all

subsection \<open>The default method of the trait\<close>

definition force_write_property ::
  "'o reader \<Rightarrow> 'o writer \<Rightarrow> 'o \<Rightarrow> property_identifier \<Rightarrow> property_value \<Rightarrow> unit bres \<times> 'o" where
  "force_write_property rd wr ob pid value =
     (case wr ob pid None value None of
        (Ok _, ob1) \<Rightarrow> (Ok (), ob1)
      | (Panic, ob1) \<Rightarrow> (Panic, ob1)
      | (Err _, ob1) \<Rightarrow>
          (if pid = PID_PresentValue then
             (let was_oos = (rd ob1 PID_OutOfService None = Ok (PV_Boolean True)) in
              if \<not> was_oos then
                (let (_, ob2) = wr ob1 PID_OutOfService None (PV_Boolean True) None;
                     (result, ob3) = wr ob2 pid None value None;
                     (_, ob4) = wr ob3 PID_OutOfService None (PV_Boolean False) None
                 in (result, ob4))
              else (Err WriteAccessDenied, ob1))
           else (Err WriteAccessDenied, ob1)))"

subsection \<open>The contract of the trait\<close>

text \<open>
  What every implementation keeps, whatever the clocks say: \<open>ok\<close> is its representation
  invariant, \<open>all\<close> the listing for RPM \<^verbatim>\<open>ALL\<close>.
\<close>

locale object_contract =
  fixes oid :: "'o \<Rightarrow> object_id"
    and rd :: "system_time \<Rightarrow> 'o reader"
    and wr :: "instant \<Rightarrow> 'o writer"
    and all :: "'o \<Rightarrow> (property_identifier \<times> property_value) list"
    and ok :: "'o \<Rightarrow> bool"
  assumes all_read: "ok ob \<Longrightarrow> (pid, v) \<in> set (all ob) \<Longrightarrow> rd sys ob pid None = Ok v"
    and all_distinct: "distinct (map fst (all ob))"
    and rd_no_panic: "ok ob \<Longrightarrow> rd sys ob pid i \<noteq> Panic"
    and wr_keeps: "ok ob \<Longrightarrow> keeps ob (wr now ob pid i v pr)"
    and wr_oid: "oid (snd (wr now ob pid i v pr)) = oid ob"
    and wr_ok: "ok ob \<Longrightarrow> ok (snd (wr now ob pid i v pr))"
    and oos_restore: "rd sys ob PID_OutOfService None \<noteq> Ok (PV_Boolean True) \<Longrightarrow>
      snd (wr now (snd (wr now ob PID_OutOfService None (PV_Boolean True) None))
        PID_OutOfService None (PV_Boolean False) None) = ob"
begin

lemma wr_no_panic: "ok ob \<Longrightarrow> fst (wr now ob pid i v pr) \<noteq> Panic"
  using wr_keeps [of ob now pid i v pr] by (simp add: keeps_def)

lemma wr_err: "ok ob \<Longrightarrow> fst (wr now ob pid i v pr) = Err e \<Longrightarrow> snd (wr now ob pid i v pr) = ob"
  using wr_keeps [of ob now pid i v pr] by (simp add: keeps_def)

text \<open>Reading one property of the listing and listing all of them agree.\<close>

lemma all_lookup: "ok ob \<Longrightarrow> map_of (all ob) pid = Some v \<Longrightarrow> rd sys ob pid None = Ok v"
  by (rule all_read) (auto dest: map_of_SomeD)

lemma wr_cases:
  assumes "ok ob"
  obtains "fst (wr now ob pid i v pr) = Ok ()"
    | e where "wr now ob pid i v pr = (Err e, ob)"
  using wr_no_panic [OF assms, of now pid i v pr] wr_err [OF assms, of now pid i v pr]
  by (cases "wr now ob pid i v pr"; cases "fst (wr now ob pid i v pr)") auto

lemma force_oid: "oid (snd (force_write_property (rd sys) (wr now) ob pid v)) = oid ob"
proof -
  have w: "oid b = oid a" if "wr now a p i x pr = (r, b)" for a p i x pr r b
    using wr_oid [of now a p i x pr] that by simp
  show ?thesis
    by (auto simp: force_write_property_def Let_def split: prod.split rres.split dest!: w)
qed

lemma force_ok: "ok ob \<Longrightarrow> ok (snd (force_write_property (rd sys) (wr now) ob pid v))"
proof -
  assume ok: "ok ob"
  have w: "ok a \<longrightarrow> ok b" if "wr now a p i x pr = (r, b)" for a p i x pr r b
    using wr_ok [of a now p i x pr] that by simp
  show ?thesis
    using ok by (auto simp: force_write_property_def Let_def split: prod.split rres.split dest!: w)
qed

lemma force_no_panic: "ok ob \<Longrightarrow> fst (force_write_property (rd sys) (wr now) ob pid v) \<noteq> Panic"
proof -
  assume ok: "ok ob"
  have w: "(ok a \<longrightarrow> ok b) \<and> (ok a \<longrightarrow> r \<noteq> Panic)" if "wr now a p i x pr = (r, b)" for a p i x pr r b
    using wr_ok [of a now p i x pr] wr_no_panic [of a now p i x pr] that by simp
  show ?thesis
    using ok by (auto simp: force_write_property_def Let_def split: prod.split rres.split dest!: w)
qed

text \<open>
  A forced write that fails leaves the object as it was: the out-of-service flag that it raises
  is lowered again.
\<close>

lemma force_err_unchanged:
  assumes "ok ob" and "fst (force_write_property (rd sys) (wr now) ob pid v) \<noteq> Ok ()"
  shows "snd (force_write_property (rd sys) (wr now) ob pid v) = ob"
proof (cases rule: wr_cases [OF assms(1), of now pid None v None])
  case 1
  with assms(2) show ?thesis
    by (cases "wr now ob pid None v None") (simp add: force_write_property_def)
next
  case (2 e)
  show ?thesis
  proof (cases "pid = PID_PresentValue \<and> rd sys ob PID_OutOfService None \<noteq> Ok (PV_Boolean True)")
    case False
    with 2 show ?thesis by (auto simp: force_write_property_def)
  next
    case True
    let ?o2 = "snd (wr now ob PID_OutOfService None (PV_Boolean True) None)"
    have "ok ?o2" using assms(1) by (rule wr_ok)
    then show ?thesis
    proof (cases rule: wr_cases [where now = now and pid = pid and i = None and v = v and pr = None])
      case 1
      with 2 True assms(2) show ?thesis
        by (simp add: force_write_property_def Let_def case_prod_unfold)
    next
      case (2 e')
      have "force_write_property (rd sys) (wr now) ob pid v =
          (Err e', snd (wr now ?o2 PID_OutOfService None (PV_Boolean False) None))"
        using True 2 \<open>wr now ob pid None v None = (Err e, ob)\<close>
        by (simp add: force_write_property_def Let_def case_prod_unfold)
      then show ?thesis using True oos_restore [of sys ob now] by simp
    qed
  qed
qed

end

end
