(* ===== verification/Analog.thy ===== *)
theory Analog
  imports Object_Base
begin

text \<open>
  \<^verbatim>\<open>analog_input.rs\<close>, \<^verbatim>\<open>analog_output.rs\<close> and \<^verbatim>\<open>analog_value.rs\<close> of \<^verbatim>\<open>crates/bacnet-object/src\<close>.
\<close>

text \<open>The f32 literals \<^verbatim>\<open>0.0\<close> and \<^verbatim>\<open>0.1\<close>.\<close>

definition f32_tenth :: f32 where
  "f32_tenth = 0x3DCCCCCD"

subsection \<open>Analog Input\<close>

record analog_input =
  ai_device_id :: device_id
  ai_object_id :: object_id
  ai_object_name :: rstring
  ai_description :: rstring
  ai_present_value :: f32
  ai_status_flags :: status_flags
  ai_event_state :: event_state
  ai_reliability :: reliability
  ai_out_of_service :: bool
  ai_units :: engineering_units
  ai_min_present_value :: "f32 option"
  ai_max_present_value :: "f32 option"
  ai_cov_increment :: f32
  ai_time_delay :: u32
  ai_notification_class :: "u32 option"
  ai_high_limit :: "f32 option"
  ai_low_limit :: "f32 option"
  ai_deadband :: f32
  ai_profile_name :: "rstring option"
  ai_last_cov_val :: f32
  ai_last_changed :: instant

definition ai_new ::
  "instant \<Rightarrow> device_id \<Rightarrow> u32 \<Rightarrow> rstring \<Rightarrow> engineering_units \<Rightarrow> analog_input" where
  "ai_new now device inst name units =
     \<lparr>ai_device_id = device,
      ai_object_id = \<lparr>oid_type = OT_AnalogInput, oid_instance = inst\<rparr>,
      ai_object_name = name, ai_description = [], ai_present_value = 0,
      ai_status_flags = status_flags_default, ai_event_state = ES_Normal,
      ai_reliability = REL_NoFaultDetected, ai_out_of_service = False, ai_units = units,
      ai_min_present_value = None, ai_max_present_value = None, ai_cov_increment = f32_tenth,
      ai_time_delay = 0, ai_notification_class = None, ai_high_limit = None,
      ai_low_limit = None, ai_deadband = 0, ai_profile_name = None, ai_last_cov_val = 0,
      ai_last_changed = now\<rparr>"

definition ai_read_property :: "analog_input reader" where
  "ai_read_property ob p i =
     (if p = PID_ObjectIdentifier then Ok (PV_ObjectId (ai_object_id ob))
      else if p = PID_ObjectName then Ok (PV_CharacterString (ai_object_name ob))
      else if p = PID_ObjectType then Ok (PV_Enumerated (ot_code OT_AnalogInput))
      else if p = PID_PresentValue then Ok (PV_Real (ai_present_value ob))
      else if p = PID_StatusFlags then Ok (PV_BitString (status_flags_bits (ai_status_flags ob)))
      else if p = PID_EventState then Ok (PV_Enumerated (event_state_code (ai_event_state ob)))
      else if p = PID_Reliability then Ok (PV_Enumerated (reliability_code (ai_reliability ob)))
      else if p = PID_OutOfService then Ok (PV_Boolean (ai_out_of_service ob))
      else if p = PID_Units then Ok (PV_Enumerated (units_code (ai_units ob)))
      else if p = PID_Description then Ok (PV_CharacterString (ai_description ob))
      else if p = PID_CovIncrement then Ok (PV_Real (ai_cov_increment ob))
      else if p = PID_HighLimit then ok_or UnknownProperty (map_option PV_Real (ai_high_limit ob))
      else if p = PID_LowLimit then ok_or UnknownProperty (map_option PV_Real (ai_low_limit ob))
      else Err UnknownProperty)"

definition ai_write_property :: "instant \<Rightarrow> analog_input writer" where
  "ai_write_property now ob p i value prio =
     (if p = PID_OutOfService then
        set_or InvalidDataType (as_bool value) (\<lambda>v. ob\<lparr>ai_out_of_service := v\<rparr>) ob
      else if p = PID_PresentValue then
        (if \<not> ai_out_of_service ob then (Err WriteAccessDenied, ob)
         else set_or InvalidDataType (as_f32 value)
           (\<lambda>v. ob\<lparr>ai_present_value := v, ai_last_changed := now\<rparr>) ob)
      else if p = PID_CovIncrement then
        set_or InvalidDataType (as_f32 value) (\<lambda>v. ob\<lparr>ai_cov_increment := v\<rparr>) ob
      else if p = PID_Description then
        set_or InvalidDataType (string_of value) (\<lambda>v. ob\<lparr>ai_description := v\<rparr>) ob
      else (Err WriteAccessDenied, ob))"

definition ai_changed_since :: "analog_input \<Rightarrow> instant \<Rightarrow> property_identifier list" where
  "ai_changed_since ob since =
     (if since \<le> ai_last_changed ob then [PID_PresentValue, PID_StatusFlags] else [])"

definition ai_all_properties :: "analog_input \<Rightarrow> (property_identifier \<times> property_value) list" where
  "ai_all_properties ob =
     [(PID_ObjectIdentifier, PV_ObjectId (ai_object_id ob)),
      (PID_ObjectName, PV_CharacterString (ai_object_name ob)),
      (PID_ObjectType, PV_Enumerated (ot_code OT_AnalogInput)),
      (PID_PresentValue, PV_Real (ai_present_value ob)),
      (PID_StatusFlags, PV_BitString (status_flags_bits (ai_status_flags ob))),
      (PID_EventState, PV_Enumerated (event_state_code (ai_event_state ob))),
      (PID_Reliability, PV_Enumerated (reliability_code (ai_reliability ob))),
      (PID_OutOfService, PV_Boolean (ai_out_of_service ob)),
      (PID_Units, PV_Enumerated (units_code (ai_units ob))),
      (PID_Description, PV_CharacterString (ai_description ob)),
      (PID_CovIncrement, PV_Real (ai_cov_increment ob))]
     @ (case ai_high_limit ob of None \<Rightarrow> [] | Some hi \<Rightarrow> [(PID_HighLimit, PV_Real hi)])
     @ (case ai_low_limit ob of None \<Rightarrow> [] | Some lo \<Rightarrow> [(PID_LowLimit, PV_Real lo)])"

subsection \<open>Analog Output\<close>

record analog_output =
  ao_device_id :: device_id
  ao_object_id :: object_id
  ao_object_name :: rstring
  ao_description :: rstring
  ao_present_value :: f32
  ao_status_flags :: status_flags
  ao_event_state :: event_state
  ao_reliability :: reliability
  ao_out_of_service :: bool
  ao_units :: engineering_units
  ao_priority_array :: "f32 option list"
  ao_relinquish_default :: f32
  ao_cov_increment :: f32
  ao_last_changed :: instant

definition num_priorities :: nat where
  "num_priorities = 16"

definition ao_new ::
  "instant \<Rightarrow> device_id \<Rightarrow> u32 \<Rightarrow> rstring \<Rightarrow> engineering_units \<Rightarrow> analog_output" where
  "ao_new now device inst name units =
     \<lparr>ao_device_id = device,
      ao_object_id = \<lparr>oid_type = OT_AnalogOutput, oid_instance = inst\<rparr>,
      ao_object_name = name, ao_description = [], ao_present_value = 0,
      ao_status_flags = status_flags_default, ao_event_state = ES_Normal,
      ao_reliability = REL_NoFaultDetected, ao_out_of_service = False, ao_units = units,
      ao_priority_array = replicate num_priorities None, ao_relinquish_default = 0,
      ao_cov_increment = f32_tenth, ao_last_changed = now\<rparr>"

text \<open>The loop of \<^verbatim>\<open>effective_value\<close>: the first slot that is set.\<close>

fun first_set :: "'a option list \<Rightarrow> 'a \<Rightarrow> 'a" where
  "first_set [] d = d"
| "first_set (x # xs) d = (case x of Some v \<Rightarrow> v | None \<Rightarrow> first_set xs d)"

definition ao_effective_value :: "analog_output \<Rightarrow> f32" where
  "ao_effective_value ob = first_set (ao_priority_array ob) (ao_relinquish_default ob)"

definition slot_value :: "f32 option \<Rightarrow> property_value" where
  "slot_value v = (case v of None \<Rightarrow> PV_Null | Some x \<Rightarrow> PV_Real x)"

definition ao_read_property :: "analog_output reader" where
  "ao_read_property ob p i =
     (if p = PID_ObjectIdentifier then Ok (PV_ObjectId (ao_object_id ob))
      else if p = PID_ObjectName then Ok (PV_CharacterString (ao_object_name ob))
      else if p = PID_ObjectType then Ok (PV_Enumerated (ot_code OT_AnalogOutput))
      else if p = PID_PresentValue then Ok (PV_Real (ao_effective_value ob))
      else if p = PID_StatusFlags then Ok (PV_BitString (status_flags_bits (ao_status_flags ob)))
      else if p = PID_EventState then Ok (PV_Enumerated (event_state_code (ao_event_state ob)))
      else if p = PID_OutOfService then Ok (PV_Boolean (ao_out_of_service ob))
      else if p = PID_Units then Ok (PV_Enumerated (units_code (ao_units ob)))
      else if p = PID_RelinquishDefault then Ok (PV_Real (ao_relinquish_default ob))
      else if p = PID_PriorityArray then
        (case i of
           Some idx \<Rightarrow> rbind (index (ao_priority_array ob) (min (unat idx - 1) (num_priorities - 1)))
             (\<lambda>v. Ok (slot_value v))
         | None \<Rightarrow> Ok (PV_Array (map slot_value (ao_priority_array ob))))
      else if p = PID_Description then Ok (PV_CharacterString (ao_description ob))
      else Err UnknownProperty)"

text \<open>\<^verbatim>\<open>priority_array[idx] = ...\<close> panics outside the array; what follows it is then not done.\<close>

definition ao_set_slot :: "instant \<Rightarrow> analog_output \<Rightarrow> nat \<Rightarrow> f32 option \<Rightarrow> unit bres \<times> analog_output" where
  "ao_set_slot now ob idx v =
     (if idx < length (ao_priority_array ob) then
        (let ob1 = ob\<lparr>ao_priority_array := (ao_priority_array ob)[idx := v]\<rparr>
         in (Ok (), ob1\<lparr>ao_present_value := ao_effective_value ob1, ao_last_changed := now\<rparr>))
      else (Panic, ob))"

definition ao_write_property :: "instant \<Rightarrow> analog_output writer" where
  "ao_write_property now ob p i value prio =
     (if p = PID_PresentValue then
        (let pri = unat (case prio of None \<Rightarrow> 16 | Some x \<Rightarrow> x) in
         if \<not> (1 \<le> pri \<and> pri \<le> 16) then (Err ValueOutOfRange, ob)
         else if pv_eq value PV_Null then ao_set_slot now ob (pri - 1) None
         else (case as_f32 value of
                 None \<Rightarrow> (Err InvalidDataType, ob)
               | Some v \<Rightarrow> ao_set_slot now ob (pri - 1) (Some v)))
      else if p = PID_OutOfService then
        set_or InvalidDataType (as_bool value) (\<lambda>v. ob\<lparr>ao_out_of_service := v\<rparr>) ob
      else if p = PID_Description then
        set_or InvalidDataType (string_of value) (\<lambda>v. ob\<lparr>ao_description := v\<rparr>) ob
      else (Err WriteAccessDenied, ob))"

definition ao_changed_since :: "analog_output \<Rightarrow> instant \<Rightarrow> property_identifier list" where
  "ao_changed_since ob since = (if since \<le> ao_last_changed ob then [PID_PresentValue] else [])"

definition ao_all_properties :: "analog_output \<Rightarrow> (property_identifier \<times> property_value) list" where
  "ao_all_properties ob =
     [(PID_ObjectIdentifier, PV_ObjectId (ao_object_id ob)),
      (PID_ObjectName, PV_CharacterString (ao_object_name ob)),
      (PID_ObjectType, PV_Enumerated (ot_code OT_AnalogOutput)),
      (PID_PresentValue, PV_Real (ao_effective_value ob)),
      (PID_OutOfService, PV_Boolean (ao_out_of_service ob)),
      (PID_Units, PV_Enumerated (units_code (ao_units ob))),
      (PID_RelinquishDefault, PV_Real (ao_relinquish_default ob)),
      (PID_Description, PV_CharacterString (ao_description ob))]"

subsection \<open>Analog Value\<close>

record analog_value =
  av_device_id :: device_id
  av_object_id :: object_id
  av_object_name :: rstring
  av_description :: rstring
  av_present_value :: f32
  av_status_flags :: status_flags
  av_event_state :: event_state
  av_reliability :: reliability
  av_out_of_service :: bool
  av_units :: engineering_units
  av_cov_increment :: f32
  av_last_changed :: instant

definition av_new ::
  "instant \<Rightarrow> device_id \<Rightarrow> u32 \<Rightarrow> rstring \<Rightarrow> engineering_units \<Rightarrow> analog_value" where
  "av_new now device inst name units =
     \<lparr>av_device_id = device,
      av_object_id = \<lparr>oid_type = OT_AnalogValue, oid_instance = inst\<rparr>,
      av_object_name = name, av_description = [], av_present_value = 0,
      av_status_flags = status_flags_default, av_event_state = ES_Normal,
      av_reliability = REL_NoFaultDetected, av_out_of_service = False, av_units = units,
      av_cov_increment = f32_tenth, av_last_changed = now\<rparr>"

definition av_read_property :: "analog_value reader" where
  "av_read_property ob p i =
     (if p = PID_ObjectIdentifier then Ok (PV_ObjectId (av_object_id ob))
      else if p = PID_ObjectName then Ok (PV_CharacterString (av_object_name ob))
      else if p = PID_ObjectType then Ok (PV_Enumerated (ot_code OT_AnalogValue))
      else if p = PID_Description then Ok (PV_CharacterString (av_description ob))
      else if p = PID_PresentValue then Ok (PV_Real (av_present_value ob))
      else if p = PID_StatusFlags then Ok (PV_BitString (status_flags_bits (av_status_flags ob)))
      else if p = PID_EventState then Ok (PV_Enumerated (event_state_code (av_event_state ob)))
      else if p = PID_Reliability then Ok (PV_Enumerated (reliability_code (av_reliability ob)))
      else if p = PID_OutOfService then Ok (PV_Boolean (av_out_of_service ob))
      else if p = PID_Units then Ok (PV_Enumerated (units_code (av_units ob)))
      else if p = PID_CovIncrement then Ok (PV_Real (av_cov_increment ob))
      else Err UnknownProperty)"

definition av_write_property :: "instant \<Rightarrow> analog_value writer" where
  "av_write_property now ob p i value prio =
     (if p = PID_PresentValue then
        set_or InvalidDataType (real_of value)
          (\<lambda>v. ob\<lparr>av_present_value := v, av_last_changed := now\<rparr>) ob
      else if p = PID_OutOfService then
        set_or InvalidDataType (boolean_of value) (\<lambda>v. ob\<lparr>av_out_of_service := v\<rparr>) ob
      else if p = PID_Description then
        set_or InvalidDataType (string_of value) (\<lambda>v. ob\<lparr>av_description := v\<rparr>) ob
      else (Err WriteAccessDenied, ob))"

definition av_changed_since :: "analog_value \<Rightarrow> instant \<Rightarrow> property_identifier list" where
  "av_changed_since ob since = (if since < av_last_changed ob then [PID_PresentValue] else [])"

definition av_all_properties :: "analog_value \<Rightarrow> (property_identifier \<times> property_value) list" where
  "av_all_properties ob =
     [(PID_ObjectIdentifier, PV_ObjectId (av_object_id ob)),
      (PID_ObjectName, PV_CharacterString (av_object_name ob)),
      (PID_ObjectType, PV_Enumerated (ot_code OT_AnalogValue)),
      (PID_Description, PV_CharacterString (av_description ob)),
      (PID_PresentValue, PV_Real (av_present_value ob)),
      (PID_StatusFlags, PV_BitString (status_flags_bits (av_status_flags ob))),
      (PID_EventState, PV_Enumerated (event_state_code (av_event_state ob))),
      (PID_Reliability, PV_Enumerated (reliability_code (av_reliability ob))),
      (PID_OutOfService, PV_Boolean (av_out_of_service ob)),
      (PID_Units, PV_Enumerated (units_code (av_units ob))),
      (PID_CovIncrement, PV_Real (av_cov_increment ob))]"

subsection \<open>The contract\<close>

interpretation ai: object_contract ai_object_id "\<lambda>sys. ai_read_property" ai_write_property
    ai_all_properties "\<lambda>_. True"
proof (unfold_locales, goal_cases)
  case (1 ob pid v sys)
  then show ?case by (auto simp: ai_all_properties_def ai_read_property_def split: option.splits)
next
  case (2 ob)
  then show ?case by (simp add: ai_all_properties_def split: option.split)
next
  case (3 ob sys pid i)
  then show ?case by (simp add: ai_read_property_def)
next
  case (4 ob now pid i v pr)
  then show ?case by (simp add: ai_write_property_def)
next
  case (5 now ob pid i v pr)
  then show ?case by (simp add: ai_write_property_def snd_set_or split: option.split)
next
  case (7 sys ob now)
  then show ?case by (simp add: ai_write_property_def ai_read_property_def as_bool_def)
qed simp

definition ao_ok :: "analog_output \<Rightarrow> bool" where
  "ao_ok ob \<longleftrightarrow> length (ao_priority_array ob) = num_priorities"

lemma ao_set_slot_simps [simp]:
  "ao_object_id (snd (ao_set_slot now ob idx v)) = ao_object_id ob"
  "ao_priority_array (snd (ao_set_slot now ob idx v)) = (ao_priority_array ob)[idx := v]"
  "ao_relinquish_default (snd (ao_set_slot now ob idx v)) = ao_relinquish_default ob"
  "ao_out_of_service (snd (ao_set_slot now ob idx v)) = ao_out_of_service ob"
  "fst (ao_set_slot now ob idx v) = (if idx < length (ao_priority_array ob) then Ok () else Panic)"
  by (simp_all add: ao_set_slot_def Let_def list_update_beyond)

lemma ao_new_ok: "ao_ok (ao_new now device inst name units)"
  by (simp add: ao_ok_def ao_new_def)

interpretation ao: object_contract ao_object_id "\<lambda>sys. ao_read_property" ao_write_property
    ao_all_properties ao_ok
proof (unfold_locales, goal_cases)
  case (1 ob pid v sys)
  then show ?case by (auto simp: ao_all_properties_def ao_read_property_def)
next
  case (2 ob)
  then show ?case by (simp add: ao_all_properties_def)
next
  case (3 ob sys pid i)
  then show ?case
    by (simp add: ao_read_property_def ao_ok_def num_priorities_def rbind_eq_Panic index_eq_Panic
        split: option.split)
next
  case (4 ob now pid i v pr)
  then show ?case
    by (auto simp: ao_write_property_def ao_ok_def num_priorities_def keeps_def Let_def set_or_def split: option.splits)
next
  case (5 now ob pid i v pr)
  then show ?case by (simp add: ao_write_property_def Let_def snd_set_or split: option.split)
next
  case (6 ob now pid i v pr)
  then show ?case by (simp add: ao_write_property_def ao_ok_def Let_def snd_set_or split: option.split)
next
  case (7 sys ob now)
  then show ?case by (simp add: ao_write_property_def ao_read_property_def as_bool_def)
qed

interpretation av: object_contract av_object_id "\<lambda>sys. av_read_property" av_write_property
    av_all_properties "\<lambda>_. True"
proof (unfold_locales, goal_cases)
  case (1 ob pid v sys)
  then show ?case by (auto simp: av_all_properties_def av_read_property_def)
next
  case (2 ob)
  then show ?case by (simp add: av_all_properties_def)
next
  case (3 ob sys pid i)
  then show ?case by (simp add: av_read_property_def)
next
  case (4 ob now pid i v pr)
  then show ?case by (simp add: av_write_property_def)
next
  case (5 now ob pid i v pr)
  then show ?case by (simp add: av_write_property_def snd_set_or split: option.split)
next
  case (7 sys ob now)
  then show ?case by (simp add: av_write_property_def av_read_property_def boolean_of_def)
qed simp

subsection \<open>Command priority\<close>

lemma first_set_append_None: "\<forall>x \<in> set xs. x = None \<Longrightarrow> first_set (xs @ ys) d = first_set ys d"
  by (induction xs) auto

lemma first_set_append_Some: "\<exists>x \<in> set xs. x \<noteq> None \<Longrightarrow> first_set (xs @ ys) d = first_set xs d"
  by (induction xs) (auto split: option.split)

text \<open>What slot \<open>idx\<close> commands counts only where every slot before it is free.\<close>

lemma first_set_update:
  assumes "idx < length xs"
  shows "first_set (xs[idx := Some v]) d =
    (if \<exists>j < idx. xs ! j \<noteq> None then first_set xs d else v)"
proof -
  have upd: "xs[idx := Some v] = take idx xs @ Some v # drop (Suc idx) xs"
    using assms by (rule upd_conv_take_nth_drop)
  have xs: "xs = take idx xs @ drop idx xs" by simp
  have iff: "(\<exists>j < idx. xs ! j \<noteq> None) \<longleftrightarrow> (\<exists>x \<in> set (take idx xs). x \<noteq> None)"
    using assms by (auto simp: in_set_conv_nth Bex_def)
  show ?thesis
  proof (cases "\<exists>x \<in> set (take idx xs). x \<noteq> None")
    case True
    then have "first_set (xs[idx := Some v]) d = first_set (take idx xs) d"
      and "first_set xs d = first_set (take idx xs) d"
      using first_set_append_Some [OF True] upd xs by metis+
    with True iff show ?thesis by simp
  next
    case False
    then have "first_set (xs[idx := Some v]) d = v"
      using first_set_append_None [of "take idx xs"] upd by simp
    with False iff show ?thesis by auto
  qed
qed

lemma first_set_all_None: "\<forall>x \<in> set xs. x = None \<Longrightarrow> first_set xs d = d"
  using first_set_append_None [of xs "[]" d] by simp

subsection \<open>Properties\<close>

text \<open>
  C35. Commands to an analog output obey the priority array: a value written at priority \<open>p\<close> is
  read back at once unless a slot of higher priority is in use, in which case the present value
  does not move; and where slot \<open>p\<close> was free, relinquishing it brings back the value that was
  read before the command.
\<close>

theorem ao_command_priority:
  assumes "ao_ok ob" and "1 \<le> unat p" and "unat p \<le> 16" and "as_f32 value = Some x"
    and "ao_write_property now ob PID_PresentValue i value (Some p) = (r, ob1)"
    and "ao_write_property now' ob1 PID_PresentValue i PV_Null (Some p) = (r', ob2)"
  shows "r = Ok () \<and> r' = Ok () \<and>
    ao_read_property ob1 PID_PresentValue j = Ok (PV_Real
      (if \<exists>q < unat p - 1. ao_priority_array ob ! q \<noteq> None then ao_effective_value ob else x)) \<and>
    (ao_priority_array ob ! (unat p - 1) = None \<longrightarrow>
      ao_read_property ob2 PID_PresentValue j = ao_read_property ob PID_PresentValue j)"
proof -
  have len: "unat p - 1 < length (ao_priority_array ob)"
    using assms(1-3) by (simp add: ao_ok_def num_priorities_def)
  have "\<not> pv_eq value PV_Null" using assms(4) by (cases "value") (simp_all add: as_f32_def)
  with assms have w: "(r, ob1) = ao_set_slot now ob (unat p - 1) (Some x)"
      "(r', ob2) = ao_set_slot now' ob1 (unat p - 1) None"
    by (auto simp: ao_write_property_def)
  note set = ao_set_slot_simps [of now ob "unat p - 1" "Some x", folded w(1)]
    ao_set_slot_simps [of now' ob1 "unat p - 1" None, folded w(2)]
  have "(ao_priority_array ob)[unat p - 1 := None] = ao_priority_array ob"
    if "ao_priority_array ob ! (unat p - 1) = None"
    using that list_update_id [of "ao_priority_array ob" "unat p - 1"] by simp
  with set len first_set_update [OF len] show ?thesis
    by (auto simp: ao_read_property_def ao_effective_value_def)
qed

theorem ao_command_priority_witness:
  "ao_read_property (snd (ao_write_property 5 (ao_new 0 1 2 [] EU_NoUnits) PID_PresentValue None
     (PV_Real 0x41A80000) (Some 8))) PID_PresentValue None = Ok (PV_Real 0x41A80000)"
proof -
  let ?ob = "ao_new 0 1 2 [] EU_NoUnits"
  obtain r ob1 where w: "ao_write_property 5 ?ob PID_PresentValue None (PV_Real 0x41A80000) (Some 8) = (r, ob1)"
    by (cases "ao_write_property 5 ?ob PID_PresentValue None (PV_Real 0x41A80000) (Some 8)")
  obtain r' ob2 where w': "ao_write_property 6 ob1 PID_PresentValue None PV_Null (Some 8) = (r', ob2)"
    by (cases "ao_write_property 6 ob1 PID_PresentValue None PV_Null (Some 8)")
  have free: "\<forall>q < num_priorities. ao_priority_array ?ob ! q = None"
    by (simp add: ao_new_def)
  have "\<not> (\<exists>q < unat (8 :: u8) - 1. ao_priority_array ?ob ! q \<noteq> None)"
    using free by (simp add: num_priorities_def)
  with ao_command_priority [OF ao_new_ok _ _ _ w w', of "0x41A80000" None] w show ?thesis
    by (auto simp: as_f32_def simp del: not_None_eq)
qed

end
