(* ===== verification/Binary.thy ===== *)
theory Binary
  imports Analog
begin

text \<open>
  \<^verbatim>\<open>binary_input.rs\<close>, \<^verbatim>\<open>binary_output.rs\<close> and \<^verbatim>\<open>binary_value.rs\<close> of \<^verbatim>\<open>crates/bacnet-object/src\<close>.
\<close>

definition bool_u32 :: "bool \<Rightarrow> u32" where
  "bool_u32 b = (if b then 1 else 0)"

subsection \<open>Binary Input\<close>

record binary_input =
  bi_device_id :: device_id
  bi_object_id :: object_id
  bi_object_name :: rstring
  bi_description :: rstring
  bi_present_value :: bool
  bi_status_flags :: status_flags
  bi_event_state :: event_state
  bi_reliability :: reliability
  bi_out_of_service :: bool
  bi_polarity :: bool
  bi_last_changed :: instant

definition bi_new :: "instant \<Rightarrow> device_id \<Rightarrow> u32 \<Rightarrow> rstring \<Rightarrow> binary_input" where
  "bi_new now device inst name =
     \<lparr>bi_device_id = device,
      bi_object_id = \<lparr>oid_type = OT_BinaryInput, oid_instance = inst\<rparr>,
      bi_object_name = name, bi_description = [], bi_present_value = False,
      bi_status_flags = status_flags_default, bi_event_state = ES_Normal,
      bi_reliability = REL_NoFaultDetected, bi_out_of_service = False, bi_polarity = False,
      bi_last_changed = now\<rparr>"

definition bi_read_property :: "binary_input reader" where
  "bi_read_property ob p i =
     (if p = PID_ObjectIdentifier then Ok (PV_ObjectId (bi_object_id ob))
      else if p = PID_ObjectName then Ok (PV_CharacterString (bi_object_name ob))
      else if p = PID_ObjectType then Ok (PV_Enumerated (ot_code OT_BinaryInput))
      else if p = PID_PresentValue then Ok (PV_Enumerated (bool_u32 (bi_present_value ob)))
      else if p = PID_StatusFlags then Ok (PV_BitString (status_flags_bits (bi_status_flags ob)))
      else if p = PID_EventState then Ok (PV_Enumerated (event_state_code (bi_event_state ob)))
      else if p = PID_OutOfService then Ok (PV_Boolean (bi_out_of_service ob))
      else if p = PID_Description then Ok (PV_CharacterString (bi_description ob))
      else Err UnknownProperty)"

definition bi_write_property :: "instant \<Rightarrow> binary_input writer" where
  "bi_write_property now ob p i value prio =
     (if p = PID_OutOfService then
        set_or InvalidDataType (as_bool value) (\<lambda>v. ob\<lparr>bi_out_of_service := v\<rparr>) ob
      else if p = PID_PresentValue \<and> bi_out_of_service ob then
        set_or InvalidDataType (as_bool value)
          (\<lambda>v. ob\<lparr>bi_present_value := v, bi_last_changed := now\<rparr>) ob
      else if p = PID_PresentValue then (Err WriteAccessDenied, ob)
      else (Err WriteAccessDenied, ob))"

definition bi_changed_since :: "binary_input \<Rightarrow> instant \<Rightarrow> property_identifier list" where
  "bi_changed_since ob since = (if since \<le> bi_last_changed ob then [PID_PresentValue] else [])"

definition bi_all_properties :: "binary_input \<Rightarrow> (property_identifier \<times> property_value) list" where
  "bi_all_properties ob =
     [(PID_ObjectIdentifier, PV_ObjectId (bi_object_id ob)),
      (PID_ObjectName, PV_CharacterString (bi_object_name ob)),
      (PID_ObjectType, PV_Enumerated (ot_code OT_BinaryInput)),
      (PID_PresentValue, PV_Enumerated (bool_u32 (bi_present_value ob))),
      (PID_OutOfService, PV_Boolean (bi_out_of_service ob)),
      (PID_Description, PV_CharacterString (bi_description ob))]"

subsection \<open>Binary Output\<close>

datatype binary_pv = BPV_Inactive | BPV_Active

record binary_output =
  bo_device_id :: device_id
  bo_object_id :: object_id
  bo_object_name :: rstring
  bo_description :: rstring
  bo_out_of_service :: bool
  bo_status_flags :: status_flags
  bo_event_state :: event_state
  bo_reliability :: reliability
  bo_relinquish_default :: binary_pv
  bo_priority_array :: "bool option list"
  bo_last_changed :: instant

definition bo_new :: "instant \<Rightarrow> device_id \<Rightarrow> u32 \<Rightarrow> rstring \<Rightarrow> binary_output" where
  "bo_new now device inst name =
     \<lparr>bo_device_id = device,
      bo_object_id = \<lparr>oid_type = OT_BinaryOutput, oid_instance = inst\<rparr>,
      bo_object_name = name, bo_description = [], bo_out_of_service = False,
      bo_status_flags = status_flags_default, bo_event_state = ES_Normal,
      bo_reliability = REL_NoFaultDetected, bo_relinquish_default = BPV_Inactive,
      bo_priority_array = replicate 16 None, bo_last_changed = now\<rparr>"

definition bo_effective_value :: "binary_output \<Rightarrow> bool" where
  "bo_effective_value ob =
     first_set (bo_priority_array ob) (bo_relinquish_default ob = BPV_Active)"

definition bo_read_property :: "binary_output reader" where
  "bo_read_property ob p i =
     (if p = PID_ObjectIdentifier then Ok (PV_ObjectId (bo_object_id ob))
      else if p = PID_ObjectName then Ok (PV_CharacterString (bo_object_name ob))
      else if p = PID_ObjectType then Ok (PV_Enumerated (ot_code OT_BinaryOutput))
      else if p = PID_Description then Ok (PV_CharacterString (bo_description ob))
      else if p = PID_PresentValue then Ok (PV_Enumerated (bool_u32 (bo_effective_value ob)))
      else if p = PID_StatusFlags then Ok (PV_BitString (status_flags_bits (bo_status_flags ob)))
      else if p = PID_EventState then Ok (PV_Enumerated (event_state_code (bo_event_state ob)))
      else if p = PID_Reliability then Ok (PV_Enumerated (reliability_code (bo_reliability ob)))
      else if p = PID_OutOfService then Ok (PV_Boolean (bo_out_of_service ob))
      else Err UnknownProperty)"

definition bo_set_slot :: "instant \<Rightarrow> binary_output \<Rightarrow> nat \<Rightarrow> bool option \<Rightarrow> unit bres \<times> binary_output" where
  "bo_set_slot now ob pri v =
     (if pri < length (bo_priority_array ob) then
        (Ok (), ob\<lparr>bo_priority_array := (bo_priority_array ob)[pri := v], bo_last_changed := now\<rparr>)
      else (Panic, ob))"

text \<open>\<^verbatim>\<open>saturating_sub(1).min(15)\<close>: priority 0 is taken as 1, everything above 16 as 16.\<close>

definition bo_write_property :: "instant \<Rightarrow> binary_output writer" where
  "bo_write_property now ob p i value prio =
     (if p = PID_PresentValue then
        (let pri = min (unat (case prio of None \<Rightarrow> 16 | Some x \<Rightarrow> x) - 1) 15 in
         case value of
           PV_Null \<Rightarrow> bo_set_slot now ob pri None
         | PV_Enumerated v \<Rightarrow> bo_set_slot now ob pri (Some (v \<noteq> 0))
         | PV_Unsigned v \<Rightarrow> bo_set_slot now ob pri (Some (v \<noteq> 0))
         | PV_Boolean v \<Rightarrow> bo_set_slot now ob pri (Some v)
         | _ \<Rightarrow> (Err InvalidDataType, ob))
      else if p = PID_OutOfService then
        set_or InvalidDataType (boolean_of value) (\<lambda>v. ob\<lparr>bo_out_of_service := v\<rparr>) ob
      else (Err WriteAccessDenied, ob))"

definition bo_changed_since :: "binary_output \<Rightarrow> instant \<Rightarrow> property_identifier list" where
  "bo_changed_since ob since = (if since < bo_last_changed ob then [PID_PresentValue] else [])"

definition bo_all_properties :: "binary_output \<Rightarrow> (property_identifier \<times> property_value) list" where
  "bo_all_properties ob =
     [(PID_ObjectIdentifier, PV_ObjectId (bo_object_id ob)),
      (PID_ObjectName, PV_CharacterString (bo_object_name ob)),
      (PID_ObjectType, PV_Enumerated (ot_code OT_BinaryOutput)),
      (PID_Description, PV_CharacterString (bo_description ob)),
      (PID_PresentValue, PV_Enumerated (bool_u32 (bo_effective_value ob))),
      (PID_StatusFlags, PV_BitString (status_flags_bits (bo_status_flags ob))),
      (PID_EventState, PV_Enumerated (event_state_code (bo_event_state ob))),
      (PID_Reliability, PV_Enumerated (reliability_code (bo_reliability ob))),
      (PID_OutOfService, PV_Boolean (bo_out_of_service ob))]"

subsection \<open>Binary Value\<close>

record binary_value =
  bv_device_id :: device_id
  bv_object_id :: object_id
  bv_object_name :: rstring
  bv_description :: rstring
  bv_present_value :: bool
  bv_out_of_service :: bool
  bv_status_flags :: status_flags
  bv_event_state :: event_state
  bv_reliability :: reliability
  bv_last_changed :: instant

definition bv_new :: "instant \<Rightarrow> device_id \<Rightarrow> u32 \<Rightarrow> rstring \<Rightarrow> binary_value" where
  "bv_new now device inst name =
     \<lparr>bv_device_id = device,
      bv_object_id = \<lparr>oid_type = OT_BinaryValue, oid_instance = inst\<rparr>,
      bv_object_name = name, bv_description = [], bv_present_value = False,
      bv_out_of_service = False, bv_status_flags = status_flags_default,
      bv_event_state = ES_Normal, bv_reliability = REL_NoFaultDetected, bv_last_changed = now\<rparr>"

definition bv_read_property :: "binary_value reader" where
  "bv_read_property ob p i =
     (if p = PID_ObjectIdentifier then Ok (PV_ObjectId (bv_object_id ob))
      else if p = PID_ObjectName then Ok (PV_CharacterString (bv_object_name ob))
      else if p = PID_ObjectType then Ok (PV_Enumerated (ot_code OT_BinaryValue))
      else if p = PID_Description then Ok (PV_CharacterString (bv_description ob))
      else if p = PID_PresentValue then Ok (PV_Boolean (bv_present_value ob))
      else if p = PID_StatusFlags then Ok (PV_BitString (status_flags_bits (bv_status_flags ob)))
      else if p = PID_EventState then Ok (PV_Enumerated (event_state_code (bv_event_state ob)))
      else if p = PID_Reliability then Ok (PV_Enumerated (reliability_code (bv_reliability ob)))
      else if p = PID_OutOfService then Ok (PV_Boolean (bv_out_of_service ob))
      else Err UnknownProperty)"

definition bv_set :: "instant \<Rightarrow> binary_value \<Rightarrow> bool \<Rightarrow> unit bres \<times> binary_value" where
  "bv_set now ob v = (Ok (), ob\<lparr>bv_present_value := v, bv_last_changed := now\<rparr>)"

definition bv_write_property :: "instant \<Rightarrow> binary_value writer" where
  "bv_write_property now ob p i value prio =
     (if p = PID_PresentValue then
        (case value of
           PV_Boolean v \<Rightarrow> bv_set now ob v
         | PV_Enumerated v \<Rightarrow> bv_set now ob (v \<noteq> 0)
         | PV_Unsigned v \<Rightarrow> bv_set now ob (v \<noteq> 0)
         | _ \<Rightarrow> (Err InvalidDataType, ob))
      else if p = PID_OutOfService then
        set_or InvalidDataType (boolean_of value) (\<lambda>v. ob\<lparr>bv_out_of_service := v\<rparr>) ob
      else (Err WriteAccessDenied, ob))"

definition bv_changed_since :: "binary_value \<Rightarrow> instant \<Rightarrow> property_identifier list" where
  "bv_changed_since ob since = (if since < bv_last_changed ob then [PID_PresentValue] else [])"

definition bv_all_properties :: "binary_value \<Rightarrow> (property_identifier \<times> property_value) list" where
  "bv_all_properties ob =
     [(PID_ObjectIdentifier, PV_ObjectId (bv_object_id ob)),
      (PID_ObjectName, PV_CharacterString (bv_object_name ob)),
      (PID_ObjectType, PV_Enumerated (ot_code OT_BinaryValue)),
      (PID_Description, PV_CharacterString (bv_description ob)),
      (PID_PresentValue, PV_Boolean (bv_present_value ob)),
      (PID_StatusFlags, PV_BitString (status_flags_bits (bv_status_flags ob))),
      (PID_EventState, PV_Enumerated (event_state_code (bv_event_state ob))),
      (PID_Reliability, PV_Enumerated (reliability_code (bv_reliability ob))),
      (PID_OutOfService, PV_Boolean (bv_out_of_service ob))]"

subsection \<open>The contract\<close>

interpretation bi: object_contract bi_object_id "\<lambda>sys. bi_read_property" bi_write_property
    bi_all_properties "\<lambda>_. True"
proof (unfold_locales, goal_cases)
  case (1 ob pid v sys)
  then show ?case by (auto simp: bi_all_properties_def bi_read_property_def)
next
  case (2 ob)
  then show ?case by (simp add: bi_all_properties_def)
next
  case (3 ob sys pid i)
  then show ?case by (simp add: bi_read_property_def)
next
  case (4 ob now pid i v pr)
  then show ?case by (simp add: bi_write_property_def)
next
  case (5 now ob pid i v pr)
  then show ?case by (simp add: bi_write_property_def snd_set_or split: option.split)
next
  case (7 sys ob now)
  then show ?case by (simp add: bi_write_property_def bi_read_property_def as_bool_def)
qed simp

definition bo_ok :: "binary_output \<Rightarrow> bool" where
  "bo_ok ob \<longleftrightarrow> length (bo_priority_array ob) = 16"

lemma bo_new_ok: "bo_ok (bo_new now device inst name)"
  by (simp add: bo_ok_def bo_new_def)

lemma bo_set_slot_simps [simp]:
  "bo_object_id (snd (bo_set_slot now ob idx v)) = bo_object_id ob"
  "bo_priority_array (snd (bo_set_slot now ob idx v)) = (bo_priority_array ob)[idx := v]"
  "bo_relinquish_default (snd (bo_set_slot now ob idx v)) = bo_relinquish_default ob"
  "bo_out_of_service (snd (bo_set_slot now ob idx v)) = bo_out_of_service ob"
  "fst (bo_set_slot now ob idx v) = (if idx < length (bo_priority_array ob) then Ok () else Panic)"
  by (simp_all add: bo_set_slot_def list_update_beyond)

lemma bo_set_slot_keeps: "idx < length (bo_priority_array ob) \<Longrightarrow> keeps ob (bo_set_slot now ob idx v)"
  by (simp add: keeps_def)

interpretation bo: object_contract bo_object_id "\<lambda>sys. bo_read_property" bo_write_property
    bo_all_properties bo_ok
proof (unfold_locales, goal_cases)
  case (1 ob pid v sys)
  then show ?case by (auto simp: bo_all_properties_def bo_read_property_def)
next
  case (2 ob)
  then show ?case by (simp add: bo_all_properties_def)
next
  case (3 ob sys pid i)
  then show ?case by (simp add: bo_read_property_def)
next
  case (4 ob now pid i v pr)
  then show ?case by (simp add: bo_write_property_def bo_ok_def Let_def bo_set_slot_keeps split: property_value.split)
next
  case (5 now ob pid i v pr)
  then show ?case
    by (simp add: bo_write_property_def Let_def snd_set_or split: option.split property_value.split)
next
  case (6 ob now pid i v pr)
  then show ?case
    by (simp add: bo_write_property_def bo_ok_def Let_def snd_set_or split: option.split property_value.split)
next
  case (7 sys ob now)
  then show ?case by (simp add: bo_write_property_def bo_read_property_def boolean_of_def)
qed

interpretation bv: object_contract bv_object_id "\<lambda>sys. bv_read_property" bv_write_property
    bv_all_properties "\<lambda>_. True"
proof (unfold_locales, goal_cases)
  case (1 ob pid v sys)
  then show ?case by (auto simp: bv_all_properties_def bv_read_property_def)
next
  case (2 ob)
  then show ?case by (simp add: bv_all_properties_def)
next
  case (3 ob sys pid i)
  then show ?case by (simp add: bv_read_property_def)
next
  case (4 ob now pid i v pr)
  then show ?case by (simp add: bv_write_property_def bv_set_def split: property_value.split)
next
  case (5 now ob pid i v pr)
  then show ?case
    by (simp add: bv_write_property_def bv_set_def snd_set_or split: option.split property_value.split)
next
  case (7 sys ob now)
  then show ?case by (simp add: bv_write_property_def bv_read_property_def boolean_of_def)
qed simp

subsection \<open>Properties\<close>

text \<open>
  Commands to a binary output obey its 16 priorities as well, but here a priority outside
  1..16 is not refused: 0 commands slot 1, which nothing outranks, and everything above 16
  commands slot 16.
\<close>

theorem bo_command_priority:
  assumes "bo_ok ob" and "slot = min (unat p - 1) 15"
  shows "let ob1 = snd (bo_write_property now ob PID_PresentValue i (PV_Boolean b) (Some p)) in
    bo_read_property ob1 PID_PresentValue j = Ok (PV_Enumerated (bool_u32
      (if \<exists>q < slot. bo_priority_array ob ! q \<noteq> None then bo_effective_value ob else b)))"
proof -
  have len: "slot < length (bo_priority_array ob)"
    using assms by (simp add: bo_ok_def)
  show ?thesis
    using first_set_update [OF len] assms(2)
    by (auto simp: bo_read_property_def bo_write_property_def bo_effective_value_def Let_def)
qed

theorem bo_command_priority_witness:
  "bo_read_property (snd (bo_write_property 9 (bo_new 0 1 2 []) PID_PresentValue None (PV_Boolean True)
     (Some 0))) PID_PresentValue None = Ok (PV_Enumerated 1)"
  using bo_command_priority [of "bo_new 0 1 2 []" 0 0 9 None True None]
  by (simp add: bo_new_ok bool_u32_def)

end
