(* ===== verification/State_Objects.thy ===== *)
theory State_Objects
  imports Object_Base
begin

text \<open>
  \<^verbatim>\<open>multistate.rs\<close>, \<^verbatim>\<open>notification_class.rs\<close> and \<^verbatim>\<open>trend_log.rs\<close> of
  \<^verbatim>\<open>crates/bacnet-object/src\<close>.
\<close>

subsection \<open>Multi-State Input\<close>

text \<open>\<^verbatim>\<open>format!("State {i}")\<close>: the ASCII text and the decimal digits.\<close>

fun decimal :: "nat \<Rightarrow> bytes" where
  "decimal n = (if n < 10 then [of_nat (48 + n)] else decimal (n div 10) @ [of_nat (48 + n mod 10)])"

declare decimal.simps [simp del]

definition state_name :: "nat \<Rightarrow> rstring" where
  "state_name i = [0x53, 0x74, 0x61, 0x74, 0x65, 0x20] @ decimal i"

record multi_state_input =
  msi_device_id :: device_id
  msi_object_id :: object_id
  msi_object_name :: rstring
  msi_description :: rstring
  msi_present_value :: u32
  msi_number_of_states :: u32
  msi_state_text :: "rstring list"
  msi_out_of_service :: bool
  msi_status_flags :: status_flags
  msi_event_state :: event_state
  msi_reliability :: reliability
  msi_last_changed :: instant

definition msi_new :: "instant \<Rightarrow> device_id \<Rightarrow> u32 \<Rightarrow> rstring \<Rightarrow> u32 \<Rightarrow> multi_state_input" where
  "msi_new now device inst name number_of_states =
     \<lparr>msi_device_id = device,
      msi_object_id = \<lparr>oid_type = OT_MultiStateInput, oid_instance = inst\<rparr>,
      msi_object_name = name, msi_description = [], msi_present_value = 1,
      msi_number_of_states = number_of_states,
      msi_state_text = map state_name [1..<unat number_of_states + 1],
      msi_out_of_service = False, msi_status_flags = status_flags_default,
      msi_event_state = ES_Normal, msi_reliability = REL_NoFaultDetected,
      msi_last_changed = now\<rparr>"

definition msi_read_property :: "multi_state_input reader" where
  "msi_read_property ob p i =
     (if p = PID_ObjectIdentifier then Ok (PV_ObjectId (msi_object_id ob))
      else if p = PID_ObjectName then Ok (PV_CharacterString (msi_object_name ob))
      else if p = PID_ObjectType then Ok (PV_Enumerated (ot_code OT_MultiStateInput))
      else if p = PID_Description then Ok (PV_CharacterString (msi_description ob))
      else if p = PID_PresentValue then Ok (PV_Unsigned (msi_present_value ob))
      else if p = PID_NumberOfStates then Ok (PV_Unsigned (msi_number_of_states ob))
      else if p = PID_StatusFlags then Ok (PV_BitString (status_flags_bits (msi_status_flags ob)))
      else if p = PID_EventState then Ok (PV_Enumerated (event_state_code (msi_event_state ob)))
      else if p = PID_Reliability then Ok (PV_Enumerated (reliability_code (msi_reliability ob)))
      else if p = PID_OutOfService then Ok (PV_Boolean (msi_out_of_service ob))
      else Err UnknownProperty)"

definition msi_write_property :: "instant \<Rightarrow> multi_state_input writer" where
  "msi_write_property now ob p i value prio =
     (if p = PID_OutOfService then
        set_or InvalidDataType (boolean_of value) (\<lambda>v. ob\<lparr>msi_out_of_service := v\<rparr>) ob
      else if p = PID_PresentValue \<and> msi_out_of_service ob then
        (case unsigned_of value of
           Some v \<Rightarrow>
             (if 1 \<le> v \<and> v \<le> msi_number_of_states ob
              then (Ok (), ob\<lparr>msi_present_value := v, msi_last_changed := now\<rparr>)
              else (Err ValueOutOfRange, ob))
         | None \<Rightarrow> (Err InvalidDataType, ob))
      else (Err WriteAccessDenied, ob))"

definition msi_changed_since :: "multi_state_input \<Rightarrow> instant \<Rightarrow> property_identifier list" where
  "msi_changed_since ob since = (if since < msi_last_changed ob then [PID_PresentValue] else [])"

definition msi_all_properties :: "multi_state_input \<Rightarrow> (property_identifier \<times> property_value) list" where
  "msi_all_properties ob =
     [(PID_ObjectIdentifier, PV_ObjectId (msi_object_id ob)),
      (PID_ObjectName, PV_CharacterString (msi_object_name ob)),
      (PID_ObjectType, PV_Enumerated (ot_code OT_MultiStateInput)),
      (PID_Description, PV_CharacterString (msi_description ob)),
      (PID_PresentValue, PV_Unsigned (msi_present_value ob)),
      (PID_NumberOfStates, PV_Unsigned (msi_number_of_states ob)),
      (PID_StatusFlags, PV_BitString (status_flags_bits (msi_status_flags ob))),
      (PID_EventState, PV_Enumerated (event_state_code (msi_event_state ob))),
      (PID_Reliability, PV_Enumerated (reliability_code (msi_reliability ob))),
      (PID_OutOfService, PV_Boolean (msi_out_of_service ob))]"

text \<open>The state number stays among the states, where there is one at all.\<close>

definition msi_ok :: "multi_state_input \<Rightarrow> bool" where
  "msi_ok ob \<longleftrightarrow> msi_number_of_states ob = 0 \<or>
     1 \<le> msi_present_value ob \<and> msi_present_value ob \<le> msi_number_of_states ob"

lemma msi_new_ok: "msi_ok (msi_new now device inst name n)"
  by (simp add: msi_ok_def msi_new_def word_le_nat_alt unat_gt_0 Suc_le_eq)

interpretation msi: object_contract msi_object_id "\<lambda>sys. msi_read_property" msi_write_property
    msi_all_properties msi_ok
proof (unfold_locales, goal_cases)
  case (1 ob pid v sys)
  then show ?case by (auto simp: msi_all_properties_def msi_read_property_def)
next
  case (2 ob)
  then show ?case by (simp add: msi_all_properties_def)
next
  case (3 ob sys pid i)
  then show ?case by (simp add: msi_read_property_def)
next
  case (4 ob now pid i v pr)
  then show ?case by (simp add: msi_write_property_def split: option.split)
next
  case (5 now ob pid i v pr)
  then show ?case by (simp add: msi_write_property_def snd_set_or split: option.split)
next
  case (6 ob now pid i v pr)
  then show ?case
    by (simp add: msi_write_property_def msi_ok_def snd_set_or split: option.split)
next
  case (7 sys ob now)
  then show ?case by (simp add: msi_write_property_def msi_read_property_def boolean_of_def)
qed

subsection \<open>Notification Class\<close>

record notification_class =
  nc_device_id :: device_id
  nc_object_id :: object_id
  nc_object_name :: rstring
  nc_description :: rstring
  nc_priority :: "u8 list"
  nc_ack_required :: "bool list"
  nc_notification_class :: u32

definition nc_new :: "device_id \<Rightarrow> u32 \<Rightarrow> rstring \<Rightarrow> notification_class" where
  "nc_new device inst name =
     \<lparr>nc_device_id = device,
      nc_object_id = \<lparr>oid_type = OT_NotificationClass, oid_instance = inst\<rparr>,
      nc_object_name = name, nc_description = [], nc_priority = [111, 111, 111],
      nc_ack_required = [False, False, False], nc_notification_class = inst\<rparr>"

definition nc_read_property :: "notification_class reader" where
  "nc_read_property ob p i =
     (if p = PID_ObjectIdentifier then Ok (PV_ObjectId (nc_object_id ob))
      else if p = PID_ObjectName then Ok (PV_CharacterString (nc_object_name ob))
      else if p = PID_ObjectType then Ok (PV_Enumerated (ot_code OT_NotificationClass))
      else if p = PID_Description then Ok (PV_CharacterString (nc_description ob))
      else if p = PID_NotificationClass then Ok (PV_Unsigned (nc_notification_class ob))
      else Err UnknownProperty)"

definition nc_write_property :: "instant \<Rightarrow> notification_class writer" where
  "nc_write_property now ob p i value prio = (Err WriteAccessDenied, ob)"

definition nc_all_properties :: "notification_class \<Rightarrow> (property_identifier \<times> property_value) list" where
  "nc_all_properties ob =
     [(PID_ObjectIdentifier, PV_ObjectId (nc_object_id ob)),
      (PID_ObjectName, PV_CharacterString (nc_object_name ob)),
      (PID_ObjectType, PV_Enumerated (ot_code OT_NotificationClass)),
      (PID_Description, PV_CharacterString (nc_description ob)),
      (PID_NotificationClass, PV_Unsigned (nc_notification_class ob))]"

interpretation nc: object_contract nc_object_id "\<lambda>sys. nc_read_property" nc_write_property
    nc_all_properties "\<lambda>_. True"
proof (unfold_locales, goal_cases)
  case (1 ob pid v sys)
  then show ?case by (auto simp: nc_all_properties_def nc_read_property_def)
next
  case (2 ob)
  then show ?case by (simp add: nc_all_properties_def)
next
  case (3 ob sys pid i)
  then show ?case by (simp add: nc_read_property_def)
qed (simp_all add: nc_write_property_def)

subsection \<open>Trend Log\<close>

record trend_log_entry =
  tle_timestamp :: system_time
  tle_value :: property_value

record trend_log =
  tl_device_id :: device_id
  tl_object_id :: object_id
  tl_object_name :: rstring
  tl_description :: rstring
  tl_enable :: bool
  tl_log_interval :: duration
  tl_buffer_size :: nat
  tl_log_buffer :: "trend_log_entry list"
  tl_monitored_object :: "object_id option"
  tl_monitored_property :: "property_identifier option"
  tl_record_count :: u32
  tl_total_record_count :: u32
  tl_out_of_service :: bool
  tl_last_sample :: instant

definition secs :: "nat \<Rightarrow> duration" where
  "secs n = n * 1000000000"

definition as_secs :: "duration \<Rightarrow> nat" where
  "as_secs d = d div 1000000000"

definition tl_new :: "instant \<Rightarrow> device_id \<Rightarrow> u32 \<Rightarrow> rstring \<Rightarrow> trend_log" where
  "tl_new now device inst name =
     \<lparr>tl_device_id = device,
      tl_object_id = \<lparr>oid_type = OT_TrendLog, oid_instance = inst\<rparr>,
      tl_object_name = name, tl_description = [], tl_enable = True, tl_log_interval = secs 60,
      tl_buffer_size = 1000, tl_log_buffer = [], tl_monitored_object = None,
      tl_monitored_property = None, tl_record_count = 0, tl_total_record_count = 0,
      tl_out_of_service = False, tl_last_sample = now\<rparr>"

definition sat_succ_u32 :: "u32 \<Rightarrow> u32" where
  "sat_succ_u32 w = (if w = - 1 then - 1 else w + 1)"

text \<open>\<^verbatim>\<open>pop_front\<close> of an empty deque removes nothing.\<close>

definition tl_record :: "system_time \<Rightarrow> property_value \<Rightarrow> trend_log \<Rightarrow> trend_log" where
  "tl_record sys value ob =
     (if \<not> tl_enable ob \<or> tl_out_of_service ob then ob
      else
        (let buf = (if tl_buffer_size ob \<le> length (tl_log_buffer ob)
                    then drop 1 (tl_log_buffer ob) else tl_log_buffer ob);
             buf = buf @ [\<lparr>tle_timestamp = sys, tle_value = value\<rparr>]
         in ob\<lparr>tl_log_buffer := buf, tl_record_count := of_nat (length buf),
               tl_total_record_count := sat_succ_u32 (tl_total_record_count ob)\<rparr>))"

definition tl_read_property :: "trend_log reader" where
  "tl_read_property ob p i =
     (if p = PID_ObjectIdentifier then Ok (PV_ObjectId (tl_object_id ob))
      else if p = PID_ObjectName then Ok (PV_CharacterString (tl_object_name ob))
      else if p = PID_ObjectType then Ok (PV_Enumerated (ot_code OT_TrendLog))
      else if p = PID_Description then Ok (PV_CharacterString (tl_description ob))
      else if p = PID_Enable then Ok (PV_Boolean (tl_enable ob))
      else if p = PID_LogInterval then Ok (PV_Unsigned (of_nat (as_secs (tl_log_interval ob))))
      else if p = PID_BufferSize then Ok (PV_Unsigned (of_nat (tl_buffer_size ob)))
      else if p = PID_RecordCount then Ok (PV_Unsigned (tl_record_count ob))
      else if p = PID_TotalRecordCount then Ok (PV_Unsigned (tl_total_record_count ob))
      else if p = PID_OutOfService then Ok (PV_Boolean (tl_out_of_service ob))
      else if p = PID_StopWhenFull then Ok (PV_Boolean False)
      else Err UnknownProperty)"

definition tl_write_property :: "instant \<Rightarrow> trend_log writer" where
  "tl_write_property now ob p i value prio =
     (if p = PID_Enable then
        set_or InvalidDataType (boolean_of value) (\<lambda>v. ob\<lparr>tl_enable := v\<rparr>) ob
      else if p = PID_OutOfService then
        set_or InvalidDataType (boolean_of value) (\<lambda>v. ob\<lparr>tl_out_of_service := v\<rparr>) ob
      else if p = PID_RecordCount then
        (if unsigned_of value = Some 0
         then (Ok (), ob\<lparr>tl_log_buffer := [], tl_record_count := 0\<rparr>)
         else (Ok (), ob))
      else if p = PID_LogInterval then
        set_or InvalidDataType (unsigned_of value)
          (\<lambda>v. ob\<lparr>tl_log_interval := secs (unat v)\<rparr>) ob
      else (Err WriteAccessDenied, ob))"

definition tl_tick :: "instant \<Rightarrow> trend_log \<Rightarrow> trend_log" where
  "tl_tick now ob =
     (if \<not> tl_enable ob \<or> tl_out_of_service ob then ob
      else if tl_log_interval ob \<le> now - tl_last_sample ob then ob\<lparr>tl_last_sample := now\<rparr>
      else ob)"

definition tl_all_properties :: "trend_log \<Rightarrow> (property_identifier \<times> property_value) list" where
  "tl_all_properties ob =
     [(PID_ObjectIdentifier, PV_ObjectId (tl_object_id ob)),
      (PID_ObjectName, PV_CharacterString (tl_object_name ob)),
      (PID_ObjectType, PV_Enumerated (ot_code OT_TrendLog)),
      (PID_Description, PV_CharacterString (tl_description ob)),
      (PID_Enable, PV_Boolean (tl_enable ob)),
      (PID_BufferSize, PV_Unsigned (of_nat (tl_buffer_size ob))),
      (PID_LogInterval, PV_Unsigned (of_nat (as_secs (tl_log_interval ob)))),
      (PID_RecordCount, PV_Unsigned (tl_record_count ob)),
      (PID_TotalRecordCount, PV_Unsigned (tl_total_record_count ob)),
      (PID_OutOfService, PV_Boolean (tl_out_of_service ob)),
      (PID_StopWhenFull, PV_Boolean False)]"

definition tl_ok :: "trend_log \<Rightarrow> bool" where
  "tl_ok ob \<longleftrightarrow> tl_record_count ob = of_nat (length (tl_log_buffer ob))
     \<and> length (tl_log_buffer ob) \<le> max 1 (tl_buffer_size ob)"

lemma tl_new_ok: "tl_ok (tl_new now device inst name)"
  by (simp add: tl_ok_def tl_new_def)

lemma tl_record_ok: "tl_ok ob \<Longrightarrow> tl_ok (tl_record sys v ob)"
  by (auto simp: tl_ok_def tl_record_def Let_def)

lemma tl_tick_ok: "tl_ok ob \<Longrightarrow> tl_ok (tl_tick now ob)"
  by (simp add: tl_ok_def tl_tick_def)

interpretation tl: object_contract tl_object_id "\<lambda>sys. tl_read_property" tl_write_property
    tl_all_properties tl_ok
proof (unfold_locales, goal_cases)
  case (1 ob pid v sys)
  then show ?case by (auto simp: tl_all_properties_def tl_read_property_def)
next
  case (2 ob)
  then show ?case by (simp add: tl_all_properties_def)
next
  case (3 ob sys pid i)
  then show ?case by (simp add: tl_read_property_def)
next
  case (4 ob now pid i v pr)
  then show ?case by (simp add: tl_write_property_def)
next
  case (5 now ob pid i v pr)
  then show ?case by (simp add: tl_write_property_def snd_set_or split: option.split)
next
  case (6 ob now pid i v pr)
  then show ?case by (simp add: tl_write_property_def tl_ok_def snd_set_or split: option.split)
next
  case (7 sys ob now)
  then show ?case by (simp add: tl_write_property_def tl_read_property_def boolean_of_def)
qed

text \<open>The buffer is the window of the last \<open>buffer_size\<close> records.\<close>

definition last_n :: "nat \<Rightarrow> 'a list \<Rightarrow> 'a list" where
  "last_n n xs = drop (length xs - n) xs"

lemma last_n_append: "last_n n (last_n n xs @ ys) = last_n n (xs @ ys)"
proof (cases "length xs \<le> n")
  case True
  then show ?thesis by (simp add: last_n_def)
next
  case False
  let ?k = "length xs - n"
  have "drop ?k xs @ ys = drop ?k (xs @ ys)" using False by simp
  moreover have "last_n n (drop ?k (xs @ ys)) = last_n n (xs @ ys)"
    using False by (simp only: last_n_def drop_drop length_drop) (simp add: algebra_simps)
  ultimately show ?thesis by (simp add: last_n_def)
qed

lemma tl_record_buffer:
  assumes "tl_enable ob" and "\<not> tl_out_of_service ob" and "0 < tl_buffer_size ob"
    and "length (tl_log_buffer ob) \<le> tl_buffer_size ob"
  shows "tl_log_buffer (tl_record sys v ob) =
    last_n (tl_buffer_size ob) (tl_log_buffer ob @ [\<lparr>tle_timestamp = sys, tle_value = v\<rparr>])"
  using assms by (auto simp: tl_record_def Let_def last_n_def)

lemma tl_record_fields [simp]:
  "tl_enable (tl_record sys v ob) = tl_enable ob"
  "tl_out_of_service (tl_record sys v ob) = tl_out_of_service ob"
  "tl_buffer_size (tl_record sys v ob) = tl_buffer_size ob"
  "tl_object_id (tl_record sys v ob) = tl_object_id ob"
  by (simp_all add: tl_record_def Let_def)

text \<open>A run of records.\<close>

definition tl_records :: "(system_time \<times> property_value) list \<Rightarrow> trend_log \<Rightarrow> trend_log" where
  "tl_records rs ob = foldl (\<lambda>ob (t, v). tl_record t v ob) ob rs"

definition entry :: "system_time \<times> property_value \<Rightarrow> trend_log_entry" where
  "entry r = \<lparr>tle_timestamp = fst r, tle_value = snd r\<rparr>"

lemma tl_records_buffer:
  assumes "tl_enable ob" and "\<not> tl_out_of_service ob" and "0 < tl_buffer_size ob"
    and "length (tl_log_buffer ob) \<le> tl_buffer_size ob"
  shows "tl_log_buffer (tl_records rs ob) =
    last_n (tl_buffer_size ob) (tl_log_buffer ob @ map entry rs)"
  using assms
proof (induction rs arbitrary: ob)
  case Nil
  then show ?case by (simp add: tl_records_def last_n_def)
next
  case (Cons r rs)
  obtain t v where r: "r = (t, v)" by (cases r)
  let ?b = "tl_record t v ob"
  have b: "tl_log_buffer ?b = last_n (tl_buffer_size ob) (tl_log_buffer ob @ [entry r])"
    using tl_record_buffer [of ob t v] Cons.prems by (simp add: r entry_def)
  then have "length (tl_log_buffer ?b) \<le> tl_buffer_size ?b" by (simp add: last_n_def)
  with Cons.IH [of ?b] Cons.prems
  have "tl_log_buffer (tl_records rs ?b) = last_n (tl_buffer_size ob) (tl_log_buffer ?b @ map entry rs)"
    by simp
  also have "\<dots> = last_n (tl_buffer_size ob) (tl_log_buffer ob @ map entry (r # rs))"
    unfolding b by (simp add: last_n_append)
  finally show ?case by (simp add: tl_records_def r)
qed

subsection \<open>Properties\<close>

definition msi_writes ::
  "multi_state_input \<Rightarrow> (instant \<times> property_identifier \<times> u32 option \<times> property_value \<times> u8 option) list \<Rightarrow>
   multi_state_input" where
  "msi_writes ob ws = foldl (\<lambda>ob (now, pid, i, v, pr). snd (msi_write_property now ob pid i v pr)) ob ws"

lemma msi_writes_keep:
  "msi_ok ob \<Longrightarrow> msi_ok (msi_writes ob ws) \<and> msi_number_of_states (msi_writes ob ws) = msi_number_of_states ob"
proof (induction ws arbitrary: ob)
  case (Cons w ws)
  obtain now pid i v pr where w: "w = (now, pid, i, v, pr)" by (cases w)
  let ?ob = "snd (msi_write_property now ob pid i v pr)"
  have "msi_number_of_states ?ob = msi_number_of_states ob"
    by (simp add: msi_write_property_def snd_set_or split: option.split)
  moreover have "msi_writes ob (w # ws) = msi_writes ?ob ws" by (simp add: msi_writes_def w)
  ultimately show ?case using Cons.IH [of ?ob] msi.wr_ok [OF Cons.prems] by simp
qed (simp add: msi_writes_def)

text \<open>
  Whatever is written to a multi-state input of \<open>n > 0\<close> states, in any order, its present value
  stays one of the states 1 to \<open>n\<close>, and that is what a read answers.
\<close>

theorem msi_state_in_range:
  assumes "0 < n"
  shows "\<exists>v. 1 \<le> v \<and> v \<le> n \<and>
    msi_read_property (msi_writes (msi_new now device inst name n) ws) PID_PresentValue i = Ok (PV_Unsigned v)"
proof -
  have "msi_number_of_states (msi_new now device inst name n) = n" by (simp add: msi_new_def)
  with msi_writes_keep [OF msi_new_ok [of now device inst name n], of ws] assms show ?thesis
    by (simp add: msi_ok_def msi_read_property_def) auto
qed

theorem msi_state_in_range_witness:
  "\<exists>v. 1 \<le> v \<and> v \<le> 4 \<and>
     msi_read_property (msi_writes (msi_new 0 1 2 [] 4)
       [(1, PID_OutOfService, None, PV_Boolean True, None), (2, PID_PresentValue, None, PV_Unsigned 9, None)])
     PID_PresentValue None = Ok (PV_Unsigned v)"
  by (rule msi_state_in_range) simp

text \<open>
  An enabled trend log of capacity \<open>n > 0\<close> holds exactly the last \<open>n\<close> of the values recorded, oldest
  first, each with its time, and its record count says how many there are.
\<close>

theorem trend_log_keeps_latest:
  assumes "tl_ok ob" and "tl_enable ob" and "\<not> tl_out_of_service ob" and "0 < tl_buffer_size ob"
  shows "tl_log_buffer (tl_records rs ob) = last_n (tl_buffer_size ob) (tl_log_buffer ob @ map entry rs) \<and>
    tl_read_property (tl_records rs ob) PID_RecordCount i =
      Ok (PV_Unsigned (of_nat (length (tl_log_buffer (tl_records rs ob)))))"
proof -
  have "tl_ok (tl_records rs ob)"
    using assms(1) by (induction rs arbitrary: ob) (auto simp: tl_records_def tl_record_ok)
  moreover have "length (tl_log_buffer ob) \<le> tl_buffer_size ob"
    using assms(1,4) by (simp add: tl_ok_def)
  ultimately show ?thesis
    using tl_records_buffer [OF assms(2-4)] by (simp add: tl_ok_def tl_read_property_def)
qed

theorem trend_log_keeps_latest_witness:
  "tl_log_buffer (tl_records [(10, PV_Unsigned 1), (20, PV_Unsigned 2), (30, PV_Unsigned 3)]
     ((tl_new 0 1 2 [])\<lparr>tl_buffer_size := 2\<rparr>)) =
   [\<lparr>tle_timestamp = 20, tle_value = PV_Unsigned 2\<rparr>, \<lparr>tle_timestamp = 30, tle_value = PV_Unsigned 3\<rparr>]"
proof -
  let ?ob = "(tl_new 0 1 2 [])\<lparr>tl_buffer_size := 2\<rparr>"
  have "tl_ok ?ob" "tl_enable ?ob" "\<not> tl_out_of_service ?ob" "0 < tl_buffer_size ?ob"
    by (simp_all add: tl_ok_def tl_new_def)
  from trend_log_keeps_latest [OF this] show ?thesis
    by (simp add: tl_new_def last_n_def entry_def)
qed

end
