(* ===== verification/Schedule_Object.thy ===== *)
theory Schedule_Object
  imports Object_Base
begin

text \<open>
  \<^verbatim>\<open>crates/bacnet-object/src/schedule.rs\<close>: the weekly schedule.
\<close>

record time_value =
  tv_secs :: u32
  tv_value :: property_value

record daily_schedule =
  ds_slots :: "time_value list"

text \<open>The loop of \<^verbatim>\<open>active_at\<close>: the last slot of the list that has started.\<close>

definition active_at :: "daily_schedule \<Rightarrow> u32 \<Rightarrow> property_value option" where
  "active_at day t =
     foldl (\<lambda>active slot. if tv_secs slot \<le> t then Some (tv_value slot) else active) None (ds_slots day)"

record schedule =
  sch_device_id :: device_id
  sch_object_id :: object_id
  sch_object_name :: rstring
  sch_description :: rstring
  sch_present_value :: property_value
  sch_out_of_service :: bool
  sch_weekly_schedule :: "daily_schedule list"
  sch_schedule_default :: property_value
  sch_references :: "(object_id \<times> property_identifier) list"

definition sch_new :: "device_id \<Rightarrow> u32 \<Rightarrow> rstring \<Rightarrow> schedule" where
  "sch_new device inst name =
     \<lparr>sch_device_id = device,
      sch_object_id = \<lparr>oid_type = OT_Schedule, oid_instance = inst\<rparr>,
      sch_object_name = name, sch_description = [], sch_present_value = PV_Null,
      sch_out_of_service = False, sch_weekly_schedule = replicate 7 \<lparr>ds_slots = []\<rparr>,
      sch_schedule_default = PV_Null, sch_references = []\<rparr>"

definition evaluate_at :: "schedule \<Rightarrow> nat \<Rightarrow> property_value bres" where
  "evaluate_at ob secs_since_epoch =
     (let day_of_week = (secs_since_epoch div 86400 + 3) mod 7;
          time_of_day = of_nat (secs_since_epoch mod 86400)
      in rbind (index (sch_weekly_schedule ob) day_of_week) (\<lambda>day.
           Ok (case active_at day time_of_day of None \<Rightarrow> sch_schedule_default ob | Some v \<Rightarrow> v)))"

definition sch_read_property :: "schedule reader" where
  "sch_read_property ob p i =
     (if p = PID_ObjectIdentifier then Ok (PV_ObjectId (sch_object_id ob))
      else if p = PID_ObjectName then Ok (PV_CharacterString (sch_object_name ob))
      else if p = PID_ObjectType then Ok (PV_Enumerated (ot_code OT_Schedule))
      else if p = PID_Description then Ok (PV_CharacterString (sch_description ob))
      else if p = PID_PresentValue then Ok (sch_present_value ob)
      else if p = PID_OutOfService then Ok (PV_Boolean (sch_out_of_service ob))
      else if p = PID_ScheduleDefault then Ok (sch_schedule_default ob)
      else Err UnknownProperty)"

definition sch_write_property :: "instant \<Rightarrow> schedule writer" where
  "sch_write_property now ob p i value prio =
     (if p = PID_PresentValue then
        (if sch_out_of_service ob then (Ok (), ob\<lparr>sch_present_value := value\<rparr>)
         else (Err WriteAccessDenied, ob))
      else if p = PID_OutOfService then
        set_or InvalidDataType (boolean_of value) (\<lambda>v. ob\<lparr>sch_out_of_service := v\<rparr>) ob
      else if p = PID_ScheduleDefault then (Ok (), ob\<lparr>sch_schedule_default := value\<rparr>)
      else (Err WriteAccessDenied, ob))"

text \<open>\<^verbatim>\<open>now.duration_since(UNIX_EPOCH).unwrap_or_default().as_secs()\<close>: 0 before the epoch.\<close>

definition unix_secs :: "system_time \<Rightarrow> nat" where
  "unix_secs now = nat (now div 1000000000)"

definition sch_tick :: "system_time \<Rightarrow> schedule \<Rightarrow> (schedule, bacnet_error) rres" where
  "sch_tick now ob =
     (if sch_out_of_service ob then Ok ob
      else rbind (evaluate_at ob (unix_secs now)) (\<lambda>v. Ok (ob\<lparr>sch_present_value := v\<rparr>)))"

definition sch_all_properties :: "schedule \<Rightarrow> (property_identifier \<times> property_value) list" where
  "sch_all_properties ob =
     [(PID_ObjectIdentifier, PV_ObjectId (sch_object_id ob)),
      (PID_ObjectName, PV_CharacterString (sch_object_name ob)),
      (PID_ObjectType, PV_Enumerated (ot_code OT_Schedule)),
      (PID_Description, PV_CharacterString (sch_description ob)),
      (PID_PresentValue, sch_present_value ob),
      (PID_OutOfService, PV_Boolean (sch_out_of_service ob)),
      (PID_ScheduleDefault, sch_schedule_default ob)]"

definition sch_ok :: "schedule \<Rightarrow> bool" where
  "sch_ok ob \<longleftrightarrow> length (sch_weekly_schedule ob) = 7"

lemma sch_new_ok: "sch_ok (sch_new device inst name)"
  by (simp add: sch_ok_def sch_new_def)

lemma evaluate_at_no_panic: "sch_ok ob \<Longrightarrow> evaluate_at ob t \<noteq> Panic"
  by (simp add: evaluate_at_def sch_ok_def Let_def)

lemma sch_tick_ok: "sch_ok ob \<Longrightarrow> \<exists>ob'. sch_tick now ob = Ok ob' \<and> sch_ok ob' \<and> sch_object_id ob' = sch_object_id ob"
  by (auto simp: sch_tick_def evaluate_at_def sch_ok_def Let_def)

interpretation sch: object_contract sch_object_id "\<lambda>sys. sch_read_property" sch_write_property
    sch_all_properties sch_ok
proof (unfold_locales, goal_cases)
  case (1 ob pid v sys)
  then show ?case by (auto simp: sch_all_properties_def sch_read_property_def)
next
  case (2 ob)
  then show ?case by (simp add: sch_all_properties_def)
next
  case (3 ob sys pid i)
  then show ?case by (simp add: sch_read_property_def)
next
  case (4 ob now pid i v pr)
  then show ?case by (simp add: sch_write_property_def)
next
  case (5 now ob pid i v pr)
  then show ?case by (simp add: sch_write_property_def snd_set_or split: option.split)
next
  case (6 ob now pid i v pr)
  then show ?case by (simp add: sch_write_property_def sch_ok_def snd_set_or split: option.split)
next
  case (7 sys ob now)
  then show ?case by (simp add: sch_write_property_def sch_read_property_def boolean_of_def)
qed

subsection \<open>The active slot\<close>

lemma active_at_filter:
  "active_at day t =
     (case filter (\<lambda>s. tv_secs s \<le> t) (ds_slots day) of [] \<Rightarrow> None | s # ss \<Rightarrow> Some (tv_value (last (s # ss))))"
proof -
  have "foldl (\<lambda>active slot. if tv_secs slot \<le> t then Some (tv_value slot) else active) a xs =
      (case filter (\<lambda>s. tv_secs s \<le> t) xs of [] \<Rightarrow> a | s # ss \<Rightarrow> Some (tv_value (last (s # ss))))" for a xs
    by (induction xs arbitrary: a) (auto split: list.split)
  then show ?thesis by (simp add: active_at_def)
qed

lemma sorted_le_last: "sorted (map f xs) \<Longrightarrow> x \<in> set xs \<Longrightarrow> f x \<le> (f (last xs) :: 'a::linorder)"
  by (induction xs) auto

text \<open>
  On slots in the order of their times, the active slot is the latest one that has started.
\<close>

lemma active_at_latest:
  assumes "sorted (map tv_secs (ds_slots day))" and "active_at day t = Some v"
  shows "\<exists>s \<in> set (ds_slots day). tv_value s = v \<and> tv_secs s \<le> t
    \<and> (\<forall>s' \<in> set (ds_slots day). tv_secs s' \<le> t \<longrightarrow> tv_secs s' \<le> tv_secs s)"
proof -
  let ?f = "filter (\<lambda>s. tv_secs s \<le> t) (ds_slots day)"
  from assms(2) have ne: "?f \<noteq> []" and v: "v = tv_value (last ?f)"
    by (auto simp: active_at_filter split: list.splits)
  have "sorted (map tv_secs ?f)" using assms(1) by (rule sorted_filter)
  then have "tv_secs s' \<le> tv_secs (last ?f)" if "s' \<in> set ?f" for s'
    using that by (rule sorted_le_last)
  with ne v show ?thesis using last_in_set [OF ne] by auto
qed

lemma active_at_None: "active_at day t = None \<longleftrightarrow> (\<forall>s \<in> set (ds_slots day). t < tv_secs s)"
proof -
  have "active_at day t = None \<longleftrightarrow> filter (\<lambda>s. tv_secs s \<le> t) (ds_slots day) = []"
    by (simp add: active_at_filter split: list.split)
  then show ?thesis by (auto simp: filter_empty_conv not_le)
qed

subsection \<open>Properties\<close>

text \<open>
  After a tick an in-service schedule shows the value of the latest slot of the current weekday
  that has begun, or the default before the first one, where the slots of the day are in the order
  of their times; the day is counted from Thursday 1 January 1970, the time of day in seconds.
\<close>

theorem schedule_shows_current_slot:
  assumes "sch_ok ob" and "\<not> sch_out_of_service ob"
    and "day = sch_weekly_schedule ob ! ((unix_secs now div 86400 + 3) mod 7)"
    and "sorted (map tv_secs (ds_slots day))" and "t = of_nat (unix_secs now mod 86400)"
  shows "\<exists>ob' v. sch_tick now ob = Ok ob' \<and> sch_read_property ob' PID_PresentValue i = Ok v \<and>
    (if \<forall>s \<in> set (ds_slots day). t < tv_secs s then v = sch_schedule_default ob
     else \<exists>s \<in> set (ds_slots day). tv_value s = v \<and> tv_secs s \<le> t \<and>
       (\<forall>s' \<in> set (ds_slots day). tv_secs s' \<le> t \<longrightarrow> tv_secs s' \<le> tv_secs s))"
proof -
  let ?v = "case active_at day t of None \<Rightarrow> sch_schedule_default ob | Some v \<Rightarrow> v"
  have "length (sch_weekly_schedule ob) = 7" using assms(1) by (simp add: sch_ok_def)
  then have "sch_tick now ob = Ok (ob\<lparr>sch_present_value := ?v\<rparr>)"
    using assms(2,3,5) by (simp add: sch_tick_def evaluate_at_def Let_def)
  moreover have "if \<forall>s \<in> set (ds_slots day). t < tv_secs s then ?v = sch_schedule_default ob
     else \<exists>s \<in> set (ds_slots day). tv_value s = ?v \<and> tv_secs s \<le> t \<and>
       (\<forall>s' \<in> set (ds_slots day). tv_secs s' \<le> t \<longrightarrow> tv_secs s' \<le> tv_secs s)"
    using active_at_None [of day t] active_at_latest [OF assms(4), of t]
    by (cases "active_at day t") auto
  ultimately show ?thesis by (auto simp: sch_read_property_def)
qed

theorem schedule_shows_current_slot_witness:
  "let ob = (sch_new 1 2 [])\<lparr>sch_schedule_default := PV_Real 0, sch_weekly_schedule :=
       (sch_weekly_schedule (sch_new 1 2 []))[3 := \<lparr>ds_slots =
         [\<lparr>tv_secs = 28800, tv_value = PV_Real 1\<rparr>, \<lparr>tv_secs = 64800, tv_value = PV_Real 2\<rparr>]\<rparr>]\<rparr>
   in \<exists>ob'. sch_tick 36000000000000 ob = Ok ob' \<and>
     sch_read_property ob' PID_PresentValue None = Ok (PV_Real 1)"
proof -
  let ?day = "\<lparr>ds_slots = [\<lparr>tv_secs = 28800, tv_value = PV_Real 1\<rparr>, \<lparr>tv_secs = 64800, tv_value = PV_Real 2\<rparr>]\<rparr>"
  let ?ob = "(sch_new 1 2 [])\<lparr>sch_schedule_default := PV_Real 0,
      sch_weekly_schedule := (sch_weekly_schedule (sch_new 1 2 []))[3 := ?day]\<rparr>"
  have "sch_ok ?ob" "\<not> sch_out_of_service ?ob"
    "?day = sch_weekly_schedule ?ob ! ((unix_secs 36000000000000 div 86400 + 3) mod 7)"
    by (simp_all add: sch_ok_def sch_new_def unix_secs_def)
  from schedule_shows_current_slot [OF this _ refl, of None] show ?thesis
    by (auto simp: unix_secs_def)
qed

end
