(* ===== verification/Device_Object.thy ===== *)
theory Device_Object
  imports Schedule_Object
begin

text \<open>
  \<^verbatim>\<open>crates/bacnet-object/src/device.rs\<close>: the device object, and the calendar computation of its
  local date and time.
\<close>

subsection \<open>The calendar\<close>

definition is_leap :: "nat \<Rightarrow> bool" where
  "is_leap y \<longleftrightarrow> (y mod 4 = 0 \<and> y mod 100 \<noteq> 0) \<or> y mod 400 = 0"

definition days_in_year :: "nat \<Rightarrow> nat" where
  "days_in_year y = (if is_leap y then 366 else 365)"

text \<open>
  The loop over the years.  \<^verbatim>\<open>days\<close> is a u32, so the year cannot pass \<open>2^32 div 365 + 1970\<close> and
  \<^verbatim>\<open>year += 1\<close> does not overflow.
\<close>

function year_loop :: "nat \<Rightarrow> nat \<Rightarrow> nat \<times> nat" where
  "year_loop days year =
     (if days < days_in_year year then (year, days)
      else year_loop (days - days_in_year year) (year + 1))"
  by pat_completeness auto
termination
  by (relation "measure fst") (auto simp: days_in_year_def split: if_splits)

declare year_loop.simps [simp del]

definition month_lens :: "nat \<Rightarrow> nat list" where
  "month_lens year =
     [31, if is_leap year then 29 else 28, 31, 30, 31, 30, 31, 31, 30, 31, 30, 31]"

text \<open>The loop over the months; the month stays 1 where no month takes the day.\<close>

fun month_loop :: "nat list \<Rightarrow> nat \<Rightarrow> nat \<Rightarrow> nat \<times> nat" where
  "month_loop [] i days = (1, days)"
| "month_loop (ml # mls) i days =
     (if days < ml then (i + 1, days) else month_loop mls (i + 1) (days - ml))"

definition weekday_of_days :: "nat \<Rightarrow> weekday" where
  "weekday_of_days d =
     (let k = (d + 3) mod 7 in
      if k = 0 then WD_Monday else if k = 1 then WD_Tuesday else if k = 2 then WD_Wednesday
      else if k = 3 then WD_Thursday else if k = 4 then WD_Friday
      else if k = 5 then WD_Saturday else WD_Sunday)"

definition current_utc :: "system_time \<Rightarrow> bacnet_date \<times> bacnet_time" where
  "current_utc sys =
     (let secs = unix_secs sys;
          time = \<lparr>time_hour = of_nat ((secs div 3600) mod 24),
                  time_minute = of_nat ((secs div 60) mod 60),
                  time_second = of_nat (secs mod 60), time_hundredths = 0\<rparr>;
          weekday = weekday_of_days (secs div 86400);
          (year, days) = year_loop ((secs div 86400) mod 2 ^ 32) 1970;
          (month, days) = month_loop (month_lens year) 0 days
      in (\<lparr>date_year = of_nat year, date_month = of_nat month, date_day = of_nat (days + 1),
           date_weekday = weekday\<rparr>, time))"

text \<open>
  The specification: the Gregorian calendar by its own rules, in closed form and without a word of
  the code's.  A year divisible by 4 is a leap year, except the centuries not divisible by 400;
  April, June, September and November have 30 days; and the day number counts from 1 January of
  the year 1, of which 1 January 1970 is number 719162.
\<close>

definition gregorian_leap :: "nat \<Rightarrow> bool" where
  "gregorian_leap y \<longleftrightarrow> 4 dvd y \<and> (100 dvd y \<longrightarrow> 400 dvd y)"

definition gregorian_month_length :: "nat \<Rightarrow> nat \<Rightarrow> nat" where
  "gregorian_month_length y m =
     (if m = 2 then (if gregorian_leap y then 29 else 28)
      else if m \<in> {4, 6, 9, 11} then 30 else 31)"

definition gregorian_year_start :: "nat \<Rightarrow> nat" where
  "gregorian_year_start y = 365 * (y - 1) + (y - 1) div 4 - (y - 1) div 100 + (y - 1) div 400"

definition gregorian_day_number :: "nat \<Rightarrow> nat \<Rightarrow> nat \<Rightarrow> nat" where
  "gregorian_day_number y m d =
     gregorian_year_start y + (\<Sum>k = 1..<m. gregorian_month_length y k) + (d - 1)"

text \<open>The days the loops of the code have passed when they reach a year.\<close>

definition year_start :: "nat \<Rightarrow> nat" where
  "year_start y = sum_list (map days_in_year [1970..<y])"

lemma is_leap_gregorian: "is_leap y \<longleftrightarrow> gregorian_leap y"
proof -
  have "(100::nat) dvd y \<Longrightarrow> 4 dvd y" by (rule dvd_trans [of _ 100]) simp_all
  moreover have "(400::nat) dvd y \<Longrightarrow> 100 dvd y" by (rule dvd_trans [of _ 400]) simp_all
  ultimately show ?thesis
    unfolding is_leap_def gregorian_leap_def dvd_eq_mod_eq_0 [symmetric] by blast
qed

lemma leap_step:
  fixes z a b c :: nat
  assumes "b \<le> a" and "B \<Longrightarrow> A" and "C \<Longrightarrow> B"
  shows "365 * Suc z + (a + (if A then 1 else 0)) - (b + (if B then 1 else 0)) +
      (c + (if C then 1 else 0)) =
    365 * z + a - b + c + (365 + (if A \<and> (B \<longrightarrow> C) then 1 else 0))"
  using assms by (cases A; cases B; cases C) simp_all

lemma gregorian_year_step:
  assumes "0 < y"
  shows "gregorian_year_start (Suc y) = gregorian_year_start y + days_in_year y"
proof -
  obtain z where y: "y = Suc z" using assms by (cases y) auto
  have step: "Suc z div k = z div k + (if k dvd Suc z then 1 else 0)" if "0 < k" for k
    using that by (simp add: div_Suc dvd_eq_mod_eq_0)
  have le: "z div 100 \<le> z div 4" by (rule div_le_mono2) simp_all
  have d100: "(100::nat) dvd Suc z \<Longrightarrow> 4 dvd Suc z" by (rule dvd_trans [of _ 100]) simp_all
  have d400: "(400::nat) dvd Suc z \<Longrightarrow> 100 dvd Suc z" by (rule dvd_trans [of _ 400]) simp_all
  have "gregorian_year_start (Suc (Suc z)) =
      365 * Suc z + Suc z div 4 - Suc z div 100 + Suc z div 400"
    unfolding gregorian_year_start_def diff_Suc_1 ..
  moreover have "gregorian_year_start (Suc z) = 365 * z + z div 4 - z div 100 + z div 400"
    unfolding gregorian_year_start_def diff_Suc_1 ..
  moreover have "days_in_year (Suc z) =
      365 + (if 4 dvd Suc z \<and> (100 dvd Suc z \<longrightarrow> 400 dvd Suc z) then 1 else 0)"
    unfolding days_in_year_def is_leap_gregorian gregorian_leap_def by (simp only: if_distrib [of "\<lambda>k. 365 + k"]) simp
  ultimately show ?thesis
    using leap_step [OF le d100 d400, where z = z and c = "z div 400"]
    unfolding y step [OF zero_less_numeral] by (simp only:)
qed

lemma year_start_gregorian:
  assumes "1970 \<le> y"
  shows "gregorian_year_start y = 719162 + year_start y"
  using assms
proof (induction y rule: dec_induct)
  case base
  then show ?case by (simp add: gregorian_year_start_def year_start_def)
next
  case (step y)
  then show ?case using gregorian_year_step [of y] by (simp add: year_start_def)
qed

lemma month_lens_gregorian: "month_lens y = map (gregorian_month_length y) [1..<13]"
  by (simp add: month_lens_def upt_conv_Cons is_leap_gregorian gregorian_month_length_def)

lemma month_lens_sum:
  assumes "1 \<le> m" and "m \<le> 12"
  shows "sum_list (take (m - 1) (month_lens y)) = (\<Sum>k = 1..<m. gregorian_month_length y k)"
proof -
  have "take (m - 1) [1..<13] = [1..<m]" using assms by (simp add: take_upt)
  then show ?thesis
    by (simp add: month_lens_gregorian take_map interv_sum_list_conv_sum_set_nat)
qed

lemma month_lens_nth:
  assumes "1 \<le> m" and "m \<le> 12"
  shows "month_lens y ! (m - 1) = gregorian_month_length y m"
  using assms by (simp add: month_lens_gregorian nth_append del: upt_Suc)

lemma year_loop_spec:
  assumes "1970 \<le> y" and "year_loop days y = (y', r)"
  shows "y \<le> y' \<and> r < days_in_year y' \<and> year_start y + days = year_start y' + r"
  using assms
proof (induction days y rule: year_loop.induct)
  case (1 days y)
  show ?case
  proof (cases "days < days_in_year y")
    case True
    with "1.prems" show ?thesis by (simp add: year_loop.simps [of days y])
  next
    case False
    then have "year_loop (days - days_in_year y) (y + 1) = (y', r)"
      using "1.prems" by (simp add: year_loop.simps [of days y])
    with "1.IH" [OF False] "1.prems"
    have "y + 1 \<le> y' \<and> r < days_in_year y' \<and>
        year_start (y + 1) + (days - days_in_year y) = year_start y' + r"
      by simp
    moreover have "year_start (y + 1) = year_start y + days_in_year y"
      using "1.prems" by (simp add: year_start_def)
    ultimately show ?thesis using False by simp
  qed
qed

lemma month_loop_spec:
  assumes "days < sum_list mls" and "month_loop mls i days = (m, r)"
  shows "i < m \<and> m \<le> i + length mls \<and> r < mls ! (m - i - 1) \<and>
    days = sum_list (take (m - i - 1) mls) + r"
  using assms
proof (induction mls arbitrary: i days)
  case (Cons ml mls)
  show ?case
  proof (cases "days < ml")
    case True
    with Cons.prems show ?thesis by auto
  next
    case False
    with Cons.IH [of "days - ml" "i + 1"] Cons.prems
    have *: "i + 1 < m \<and> m \<le> i + 1 + length mls \<and> r < mls ! (m - (i + 1) - 1) \<and>
        days - ml = sum_list (take (m - (i + 1) - 1) mls) + r"
      by auto
    from * have "m - i - 1 = Suc (m - (i + 1) - 1)" by arith
    with * False show ?thesis by auto
  qed
qed simp

lemma sum_month_lens: "sum_list (month_lens y) = days_in_year y"
  by (simp add: month_lens_def days_in_year_def)

lemma month_lens_le: "m < 12 \<Longrightarrow> month_lens y ! m \<le> 31"
  by (simp add: month_lens_def nth_Cons' split: if_split)

lemma year_bound: "year_start y \<ge> 365 * (y - 1970)"
proof (induction y)
  case (Suc y)
  then show ?case
    by (cases "1970 \<le> y") (auto simp: year_start_def days_in_year_def Suc_diff_le)
qed (simp add: year_start_def)

text \<open>
  The date is the one whose day number is the day of the clock, up to the year 65535 the u16 can
  hold.
\<close>

lemma current_utc_date:
  assumes "current_utc sys = (date, time)" and "unix_secs sys div 86400 < 365 * 60000"
  shows "gregorian_day_number (unat (date_year date)) (unat (date_month date))
      (unat (date_day date)) = 719162 + unix_secs sys div 86400"
    and "1 \<le> unat (date_month date)" and "unat (date_month date) \<le> 12"
    and "1 \<le> unat (date_day date)"
    and "unat (date_day date) \<le>
      gregorian_month_length (unat (date_year date)) (unat (date_month date))"
    and "date_weekday date = weekday_of_days (unix_secs sys div 86400)"
proof -
  define n where "n = unix_secs sys div 86400"
  have n: "n mod 2 ^ 32 = n" using assms(2) by (simp add: n_def)
  obtain y r where y: "year_loop n 1970 = (y, r)" by (cases "year_loop n 1970")
  obtain m d where m: "month_loop (month_lens y) 0 r = (m, d)"
    by (cases "month_loop (month_lens y) 0 r")
  have date: "date = \<lparr>date_year = of_nat y, date_month = of_nat m, date_day = of_nat (d + 1),
      date_weekday = weekday_of_days n\<rparr>"
    using assms(1) y m n by (auto simp: current_utc_def Let_def n_def [symmetric])
  have ys: "1970 \<le> y" "r < days_in_year y" "n = year_start y + r"
    using year_loop_spec [OF _ y] by (simp_all add: year_start_def)
  have ms: "0 < m" "m \<le> 12" "d < month_lens y ! (m - 1)" "r = sum_list (take (m - 1) (month_lens y)) + d"
    using month_loop_spec [OF _ m] ys(2) by (simp_all add: sum_month_lens) (simp_all add: month_lens_def)
  have "365 * (y - 1970) \<le> n" using year_bound [of y] ys(3) by simp
  with assms(2) have "y < 65536" by (simp add: n_def [symmetric])
  moreover have "d < 31"
    using ms(1,2) by (intro less_le_trans [OF ms(3)] month_lens_le) arith
  ultimately have u: "unat (of_nat y :: u16) = y" "unat (of_nat m :: u8) = m"
      "unat (of_nat (d + 1) :: u8) = d + 1"
    using ms(2) by (simp_all add: unat_of_nat del: of_nat_add of_nat_Suc)
  show "gregorian_day_number (unat (date_year date)) (unat (date_month date))
      (unat (date_day date)) = 719162 + unix_secs sys div 86400"
    using ys(1,3) ms(1,2,4) year_start_gregorian [OF ys(1)] month_lens_sum [of m y]
    unfolding date gregorian_day_number_def n_def [symmetric] bacnet_date.simps u by simp
  show "1 \<le> unat (date_month date)" "unat (date_month date) \<le> 12" "1 \<le> unat (date_day date)"
    "unat (date_day date) \<le>
      gregorian_month_length (unat (date_year date)) (unat (date_month date))"
    using ms(1-3) month_lens_nth [of m y] unfolding date bacnet_date.simps u by simp_all
  show "date_weekday date = weekday_of_days (unix_secs sys div 86400)"
    by (simp add: date n_def)
qed

subsection \<open>The device object\<close>

text \<open>The literals \<^verbatim>\<open>"bacnet-sim"\<close> and, of \<^verbatim>\<open>CARGO_PKG_VERSION\<close> (\<^verbatim>\<open>Cargo.toml\<close>), \<^verbatim>\<open>"0.1.0"\<close>.\<close>

definition bacnet_sim_text :: rstring where
  "bacnet_sim_text = [0x62, 0x61, 0x63, 0x6E, 0x65, 0x74, 0x2D, 0x73, 0x69, 0x6D]"

definition cargo_pkg_version :: rstring where
  "cargo_pkg_version = [0x30, 0x2E, 0x31, 0x2E, 0x30]"

record device_object =
  dev_device_id :: device_id
  dev_object_name :: rstring
  dev_vendor_name :: rstring
  dev_vendor_identifier :: u16
  dev_model_name :: rstring
  dev_firmware_revision :: rstring
  dev_application_software_version :: rstring
  dev_description :: rstring
  dev_max_apdu_length_accepted :: u16
  dev_database_revision :: u32
  dev_object_list :: "object_id list"

definition device_oid :: "device_id \<Rightarrow> object_id" where
  "device_oid d = \<lparr>oid_type = OT_Device, oid_instance = d\<rparr>"

definition dev_new :: "device_id \<Rightarrow> rstring \<Rightarrow> device_object" where
  "dev_new device name =
     \<lparr>dev_device_id = device, dev_object_name = name, dev_vendor_name = bacnet_sim_text,
      dev_vendor_identifier = 999, dev_model_name = bacnet_sim_text,
      dev_firmware_revision = cargo_pkg_version,
      dev_application_software_version = cargo_pkg_version, dev_description = [],
      dev_max_apdu_length_accepted = 1476, dev_database_revision = 0,
      dev_object_list = [device_oid device]\<rparr>"

definition dev_object_id :: "device_object \<Rightarrow> object_id" where
  "dev_object_id ob = device_oid (dev_device_id ob)"

definition set_bits :: "nat \<Rightarrow> nat list \<Rightarrow> bool list" where
  "set_bits n is = foldl (\<lambda>bits i. bits[i := True]) (replicate n False) is"

definition services_supported :: "bool list" where
  "services_supported = set_bits 40 [5, 12, 14, 15, 26, 34]"

definition object_types_supported :: "bool list" where
  "object_types_supported = set_bits 32 [0, 3, 8]"

definition dev_property_list :: "u32 list" where
  "dev_property_list =
     [112, 121, 120, 70, 44, 12, 98, 139, 97, 96, 76, 62, 107, 11, 73, 155, 28, 56, 57, 119, 24, 371]"

text \<open>The three ways an array property is read: its length, an element from 1, the whole.\<close>

definition read_array :: "property_value list \<Rightarrow> u32 option \<Rightarrow> property_value bres" where
  "read_array xs i =
     (case i of
        None \<Rightarrow> Ok (PV_Array xs)
      | Some n \<Rightarrow>
          (if n = 0 then Ok (PV_Unsigned (of_nat (length xs)))
           else ok_or ValueOutOfRange (peek xs (unat n - 1))))"

definition dev_read_property :: "system_time \<Rightarrow> device_object reader" where
  "dev_read_property sys ob p i =
     (if p = PID_ObjectIdentifier then Ok (PV_ObjectId (dev_object_id ob))
      else if p = PID_ObjectName then Ok (PV_CharacterString (dev_object_name ob))
      else if p = PID_ObjectType then Ok (PV_Enumerated (ot_code OT_Device))
      else if p = PID_VendorName then Ok (PV_CharacterString (dev_vendor_name ob))
      else if p = PID_VendorIdentifier then Ok (PV_Unsigned (ucast (dev_vendor_identifier ob)))
      else if p = PID_ModelName then Ok (PV_CharacterString (dev_model_name ob))
      else if p = PID_FirmwareRevision then Ok (PV_CharacterString (dev_firmware_revision ob))
      else if p = PID_ApplicationSoftwareVersion then
        Ok (PV_CharacterString (dev_application_software_version ob))
      else if p = PID_ProtocolVersion then Ok (PV_Unsigned 1)
      else if p = PID_ProtocolRevision then Ok (PV_Unsigned 22)
      else if p = PID_MaxApduLengthAccepted then
        Ok (PV_Unsigned (ucast (dev_max_apdu_length_accepted ob)))
      else if p = PID_SegmentationSupported then Ok (PV_Enumerated 3)
      else if p = PID_DatabaseRevision then Ok (PV_Unsigned (dev_database_revision ob))
      else if p = PID_SystemStatus then Ok (PV_Enumerated 0)
      else if p = PID_Description then Ok (PV_CharacterString (dev_description ob))
      else if p = PID_ObjectList then read_array (map PV_ObjectId (dev_object_list ob)) i
      else if p = PID_ApduTimeout then Ok (PV_Unsigned 6000)
      else if p = PID_NumberOfApduRetries then Ok (PV_Unsigned 3)
      else if p = PID_ProtocolServicesSupported then Ok (PV_BitString services_supported)
      else if p = PID_ProtocolObjectTypesSupported then Ok (PV_BitString object_types_supported)
      else if p = PID_LocalDate then Ok (PV_Date (fst (current_utc sys)))
      else if p = PID_LocalTime then Ok (PV_Time (snd (current_utc sys)))
      else if p = PID_UtcOffset then Ok (PV_Integer 0)
      else if p = PID_DaylightSavingsStatus then Ok (PV_Boolean False)
      else if p = PID_PropertyList then read_array (map PV_Enumerated dev_property_list) i
      else Err UnknownProperty)"

definition dev_write_property :: "instant \<Rightarrow> device_object writer" where
  "dev_write_property now ob p i value prio = (Err WriteAccessDenied, ob)"

definition dev_all_properties :: "device_object \<Rightarrow> (property_identifier \<times> property_value) list" where
  "dev_all_properties ob =
     [(PID_ObjectIdentifier, PV_ObjectId (dev_object_id ob)),
      (PID_ObjectName, PV_CharacterString (dev_object_name ob)),
      (PID_ObjectType, PV_Enumerated (ot_code OT_Device)),
      (PID_VendorName, PV_CharacterString (dev_vendor_name ob)),
      (PID_VendorIdentifier, PV_Unsigned (ucast (dev_vendor_identifier ob))),
      (PID_ModelName, PV_CharacterString (dev_model_name ob)),
      (PID_FirmwareRevision, PV_CharacterString (dev_firmware_revision ob)),
      (PID_ProtocolVersion, PV_Unsigned 1),
      (PID_ProtocolRevision, PV_Unsigned 22),
      (PID_MaxApduLengthAccepted, PV_Unsigned (ucast (dev_max_apdu_length_accepted ob))),
      (PID_SegmentationSupported, PV_Enumerated 3),
      (PID_DatabaseRevision, PV_Unsigned (dev_database_revision ob)),
      (PID_SystemStatus, PV_Enumerated 0),
      (PID_Description, PV_CharacterString (dev_description ob)),
      (PID_ApduTimeout, PV_Unsigned 6000),
      (PID_NumberOfApduRetries, PV_Unsigned 3),
      (PID_ObjectList, PV_Array (map PV_ObjectId (dev_object_list ob))),
      (PID_ProtocolServicesSupported, PV_BitString services_supported),
      (PID_ProtocolObjectTypesSupported, PV_BitString object_types_supported)]"

lemma read_array_no_panic [no_panic]: "read_array xs i \<noteq> Panic"
  by (simp add: read_array_def split: option.split)

interpretation dev: object_contract dev_object_id dev_read_property dev_write_property
    dev_all_properties "\<lambda>_. True"
proof (unfold_locales, goal_cases)
  case (1 ob pid v sys)
  then show ?case by (auto simp: dev_all_properties_def dev_read_property_def read_array_def)
next
  case (2 ob)
  then show ?case by (simp add: dev_all_properties_def)
next
  case (3 ob sys pid i)
  then show ?case by (simp add: dev_read_property_def read_array_no_panic)
qed (simp_all add: dev_write_property_def)

text \<open>
  Every property the device's PropertyList names can be read, the list itself among them (its
  comment says it is left out).
\<close>

lemma dev_property_list_readable:
  assumes "n \<in> set dev_property_list"
  shows "\<exists>v. dev_read_property sys ob (pid_from_u32 n) None = Ok v"
  using assms
  by (auto simp: dev_property_list_def pid_from_u32_def dev_read_property_def read_array_def)

subsection \<open>Properties\<close>

text \<open>Weekdays are numbered from Monday, 1; day 0 is a Thursday, 4.\<close>

lemma weekday_of_days_code: "unat (weekday_code (weekday_of_days d)) = (d + 3) mod 7 + 1"
proof -
  have "(d + 3) mod 7 < 7" by simp
  then consider "(d + 3) mod 7 = 0" | "(d + 3) mod 7 = 1" | "(d + 3) mod 7 = 2" | "(d + 3) mod 7 = 3"
    | "(d + 3) mod 7 = 4" | "(d + 3) mod 7 = 5" | "(d + 3) mod 7 = 6"
    by linarith
  then show ?thesis by cases (simp_all add: weekday_of_days_def Let_def)
qed

text \<open>The time of day: hours, minutes and seconds of the clock within its day.\<close>

lemma current_utc_time:
  assumes "current_utc sys = (date, time)"
  shows "unat (time_hour time) < 24" and "unat (time_minute time) < 60"
    and "unat (time_second time) < 60"
    and "unat (time_hour time) * 3600 + unat (time_minute time) * 60 + unat (time_second time) =
      unix_secs sys mod 86400"
proof -
  define n where "n = unix_secs sys"
  have time: "time = \<lparr>time_hour = of_nat ((n div 3600) mod 24), time_minute = of_nat ((n div 60) mod 60),
      time_second = of_nat (n mod 60), time_hundredths = 0\<rparr>"
    using assms by (auto simp: current_utc_def Let_def n_def split: prod.splits)
  have small: "unat (of_nat (k mod b) :: u8) = k mod b" if "0 < b" "b \<le> 60" for k b :: nat
  proof -
    have "k mod b < b" using that(1) by (rule mod_less_divisor)
    with that(2) have "k mod b < 256" by linarith
    then show ?thesis by (simp add: unat_of_nat)
  qed
  show "unat (time_hour time) < 24" "unat (time_minute time) < 60" "unat (time_second time) < 60"
    by (simp_all add: time small)
  show "unat (time_hour time) * 3600 + unat (time_minute time) * 60 + unat (time_second time) =
      n mod 86400"
    using mod_mult2_eq [of n 60 1440] mod_mult2_eq [of "n div 60" 60 24]
    by (simp add: time small div_mult2_eq [symmetric])
qed

text \<open>
  C38. The local date a device reports is the Gregorian date of the clock, by the calendar's own
  rules stated apart from the code: its day number in the Gregorian calendar is the number of whole
  days of the clock past 1 January 1970 (day 719162 from the year 1), the month is one of the
  twelve and the day one of that month in that year, and the weekday is numbered from Monday, 1,
  with 1 January 1970 a Thursday, 4.  The local time it reports is the second within that day.  The bound (some 60000
  years) keeps the year within the 16 bits of its field.
\<close>

theorem local_date_correct:
  assumes "unix_secs sys div 86400 < 365 * 60000"
  shows "\<exists>date time. dev_read_property sys ob PID_LocalDate i = Ok (PV_Date date) \<and>
    gregorian_day_number (unat (date_year date)) (unat (date_month date)) (unat (date_day date)) =
      719162 + unix_secs sys div 86400 \<and>
    1 \<le> unat (date_month date) \<and> unat (date_month date) \<le> 12 \<and> 1 \<le> unat (date_day date) \<and>
    unat (date_day date) \<le> gregorian_month_length (unat (date_year date)) (unat (date_month date)) \<and>
    unat (weekday_code (date_weekday date)) = (unix_secs sys div 86400 + 3) mod 7 + 1 \<and>
    dev_read_property sys ob PID_LocalTime i = Ok (PV_Time time) \<and>
    unat (time_hour time) < 24 \<and> unat (time_minute time) < 60 \<and> unat (time_second time) < 60 \<and>
    unat (time_hour time) * 3600 + unat (time_minute time) * 60 + unat (time_second time) =
      unix_secs sys mod 86400"
proof -
  define date time where "date = fst (current_utc sys)" and "time = snd (current_utc sys)"
  then have utc: "current_utc sys = (date, time)" by simp
  have "dev_read_property sys ob PID_LocalDate i = Ok (PV_Date date)"
    and "dev_read_property sys ob PID_LocalTime i = Ok (PV_Time time)"
    by (simp_all add: dev_read_property_def utc)
  moreover have "unat (weekday_code (date_weekday date)) = (unix_secs sys div 86400 + 3) mod 7 + 1"
    unfolding current_utc_date(6) [OF utc assms] by (rule weekday_of_days_code)
  ultimately show ?thesis
    using current_utc_date(1-5) [OF utc assms] current_utc_time [OF utc] by blast
qed

text \<open>29 February 2024, 00:00:00, a Thursday.\<close>

theorem local_date_correct_witness:
  "\<exists>date time. dev_read_property 1709164800000000000 (dev_new 1 []) PID_LocalDate None = Ok (PV_Date date) \<and>
     gregorian_day_number (unat (date_year date)) (unat (date_month date)) (unat (date_day date)) =
       gregorian_day_number 2024 2 29 \<and>
     unat (weekday_code (date_weekday date)) = 4 \<and>
     dev_read_property 1709164800000000000 (dev_new 1 []) PID_LocalTime None = Ok (PV_Time time) \<and>
     unat (time_hour time) = 0"
proof -
  have day: "gregorian_day_number 2024 2 29 = 738944"
    by (simp add: gregorian_day_number_def gregorian_year_start_def gregorian_month_length_def)
  have "unix_secs 1709164800000000000 = 1709164800" by (simp add: unix_secs_def)
  with local_date_correct [of 1709164800000000000 "dev_new 1 []" None] show ?thesis
    unfolding day by fastforce
qed

text \<open>
  Every property the Property_List of a device names can be read from it; the list holds no
  property twice.  (It names itself, 371, though the comment above it says it does not.)
\<close>

theorem property_list_readable:
  "dev_read_property sys ob PID_PropertyList None = Ok (PV_Array (map PV_Enumerated dev_property_list)) \<and>
   (\<forall>n \<in> set dev_property_list. \<exists>v. dev_read_property sys ob (pid_from_u32 n) None = Ok v) \<and>
   distinct dev_property_list \<and> 371 \<in> set dev_property_list"
proof -
  have "distinct dev_property_list" "371 \<in> set dev_property_list"
    by (simp_all add: dev_property_list_def)
  then show ?thesis
    using dev_property_list_readable by (auto simp: dev_read_property_def read_array_def)
qed

theorem property_list_readable_witness:
  "\<exists>v. dev_read_property 0 (dev_new 1 []) (pid_from_u32 121) None = Ok v"
proof -
  have "121 \<in> set dev_property_list" by (simp add: dev_property_list_def)
  then show ?thesis using property_list_readable [of 0 "dev_new 1 []"] by blast
qed

end
