(* ===== verification/Objects.thy ===== *)
theory Objects
  imports Binary State_Objects Device_Object
begin

text \<open>
  \<^verbatim>\<open>Box<dyn BacnetObject>\<close>: the objects of the store, with the methods dispatched on the
  implementation, as a \<^verbatim>\<open>dyn\<close> call does.
\<close>

datatype bacnet_object =
    Obj_AnalogInput analog_input
  | Obj_AnalogOutput analog_output
  | Obj_AnalogValue analog_value
  | Obj_BinaryInput binary_input
  | Obj_BinaryOutput binary_output
  | Obj_BinaryValue binary_value
  | Obj_MultiStateInput multi_state_input
  | Obj_NotificationClass notification_class
  | Obj_TrendLog trend_log
  | Obj_Schedule schedule
  | Obj_Device device_object

primrec obj_object_id :: "bacnet_object \<Rightarrow> object_id" where
  "obj_object_id (Obj_AnalogInput x) = ai_object_id x"
| "obj_object_id (Obj_AnalogOutput x) = ao_object_id x"
| "obj_object_id (Obj_AnalogValue x) = av_object_id x"
| "obj_object_id (Obj_BinaryInput x) = bi_object_id x"
| "obj_object_id (Obj_BinaryOutput x) = bo_object_id x"
| "obj_object_id (Obj_BinaryValue x) = bv_object_id x"
| "obj_object_id (Obj_MultiStateInput x) = msi_object_id x"
| "obj_object_id (Obj_NotificationClass x) = nc_object_id x"
| "obj_object_id (Obj_TrendLog x) = tl_object_id x"
| "obj_object_id (Obj_Schedule x) = sch_object_id x"
| "obj_object_id (Obj_Device x) = dev_object_id x"

primrec obj_device_id :: "bacnet_object \<Rightarrow> device_id" where
  "obj_device_id (Obj_AnalogInput x) = ai_device_id x"
| "obj_device_id (Obj_AnalogOutput x) = ao_device_id x"
| "obj_device_id (Obj_AnalogValue x) = av_device_id x"
| "obj_device_id (Obj_BinaryInput x) = bi_device_id x"
| "obj_device_id (Obj_BinaryOutput x) = bo_device_id x"
| "obj_device_id (Obj_BinaryValue x) = bv_device_id x"
| "obj_device_id (Obj_MultiStateInput x) = msi_device_id x"
| "obj_device_id (Obj_NotificationClass x) = nc_device_id x"
| "obj_device_id (Obj_TrendLog x) = tl_device_id x"
| "obj_device_id (Obj_Schedule x) = sch_device_id x"
| "obj_device_id (Obj_Device x) = dev_device_id x"

primrec obj_read_property :: "system_time \<Rightarrow> bacnet_object reader" where
  "obj_read_property sys (Obj_AnalogInput x) = ai_read_property x"
| "obj_read_property sys (Obj_AnalogOutput x) = ao_read_property x"
| "obj_read_property sys (Obj_AnalogValue x) = av_read_property x"
| "obj_read_property sys (Obj_BinaryInput x) = bi_read_property x"
| "obj_read_property sys (Obj_BinaryOutput x) = bo_read_property x"
| "obj_read_property sys (Obj_BinaryValue x) = bv_read_property x"
| "obj_read_property sys (Obj_MultiStateInput x) = msi_read_property x"
| "obj_read_property sys (Obj_NotificationClass x) = nc_read_property x"
| "obj_read_property sys (Obj_TrendLog x) = tl_read_property x"
| "obj_read_property sys (Obj_Schedule x) = sch_read_property x"
| "obj_read_property sys (Obj_Device x) = dev_read_property sys x"

primrec obj_write_property :: "instant \<Rightarrow> bacnet_object writer" where
  "obj_write_property now (Obj_AnalogInput x) p i v pr =
     apsnd Obj_AnalogInput (ai_write_property now x p i v pr)"
| "obj_write_property now (Obj_AnalogOutput x) p i v pr =
     apsnd Obj_AnalogOutput (ao_write_property now x p i v pr)"
| "obj_write_property now (Obj_AnalogValue x) p i v pr =
     apsnd Obj_AnalogValue (av_write_property now x p i v pr)"
| "obj_write_property now (Obj_BinaryInput x) p i v pr =
     apsnd Obj_BinaryInput (bi_write_property now x p i v pr)"
| "obj_write_property now (Obj_BinaryOutput x) p i v pr =
     apsnd Obj_BinaryOutput (bo_write_property now x p i v pr)"
| "obj_write_property now (Obj_BinaryValue x) p i v pr =
     apsnd Obj_BinaryValue (bv_write_property now x p i v pr)"
| "obj_write_property now (Obj_MultiStateInput x) p i v pr =
     apsnd Obj_MultiStateInput (msi_write_property now x p i v pr)"
| "obj_write_property now (Obj_NotificationClass x) p i v pr =
     apsnd Obj_NotificationClass (nc_write_property now x p i v pr)"
| "obj_write_property now (Obj_TrendLog x) p i v pr =
     apsnd Obj_TrendLog (tl_write_property now x p i v pr)"
| "obj_write_property now (Obj_Schedule x) p i v pr =
     apsnd Obj_Schedule (sch_write_property now x p i v pr)"
| "obj_write_property now (Obj_Device x) p i v pr =
     apsnd Obj_Device (dev_write_property now x p i v pr)"

primrec obj_all_properties :: "bacnet_object \<Rightarrow> (property_identifier \<times> property_value) list" where
  "obj_all_properties (Obj_AnalogInput x) = ai_all_properties x"
| "obj_all_properties (Obj_AnalogOutput x) = ao_all_properties x"
| "obj_all_properties (Obj_AnalogValue x) = av_all_properties x"
| "obj_all_properties (Obj_BinaryInput x) = bi_all_properties x"
| "obj_all_properties (Obj_BinaryOutput x) = bo_all_properties x"
| "obj_all_properties (Obj_BinaryValue x) = bv_all_properties x"
| "obj_all_properties (Obj_MultiStateInput x) = msi_all_properties x"
| "obj_all_properties (Obj_NotificationClass x) = nc_all_properties x"
| "obj_all_properties (Obj_TrendLog x) = tl_all_properties x"
| "obj_all_properties (Obj_Schedule x) = sch_all_properties x"
| "obj_all_properties (Obj_Device x) = dev_all_properties x"

text \<open>\<^verbatim>\<open>tick\<close>: only the trend log and the schedule do anything.\<close>

primrec obj_tick :: "system_time \<Rightarrow> instant \<Rightarrow> bacnet_object \<Rightarrow> bacnet_object bres" where
  "obj_tick sys now (Obj_AnalogInput x) = Ok (Obj_AnalogInput x)"
| "obj_tick sys now (Obj_AnalogOutput x) = Ok (Obj_AnalogOutput x)"
| "obj_tick sys now (Obj_AnalogValue x) = Ok (Obj_AnalogValue x)"
| "obj_tick sys now (Obj_BinaryInput x) = Ok (Obj_BinaryInput x)"
| "obj_tick sys now (Obj_BinaryOutput x) = Ok (Obj_BinaryOutput x)"
| "obj_tick sys now (Obj_BinaryValue x) = Ok (Obj_BinaryValue x)"
| "obj_tick sys now (Obj_MultiStateInput x) = Ok (Obj_MultiStateInput x)"
| "obj_tick sys now (Obj_NotificationClass x) = Ok (Obj_NotificationClass x)"
| "obj_tick sys now (Obj_TrendLog x) = Ok (Obj_TrendLog (tl_tick now x))"
| "obj_tick sys now (Obj_Schedule x) = rbind (sch_tick sys x) (\<lambda>y. Ok (Obj_Schedule y))"
| "obj_tick sys now (Obj_Device x) = Ok (Obj_Device x)"

definition obj_force_write ::
  "system_time \<Rightarrow> instant \<Rightarrow> bacnet_object \<Rightarrow> property_identifier \<Rightarrow> property_value \<Rightarrow>
   unit bres \<times> bacnet_object" where
  "obj_force_write sys now = force_write_property (obj_read_property sys) (obj_write_property now)"

subsection \<open>The contract\<close>

primrec obj_ok :: "bacnet_object \<Rightarrow> bool" where
  "obj_ok (Obj_AnalogInput x) = True"
| "obj_ok (Obj_AnalogOutput x) = ao_ok x"
| "obj_ok (Obj_AnalogValue x) = True"
| "obj_ok (Obj_BinaryInput x) = True"
| "obj_ok (Obj_BinaryOutput x) = bo_ok x"
| "obj_ok (Obj_BinaryValue x) = True"
| "obj_ok (Obj_MultiStateInput x) = msi_ok x"
| "obj_ok (Obj_NotificationClass x) = True"
| "obj_ok (Obj_TrendLog x) = tl_ok x"
| "obj_ok (Obj_Schedule x) = sch_ok x"
| "obj_ok (Obj_Device x) = True"

lemma keeps_apsnd: "keeps x r \<Longrightarrow> keeps (f x) (apsnd f r)"
  by (auto simp: keeps_def)

interpretation objects: object_contract obj_object_id obj_read_property obj_write_property
    obj_all_properties obj_ok
proof (unfold_locales, goal_cases)
  case (1 ob pid v sys)
  then show ?case
    by (cases ob) (simp_all add: ai.all_read ao.all_read av.all_read bi.all_read bo.all_read
        bv.all_read msi.all_read nc.all_read tl.all_read sch.all_read dev.all_read)
next
  case (2 ob)
  then show ?case
    by (cases ob) (simp_all add: ai.all_distinct ao.all_distinct av.all_distinct bi.all_distinct
        bo.all_distinct bv.all_distinct msi.all_distinct nc.all_distinct tl.all_distinct
        sch.all_distinct dev.all_distinct)
next
  case (3 ob sys pid i)
  then show ?case
    by (cases ob) (simp_all add: ai.rd_no_panic ao.rd_no_panic av.rd_no_panic bi.rd_no_panic
        bo.rd_no_panic bv.rd_no_panic msi.rd_no_panic nc.rd_no_panic tl.rd_no_panic
        sch.rd_no_panic dev.rd_no_panic)
next
  case (4 ob now pid i v pr)
  then show ?case
    by (cases ob) (simp_all add: keeps_apsnd ai.wr_keeps ao.wr_keeps av.wr_keeps bi.wr_keeps
        bo.wr_keeps bv.wr_keeps msi.wr_keeps nc.wr_keeps tl.wr_keeps sch.wr_keeps dev.wr_keeps)
next
  case (5 now ob pid i v pr)
  then show ?case
    by (cases ob) (simp_all add: ai.wr_oid ao.wr_oid av.wr_oid bi.wr_oid bo.wr_oid bv.wr_oid
        msi.wr_oid nc.wr_oid tl.wr_oid sch.wr_oid dev.wr_oid)
next
  case (6 ob now pid i v pr)
  then show ?case
    by (cases ob) (simp_all add: ao.wr_ok bo.wr_ok msi.wr_ok tl.wr_ok sch.wr_ok)
next
  case (7 sys ob now)
  then show ?case
    by (cases ob) (simp_all add: ai.oos_restore ao.oos_restore av.oos_restore bi.oos_restore
        bo.oos_restore bv.oos_restore msi.oos_restore nc.oos_restore tl.oos_restore
        sch.oos_restore dev.oos_restore)
qed

lemma tl_tick_object_id: "tl_object_id (tl_tick now x) = tl_object_id x"
  by (simp add: tl_tick_def)

lemma obj_tick_ok:
  assumes "obj_ok ob"
  obtains ob' where "obj_tick sys now ob = Ok ob'" "obj_ok ob'" "obj_object_id ob' = obj_object_id ob"
proof (cases ob)
  case (Obj_Schedule x)
  with assms sch_tick_ok [of x sys] that show ?thesis by auto
qed (use assms that in \<open>simp_all add: tl_tick_ok tl_tick_object_id\<close>)

subsection \<open>Properties\<close>

text \<open>No write but one to it moves the flag, and a forced write lowers it where it raised it.\<close>

lemmas write_defs = ai_write_property_def ao_write_property_def av_write_property_def
  bi_write_property_def bo_write_property_def bv_write_property_def msi_write_property_def
  nc_write_property_def tl_write_property_def sch_write_property_def dev_write_property_def

lemmas read_defs = ai_read_property_def ao_read_property_def av_read_property_def
  bi_read_property_def bo_read_property_def bv_read_property_def msi_read_property_def
  nc_read_property_def tl_read_property_def sch_read_property_def dev_read_property_def

lemma obj_write_out_of_service:
  assumes "pid \<noteq> PID_OutOfService" and "obj_write_property now ob pid i v pr = (r, ob')"
  shows "obj_read_property sys ob' PID_OutOfService None = obj_read_property sys ob PID_OutOfService None"
proof -
  have "obj_read_property sys (snd (obj_write_property now ob pid i v pr)) PID_OutOfService None =
      obj_read_property sys ob PID_OutOfService None"
    using assms(1)
    by (cases ob) (simp_all add: write_defs read_defs snd_set_or bv_set_def Let_def
        split: option.split property_value.split)
  with assms(2) show ?thesis by simp
qed

lemma obj_lower_out_of_service:
  assumes "obj_read_property sys ob PID_OutOfService None \<noteq> Ok (PV_Boolean True)"
    and "obj_write_property now ob PID_OutOfService None (PV_Boolean True) None = (r, ob1)"
    and "obj_read_property sys ob2 PID_OutOfService None = obj_read_property sys ob1 PID_OutOfService None"
    and "obj_write_property now ob2 PID_OutOfService None (PV_Boolean False) None = (r', ob3)"
  shows "obj_read_property sys ob3 PID_OutOfService None = obj_read_property sys ob PID_OutOfService None"
proof -
  have "obj_read_property sys (snd (obj_write_property now ob2 PID_OutOfService None (PV_Boolean False) None))
      PID_OutOfService None = obj_read_property sys ob PID_OutOfService None"
    using assms(1) assms(3) [unfolded snd_conv [of r ob1, folded assms(2), symmetric]]
    by (cases ob; cases ob2) (simp_all add: write_defs read_defs boolean_of_def as_bool_def)
  with assms(4) show ?thesis by simp
qed

lemma obj_force_out_of_service:
  assumes "pid \<noteq> PID_OutOfService"
  shows "obj_read_property sys (snd (obj_force_write sys now ob pid v)) PID_OutOfService None =
    obj_read_property sys ob PID_OutOfService None"
proof -
  note pairs = prod.collapse [symmetric]
  let ?w = "\<lambda>ob. obj_write_property now ob pid None v None"
  let ?flag = "\<lambda>ob b. snd (obj_write_property now ob PID_OutOfService None (PV_Boolean b) None)"
  let ?oos = "\<lambda>ob. obj_read_property sys ob PID_OutOfService None"
  let ?o1 = "snd (?w ob)"
  have o1: "?oos ?o1 = ?oos ob" by (rule obj_write_out_of_service [OF assms pairs])
  have "?oos (?flag (snd (?w (?flag ?o1 True))) False) = ?oos ob" if "?oos ob \<noteq> Ok (PV_Boolean True)"
    using obj_lower_out_of_service [OF _ pairs obj_write_out_of_service [OF assms pairs] pairs, of sys ?o1]
      that o1 by simp
  with o1 show ?thesis
    by (cases "?w ob"; cases "fst (?w ob)")
      (auto simp: obj_force_write_def force_write_property_def Let_def case_prod_unfold)
qed

text \<open>
  C21. A write to an object of any of the eleven types either succeeds or is refused; it does not
  panic, a refused write leaves the object exactly as it was, and no write changes the object's
  identifier or breaks its representation invariant (16 priority slots, a state in range, a
  record count that agrees with the log, seven days in a schedule).
\<close>

theorem object_write_contract:
  assumes "obj_ok ob" and "obj_write_property now ob pid i v pr = (r, ob')"
  shows "r \<noteq> Panic \<and> (r \<noteq> Ok () \<longrightarrow> ob' = ob) \<and> obj_object_id ob' = obj_object_id ob \<and> obj_ok ob'"
proof -
  have "keeps ob (r, ob')" "obj_object_id ob' = obj_object_id ob" "obj_ok ob'"
    using assms objects.wr_keeps [of ob now pid i v pr] objects.wr_oid [of now ob pid i v pr]
      objects.wr_ok [of ob now pid i v pr] by simp_all
  then show ?thesis by (cases r) (auto simp: keeps_def)
qed

theorem object_write_contract_witness:
  "snd (obj_write_property 0 (Obj_AnalogOutput (ao_new 0 1 2 [] EU_NoUnits)) PID_PresentValue None
     (PV_Real 0) (Some 17)) = Obj_AnalogOutput (ao_new 0 1 2 [] EU_NoUnits)"
  (is "snd (obj_write_property 0 ?ob _ _ ?v _) = _")
proof -
  have r: "fst (obj_write_property 0 ?ob PID_PresentValue None ?v (Some 17)) \<noteq> Ok ()"
    by (simp add: ao_write_property_def)
  have "obj_ok ?ob" by (simp add: ao_new_ok)
  from object_write_contract [OF this prod.collapse [symmetric]] r show ?thesis by blast
qed

text \<open>
  The simulation's own write gets past the guard of the network write and changes nothing else:
  it never panics, leaves the object as it was when it fails, keeps identifier and invariant, puts
  the out-of-service flag back, and where the network write succeeds it is the network write.
\<close>

theorem force_write_contract:
  assumes "obj_ok ob" and "obj_force_write sys now ob pid v = (r, ob')"
  shows "r \<noteq> Panic \<and> (r \<noteq> Ok () \<longrightarrow> ob' = ob) \<and> obj_object_id ob' = obj_object_id ob \<and> obj_ok ob' \<and>
    (pid \<noteq> PID_OutOfService \<longrightarrow> obj_read_property sys ob' PID_OutOfService None =
      obj_read_property sys ob PID_OutOfService None) \<and>
    (fst (obj_write_property now ob pid None v None) = Ok () \<longrightarrow>
      (r, ob') = obj_write_property now ob pid None v None)"
proof -
  have "r \<noteq> Panic" "r \<noteq> Ok () \<longrightarrow> ob' = ob" "obj_object_id ob' = obj_object_id ob" "obj_ok ob'"
    using assms objects.force_no_panic [OF assms(1), of sys now pid v]
      objects.force_err_unchanged [OF assms(1), of sys now pid v]
      objects.force_oid [of sys now ob pid v] objects.force_ok [OF assms(1), of sys now pid v]
    by (auto simp: obj_force_write_def)
  moreover have "(r, ob') = obj_write_property now ob pid None v None"
    if "fst (obj_write_property now ob pid None v None) = Ok ()"
    using assms(2) that
    by (cases "obj_write_property now ob pid None v None")
      (auto simp: obj_force_write_def force_write_property_def)
  ultimately show ?thesis
    using obj_force_out_of_service [of pid sys now ob v] assms(2) by simp
qed

theorem force_write_contract_witness:
  "obj_read_property 0 (snd (obj_force_write 0 1 (Obj_AnalogInput (ai_new 0 1 2 [] EU_NoUnits))
     PID_PresentValue (PV_Real 0x41A80000))) PID_OutOfService None = Ok (PV_Boolean False)"
  (is "obj_read_property 0 (snd ?w) _ _ = _")
proof -
  have "obj_ok (Obj_AnalogInput (ai_new 0 1 2 [] EU_NoUnits))" by simp
  from force_write_contract [OF this prod.collapse [symmetric]]
  show ?thesis by (simp add: ai_new_def ai_read_property_def)
qed

end
