(* ===== verification/Store.thy ===== *)
theory Store
  imports Objects Hash_Map
begin

text \<open>
  \<^verbatim>\<open>crates/bacnet-object/src/store.rs\<close>: the sharded object store.

  A shard is the \<^verbatim>\<open>HashMap<(u64, u64), Box<dyn BacnetObject>>\<close> behind its lock, as a list of
  entries without repeated keys, in the order the map would be iterated.  The hash of
  \<^verbatim>\<open>rustc_hash\<close> is the argument \<open>fx\<close>: nothing here depends on what it computes.  A lock held for
  the length of an operation is an operation that reads or replaces the whole shard.
\<close>

type_synonym store_key = "u64 \<times> u64"
type_synonym shard = "(store_key \<times> bacnet_object) list"
type_synonym store = "shard list"
type_synonym hash_fn = "u64 \<Rightarrow> u64 \<Rightarrow> u64"

definition num_shards :: nat where
  "num_shards = 256"

definition obj_key :: "device_id \<Rightarrow> object_id \<Rightarrow> store_key" where
  "obj_key device oid =
     (ucast device, push_bit 22 (ucast (ot_code (oid_type oid))) OR ucast (oid_instance oid))"

definition shard_index :: "hash_fn \<Rightarrow> store_key \<Rightarrow> nat" where
  "shard_index fx k = unat (fx (fst k) (snd k)) mod num_shards"

definition shard_key :: "hash_fn \<Rightarrow> device_id \<Rightarrow> object_id \<Rightarrow> nat \<times> store_key" where
  "shard_key fx device oid = (shard_index fx (obj_key device oid), obj_key device oid)"

definition store_new :: store where
  "store_new = replicate num_shards []"

definition store_insert :: "hash_fn \<Rightarrow> device_id \<Rightarrow> bacnet_object \<Rightarrow> store \<Rightarrow> store" where
  "store_insert fx device ob st =
     (let (shard_idx, k) = shard_key fx device (obj_object_id ob)
      in st[shard_idx := hm_insert k ob (st ! shard_idx)])"

text \<open>\<^verbatim>\<open>bulk_insert\<close>: the objects are bucketed by shard, then each bucket goes in under one lock.\<close>

definition bucket :: "hash_fn \<Rightarrow> (device_id \<times> bacnet_object) list \<Rightarrow> nat \<Rightarrow> (store_key \<times> bacnet_object) list" where
  "bucket fx objs s =
     map (\<lambda>(dev, ob). (obj_key dev (obj_object_id ob), ob))
       (filter (\<lambda>(dev, ob). fst (shard_key fx dev (obj_object_id ob)) = s) objs)"

definition store_bulk_insert :: "hash_fn \<Rightarrow> (device_id \<times> bacnet_object) list \<Rightarrow> store \<Rightarrow> store" where
  "store_bulk_insert fx objs st =
     map (\<lambda>s. foldl (\<lambda>m (k, ob). hm_insert k ob m) (st ! s) (bucket fx objs s)) [0..<length st]"

definition store_count :: "store \<Rightarrow> nat" where
  "store_count st = sum_list (map length st)"

text \<open>\<^verbatim>\<open>get\<close> and the read through its guard; \<^verbatim>\<open>None\<close> where the key is absent.\<close>

definition store_get :: "hash_fn \<Rightarrow> store \<Rightarrow> device_id \<Rightarrow> object_id \<Rightarrow> bacnet_object option" where
  "store_get fx st device oid =
     (let (shard_idx, k) = shard_key fx device oid in map_of (st ! shard_idx) k)"

definition store_read ::
  "hash_fn \<Rightarrow> system_time \<Rightarrow> store \<Rightarrow> device_id \<Rightarrow> object_id \<Rightarrow> property_identifier \<Rightarrow> u32 option \<Rightarrow>
   property_value bres" where
  "store_read fx sys st device oid pid i =
     (case store_get fx st device oid of
        None \<Rightarrow> Err UnknownObject
      | Some ob \<Rightarrow> obj_read_property sys ob pid i)"

text \<open>The write guard: the object is replaced by the one its method leaves.\<close>

definition store_modify ::
  "hash_fn \<Rightarrow> store \<Rightarrow> device_id \<Rightarrow> object_id \<Rightarrow> (bacnet_object \<Rightarrow> unit bres \<times> bacnet_object) \<Rightarrow>
   unit bres \<times> store" where
  "store_modify fx st device oid f =
     (case store_get fx st device oid of
        None \<Rightarrow> (Err UnknownObject, st)
      | Some ob \<Rightarrow>
          (let (r, ob') = f ob; (shard_idx, k) = shard_key fx device oid
           in (r, st[shard_idx := hm_insert k ob' (st ! shard_idx)])))"

definition store_write ::
  "hash_fn \<Rightarrow> instant \<Rightarrow> store \<Rightarrow> device_id \<Rightarrow> object_id \<Rightarrow> property_identifier \<Rightarrow> u32 option \<Rightarrow>
   property_value \<Rightarrow> u8 option \<Rightarrow> unit bres \<times> store" where
  "store_write fx now st device oid pid i v pr =
     store_modify fx st device oid (\<lambda>ob. obj_write_property now ob pid i v pr)"

definition store_force_write ::
  "hash_fn \<Rightarrow> system_time \<Rightarrow> instant \<Rightarrow> store \<Rightarrow> device_id \<Rightarrow> object_id \<Rightarrow> property_identifier \<Rightarrow>
   property_value \<Rightarrow> unit bres \<times> store" where
  "store_force_write fx sys now st device oid pid v =
     store_modify fx st device oid (\<lambda>ob. obj_force_write sys now ob pid v)"

subsection \<open>Keys\<close>

definition oid_ok :: "object_id \<Rightarrow> bool" where
  "oid_ok oid \<longleftrightarrow> oid_instance oid < 2 ^ 22"

lemma ucast_u32_u64: "ucast (ucast x :: u64) = x" for x :: u32
  by (rule bit_word_eqI) (simp add: bit_simps)

lemma ot_code_inject: "ot_code a = ot_code b \<longleftrightarrow> a = b"
  by (cases a; cases b; simp)

lemma obj_key_inject:
  assumes "oid_ok a" and "oid_ok b"
  shows "obj_key d a = obj_key e b \<longleftrightarrow> d = e \<and> a = b"
proof
  assume eq: "obj_key d a = obj_key e b"
  let ?k = "\<lambda>oid. push_bit 22 (ucast (ot_code (oid_type oid))) OR ucast (oid_instance oid) :: u64"
  have i: "bit (oid_instance x) n \<Longrightarrow> n < 22" if "oid_ok x" for x n
    using that bit_bound [of "oid_instance x" 22 n] by (simp add: oid_ok_def)
  have t: "bit (ot_code x) n \<Longrightarrow> n < 6" for x n
    using bit_bound [of "ot_code x" 6 n] ot_code_less by simp
  have inst: "ucast (?k x AND mask 22) = oid_instance x" if "oid_ok x" for x
    by (rule bit_word_eqI) (auto simp: bit_simps dest: i [OF that])
  have ty: "ucast (drop_bit 22 (?k x)) = ot_code (oid_type x)" if "oid_ok x" for x
    by (rule bit_word_eqI) (auto simp: bit_simps dest: i [OF that] t)
  from eq have d: "d = e" by (metis obj_key_def fst_conv ucast_u32_u64)
  from eq have k: "?k a = ?k b" by (simp add: obj_key_def)
  have "oid_instance a = oid_instance b" using inst [OF assms(1)] inst [OF assms(2)] k by simp
  moreover have "oid_type a = oid_type b"
    using ty [OF assms(1)] ty [OF assms(2)] k ot_code_inject by simp
  ultimately show "d = e \<and> a = b" using d by simp
qed simp

subsection \<open>The store's invariant\<close>

text \<open>
  256 shards; every key is in the shard of its hash and once; the key is that of its object; the
  objects satisfy their own invariants.
\<close>

definition shard_ok :: "hash_fn \<Rightarrow> nat \<Rightarrow> shard \<Rightarrow> bool" where
  "shard_ok fx s m \<longleftrightarrow> hm_wf m \<and>
     (\<forall>(k, ob) \<in> set m. shard_index fx k = s \<and> obj_ok ob \<and> snd k = snd (obj_key 0 (obj_object_id ob)))"

definition store_ok :: "hash_fn \<Rightarrow> store \<Rightarrow> bool" where
  "store_ok fx st \<longleftrightarrow> length st = num_shards \<and> (\<forall>s < num_shards. shard_ok fx s (st ! s))"

lemma shard_index_less: "shard_index fx k < num_shards"
  by (simp add: shard_index_def num_shards_def)

lemma store_new_ok: "store_ok fx store_new"
  by (simp add: store_ok_def store_new_def shard_ok_def)

lemma obj_key_snd: "snd (obj_key d oid) = snd (obj_key e oid)"
  by (simp add: obj_key_def)

lemma store_put_ok:
  assumes "store_ok fx st" and "obj_ok ob"
  shows "store_ok fx (st[shard_index fx (obj_key d (obj_object_id ob)) :=
    hm_insert (obj_key d (obj_object_id ob)) ob (st ! shard_index fx (obj_key d (obj_object_id ob)))])"
proof -
  let ?k = "obj_key d (obj_object_id ob)"
  let ?s = "shard_index fx ?k"
  have s: "?s < num_shards" by (rule shard_index_less)
  then have "shard_ok fx ?s (st ! ?s)" using assms(1) by (simp add: store_ok_def)
  then have "shard_ok fx ?s (hm_insert ?k ob (st ! ?s))"
    using set_hm_insert [of ?k ob "st ! ?s"] assms(2) obj_key_snd [of d "obj_object_id ob" 0]
    by (auto simp: shard_ok_def)
  with s assms(1) show ?thesis
    by (auto simp: store_ok_def nth_list_update)
qed

lemma store_insert_ok: "store_ok fx st \<Longrightarrow> obj_ok ob \<Longrightarrow> store_ok fx (store_insert fx d ob st)"
  using store_put_ok [of fx st ob d] by (simp add: store_insert_def shard_key_def)

lemma store_get_shard:
  assumes "store_ok fx st" and "store_get fx st d oid = Some ob"
  shows "(obj_key d oid, ob) \<in> set (st ! shard_index fx (obj_key d oid))" and "obj_ok ob"
    and "snd (obj_key d oid) = snd (obj_key d (obj_object_id ob))"
proof -
  let ?s = "shard_index fx (obj_key d oid)"
  show m: "(obj_key d oid, ob) \<in> set (st ! ?s)"
    using assms(2) by (auto simp: store_get_def shard_key_def dest: map_of_SomeD)
  have "shard_ok fx ?s (st ! ?s)"
    using assms(1) shard_index_less by (simp add: store_ok_def)
  with m show "obj_ok ob" and "snd (obj_key d oid) = snd (obj_key d (obj_object_id ob))"
    using obj_key_snd [of 0 "obj_object_id ob" d] by (auto simp: shard_ok_def)
qed

lemma store_modify_ok:
  assumes "store_ok fx st"
    and "\<And>ob. obj_ok ob \<Longrightarrow> obj_ok (snd (f ob)) \<and> obj_object_id (snd (f ob)) = obj_object_id ob"
  shows "store_ok fx (snd (store_modify fx st d oid f))"
proof (cases "store_get fx st d oid")
  case (Some ob)
  note g = store_get_shard [OF assms(1) Some]
  let ?o = "snd (f ob)"
  have "obj_ok ?o" "obj_object_id ?o = obj_object_id ob" using assms(2) [OF g(2)] by auto
  then have "obj_key d (obj_object_id ?o) = obj_key d oid"
    using g(3) by (simp add: obj_key_def)
  then show ?thesis
    using store_put_ok [OF assms(1) \<open>obj_ok ?o\<close>, of d] Some
    by (simp add: store_modify_def shard_key_def case_prod_unfold Let_def)
qed (simp add: store_modify_def assms(1))

subsection \<open>The store's contract\<close>

text \<open>
  What the services and engines rely on: inserting and writing are seen at the object itself and
  nowhere else.
\<close>

locale object_store =
  fixes get :: "'st \<Rightarrow> device_id \<Rightarrow> object_id \<Rightarrow> bacnet_object option"
    and ins :: "device_id \<Rightarrow> bacnet_object \<Rightarrow> 'st \<Rightarrow> 'st"
    and modify :: "'st \<Rightarrow> device_id \<Rightarrow> object_id \<Rightarrow> (bacnet_object \<Rightarrow> unit bres \<times> bacnet_object) \<Rightarrow>
      unit bres \<times> 'st"
    and ok :: "'st \<Rightarrow> bool"
  assumes get_ins: "ok st \<Longrightarrow> oid_ok (obj_object_id ob) \<Longrightarrow> oid_ok oid \<Longrightarrow>
      get (ins d ob st) e oid = (if e = d \<and> oid = obj_object_id ob then Some ob else get st e oid)"
    and modify_absent: "get st d oid = None \<Longrightarrow> modify st d oid f = (Err UnknownObject, st)"
    and modify_result: "get st d oid = Some ob \<Longrightarrow> fst (modify st d oid f) = fst (f ob)"
    and get_modify: "ok st \<Longrightarrow> get st d oid = Some ob \<Longrightarrow> oid_ok oid \<Longrightarrow> oid_ok oid' \<Longrightarrow>
      get (snd (modify st d oid f)) e oid' =
        (if e = d \<and> oid' = oid then Some (snd (f ob)) else get st e oid')"
    and ok_ins: "ok st \<Longrightarrow> obj_ok ob \<Longrightarrow> ok (ins d ob st)"
    and ok_modify: "ok st \<Longrightarrow>
      (\<And>ob. obj_ok ob \<Longrightarrow> obj_ok (snd (f ob)) \<and> obj_object_id (snd (f ob)) = obj_object_id ob) \<Longrightarrow>
      ok (snd (modify st d oid f))"
    and get_ok: "ok st \<Longrightarrow> get st d oid = Some ob \<Longrightarrow> obj_ok ob"
begin

text \<open>A failed write leaves every object as it was, and a write to one object no other changed.\<close>

lemma modify_other:
  assumes "ok st" and "oid_ok oid" and "oid_ok oid'" and "(e, oid') \<noteq> (d, oid)"
  shows "get (snd (modify st d oid f)) e oid' = get st e oid'"
  using assms modify_absent [of st d oid f] get_modify [of st d oid _ oid' f e]
  by (cases "get st d oid") auto

lemma modify_err:
  assumes "ok st" and "oid_ok oid" and "oid_ok oid'" and "\<And>ob. obj_ok ob \<Longrightarrow> keeps ob (f ob)"
    and "fst (modify st d oid f) \<noteq> Ok ()"
  shows "get (snd (modify st d oid f)) e oid' = get st e oid'"
proof (cases "get st d oid")
  case (Some ob)
  then have "keeps ob (f ob)" using assms(1,4) get_ok by blast
  moreover have "fst (f ob) \<noteq> Ok ()" using assms(5) modify_result [OF Some] by simp
  ultimately have "snd (f ob) = ob" by (cases "fst (f ob)") (auto simp: keeps_def)
  then show ?thesis using get_modify [OF assms(1) Some assms(2,3)] Some by auto
qed (simp add: modify_absent)

text \<open>The last of two writes to one object is the one that is read.\<close>

lemma modify_modify:
  assumes "ok st" and "oid_ok oid" and "get st d oid = Some ob"
    and "\<And>ob. obj_ok ob \<Longrightarrow> obj_ok (snd (f ob)) \<and> obj_object_id (snd (f ob)) = obj_object_id ob"
  shows "get (snd (modify (snd (modify st d oid f)) d oid g)) d oid = Some (snd (g (snd (f ob))))"
proof -
  have "get (snd (modify st d oid f)) d oid = Some (snd (f ob))"
    using get_modify [OF assms(1,3,2,2)] by simp
  then show ?thesis
    using get_modify [OF ok_modify [OF assms(1,4)] _ assms(2,2)] by simp
qed

end

lemma store_get_put:
  assumes "store_ok fx st" and "oid_ok oid" and "oid_ok oid'"
  shows "store_get fx (st[shard_index fx (obj_key d oid) :=
      hm_insert (obj_key d oid) ob (st ! shard_index fx (obj_key d oid))]) e oid' =
    (if e = d \<and> oid' = oid then Some ob else store_get fx st e oid')"
proof -
  have "length st = num_shards" using assms(1) by (simp add: store_ok_def)
  then show ?thesis
    using obj_key_inject [OF assms(3,2), of e d] shard_index_less [of fx "obj_key d oid"]
    by (auto simp: store_get_def shard_key_def nth_list_update)
qed

interpretation objstore: object_store "store_get fx" "store_insert fx" "store_modify fx" "store_ok fx" for fx
proof (unfold_locales, goal_cases)
  case (1 st ob oid d e)
  then show ?case
    using store_get_put [of fx st "obj_object_id ob" oid d ob e]
    by (simp add: store_insert_def shard_key_def)
next
  case (2 st d oid f)
  then show ?case by (simp add: store_modify_def)
next
  case (3 st d oid ob f)
  then show ?case by (simp add: store_modify_def shard_key_def case_prod_unfold Let_def)
next
  case (4 st d oid ob oid' f e)
  then show ?case
    using store_get_put [of fx st oid oid' d "snd (f ob)" e]
    by (simp add: store_modify_def shard_key_def case_prod_unfold Let_def)
next
  case (5 st ob d)
  then show ?case by (rule store_insert_ok)
next
  case (6 st f d oid)
  then show ?case by (rule store_modify_ok)
next
  case (7 st d oid ob)
  then show ?case by (rule store_get_shard(2))
qed

subsection \<open>Bulk insertion and the count\<close>

definition store_insert_all :: "hash_fn \<Rightarrow> (device_id \<times> bacnet_object) list \<Rightarrow> store \<Rightarrow> store" where
  "store_insert_all fx objs st = foldl (\<lambda>st (d, ob). store_insert fx d ob st) st objs"

lemma length_store_insert [simp]: "length (store_insert fx d ob st) = length st"
  by (simp add: store_insert_def shard_key_def)

lemma nth_store_insert:
  assumes "s < length st" and "length st = num_shards"
  shows "store_insert fx d ob st ! s =
    foldl (\<lambda>m (k, ob). hm_insert k ob m) (st ! s) (bucket fx [(d, ob)] s)"
  using assms by (auto simp: store_insert_def shard_key_def bucket_def nth_list_update)

lemma bucket_Cons: "bucket fx (p # objs) s = bucket fx [p] s @ bucket fx objs s"
  by (simp add: bucket_def)

text \<open>Bucketing by shard changes nothing but the number of times a lock is taken.\<close>

lemma bulk_insert_eq_inserts:
  assumes "length st = num_shards"
  shows "store_bulk_insert fx objs st = store_insert_all fx objs st"
proof -
  have "length (store_insert_all fx objs st) = length st \<and>
      (\<forall>s < length st. store_insert_all fx objs st ! s =
        foldl (\<lambda>m (k, ob). hm_insert k ob m) (st ! s) (bucket fx objs s))"
    using assms
  proof (induction objs arbitrary: st)
    case Nil
    then show ?case by (simp add: store_insert_all_def bucket_def)
  next
    case (Cons p objs)
    obtain d ob where p: "p = (d, ob)" by (cases p)
    let ?st = "store_insert fx d ob st"
    have all: "store_insert_all fx (p # objs) st = store_insert_all fx objs ?st"
      by (simp add: store_insert_all_def p)
    show ?case
      unfolding all using Cons.IH [of ?st] Cons.prems
      by (simp add: bucket_Cons [of fx "(d, ob)" objs] p nth_store_insert)
  qed
  then show ?thesis
    by (auto simp: store_bulk_insert_def intro!: nth_equalityI)
qed

lemma store_insert_all_ok:
  "store_ok fx st \<Longrightarrow> \<forall>(d, ob) \<in> set objs. obj_ok ob \<Longrightarrow> store_ok fx (store_insert_all fx objs st)"
  by (induction objs arbitrary: st) (auto simp: store_insert_all_def store_insert_ok)

lemma sum_list_update_nat:
  "i < length xs \<Longrightarrow> sum_list (xs[i := (y :: nat)]) + xs ! i = sum_list xs + y"
  by (induction xs arbitrary: i) (auto split: nat.split)

lemma store_count_insert:
  assumes "store_ok fx st"
  shows "store_count (store_insert fx d ob st) =
    store_count st + (if store_get fx st d (obj_object_id ob) = None then 1 else 0)"
proof -
  let ?k = "obj_key d (obj_object_id ob)"
  let ?s = "shard_index fx ?k"
  have s: "?s < length st" using assms shard_index_less by (simp add: store_ok_def)
  have "store_count (store_insert fx d ob st) + length (st ! ?s) =
      store_count st + length (hm_insert ?k ob (st ! ?s))"
    using sum_list_update_nat [of ?s "map length st" "length (hm_insert ?k ob (st ! ?s))"] s
    by (simp add: store_count_def store_insert_def shard_key_def map_update)
  then show ?thesis
    by (simp add: length_hm_insert store_get_def shard_key_def split: if_splits)
qed

subsection \<open>Properties\<close>

text \<open>
  Inserting an object makes it, and only it, what a lookup of its device and identifier finds:
  every other object of every device is found as before, whatever shard the hash sends it to; the
  count grows by one exactly if the place was free, and the store stays consistent.
\<close>

theorem store_insert_lookup:
  assumes "store_ok fx st" and "obj_ok ob" and "oid_ok (obj_object_id ob)" and "oid_ok oid"
  shows "store_get fx (store_insert fx d ob st) e oid =
      (if e = d \<and> oid = obj_object_id ob then Some ob else store_get fx st e oid) \<and>
    store_count (store_insert fx d ob st) =
      store_count st + (if store_get fx st d (obj_object_id ob) = None then 1 else 0) \<and>
    store_ok fx (store_insert fx d ob st)"
  using assms objstore.get_ins store_count_insert objstore.ok_ins by simp

theorem store_insert_lookup_witness:
  "store_get (\<lambda>a b. a XOR b) (store_insert (\<lambda>a b. a XOR b) 7 (Obj_Device (dev_new 7 [])) store_new) 7
     \<lparr>oid_type = OT_Device, oid_instance = 7\<rparr> = Some (Obj_Device (dev_new 7 []))"
proof -
  have "oid_ok \<lparr>oid_type = OT_Device, oid_instance = 7\<rparr>" by (simp add: oid_ok_def)
  with store_insert_lookup [OF store_new_ok, of "Obj_Device (dev_new 7 [])"
      "\<lparr>oid_type = OT_Device, oid_instance = 7\<rparr>" "\<lambda>a b. a XOR b" 7 7]
  show ?thesis by (simp add: dev_object_id_def device_oid_def dev_new_def)
qed

text \<open>
  The bulk insertion, which sorts the objects into shards first so that each shard is locked
  once, leaves the same store as inserting the objects one after the other; for two objects with
  one key the later wins in both.
\<close>

theorem bulk_insert_refines_inserts:
  assumes "length st = num_shards"
  shows "store_bulk_insert fx objs st = store_insert_all fx objs st"
  using assms by (rule bulk_insert_eq_inserts)

theorem bulk_insert_refines_inserts_witness:
  "store_bulk_insert (\<lambda>a b. a) [(1, Obj_Device (dev_new 1 [])), (2, Obj_Device (dev_new 2 []))] store_new =
   store_insert_all (\<lambda>a b. a) [(1, Obj_Device (dev_new 1 [])), (2, Obj_Device (dev_new 2 []))] store_new"
  by (rule bulk_insert_refines_inserts) (simp add: store_new_def)

end
