(* ===== verification/Float64.thy ===== *)
theory Float64
  imports Float32
begin

text \<open>
  Arithmetic on \<^verbatim>\<open>f64\<close>, built like that on \<^verbatim>\<open>f32\<close>: exact integers in units of \<open>2 ^ -(1074 + k)\<close>,
  rounded once to nearest with ties to even; \<^verbatim>\<open>f32::clamp\<close>; and what negation does to the fields
  of an \<^verbatim>\<open>f32\<close>.
\<close>

definition f64_is_inf :: "f64 \<Rightarrow> bool" where
  "f64_is_inf w \<longleftrightarrow> f64_exp w = 2047 \<and> f64_frac w = 0"

definition f64_lt :: "f64 \<Rightarrow> f64 \<Rightarrow> bool" where
  "f64_lt a b \<longleftrightarrow> \<not> f64_is_nan a \<and> \<not> f64_is_nan b \<and> f64_ord a < f64_ord b"

definition f64_shift :: "nat \<Rightarrow> nat \<Rightarrow> nat" where
  "f64_shift k m = (if bit_len m \<le> k + 53 then k else bit_len m - 53)"

definition f64_round :: "bool \<Rightarrow> nat \<Rightarrow> nat \<Rightarrow> f64" where
  "f64_round neg k m =
     (let s = f64_shift k m
      in (if neg then 2 ^ 63 else 0) +
         word_of_nat (min (2047 * 2 ^ 52) (round_half_even m s + (s - k) * 2 ^ 52)))"

definition f64_nan :: f64 where
  "f64_nan = 0x7FF8000000000000"

definition f64_inf :: "bool \<Rightarrow> f64" where
  "f64_inf neg = (if neg then 0xFFF0000000000000 else 0x7FF0000000000000)"

definition f64_neg :: "f64 \<Rightarrow> f64" where
  "f64_neg w = w XOR 0x8000000000000000"

definition f64_add :: "f64 \<Rightarrow> f64 \<Rightarrow> f64" where
  "f64_add a b =
     (if f64_is_nan a \<or> f64_is_nan b then f64_nan
      else if f64_is_inf a then
        (if f64_is_inf b \<and> f64_sign a \<noteq> f64_sign b then f64_nan else a)
      else if f64_is_inf b then b
      else let s = f64_ord a + f64_ord b
           in if s = 0 then (if f64_sign a \<and> f64_sign b then 0x8000000000000000 else 0)
              else f64_round (s < 0) 0 (nat \<bar>s\<bar>))"

definition f64_sub :: "f64 \<Rightarrow> f64 \<Rightarrow> f64" where
  "f64_sub a b = f64_add a (f64_neg b)"

definition f64_mul :: "f64 \<Rightarrow> f64 \<Rightarrow> f64" where
  "f64_mul a b =
     (let neg = (f64_sign a \<noteq> f64_sign b)
      in if f64_is_nan a \<or> f64_is_nan b then f64_nan
         else if f64_is_inf a then (if f64_mag b = 0 then f64_nan else f64_inf neg)
         else if f64_is_inf b then (if f64_mag a = 0 then f64_nan else f64_inf neg)
         else f64_round neg 1074 (f64_mag a * f64_mag b))"

text \<open>
  The quotient in units of \<open>2 ^ -(1074 + 61)\<close>: 60 bits below the least subnormal and a last bit that
  says whether anything was cut off, which is all rounding needs to know of the rest.
\<close>

definition f64_div :: "f64 \<Rightarrow> f64 \<Rightarrow> f64" where
  "f64_div a b =
     (let neg = (f64_sign a \<noteq> f64_sign b); n = f64_mag a * 2 ^ 1134
      in if f64_is_nan a \<or> f64_is_nan b then f64_nan
         else if f64_is_inf a then (if f64_is_inf b then f64_nan else f64_inf neg)
         else if f64_is_inf b then f64_round neg 0 0
         else if f64_mag b = 0 then (if f64_mag a = 0 then f64_nan else f64_inf neg)
         else f64_round neg 61 (2 * (n div f64_mag b) + (if n mod f64_mag b = 0 then 0 else 1)))"

definition f64_max :: "f64 \<Rightarrow> f64 \<Rightarrow> f64" where
  "f64_max a b = (if f64_is_nan a then b else if f64_is_nan b then a
                  else if f64_lt a b then b else a)"

text \<open>\<^verbatim>\<open>f32::clamp\<close> asserts \<^verbatim>\<open>min <= max\<close>, which a NaN bound fails; a NaN value stays.\<close>

definition f32_clamp :: "f32 \<Rightarrow> f32 \<Rightarrow> f32 \<Rightarrow> (f32, 'e) rres" where
  "f32_clamp x lo hi =
     (if \<not> f32_ge hi lo then Panic
      else let y = if f32_lt x lo then lo else x in Ok (if f32_lt hi y then hi else y))"

lemma f32_clamp_eq_Panic: "f32_clamp x lo hi = Panic \<longleftrightarrow> \<not> f32_ge hi lo"
  by (simp add: f32_clamp_def Let_def)

lemma f32_clamp_bounds:
  assumes "f32_clamp x lo hi = Ok y"
  shows "f32_is_nan y \<and> f32_is_nan x \<or> f32_ge y lo \<and> f32_ge hi y"
  using assms by (auto simp: f32_clamp_def f32_ge_def f32_lt_def Let_def split: if_splits)

lemma f32_neg_fields [simp]:
  "f32_exp (f32_neg w) = f32_exp w" "f32_frac (f32_neg w) = f32_frac w"
  "f32_sign (f32_neg w) \<longleftrightarrow> \<not> f32_sign w"
proof -
  have c: "take_bit 8 (drop_bit 23 0x80000000) = (0 :: f32)" "take_bit 23 0x80000000 = (0 :: f32)"
    "bit (0x80000000 :: f32) 31" by code_simp+
  show "f32_exp (f32_neg w) = f32_exp w" "f32_frac (f32_neg w) = f32_frac w"
    "f32_sign (f32_neg w) \<longleftrightarrow> \<not> f32_sign w"
    unfolding f32_exp_def f32_frac_def f32_sign_def f32_neg_def drop_bit_xor take_bit_xor
    by (simp_all add: c bit_xor_iff)
qed

lemma f32_sub_self: "f32_exp x < 255 \<Longrightarrow> f32_sub x x = 0"
  by (simp add: f32_sub_def f32_add_def f32_is_nan_def f32_is_inf_def f32_ord_def f32_mag_def Let_def)

lemma f32_abs_sub_self: "f32_exp x < 255 \<Longrightarrow> f32_abs (f32_sub x x) = 0"
  by (simp add: f32_sub_self f32_abs_def)

lemma f32_ge_0_0 [simp]: "f32_ge 0 0"
  by code_simp

text \<open>The definitions that compute an \<^verbatim>\<open>f32\<close> expression of numerals.\<close>

lemmas f32_eval = f32_sub_def f32_add_def f32_neg_def f32_abs_def f32_is_nan_def f32_is_inf_def
  f32_exp_nat f32_frac_nat f32_sign_nat f32_ord_def f32_mag_def f32_round_def f32_round_mag_def
  f32_shift_def bit_len_pos round_half_even_def f32_lt_def f32_ge_def f32_eq_def Let_def

end
