(* ===== verification/Rounding.thy ===== *)
theory Rounding
  imports Float64
begin

text \<open>
  Rounding to \<^verbatim>\<open>f32\<close> keeps the order of numbers, so a comparison of a rounded difference with a float
  follows from the comparison of the exact one.
\<close>

lemma round_half_even_mono:
  assumes "m \<le> n"
  shows "round_half_even m s \<le> round_half_even n s"
proof -
  let ?up = "\<lambda>m. 2 ^ s < 2 * (m mod 2 ^ s) \<or> (2 * (m mod 2 ^ s) = 2 ^ s \<and> odd (m div 2 ^ s))"
  have eq: "round_half_even m s = m div 2 ^ s + (if ?up m then 1 else 0)" for m
    by (simp add: round_half_even_def Let_def)
  have le: "m div 2 ^ s \<le> n div 2 ^ s" using assms by (rule div_le_mono)
  show ?thesis
  proof (cases "m div 2 ^ s = n div 2 ^ s")
    case True
    have "m mod 2 ^ s \<le> n mod 2 ^ s"
      using assms True div_mult_mod_eq [of m "2 ^ s"] div_mult_mod_eq [of n "2 ^ s"] by (metis add_le_cancel_left)
    with True have "?up m \<longrightarrow> ?up n" by auto
    with True show ?thesis by (simp add: eq)
  next
    case False
    with le show ?thesis by (simp add: eq)
  qed
qed

lemma bit_len_mono: "m \<le> n \<Longrightarrow> bit_len m \<le> bit_len n"
  using less_2_power_bit_len [of n] by (intro bit_len_le) simp

lemma bit_len_lower: "0 < m \<Longrightarrow> 2 ^ (bit_len m - 1) \<le> m"
  using bit_len_le [of m "bit_len m - 1"] power_le_bit_len [of 0 m] by (cases "2 ^ (bit_len m - 1) \<le> m") auto

text \<open>The bits before the cap: linear in the exponent, so they grow from one binade to the next.\<close>

lemma f32_round_mag_mono:
  assumes "m \<le> n"
  shows "f32_round_mag k m \<le> f32_round_mag k n"
proof -
  let ?f = "\<lambda>m. round_half_even m (f32_shift k m) + (f32_shift k m - k) * 2 ^ 23"
  have le: "f32_shift k m \<le> f32_shift k n"
    using bit_len_mono [OF assms] by (auto simp: f32_shift_def diff_le_mono)
  have "?f m \<le> ?f n"
  proof (cases "f32_shift k m = f32_shift k n")
    case True
    then show ?thesis using round_half_even_mono [OF assms] by simp
  next
    case False
    have "m < 2 ^ (f32_shift k m + 24)"
    proof (rule less_le_trans [OF less_2_power_bit_len])
      show "(2::nat) ^ bit_len m \<le> 2 ^ (f32_shift k m + 24)" by (intro power_increasing) (auto simp: f32_shift_def)
    qed
    then have "m \<le> 2 ^ 24 * 2 ^ f32_shift k m" by (simp add: power_add mult.commute)
    from round_half_even_mono [OF this, of "f32_shift k m"]
    have upper: "round_half_even m (f32_shift k m) \<le> 2 ^ 24" unfolding round_half_even_exact .
    from False le have s: "k \<le> f32_shift k m" "f32_shift k m < f32_shift k n" by (auto simp: f32_shift_def)
    then have n: "24 < bit_len n" "f32_shift k n = bit_len n - 24"
      by (auto simp: f32_shift_def split: if_splits)
    then have "2 ^ 23 * 2 ^ f32_shift k n \<le> n"
      using bit_len_lower [of n] power_add [of "2::nat" 23 "bit_len n - 24"] by (cases "n = 0") (auto simp: algebra_simps)
    from round_half_even_mono [OF this, of "f32_shift k n"]
    have lower: "2 ^ 23 \<le> round_half_even n (f32_shift k n)" unfolding round_half_even_exact .
    have "?f m \<le> (f32_shift k m - k + 2) * 2 ^ 23" using upper by simp
    also have "\<dots> \<le> (f32_shift k n - k + 1) * 2 ^ 23" using s by simp
    also have "\<dots> \<le> ?f n" using lower by simp
    finally show ?thesis .
  qed
  then show ?thesis by (simp add: f32_round_mag_def Let_def min_le_iff_disj)
qed

lemma bit_len_scaled: "0 < m \<Longrightarrow> bit_len (m * 2 ^ k) = bit_len m + k"
  by (induction k) (simp_all add: bit_len_pos [of "_ * _"] mult.left_commute [of _ 2] del: bit_len_0)

lemma round_half_even_scaled: "round_half_even (m * 2 ^ k) (s + k) = round_half_even m s"
proof -
  have "m * 2 ^ k div 2 ^ (s + k) = m div 2 ^ s" "m * 2 ^ k mod 2 ^ (s + k) = m mod 2 ^ s * 2 ^ k"
    by (simp_all add: power_add mod_mult_mult2)
  then show ?thesis by (simp add: round_half_even_def Let_def power_add)
qed

lemma f32_round_mag_scaled: "f32_round_mag k (m * 2 ^ k) = f32_round_mag 0 m"
proof (cases "m = 0")
  case False
  then have "f32_shift k (m * 2 ^ k) = f32_shift 0 m + k"
    by (auto simp: f32_shift_def bit_len_scaled)
  then show ?thesis by (simp add: f32_round_mag_def Let_def round_half_even_scaled)
qed (simp add: f32_round_mag_def f32_shift_def round_half_even_def Let_def)

lemma f32_exp_le: "f32_exp w \<le> 255"
  using f32_exp_less [of w] by linarith

lemma f32_ord_0 [simp]: "f32_ord 0 = 0" "\<not> f32_is_nan 0"
  by (simp_all add: f32_is_nan_def f32_ord_def f32_mag_def f32_exp_def f32_frac_def)

definition f32_bits :: "f32 \<Rightarrow> nat" where
  "f32_bits w = f32_exp w * 2 ^ 23 + f32_frac w"

lemma f32_bits_mag_mono:
  assumes "f32_bits a \<le> f32_bits b"
  shows "f32_mag a \<le> f32_mag b"
proof (cases "f32_exp a = f32_exp b")
  case True
  with assms show ?thesis by (simp add: f32_bits_def f32_mag_def)
next
  case False
  have "f32_exp a < f32_exp b"
  proof (rule ccontr)
    assume "\<not> f32_exp a < f32_exp b"
    with False have "Suc (f32_exp b) * 2 ^ 23 \<le> f32_exp a * 2 ^ 23" by simp
    with assms f32_frac_less [of b] show False by (simp add: f32_bits_def)
  qed
  then obtain d where d: "f32_exp b = Suc (f32_exp a + d)" using less_iff_Suc_add by auto
  have "f32_mag a \<le> 2 ^ 24 * 2 ^ (f32_exp a - 1)"
  proof (cases "f32_exp a")
    case 0
    then show ?thesis using f32_frac_less [of a] by (simp add: f32_mag_def)
  next
    case (Suc e)
    have "2 ^ 23 + f32_frac a \<le> 2 ^ 24" using f32_frac_less [of a] by simp
    then show ?thesis by (simp add: f32_mag_def Suc)
  qed
  moreover have "2 ^ 24 * 2 ^ (f32_exp a - 1) \<le> f32_mag b \<or> f32_exp a = 0"
  proof (cases "f32_exp a")
    case (Suc e)
    have "(2::nat) ^ 24 * 2 ^ e \<le> 2 ^ 23 * 2 ^ (f32_exp a + d)" by (simp add: Suc power_add)
    also have "\<dots> \<le> f32_mag b" by (simp add: f32_mag_def d)
    finally show ?thesis by (simp add: Suc)
  qed simp
  moreover have "f32_mag a \<le> f32_mag b" if "f32_exp a = 0"
  proof -
    have "f32_mag a \<le> 2 ^ 23 * 1" using f32_frac_less [of a] that by (simp add: f32_mag_def)
    also have "\<dots> \<le> 2 ^ 23 * 2 ^ (f32_exp a + d)" by (intro mult_le_mono2) simp
    also have "\<dots> \<le> f32_mag b" by (simp add: f32_mag_def d)
    finally show ?thesis .
  qed
  ultimately show ?thesis by auto
qed

lemma f32_round_mag_number:
  assumes "\<not> f32_is_nan w"
  shows "f32_round_mag 0 (f32_mag w) = f32_bits w"
proof (cases "f32_exp w < 255")
  case True
  then show ?thesis by (simp add: f32_round_mag_mag f32_bits_def)
next
  case False
  with assms f32_exp_le [of w] have w: "f32_exp w = 255" "f32_frac w = 0" by (auto simp: f32_is_nan_def)
  have m: "f32_mag w = 2 ^ 23 * 2 ^ 254" by (simp only: f32_mag_def w) simp
  have "bit_len (f32_mag w) = Suc 277" unfolding m by (rule bit_len_eq) simp_all
  then have s: "f32_shift 0 (f32_mag w) = 254" by (simp add: f32_shift_def)
  have "round_half_even (f32_mag w) 254 = 2 ^ 23" unfolding m by (rule round_half_even_exact)
  then show ?thesis by (simp only: f32_round_mag_def s Let_def f32_bits_def w) simp
qed

lemma f32_abs_fields:
  "f32_exp (f32_abs w) = f32_exp w" "f32_frac (f32_abs w) = f32_frac w" "\<not> f32_sign (f32_abs w)"
proof -
  have m: "(0x7FFFFFFF :: f32) = mask 31" by (simp add: mask_eq_exp_minus_1)
  have "take_bit 8 (drop_bit 23 (w AND mask 31)) = take_bit 8 (drop_bit 23 w)"
    "take_bit 23 (w AND mask 31) = take_bit 23 w"
    by (rule bit_word_eqI; auto simp: bit_simps)+
  then show "f32_exp (f32_abs w) = f32_exp w" "f32_frac (f32_abs w) = f32_frac w"
    unfolding f32_abs_def m f32_exp_def f32_frac_def by simp_all
  show "\<not> f32_sign (f32_abs w)" unfolding f32_abs_def m f32_sign_def by (simp add: bit_simps)
qed

lemma f32_round_fields:
  "f32_bits (f32_round neg k m) = f32_round_mag k m" "\<not> f32_is_nan (f32_round neg k m)"
proof -
  let ?p = "f32_round_mag k m"
  have p: "?p \<le> 255 * 2 ^ 23" by (simp add: f32_round_mag_def Let_def)
  have "unat (f32_round neg k m) = (if neg then 2 ^ 31 else 0) + ?p"
    using p by (simp add: f32_round_def unat_word_ariths unsigned_of_nat take_bit_nat_eq_self)
  then have u: "unat (f32_round neg k m) mod 2 ^ 31 = ?p" using p by simp
  have bits: "f32_bits w = unat w mod 2 ^ 31" for w
  proof -
    have "f32_frac w + f32_exp w * 2 ^ 23 < 2 ^ 31" using f32_frac_less [of w] f32_exp_le [of w] by simp
    then show ?thesis unfolding f32_fields [of w] by (simp add: f32_bits_def le_mod_geq)
  qed
  show *: "f32_bits (f32_round neg k m) = ?p" unfolding bits u ..
  show "\<not> f32_is_nan (f32_round neg k m)"
    using p * by (auto simp: f32_is_nan_def f32_bits_def)
qed

text \<open>If the exact difference of two numbers reaches a third, so does the rounded one.\<close>

lemma f32_neg_number: "f32_is_nan (f32_neg w) \<longleftrightarrow> f32_is_nan w" "f32_is_inf (f32_neg w) \<longleftrightarrow> f32_is_inf w"
    "f32_ord (f32_neg w) = - f32_ord w" "f32_sign (f32_neg w) \<longleftrightarrow> \<not> f32_sign w"
  by (simp_all add: f32_is_nan_def f32_is_inf_def f32_ord_def f32_mag_def f32_neg_fields)

lemma f32_ge_abs:
  assumes "\<not> f32_is_nan d" and "\<not> f32_is_nan i" and "f32_sign i \<or> f32_bits i \<le> f32_bits d"
  shows "f32_ge (f32_abs d) i"
proof -
  have "\<not> f32_is_nan (f32_abs d)" using assms(1) by (simp add: f32_is_nan_def f32_abs_fields)
  moreover have "f32_ord i \<le> f32_ord (f32_abs d)"
    using assms(3) f32_bits_mag_mono [of i d] by (auto simp: f32_ord_def f32_abs_fields f32_mag_def)
  ultimately show ?thesis using assms(2) by (simp add: f32_ge_def)
qed

lemma f32_bits_inf: "f32_is_inf w \<Longrightarrow> \<not> f32_is_nan i \<Longrightarrow> f32_bits i \<le> f32_bits w"
  using f32_exp_le [of i] f32_frac_less [of i]
  by (cases "f32_exp i = 255") (auto simp: f32_is_inf_def f32_is_nan_def f32_bits_def)

lemma f32_difference_reaches:
  assumes "\<not> f32_is_nan x" and "\<not> f32_is_nan y" and "\<not> f32_is_nan i"
    and "x \<noteq> y" and "f32_ord i \<le> \<bar>f32_ord y - f32_ord x\<bar>"
  shows "f32_ge (f32_abs (f32_sub y x)) i"
proof -
  note neg = f32_neg_number [of x]
  show ?thesis
  proof (cases "f32_is_inf x \<or> f32_is_inf y")
    case True
    have "f32_sign x \<noteq> f32_sign y" if "f32_is_inf x" "f32_is_inf y"
    proof
      assume "f32_sign x = f32_sign y"
      with that have "unat x = unat y" using f32_fields [of x] f32_fields [of y] by (simp add: f32_is_inf_def)
      with assms(4) show False by (simp add: word_unat_eq_iff)
    qed
    with True neg assms(1,2) have "f32_sub y x \<in> {f32_neg x, y}" "f32_is_inf (f32_sub y x)"
      by (auto simp: f32_sub_def f32_add_def)
    with neg(1) assms(1,2) have "\<not> f32_is_nan (f32_sub y x)" "f32_is_inf (f32_sub y x)" by auto
    then show ?thesis using f32_bits_inf assms(3) by (intro f32_ge_abs) auto
  next
    case False
    let ?s = "f32_ord y - f32_ord x"
    have sub: "f32_sub y x = (if ?s = 0 then (if f32_sign y \<and> \<not> f32_sign x then 0x80000000 else 0)
        else f32_round (?s < 0) 0 (nat \<bar>?s\<bar>))"
      using False assms(1,2) neg by (simp add: f32_sub_def f32_add_def Let_def)
    show ?thesis
    proof (cases "?s = 0")
      case True
      then have "f32_abs (f32_sub y x) = 0" by (simp add: sub f32_abs_def)
      moreover have "\<not> f32_is_nan 0" "f32_ord 0 = 0" by (simp_all add: f32_is_nan_def f32_ord_def f32_mag_def f32_exp_def f32_frac_def)
      ultimately show ?thesis using assms(3,5) True by (simp add: f32_ge_def)
    next
      case ne: False
      have "f32_sign i \<or> f32_bits i \<le> f32_bits (f32_sub y x)"
      proof (cases "f32_sign i")
        case False
        then have "f32_mag i \<le> nat \<bar>?s\<bar>" using assms(5) by (simp add: f32_ord_def le_nat_iff)
        from f32_round_mag_mono [OF this, of 0] ne show ?thesis
          by (simp add: sub f32_round_fields f32_round_mag_number [OF assms(3)])
      qed simp
      with ne assms(3) show ?thesis by (intro f32_ge_abs) (simp_all add: sub f32_round_fields)
    qed
  qed
qed

subsection \<open>Products with a factor of at most one\<close>

lemma f32_mul_le:
  assumes "\<not> f32_is_nan a" and "f32_mag a \<le> 2 ^ 149" and "f32_exp b < 255"
  shows "f32_bits (f32_mul a b) \<le> f32_bits b" "\<not> f32_is_nan (f32_mul a b)"
proof -
  have "\<not> f32_is_inf a"
  proof
    assume "f32_is_inf a"
    then have "f32_mag a = 2 ^ 23 * 2 ^ 254" by (simp add: f32_is_inf_def f32_mag_def)
    with assms(2) show False by simp
  qed
  then have mul: "f32_mul a b = f32_round (f32_sign a \<noteq> f32_sign b) 149 (f32_mag a * f32_mag b)"
    using assms(1,3) by (simp add: f32_mul_def f32_is_nan_def f32_is_inf_def)
  have "f32_mag a * f32_mag b \<le> f32_mag b * 2 ^ 149" using assms(2) by simp
  moreover have "f32_round_mag 0 (f32_mag b) = f32_bits b"
    using assms(3) by (intro f32_round_mag_number) (simp add: f32_is_nan_def)
  ultimately have "f32_round_mag 149 (f32_mag a * f32_mag b) \<le> f32_bits b"
    using f32_round_mag_mono [of "f32_mag a * f32_mag b" "f32_mag b * 2 ^ 149" 149] by (simp only: f32_round_mag_scaled)
  then show "f32_bits (f32_mul a b) \<le> f32_bits b" "\<not> f32_is_nan (f32_mul a b)"
    by (simp_all only: mul f32_round_fields) simp_all
qed

lemma f32_finite_bits: "f32_exp w < 255 \<longleftrightarrow> f32_bits w < 255 * 2 ^ 23"
  using f32_frac_less [of w] f32_exp_le [of w] by (auto simp: f32_bits_def)

end
