(* ===== verification/Cov_Engine.thy ===== *)
theory Cov_Engine
  imports Object_Base Hash_Map Rounding
begin

text \<open>
  \<^verbatim>\<open>crates/bacnet-sim-engine/src/cov_engine.rs\<close>: the subscriptions to changes of value and the
  notifications they give.  The \<^verbatim>\<open>DashMap\<close> is the list of its entries in iteration order; the
  channel is the list of what was sent on it, whether or not somebody still reads it.
\<close>

record cov_sub_key =
  ck_subscriber :: network_address
  ck_process_id :: u32
  ck_object_id :: object_id
  ck_device_id :: device_id

record cov_subscription =
  cs_confirmed :: bool
  cs_lifetime_secs :: "u32 option"
  cs_subscribed_at :: instant
  cs_cov_increment :: "f32 option"
  cs_monitored_prop :: "property_identifier option"
  cs_last_notified_at :: instant
  cs_last_value :: property_value

record engine_notification =
  cn_subscriber :: network_address
  cn_process_id :: u32
  cn_device_id :: device_id
  cn_object_id :: object_id
  cn_changed_properties :: "(property_identifier \<times> property_value) list"
  cn_confirmed :: bool

type_synonym cov_subscriptions = "(cov_sub_key \<times> cov_subscription) list"

definition cov_subscribe :: "cov_sub_key \<Rightarrow> cov_subscription \<Rightarrow> cov_subscriptions \<Rightarrow> cov_subscriptions" where
  "cov_subscribe k s subs = hm_insert k s subs"

definition cov_unsubscribe :: "cov_sub_key \<Rightarrow> cov_subscriptions \<Rightarrow> cov_subscriptions" where
  "cov_unsubscribe k subs = hm_remove k subs"

definition cov_active_count :: "cov_subscriptions \<Rightarrow> nat" where
  "cov_active_count subs = length subs"

definition cov_should_notify :: "property_value \<Rightarrow> cov_subscription \<Rightarrow> bool" where
  "cov_should_notify new_value s =
     (case (new_value, cs_last_value s) of
        (PV_Real new, PV_Real old) \<Rightarrow>
          f32_ge (f32_abs (f32_sub new old)) (case cs_cov_increment s of None \<Rightarrow> 0 | Some i \<Rightarrow> i)
      | _ \<Rightarrow> \<not> pv_eq new_value (cs_last_value s))"

text \<open>One entry of the loop: the entry after it and what it sends.\<close>

definition cov_visit ::
  "instant \<Rightarrow> device_id \<Rightarrow> object_id \<Rightarrow> property_identifier \<Rightarrow> property_value \<Rightarrow>
   cov_sub_key \<times> cov_subscription \<Rightarrow> (cov_sub_key \<times> cov_subscription) \<times> engine_notification list" where
  "cov_visit now dev oid pid v e =
     (let (k, s) = e in
      if ck_device_id k \<noteq> dev \<or> ck_object_id k \<noteq> oid then (e, [])
      else if (case cs_monitored_prop s of None \<Rightarrow> False | Some mp \<Rightarrow> mp \<noteq> pid) then (e, [])
      else if cov_should_notify v s then
        ((k, s\<lparr>cs_last_value := v, cs_last_notified_at := now\<rparr>),
         [\<lparr>cn_subscriber = ck_subscriber k, cn_process_id = ck_process_id k, cn_device_id = dev,
           cn_object_id = oid, cn_changed_properties = [(pid, v)], cn_confirmed = cs_confirmed s\<rparr>])
      else (e, []))"

text \<open>The result \<^verbatim>\<open>notified\<close> is whether anything was sent.\<close>

definition check_and_notify ::
  "instant \<Rightarrow> device_id \<Rightarrow> object_id \<Rightarrow> property_identifier \<Rightarrow> property_value \<Rightarrow> cov_subscriptions \<Rightarrow>
   (bool \<times> engine_notification list) \<times> cov_subscriptions" where
  "check_and_notify now dev oid pid v subs =
     (let rs = map (cov_visit now dev oid pid v) subs; sent = concat (map snd rs)
      in ((sent \<noteq> [], sent), map fst rs))"

definition cov_alive :: "instant \<Rightarrow> cov_subscription \<Rightarrow> bool" where
  "cov_alive now s =
     (case cs_lifetime_secs s of
        Some lifetime \<Rightarrow> (now - cs_subscribed_at s) div 1000000000 < unat lifetime
      | None \<Rightarrow> True)"

definition expire_old :: "instant \<Rightarrow> cov_subscriptions \<Rightarrow> nat \<times> cov_subscriptions" where
  "expire_old now subs =
     (length (filter (\<lambda>(_, s). \<not> cov_alive now s) subs), filter (\<lambda>(_, s). cov_alive now s) subs)"

subsection \<open>What one subscriber sees\<close>

definition key_of_notification :: "engine_notification \<Rightarrow> cov_sub_key" where
  "key_of_notification n = \<lparr>ck_subscriber = cn_subscriber n, ck_process_id = cn_process_id n,
     ck_object_id = cn_object_id n, ck_device_id = cn_device_id n\<rparr>"

definition for_key :: "cov_sub_key \<Rightarrow> engine_notification list \<Rightarrow> engine_notification list" where
  "for_key k ns = filter (\<lambda>n. key_of_notification n = k) ns"

text \<open>A run of updates of the engine, each a value of some property at some time.\<close>

type_synonym cov_update = "instant \<times> device_id \<times> object_id \<times> property_identifier \<times> property_value"

fun cov_run :: "cov_update list \<Rightarrow> cov_subscriptions \<Rightarrow> engine_notification list \<times> cov_subscriptions" where
  "cov_run [] subs = ([], subs)"
| "cov_run ((now, dev, oid, pid, v) # us) subs =
     (let (r, subs1) = check_and_notify now dev oid pid v subs; (ns, subs2) = cov_run us subs1
      in (snd r @ ns, subs2))"

definition watches :: "cov_sub_key \<Rightarrow> cov_subscription \<Rightarrow> cov_update \<Rightarrow> bool" where
  "watches k s u = (case u of (_, dev, oid, pid, _) \<Rightarrow>
     ck_device_id k = dev \<and> ck_object_id k = oid \<and>
     (case cs_monitored_prop s of None \<Rightarrow> True | Some mp \<Rightarrow> mp = pid))"

text \<open>The value of property \<open>pid\<close> the subscriber was told last, \<open>v\<close> if none.\<close>

definition told :: "property_identifier \<Rightarrow> property_value \<Rightarrow> engine_notification list \<Rightarrow> property_value" where
  "told pid v ns = last (v # map snd (filter (\<lambda>pv. fst pv = pid) (concat (map cn_changed_properties ns))))"

text \<open>
  How far from the value it was told a subscriber may be left: a Real less than the increment away,
  as exact numbers, in units of the least float; any other value only where it is equal.
\<close>

definition number :: "property_value \<Rightarrow> bool" where
  "number v \<longleftrightarrow> (case v of PV_Real x \<Rightarrow> \<not> f32_is_nan x | _ \<Rightarrow> True)"

definition near :: "f32 option \<Rightarrow> property_value \<Rightarrow> property_value \<Rightarrow> bool" where
  "near incr old new \<longleftrightarrow> new = old \<or>
     (case (old, new) of
        (PV_Real x, PV_Real y) \<Rightarrow> \<bar>f32_ord y - f32_ord x\<bar> < (case incr of None \<Rightarrow> 0 | Some i \<Rightarrow> f32_ord i)
      | _ \<Rightarrow> pv_eq new old)"

lemma not_notified_near:
  assumes "\<not> cov_should_notify v s" and "number v" and "number (cs_last_value s)"
    and "\<forall>i. cs_cov_increment s = Some i \<longrightarrow> \<not> f32_is_nan i"
  shows "near (cs_cov_increment s) (cs_last_value s) v"
proof (cases "\<exists>x y. cs_last_value s = PV_Real x \<and> v = PV_Real y \<and> x \<noteq> y")
  case True
  then obtain x y where xy: "cs_last_value s = PV_Real x" "v = PV_Real y" "x \<noteq> y" by blast
  let ?i = "case cs_cov_increment s of None \<Rightarrow> 0 | Some i \<Rightarrow> i"
  have i: "\<not> f32_is_nan ?i" using assms(4) by (cases "cs_cov_increment s") auto
  have "\<not> f32_ord ?i \<le> \<bar>f32_ord y - f32_ord x\<bar>"
    using f32_difference_reaches [of x y ?i] assms(1-3) xy i by (auto simp: cov_should_notify_def number_def)
  then show ?thesis using xy by (cases "cs_cov_increment s") (simp_all add: near_def)
next
  case False
  then show ?thesis
    using assms(1) by (cases "cs_last_value s"; cases v) (auto simp: cov_should_notify_def near_def)
qed

lemma cov_visit_key [simp]: "fst (fst (cov_visit now dev oid pid v e)) = fst e"
  by (simp add: cov_visit_def Let_def split: prod.split)

lemma check_and_notify_keys:
  "map fst (snd (check_and_notify now dev oid pid v subs)) = map fst subs"
  by (simp add: check_and_notify_def Let_def)

lemma cov_visit_watched:
  assumes "watches k s (now, dev, oid, pid, v)"
  shows "cov_visit now dev oid pid v (k, s) =
    (if cov_should_notify v s
     then ((k, s\<lparr>cs_last_value := v, cs_last_notified_at := now\<rparr>),
       [\<lparr>cn_subscriber = ck_subscriber k, cn_process_id = ck_process_id k, cn_device_id = dev,
         cn_object_id = oid, cn_changed_properties = [(pid, v)], cn_confirmed = cs_confirmed s\<rparr>])
     else ((k, s), []))"
  using assms by (auto simp: cov_visit_def watches_def split: option.splits)

lemma cov_visit_unwatched:
  "\<not> watches k s (now, dev, oid, pid, v) \<Longrightarrow> cov_visit now dev oid pid v (k, s) = ((k, s), [])"
  by (auto simp: cov_visit_def watches_def split: option.splits)

lemma for_key_visit:
  "for_key k (snd (cov_visit now dev oid pid v (k', s))) =
    (if k' = k then snd (cov_visit now dev oid pid v (k', s)) else [])"
  by (cases k'; cases "watches k' s (now, dev, oid, pid, v)")
    (auto simp: cov_visit_watched cov_visit_unwatched for_key_def key_of_notification_def watches_def)

text \<open>The entry of a key after one update, and what its subscriber is sent.\<close>

lemma check_and_notify_entry:
  assumes "hm_wf subs" and "map_of subs k = Some s"
  shows "map_of (snd (check_and_notify now dev oid pid v subs)) k =
      Some (snd (fst (cov_visit now dev oid pid v (k, s))))"
    and "for_key k (snd (fst (check_and_notify now dev oid pid v subs))) =
      snd (cov_visit now dev oid pid v (k, s))"
proof -
  let ?f = "cov_visit now dev oid pid v"
  have m: "map_of (map (\<lambda>e. fst (?f e)) subs) k = Some (snd (fst (?f (k, s))))"
    using assms(2)
  proof (induction subs)
    case (Cons e subs)
    then show ?case by (cases e; cases "fst e = k") auto
  qed simp
  then show "map_of (snd (check_and_notify now dev oid pid v subs)) k = Some (snd (fst (?f (k, s))))"
    by (simp add: check_and_notify_def Let_def o_def)
  have "for_key k (concat (map (\<lambda>e. snd (?f e)) subs)) = snd (?f (k, s))"
    using assms
  proof (induction subs)
    case (Cons e subs)
    obtain k' s' where e: "e = (k', s')" by (cases e)
    have none: "for_key k (concat (map (\<lambda>e. snd (?f e)) es)) = []" if "k \<notin> fst ` set es" for es
      using that by (induction es) (auto simp: for_key_def for_key_visit [unfolded for_key_def])
    show ?case
    proof (cases "k' = k")
      case True
      then show ?thesis using Cons.prems none [of subs] for_key_visit [of k now dev oid pid v k' s']
        by (simp add: e for_key_def hm_wf_def)
    next
      case False
      then show ?thesis using Cons for_key_visit [of k now dev oid pid v k' s']
        by (simp add: e for_key_def hm_wf_def)
    qed
  qed simp
  then show "for_key k (snd (fst (check_and_notify now dev oid pid v subs))) = snd (?f (k, s))"
    by (simp add: check_and_notify_def Let_def o_def)
qed

lemma check_and_notify_wf [simp]: "hm_wf subs \<Longrightarrow> hm_wf (snd (check_and_notify now dev oid pid v subs))"
  by (simp add: hm_wf_def check_and_notify_keys)

text \<open>
  One update seen by a subscriber: it is told the value, which the engine remembers, or nothing, and
  then a watched value is near the one it remembers.
\<close>

definition same_terms :: "cov_subscription \<Rightarrow> cov_subscription \<Rightarrow> bool" where
  "same_terms s s' \<longleftrightarrow> cs_cov_increment s' = cs_cov_increment s \<and> cs_monitored_prop s' = cs_monitored_prop s"

lemma cov_update_entry:
  assumes "hm_wf subs" and "map_of subs k = Some s"
  obtains (told) s' n where "map_of (snd (check_and_notify now dev oid pid v subs)) k = Some s'"
      "for_key k (snd (fst (check_and_notify now dev oid pid v subs))) = [n]"
      "cn_changed_properties n = [(pid, v)]" "watches k s (now, dev, oid, pid, v)"
      "cs_last_value s' = v" "same_terms s s'"
    | (silent) "map_of (snd (check_and_notify now dev oid pid v subs)) k = Some s"
      "for_key k (snd (fst (check_and_notify now dev oid pid v subs))) = []"
      "watches k s (now, dev, oid, pid, v) \<Longrightarrow> \<not> cov_should_notify v s"
proof (cases "watches k s (now, dev, oid, pid, v) \<and> cov_should_notify v s")
  case True
  then show ?thesis
    by (intro told [of "s\<lparr>cs_last_value := v, cs_last_notified_at := now\<rparr>"])
      (auto simp: check_and_notify_entry [OF assms] cov_visit_watched same_terms_def)
next
  case False
  then show ?thesis
    by (intro silent; cases "watches k s (now, dev, oid, pid, v)")
      (auto simp: check_and_notify_entry [OF assms] cov_visit_watched cov_visit_unwatched)
qed

lemma told_append: "told pid v (ns @ ms) = told pid (told pid v ns) ms"
  by (induction ms rule: rev_induct) (auto simp: told_def last_append)

lemma told_Nil [simp]: "told pid v [] = v"
  by (simp add: told_def)

lemma for_key_append [simp]: "for_key k (ns @ ms) = for_key k ns @ for_key k ms"
  by (simp add: for_key_def)

lemma watches_terms: "same_terms s s' \<Longrightarrow> watches k s' u \<longleftrightarrow> watches k s u"
  by (cases u) (simp add: watches_def same_terms_def)

text \<open>
  A subscriber's view of a run of updates of one property \<open>pid\<close> of its object: what it was told last is
  what the engine remembers, and it was told nothing but values the property had.
\<close>

definition only_property :: "cov_sub_key \<Rightarrow> property_identifier \<Rightarrow> cov_update list \<Rightarrow> bool" where
  "only_property k pid us \<longleftrightarrow>
     (\<forall>(now, dev, oid, p, v) \<in> set us. dev = ck_device_id k \<and> oid = ck_object_id k \<longrightarrow> p = pid)"

definition told_of_updates :: "cov_sub_key \<Rightarrow> cov_update list \<Rightarrow> engine_notification list \<Rightarrow> bool" where
  "told_of_updates k us ns \<longleftrightarrow> (\<forall>n \<in> set ns. \<exists>(now, dev, oid, p, v) \<in> set us.
     dev = ck_device_id k \<and> oid = ck_object_id k \<and> cn_changed_properties n = [(p, v)])"

lemma cov_run_told:
  assumes "hm_wf subs" and "map_of subs k = Some s" and "only_property k pid us"
    and "number (cs_last_value s)" and "\<forall>(now, dev, oid, p, v) \<in> set us. number v"
  shows "\<exists>s'. map_of (snd (cov_run us subs)) k = Some s' \<and> hm_wf (snd (cov_run us subs)) \<and> same_terms s s' \<and>
    cs_last_value s' = told pid (cs_last_value s) (for_key k (fst (cov_run us subs))) \<and> number (cs_last_value s') \<and>
    told_of_updates k us (for_key k (fst (cov_run us subs)))"
  using assms
proof (induction us arbitrary: subs s)
  case Nil
  then show ?case by (simp add: for_key_def same_terms_def told_of_updates_def)
next
  case (Cons u us)
  obtain now dev oid p v where u: "u = (now, dev, oid, p, v)" by (cases u)
  let ?r = "check_and_notify now dev oid p v subs"
  have prems: "hm_wf (snd ?r)" "only_property k pid us" "\<forall>(now, dev, oid, p, v) \<in> set us. number v" "number v"
    using Cons.prems by (auto simp: only_property_def u)
  from Cons.prems(1,2) show ?case
  proof (cases rule: cov_update_entry [where now = now and dev = dev and oid = oid and pid = p and v = v])
    case (told s1 n)
    have w: "dev = ck_device_id k" "oid = ck_object_id k" "p = pid"
      using told(4) Cons.prems(3) by (auto simp: watches_def only_property_def u)
    have "number (cs_last_value s1)" using told(5) prems(4) by simp
    from Cons.IH [OF prems(1) told(1) prems(2) this prems(3)] told w show ?thesis
      by (auto simp: u case_prod_beta Let_def same_terms_def told_of_updates_def) (auto simp: told_def)
  next
    case silent
    from Cons.IH [OF prems(1) silent(1) prems(2) Cons.prems(4) prems(3)] silent show ?thesis
      by (auto simp: u case_prod_beta Let_def told_of_updates_def)
  qed
qed

lemma cov_run_append:
  "cov_run (us @ ws) subs =
    (fst (cov_run us subs) @ fst (cov_run ws (snd (cov_run us subs))), snd (cov_run ws (snd (cov_run us subs))))"
  by (induction us arbitrary: subs) (auto simp: case_prod_beta Let_def)

lemma map_of_filter_values:
  assumes "hm_wf m"
  shows "map_of (filter (\<lambda>(_, v). P v) m) k =
    (case map_of m k of Some v \<Rightarrow> if P v then Some v else None | None \<Rightarrow> None)"
  using assms
proof (induction m)
  case (Cons p m)
  have "map_of (filter (\<lambda>(_, v). P v) m) (fst p) = None"
    using Cons.prems by (auto simp: hm_wf_def map_of_eq_None_iff image_iff)
  with Cons show ?case by (cases p) (auto simp: hm_wf_def)
qed simp

subsection \<open>Properties\<close>

text \<open>
  C23. A subscriber is kept current.  Over any run of the engine's updates of one property of its
  object, in the presence of any other subscribers and updates of other objects, each notification it is
  sent carries a value the property had; and after an update to \<open>v\<close> that it watches, \<open>v\<close> is what it was
  told last (the value of its subscription, if it was told nothing), or it is near that: for Reals, less
  than the subscription's increment away as exact numbers, for other types equal.  The values and the
  increment are numbers, not NaN (after a NaN a subscriber is told nothing any more, see below).
\<close>

theorem subscriber_is_current:
  assumes "hm_wf subs" and "map_of subs k = Some s" and "watches k s (now, dev, oid, pid, v)"
    and "us' = us @ [(now, dev, oid, pid, v)]" and "only_property k pid us'"
    and "\<forall>(now, dev, oid, p, v) \<in> set us'. number v" and "number (cs_last_value s)"
    and "\<forall>i. cs_cov_increment s = Some i \<longrightarrow> \<not> f32_is_nan i"
    and "ns = for_key k (fst (cov_run us' subs))"
  shows "near (cs_cov_increment s) (told pid (cs_last_value s) ns) v \<and> told_of_updates k us' ns"
proof -
  let ?subs = "snd (cov_run us subs)"
  have us: "only_property k pid us" "\<forall>(now, dev, oid, p, v) \<in> set us. number v"
    using assms(4-6) by (auto simp: only_property_def)
  from cov_run_told [OF assms(1,2) us(1) assms(7) us(2)] obtain s1 where s1: "map_of ?subs k = Some s1" "hm_wf ?subs"
    "same_terms s s1" "cs_last_value s1 = told pid (cs_last_value s) (for_key k (fst (cov_run us subs)))"
    "number (cs_last_value s1)" "told_of_updates k us (for_key k (fst (cov_run us subs)))" by blast
  have incr: "cs_cov_increment s1 = cs_cov_increment s" using s1(3) by (simp add: same_terms_def)
  have w: "watches k s1 (now, dev, oid, pid, v)" using assms(3) s1(3) by (simp add: watches_terms)
  have v: "number v" using assms(4,6) by simp
  let ?r = "check_and_notify now dev oid pid v ?subs"
  have ns: "ns = for_key k (fst (cov_run us subs)) @ for_key k (snd (fst ?r))"
    by (simp add: assms(9,4) cov_run_append case_prod_beta Let_def)
  from s1(2,1) show ?thesis
  proof (cases rule: cov_update_entry [where now = now and dev = dev and oid = oid and pid = pid and v = v])
    case (told s2 n)
    then have "told pid (cs_last_value s) ns = v" by (simp add: ns told_append told_def)
    moreover have "told_of_updates k us' ns"
      using s1(6) told w by (auto simp: told_of_updates_def ns assms(4) watches_def)
    ultimately show ?thesis by (simp add: near_def)
  next
    case silent
    have "near (cs_cov_increment s1) (cs_last_value s1) v"
      using not_notified_near [OF silent(3) [OF w] v s1(5)] assms(8) incr by simp
    moreover have "told_of_updates k us' ns"
      using s1(6) silent(2) by (auto simp: told_of_updates_def ns assms(4))
    ultimately show ?thesis using s1(4) silent(2) incr by (simp add: ns)
  qed
qed

definition example_sub_key :: cov_sub_key where
  "example_sub_key = \<lparr>ck_subscriber = \<lparr>na_network_number = 0, na_mac = Mac_Ip (SocketAddrV4 0x7F000001 47808)\<rparr>,
     ck_process_id = 1, ck_object_id = \<lparr>oid_type = OT_AnalogInput, oid_instance = 1\<rparr>, ck_device_id = 1\<rparr>"

definition example_subscription :: "f32 option \<Rightarrow> f32 \<Rightarrow> cov_subscription" where
  "example_subscription incr v = \<lparr>cs_confirmed = False, cs_lifetime_secs = Some 60, cs_subscribed_at = 0,
     cs_cov_increment = incr, cs_monitored_prop = None, cs_last_notified_at = 0, cs_last_value = PV_Real v\<rparr>"

definition example_update :: "instant \<Rightarrow> f32 \<Rightarrow> cov_update" where
  "example_update t v = (t, 1, \<lparr>oid_type = OT_AnalogInput, oid_instance = 1\<rparr>, PID_PresentValue, PV_Real v)"

text \<open>The values 10.0, 10.5 and 20.0 with an increment of 1.0: one notification, for the last.\<close>

theorem subscriber_is_current_witness:
  "near (Some 0x3F800000) (told PID_PresentValue (PV_Real 0x41200000) (for_key example_sub_key
     (fst (cov_run [example_update 3 0x41280000, example_update 4 0x41A00000]
       [(example_sub_key, example_subscription (Some 0x3F800000) 0x41200000)])))) (PV_Real 0x41A00000)"
proof -
  let ?s = "example_subscription (Some 0x3F800000) 0x41200000"
  have w: "watches example_sub_key ?s (4, 1, \<lparr>oid_type = OT_AnalogInput, oid_instance = 1\<rparr>, PID_PresentValue, PV_Real 0x41A00000)"
    by (simp add: watches_def example_sub_key_def example_subscription_def)
  have s: "cs_last_value ?s = PV_Real 0x41200000" "cs_cov_increment ?s = Some 0x3F800000"
    by (simp_all add: example_subscription_def)
  show ?thesis
    using subscriber_is_current [where subs = "[(example_sub_key, ?s)]" and us = "[example_update 3 0x41280000]"
        and us' = "[example_update 3 0x41280000, example_update 4 0x41A00000]", OF _ _ w _ _ _ _ _ refl]
    by (simp add: s hm_wf_def only_property_def example_update_def number_def f32_is_nan_def f32_exp_nat
        del: cov_run.simps)
qed

text \<open>Once told NaN, a subscription is told no further Real: no difference with a NaN compares.\<close>

lemma nan_stays_silent:
  assumes "hm_wf subs" and "map_of subs k = Some s" and "cs_last_value s = PV_Real x" and "f32_is_nan x"
    and "\<forall>(now, dev, oid, pid, v) \<in> set us. real_of v \<noteq> None"
  shows "for_key k (fst (cov_run us subs)) = [] \<and> map_of (snd (cov_run us subs)) k = Some s"
  using assms(1,2,5)
proof (induction us arbitrary: subs)
  case (Cons u us)
  obtain now dev oid pid v where u: "u = (now, dev, oid, pid, v)" by (cases u)
  obtain y where v: "v = PV_Real y" using Cons.prems(3) by (cases v) (auto simp: u real_of_def)
  have "f32_sub y x = f32_nan" using assms(4) by (simp add: f32_sub_def f32_add_def f32_neg_number)
  moreover have "f32_is_nan f32_nan" by (simp add: f32_is_nan_def f32_exp_nat f32_frac_nat f32_nan_def)
  then have "f32_is_nan (f32_abs f32_nan)" by (simp add: f32_is_nan_def f32_abs_fields)
  ultimately have "\<not> cov_should_notify v s" by (simp add: v cov_should_notify_def assms(3) f32_ge_def)
  then have "cov_visit now dev oid pid v (k, s) = ((k, s), [])"
    by (cases "watches k s (now, dev, oid, pid, v)") (simp_all add: cov_visit_watched cov_visit_unwatched)
  with check_and_notify_entry [OF Cons.prems(1,2), of now dev oid pid v] Cons.IH [of "snd (check_and_notify now dev oid pid v subs)"] Cons.prems
  show ?case by (simp add: u case_prod_beta Let_def)
qed (simp add: for_key_def)

text \<open>
  C14. A NaN silences a subscription for good.  A subscriber that was told no Real yet is told a NaN as any
  other change; from then on it is told nothing, whatever numbers follow, and its last value
  stays the NaN, since no difference with a NaN is at least an increment.
\<close>

theorem nan_silences_subscription:
  assumes "hm_wf subs" and "map_of subs k = Some s" and "real_of (cs_last_value s) = None"
    and "watches k s (now, dev, oid, pid, PV_Real x)" and "f32_is_nan x"
    and "\<forall>(now, dev, oid, pid, v) \<in> set us. real_of v \<noteq> None"
  shows "for_key k (fst (cov_run ((now, dev, oid, pid, PV_Real x) # us) subs)) =
      [\<lparr>cn_subscriber = ck_subscriber k, cn_process_id = ck_process_id k, cn_device_id = dev,
        cn_object_id = oid, cn_changed_properties = [(pid, PV_Real x)], cn_confirmed = cs_confirmed s\<rparr>] \<and>
    map_of (snd (cov_run ((now, dev, oid, pid, PV_Real x) # us) subs)) k =
      Some (s\<lparr>cs_last_value := PV_Real x, cs_last_notified_at := now\<rparr>)"
proof -
  let ?subs = "snd (check_and_notify now dev oid pid (PV_Real x) subs)"
  let ?s = "s\<lparr>cs_last_value := PV_Real x, cs_last_notified_at := now\<rparr>"
  have "cov_should_notify (PV_Real x) s"
    using assms(3) by (cases "cs_last_value s") (simp_all add: cov_should_notify_def real_of_def)
  then have "map_of ?subs k = Some ?s" and
    told: "for_key k (snd (fst (check_and_notify now dev oid pid (PV_Real x) subs))) =
      [\<lparr>cn_subscriber = ck_subscriber k, cn_process_id = ck_process_id k, cn_device_id = dev,
        cn_object_id = oid, cn_changed_properties = [(pid, PV_Real x)], cn_confirmed = cs_confirmed s\<rparr>]"
    by (simp_all add: check_and_notify_entry [OF assms(1,2)] cov_visit_watched [OF assms(4)])
  moreover have "hm_wf ?subs" using assms(1) by simp
  ultimately have "for_key k (fst (cov_run us ?subs)) = [] \<and> map_of (snd (cov_run us ?subs)) k = Some ?s"
    using assms(5,6) by (intro nan_stays_silent [where x = x]) simp_all
  with told show ?thesis by (simp add: case_prod_beta Let_def for_key_def)
qed

theorem nan_silences_subscription_witness:
  "length (for_key example_sub_key (fst (cov_run [example_update 2 0x7FC00000, example_update 3 0x41280000,
     example_update 4 0x41A00000] [(example_sub_key, (example_subscription (Some 0x3F800000) 0)\<lparr>cs_last_value := PV_Null\<rparr>)]))) = 1"
  using nan_silences_subscription [of "[(example_sub_key, (example_subscription (Some 0x3F800000) 0)\<lparr>cs_last_value := PV_Null\<rparr>)]"
      example_sub_key "(example_subscription (Some 0x3F800000) 0)\<lparr>cs_last_value := PV_Null\<rparr>" 2
      1 "\<lparr>oid_type = OT_AnalogInput, oid_instance = 1\<rparr>" PID_PresentValue "0x7FC00000"
      "[example_update 3 0x41280000, example_update 4 0x41A00000]"]
  by (simp add: hm_wf_def example_subscription_def example_update_def example_sub_key_def watches_def real_of_def
      f32_is_nan_def f32_exp_nat f32_frac_nat del: cov_run.simps)

text \<open>
  A subscription to a \<open>Real\<close> without an increment is notified of every update, also of those
  that change nothing: the default increment is 0.0 and the difference is compared with \<open>\<ge>\<close>.
\<close>

theorem unchanged_real_notifies:
  assumes "map_of subs k = Some s" and "hm_wf subs" and "watches k s (now, dev, oid, pid, PV_Real x)"
    and "cs_last_value s = PV_Real x" and "cs_cov_increment s = None" and "f32_exp x < 255"
  shows "for_key k (snd (fst (check_and_notify now dev oid pid (PV_Real x) subs))) \<noteq> [] \<and>
    map_of (snd (check_and_notify now dev oid pid (PV_Real x) subs)) k = Some (s\<lparr>cs_last_notified_at := now\<rparr>)"
proof -
  have "cov_should_notify (PV_Real x) s"
    using assms(4-6) by (simp add: cov_should_notify_def f32_abs_sub_self)
  then show ?thesis
    using assms(4) by (simp add: check_and_notify_entry [OF assms(2,1)] cov_visit_watched [OF assms(3)])
qed

theorem unchanged_real_notifies_witness:
  "let subs = [(example_sub_key, example_subscription None 0x41200000)];
       r = check_and_notify 5 1 \<lparr>oid_type = OT_AnalogInput, oid_instance = 1\<rparr> PID_PresentValue (PV_Real 0x41200000) subs
   in length (snd (fst r)) = 1"
proof -
  let ?s = "example_subscription None 0x41200000"
  let ?r = "check_and_notify 5 1 \<lparr>oid_type = OT_AnalogInput, oid_instance = 1\<rparr> PID_PresentValue
    (PV_Real 0x41200000) [(example_sub_key, ?s)]"
  have w: "watches example_sub_key ?s (example_update 5 0x41200000)"
    by (simp add: watches_def example_update_def example_sub_key_def example_subscription_def)
  have x: "f32_exp 0x41200000 < 255" by (simp add: f32_exp_nat)
  have "for_key example_sub_key (snd (fst ?r)) \<noteq> []"
    using unchanged_real_notifies [OF _ _ w [unfolded example_update_def] _ _ x, of "[(example_sub_key, ?s)]"]
    by (simp add: hm_wf_def example_subscription_def)
  then have "snd (fst ?r) \<noteq> []" by (auto simp: for_key_def)
  moreover have "length (snd (fst ?r)) \<le> 1"
    by (simp add: check_and_notify_def cov_visit_def Let_def)
  ultimately show ?thesis by (cases "snd (fst ?r)") (simp_all add: Let_def)
qed

text \<open>
  Expiry removes exactly the subscriptions whose lifetime, in whole seconds, is over, whatever the
  order of the map; the count it returns is the number of subscriptions that went, a subscription
  without a lifetime stays for ever, and expiring again at the same time removes nothing.
\<close>

theorem expiry_is_exact:
  assumes "hm_wf subs"
  shows "map_of (snd (expire_old now subs)) k =
      (case map_of subs k of
         Some s \<Rightarrow> if cov_alive now s then Some s else None
       | None \<Rightarrow> None) \<and>
    fst (expire_old now subs) + cov_active_count (snd (expire_old now subs)) = cov_active_count subs \<and>
    fst (expire_old now (snd (expire_old now subs))) = 0 \<and>
    (cs_lifetime_secs s = None \<longrightarrow> cov_alive now s)"
proof -
  have "map_of (filter (\<lambda>(_, s). cov_alive now s) subs) k =
      (case map_of subs k of Some s \<Rightarrow> if cov_alive now s then Some s else None | None \<Rightarrow> None)"
    by (rule map_of_filter_values [OF assms])
  moreover have "length (filter (\<lambda>(_, s). \<not> cov_alive now s) subs) + length (filter (\<lambda>(_, s). cov_alive now s) subs) = length subs"
    by (induction subs) auto
  ultimately show ?thesis
    by (simp add: expire_old_def cov_active_count_def cov_alive_def case_prod_beta filter_empty_conv)
qed

theorem expiry_is_exact_witness:
  "expire_old 61000000000 [(example_sub_key, example_subscription None 0)] = (1, []) \<and>
   fst (expire_old 59000000000 [(example_sub_key, example_subscription None 0)]) = 0"
proof -
  let ?subs = "[(example_sub_key, example_subscription None 0)]"
  have w: "hm_wf ?subs" by (simp add: hm_wf_def)
  have "map_of (snd (expire_old 61000000000 ?subs)) example_sub_key = None"
    using expiry_is_exact [OF w, of 61000000000 example_sub_key] by (simp add: cov_alive_def example_subscription_def)
  then show ?thesis by (simp add: expire_old_def cov_alive_def example_subscription_def split: if_splits)
qed

end
