(* ===== verification/Alarm_Engine.thy ===== *)
theory Alarm_Engine
  imports Object_Base Float64
begin

text \<open>
  \<^verbatim>\<open>crates/bacnet-sim-engine/src/alarm_engine.rs\<close>: the intrinsic-reporting state machine of one
  object.  \<open>evaluate\<close> is one call; \<open>alarm_run\<close> is the sequence of its calls.
\<close>

datatype alarm_event_state =
    AE_Normal | AE_Fault | AE_OffNormal | AE_HighLimit | AE_LowLimit | AE_LifeSafetyAlarm

datatype intrinsic_algorithm =
    OutOfRange (ia_high_limit: f32) (ia_low_limit: f32) (ia_deadband: f32)
  | ChangeOfValue f32
  | CommandFailure duration

record event_notification =
  en_event_object :: object_id
  en_from_state :: alarm_event_state
  en_to_state :: alarm_event_state
  en_timestamp :: instant

record alarm_state_machine =
  am_current_state :: alarm_event_state
  am_time_delay :: duration
  am_notification_class :: u32
  am_algorithm :: intrinsic_algorithm
  am_transition_start :: "instant option"

text \<open>The state a value asks for, with the deadband around the limit that is exceeded now.\<close>

definition alarm_new_state :: "f32 \<Rightarrow> f32 \<Rightarrow> f32 \<Rightarrow> f32 \<Rightarrow> alarm_event_state \<Rightarrow> alarm_event_state" where
  "alarm_new_state high_limit low_limit deadband v current =
     (if f32_lt high_limit v then AE_HighLimit
      else if f32_lt v low_limit then AE_LowLimit
      else let in_dead =
             (case current of
                AE_HighLimit \<Rightarrow> f32_lt (f32_sub high_limit deadband) v
              | AE_LowLimit \<Rightarrow> f32_lt v (f32_add low_limit deadband)
              | _ \<Rightarrow> False)
           in if in_dead then current else AE_Normal)"

definition evaluate ::
  "property_value \<Rightarrow> instant \<Rightarrow> object_id \<Rightarrow> alarm_state_machine \<Rightarrow>
   event_notification option \<times> alarm_state_machine" where
  "evaluate v now oid sm =
     (case am_algorithm sm of
        OutOfRange high_limit low_limit deadband \<Rightarrow>
          (case as_f32 v of
             None \<Rightarrow> (None, sm)
           | Some x \<Rightarrow>
               (let new_state = alarm_new_state high_limit low_limit deadband x (am_current_state sm) in
                if new_state = am_current_state sm then (None, sm\<lparr>am_transition_start := None\<rparr>)
                else
                  (let start = (case am_transition_start sm of None \<Rightarrow> now | Some t \<Rightarrow> t);
                       sm1 = sm\<lparr>am_transition_start := Some start\<rparr> in
                   if now - start < am_time_delay sm then (None, sm1)
                   else
                     (Some \<lparr>en_event_object = oid, en_from_state = am_current_state sm,
                            en_to_state = new_state, en_timestamp = now\<rparr>,
                      sm1\<lparr>am_current_state := new_state, am_transition_start := None\<rparr>))))
      | _ \<Rightarrow> (None, sm))"

subsection \<open>Runs\<close>

type_synonym alarm_sample = "property_value \<times> instant"

fun alarm_run :: "object_id \<Rightarrow> alarm_sample list \<Rightarrow> alarm_state_machine \<Rightarrow> alarm_state_machine" where
  "alarm_run oid [] sm = sm"
| "alarm_run oid ((v, t) # vs) sm = alarm_run oid vs (snd (evaluate v t oid sm))"

text \<open>A sample asks for a change if its value is a number whose state is not the current one.\<close>

definition asks_change :: "alarm_state_machine \<Rightarrow> property_value \<Rightarrow> bool" where
  "asks_change sm v =
     (case am_algorithm sm of
        OutOfRange h l d \<Rightarrow>
          (case as_f32 v of
             None \<Rightarrow> False
           | Some x \<Rightarrow> alarm_new_state h l d x (am_current_state sm) \<noteq> am_current_state sm)
      | _ \<Rightarrow> False)"

definition asks_none :: "alarm_state_machine \<Rightarrow> property_value \<Rightarrow> bool" where
  "asks_none sm v \<longleftrightarrow> (case am_algorithm sm of OutOfRange _ _ _ \<Rightarrow> as_f32 v = None | _ \<Rightarrow> True)"

lemma evaluate_cases:
  obtains (skip) "asks_none sm v" "evaluate v now oid sm = (None, sm)"
  | (same) "\<not> asks_change sm v" "\<not> asks_none sm v"
      "evaluate v now oid sm = (None, sm\<lparr>am_transition_start := None\<rparr>)"
  | (wait) start where "asks_change sm v" "start = (case am_transition_start sm of None \<Rightarrow> now | Some t \<Rightarrow> t)"
      "now - start < am_time_delay sm"
      "evaluate v now oid sm = (None, sm\<lparr>am_transition_start := Some start\<rparr>)"
  | (change) start n where "asks_change sm v" "start = (case am_transition_start sm of None \<Rightarrow> now | Some t \<Rightarrow> t)"
      "am_time_delay sm \<le> now - start" "fst (evaluate v now oid sm) = Some n"
      "en_from_state n = am_current_state sm" "en_to_state n = am_current_state (snd (evaluate v now oid sm))"
      "en_timestamp n = now" "en_event_object n = oid" "en_to_state n \<noteq> en_from_state n"
      "am_transition_start (snd (evaluate v now oid sm)) = None"
proof (cases "am_algorithm sm")
  case (OutOfRange h l d)
  show ?thesis
  proof (cases "as_f32 v")
    case None
    then show ?thesis using OutOfRange skip by (simp add: evaluate_def asks_none_def)
  next
    case (Some x)
    note defs = evaluate_def asks_none_def asks_change_def OutOfRange Some Let_def
    let ?start = "case am_transition_start sm of None \<Rightarrow> now | Some t \<Rightarrow> t"
    show ?thesis
    proof (cases "asks_change sm v")
      case False
      then show ?thesis using same by (simp add: defs)
    next
      case ask: True
      show ?thesis
      proof (cases "now - ?start < am_time_delay sm")
        case True
        then show ?thesis using ask wait [of ?start] by (simp add: defs)
      next
        case False
        then show ?thesis using ask change [of ?start "the (fst (evaluate v now oid sm))"] by (simp add: defs)
      qed
    qed
  qed
qed (use skip in \<open>simp_all add: evaluate_def asks_none_def\<close>)

text \<open>
  The pending time: since the sample that set it every sample asked for a change from the same state
  or had no numeric value.
\<close>

definition pending_since ::
  "object_id \<Rightarrow> alarm_sample list \<Rightarrow> alarm_state_machine \<Rightarrow> instant \<Rightarrow> alarm_event_state \<Rightarrow> bool" where
  "pending_since oid vs sm t0 st \<longleftrightarrow>
     (\<exists>xs v0 ys. vs = xs @ (v0, t0) # ys \<and> asks_change (alarm_run oid xs sm) v0 \<and>
       am_current_state (alarm_run oid xs sm) = st \<and>
       (\<forall>(v, _) \<in> set ys. asks_change (alarm_run oid xs sm) v \<or> asks_none (alarm_run oid xs sm) v))"

lemma alarm_run_append: "alarm_run oid (vs @ ws) sm = alarm_run oid ws (alarm_run oid vs sm)"
  by (induction vs arbitrary: sm) auto

lemma evaluate_algorithm [simp]:
  "am_algorithm (snd (evaluate v t oid sm)) = am_algorithm sm"
  "am_time_delay (snd (evaluate v t oid sm)) = am_time_delay sm"
  by (simp_all add: evaluate_def Let_def split: intrinsic_algorithm.split option.split)

lemma alarm_run_algorithm [simp]:
  "am_algorithm (alarm_run oid vs sm) = am_algorithm sm"
  "am_time_delay (alarm_run oid vs sm) = am_time_delay sm"
  by (induction vs arbitrary: sm) auto

lemma asks_same:
  assumes "am_current_state sm = am_current_state sm'" and "am_algorithm sm = am_algorithm sm'"
  shows "asks_change sm v \<longleftrightarrow> asks_change sm' v" and "asks_none sm v \<longleftrightarrow> asks_none sm' v"
  unfolding asks_change_def asks_none_def assms by (rule refl)+

lemma pending_extend:
  assumes "pending_since oid vs sm t0 st" and "asks_change sm1 v \<or> asks_none sm1 v"
    and "am_current_state sm1 = st" and "am_algorithm sm1 = am_algorithm sm"
  shows "pending_since oid (vs @ [(v, t)]) sm t0 st"
proof -
  obtain xs v0 ys where p: "vs = xs @ (v0, t0) # ys" "asks_change (alarm_run oid xs sm) v0"
    "am_current_state (alarm_run oid xs sm) = st"
    "\<forall>(v, _) \<in> set ys. asks_change (alarm_run oid xs sm) v \<or> asks_none (alarm_run oid xs sm) v"
    using assms(1) by (auto simp: pending_since_def)
  have "asks_change (alarm_run oid xs sm) v \<or> asks_none (alarm_run oid xs sm) v"
    using assms(2-4) p(3) asks_same [of "alarm_run oid xs sm" sm1 v] by simp
  with p show ?thesis unfolding pending_since_def
    by (intro exI [of _ xs] exI [of _ v0] exI [of _ "ys @ [(v, t)]"]) auto
qed

lemma pending_begin:
  "asks_change (alarm_run oid vs sm) v \<Longrightarrow>
   pending_since oid (vs @ [(v, t)]) sm t (am_current_state (alarm_run oid vs sm))"
  unfolding pending_since_def by (intro exI [of _ vs] exI [of _ v] exI [of _ "[]"]) simp

lemma alarm_run_pending:
  assumes "am_transition_start sm = None" and "am_transition_start (alarm_run oid vs sm) = Some t0"
  shows "pending_since oid vs sm t0 (am_current_state (alarm_run oid vs sm))"
  using assms(2)
proof (induction vs arbitrary: t0 rule: rev_induct)
  case Nil
  then show ?case using assms(1) by simp
next
  case (snoc s vs)
  obtain v t where s: "s = (v, t)" by (cases s)
  let ?m = "alarm_run oid vs sm"
  from snoc.prems have st: "am_transition_start (snd (evaluate v t oid ?m)) = Some t0"
    by (simp add: s alarm_run_append)
  show ?case
  proof (cases rule: evaluate_cases [of ?m v t oid])
    case skip
    then have "pending_since oid vs sm t0 (am_current_state ?m)" using st snoc.IH by simp
    from pending_extend [OF this, of ?m v t] skip show ?thesis by (simp add: s alarm_run_append)
  next
    case same
    then show ?thesis using st by simp
  next
    case (wait start)
    show ?thesis
    proof (cases "am_transition_start ?m")
      case None
      then have "t0 = t" using wait st by simp
      then show ?thesis using pending_begin [OF wait(1), of t] wait by (simp add: s alarm_run_append)
    next
      case (Some t1)
      then have "t0 = t1" using wait st by simp
      with Some snoc.IH have "pending_since oid vs sm t0 (am_current_state ?m)" by simp
      from pending_extend [OF this, of ?m v t] wait show ?thesis by (simp add: s alarm_run_append)
    qed
  next
    case (change start n)
    then show ?thesis using st by simp
  qed
qed

text \<open>
  The start of the pending time is not bound to the state that was pending: a low value notifies at
  once when a high value has waited long enough.
\<close>

lemma alarm_target_change_keeps_timer:
  assumes "am_algorithm sm = OutOfRange h l d" and "am_current_state sm = AE_Normal"
    and "am_transition_start sm = None" and "0 < am_time_delay sm"
    and "f32_lt h x" and "f32_lt y l" and "\<not> f32_lt h y"
  shows "fst (evaluate (PV_Real x) t oid sm) = None \<and>
    fst (evaluate (PV_Real y) (t + am_time_delay sm) oid (snd (evaluate (PV_Real x) t oid sm))) =
      Some \<lparr>en_event_object = oid, en_from_state = AE_Normal, en_to_state = AE_LowLimit,
        en_timestamp = t + am_time_delay sm\<rparr>"
  using assms by (simp add: evaluate_def alarm_new_state_def as_f32_def Let_def)

definition example_alarm :: alarm_state_machine where
  "example_alarm = \<lparr>am_current_state = AE_Normal, am_time_delay = 5, am_notification_class = 1,
     am_algorithm = OutOfRange 0x41F00000 0x41200000 0x3F800000, am_transition_start = None\<rparr>"

definition example_oid :: object_id where
  "example_oid = \<lparr>oid_type = OT_AnalogInput, oid_instance = 1\<rparr>"

subsection \<open>Properties\<close>

text \<open>
  C24. An alarm goes off only after the time delay: whenever a machine that started idle notifies,
  there was a sample at least the delay ago since when every sample with a numeric value asked for a
  change from the same state; the notification leads from that state to another one, which is the
  new current state.
\<close>

theorem alarm_needs_persistence:
  assumes "am_transition_start sm = None" and "fst (evaluate v now oid (alarm_run oid vs sm)) = Some n"
  shows "\<exists>t0. am_time_delay sm \<le> now - t0 \<and>
    pending_since oid (vs @ [(v, now)]) sm t0 (en_from_state n) \<and>
    en_from_state n = am_current_state (alarm_run oid vs sm) \<and>
    en_to_state n = am_current_state (alarm_run oid (vs @ [(v, now)]) sm) \<and>
    en_to_state n \<noteq> en_from_state n"
proof -
  let ?m = "alarm_run oid vs sm"
  show ?thesis
  proof (cases rule: evaluate_cases [of ?m v now oid])
    case (change start k)
    then have n: "n = k" using assms(2) by simp
    have p: "pending_since oid (vs @ [(v, now)]) sm start (am_current_state ?m)"
    proof (cases "am_transition_start ?m")
      case None
      then show ?thesis using pending_begin [OF change(1)] change(2) by simp
    next
      case (Some t1)
      with alarm_run_pending [OF assms(1) this] change(2)
      have "pending_since oid vs sm start (am_current_state ?m)" by simp
      from pending_extend [OF this, of ?m v now] change(1) show ?thesis by simp
    qed
    then show ?thesis using change n by (intro exI [of _ start]) (auto simp: alarm_run_append)
  qed (use assms(2) in simp_all)
qed

theorem alarm_needs_persistence_witness:
  "\<exists>t0. 5 \<le> 15 - t0 \<and>
    pending_since example_oid [(PV_Real 0x420C0000, 10), (PV_Real 0x420C0000, 15)] example_alarm t0 AE_Normal"
proof -
  let ?m = "alarm_run example_oid [(PV_Real 0x420C0000, 10)] example_alarm"
  let ?n = "\<lparr>en_event_object = example_oid, en_from_state = AE_Normal, en_to_state = AE_HighLimit, en_timestamp = 15\<rparr>"
  have "f32_lt 0x41F00000 0x420C0000" by (simp add: f32_eval)
  then have e: "fst (evaluate (PV_Real 0x420C0000) 15 example_oid ?m) = Some ?n"
    by (simp add: evaluate_def alarm_new_state_def as_f32_def example_alarm_def Let_def)
  have s: "am_transition_start example_alarm = None" "am_time_delay example_alarm = 5"
    by (simp_all add: example_alarm_def)
  from alarm_needs_persistence [OF s(1) e] s(2) show ?thesis by (auto simp del: alarm_run.simps)
qed

text \<open>
  The limits of an out-of-range alarm have hysteresis: with a value inside the limits the machine
  keeps an alarm state while the value is within the deadband of the limit that was passed, and goes
  back to normal outside it (a NaN goes back to normal too); a value beyond a limit asks for the
  state of that limit whatever the deadband.
\<close>

theorem alarm_hysteresis:
  assumes "am_algorithm sm = OutOfRange h l d" and "am_time_delay sm = 0" and "as_f32 v = Some x"
  shows "am_current_state (snd (evaluate v now oid sm)) =
    (if f32_lt h x then AE_HighLimit
     else if f32_lt x l then AE_LowLimit
     else if am_current_state sm = AE_HighLimit \<and> f32_lt (f32_sub h d) x then AE_HighLimit
     else if am_current_state sm = AE_LowLimit \<and> f32_lt x (f32_add l d) then AE_LowLimit
     else AE_Normal)"
  using assms by (auto simp: evaluate_def alarm_new_state_def Let_def split: alarm_event_state.split)

text \<open>The high alarm of the example at 29.5 stays within the deadband of 1.0, and ends at 28.0.\<close>

theorem alarm_hysteresis_witness:
  "let sm = example_alarm\<lparr>am_time_delay := 0, am_current_state := AE_HighLimit\<rparr>
   in am_current_state (snd (evaluate (PV_Real 0x41EC0000) 1 example_oid sm)) = AE_HighLimit \<and>
      am_current_state (snd (evaluate (PV_Real 0x41E00000) 1 example_oid sm)) = AE_Normal"
proof -
  let ?sm = "example_alarm\<lparr>am_time_delay := 0, am_current_state := AE_HighLimit\<rparr>"
  have a: "am_algorithm ?sm = OutOfRange 0x41F00000 0x41200000 0x3F800000" "am_time_delay ?sm = 0"
    by (simp_all add: example_alarm_def)
  have f: "\<not> f32_lt 0x41F00000 0x41EC0000" "\<not> f32_lt 0x41EC0000 0x41200000"
    "\<not> f32_lt 0x41F00000 0x41E00000" "\<not> f32_lt 0x41E00000 0x41200000"
    "f32_lt (f32_sub 0x41F00000 0x3F800000) 0x41EC0000" "\<not> f32_lt (f32_sub 0x41F00000 0x3F800000) 0x41E00000"
    by (simp_all add: f32_eval)
  have v: "as_f32 (PV_Real x) = Some x" for x by (simp add: as_f32_def)
  show ?thesis
    using alarm_hysteresis [OF a v, of "0x41EC0000" 1 example_oid] alarm_hysteresis [OF a v, of "0x41E00000" 1 example_oid] f
    by (simp add: Let_def)
qed

end
