(* ===== verification/Value_Model.thy ===== *)
theory Value_Model
  imports Bacnet_Types Rounding
begin

text \<open>
  \<^verbatim>\<open>crates/bacnet-sim-engine/src/value_model.rs\<close>: the models that drive present values.  The trait
  is the datatype of its implementors.  The generator of the \<^verbatim>\<open>rand\<close> crate and the platform's
  \<^verbatim>\<open>sin\<close> and \<^verbatim>\<open>exp\<close> are the fields of \<open>model_env\<close>; all other arithmetic is that of \<^verbatim>\<open>f32\<close> and
  \<^verbatim>\<open>f64\<close>.
\<close>

record 'g model_env =
  me_sin :: "f64 \<Rightarrow> f64"
  me_exp :: "f64 \<Rightarrow> f64"
  me_random :: "'g \<Rightarrow> f32 \<times> 'g"

datatype value_model =
    ConstantModel f32
  | SineModel (sine_amplitude: f32) (sine_period_s: f64) (sine_offset: f32) (sine_noise_std: f32)
  | RandomWalkModel (rw_current: f32) (rw_step_std: f32) (rw_min: f32) (rw_max: f32)
  | StepModel "(f64 \<times> f32) list"
  | ThermalModel (th_setpoint: f32) (th_current: f32) (th_time_const_s: f64) (th_ambient: f32)
      (th_noise_std: f32) (th_last_t: f64)
  | CompositeModel "value_model list"

definition two_pi :: f64 where
  "two_pi = f64_mul 0x4000000000000000 0x400921FB54442D18"

definition sine_next :: "'g model_env \<Rightarrow> f32 \<Rightarrow> f64 \<Rightarrow> f32 \<Rightarrow> f32 \<Rightarrow> f64 \<Rightarrow> 'g \<Rightarrow> f32 \<times> 'g" where
  "sine_next env amplitude period_s off noise_std t g =
     (let base = f32_add off (f32_mul amplitude
            (f32_of_f64 (me_sin env (f64_div (f64_mul two_pi t) period_s))))
      in if f32_lt 0 noise_std then
           (let (r, g1) = me_random env g
            in (f32_sub (f32_add base (f32_mul (f32_mul r noise_std) 0x40000000)) noise_std, g1))
         else (base, g))"

text \<open>\<^verbatim>\<open>(rng.random::<f32>() - 0.5) * 2.0 * step_std\<close>, of the random walk and the thermal noise.\<close>

definition symmetric_noise :: "f32 \<Rightarrow> f32 \<Rightarrow> f32" where
  "symmetric_noise r std = f32_mul (f32_mul (f32_sub r 0x3F000000) 0x40000000) std"

definition random_walk_next ::
  "'g model_env \<Rightarrow> f32 \<Rightarrow> f32 \<Rightarrow> f32 \<Rightarrow> f32 \<Rightarrow> 'g \<Rightarrow> (f32 \<times> 'g) bres" where
  "random_walk_next env current step_std lo hi g =
     (let (r, g1) = me_random env g
      in rbind (f32_clamp (f32_add current (symmetric_noise r step_std)) lo hi) (\<lambda>v. Ok (v, g1)))"

fun step_value :: "f64 \<Rightarrow> (f64 \<times> f32) list \<Rightarrow> f32 \<Rightarrow> f32" where
  "step_value t [] current = current"
| "step_value t ((ts, val) # rest) current = step_value t rest (if f64_ge t ts then val else current)"

definition step_next :: "(f64 \<times> f32) list \<Rightarrow> f64 \<Rightarrow> f32" where
  "step_next schedule t = step_value t schedule (case schedule of [] \<Rightarrow> 0 | e # _ \<Rightarrow> snd e)"

text \<open>The thermal approach: the new \<^verbatim>\<open>current\<close>, and the value with its noise.\<close>

definition thermal_current :: "'g model_env \<Rightarrow> f32 \<Rightarrow> f32 \<Rightarrow> f64 \<Rightarrow> f64 \<Rightarrow> f64 \<Rightarrow> f32" where
  "thermal_current env setpoint current time_const_s last_t t =
     (let dt = f64_max (f64_sub t last_t) 0;
          alpha = f32_sub 0x3F800000 (f32_of_f64 (me_exp env (f64_div (f64_neg dt) time_const_s)))
      in f32_add current (f32_mul alpha (f32_sub setpoint current)))"

definition thermal_noise :: "'g model_env \<Rightarrow> f32 \<Rightarrow> 'g \<Rightarrow> f32 \<times> 'g" where
  "thermal_noise env noise_std g =
     (if f32_lt 0 noise_std then let (r, g1) = me_random env g in (symmetric_noise r noise_std, g1)
      else (0, g))"

text \<open>\<^verbatim>\<open>next\<close>: the value, the model and the generator after it.  A sum of floats starts from -0.0.\<close>

fun model_next :: "'g model_env \<Rightarrow> f64 \<Rightarrow> value_model \<Rightarrow> 'g \<Rightarrow> (f32 \<times> value_model \<times> 'g) bres"
and models_sum :: "'g model_env \<Rightarrow> f64 \<Rightarrow> value_model list \<Rightarrow> f32 \<Rightarrow> 'g \<Rightarrow> (f32 \<times> value_model list \<times> 'g) bres"
where
  "model_next env t (ConstantModel c) g = Ok (c, ConstantModel c, g)"
| "model_next env t (SineModel a p off n) g =
     (let (v, g1) = sine_next env a p off n t g in Ok (v, SineModel a p off n, g1))"
| "model_next env t (RandomWalkModel c s lo hi) g =
     rbind (random_walk_next env c s lo hi g) (\<lambda>(v, g1). Ok (v, RandomWalkModel v s lo hi, g1))"
| "model_next env t (StepModel sch) g = Ok (step_next sch t, StepModel sch, g)"
| "model_next env t (ThermalModel sp c tc am n lt) g =
     (let c1 = thermal_current env sp c tc lt t; (nz, g1) = thermal_noise env n g
      in Ok (f32_add c1 nz, ThermalModel sp c1 tc am n t, g1))"
| "model_next env t (CompositeModel ms) g =
     rbind (models_sum env t ms 0x80000000 g) (\<lambda>(v, ms1, g1). Ok (v, CompositeModel ms1, g1))"
| "models_sum env t [] acc g = Ok (acc, [], g)"
| "models_sum env t (m # ms) acc g =
     rbind (model_next env t m g) (\<lambda>(v, m1, g1).
     rbind (models_sum env t ms (f32_add acc v) g1) (\<lambda>(s, ms1, g2). Ok (s, m1 # ms1, g2)))"

subsection \<open>Which models panic\<close>

text \<open>The bounds of a random walk are in order; nothing else of a model can panic.\<close>

fun model_ok :: "value_model \<Rightarrow> bool" where
  "model_ok (RandomWalkModel _ _ lo hi) = f32_ge hi lo"
| "model_ok (CompositeModel ms) = list_all model_ok ms"
| "model_ok _ = True"

lemma random_walk_next_Ok:
  "f32_ge hi lo \<Longrightarrow> \<exists>v g1. random_walk_next env c s lo hi g = Ok (v, g1)"
  by (simp add: random_walk_next_def f32_clamp_def Let_def split: prod.split)

lemma model_next_ok:
  "model_ok m \<Longrightarrow> \<exists>v m1 g1. model_next env t m g = Ok (v, m1, g1) \<and> model_ok m1"
  "list_all model_ok ms \<Longrightarrow> \<exists>v ms1 g1. models_sum env t ms acc g = Ok (v, ms1, g1) \<and> list_all model_ok ms1"
proof (induction env t m g and env t ms acc g rule: model_next_models_sum.induct)
  case (3 env t c s lo hi g)
  then show ?case using random_walk_next_Ok [of hi lo env c s g] by auto
next
  case (8 env t m ms acc g)
  from 8(3) have m: "model_ok m" and ms: "list_all model_ok ms" by simp_all
  from 8(1) [OF m] obtain v m1 g1 where 1: "model_next env t m g = Ok (v, m1, g1)" "model_ok m1" by blast
  from 8(2) [OF 1(1) refl refl ms] obtain w ms1 g2
    where "models_sum env t ms (f32_add acc v) g1 = Ok (w, ms1, g2)" "list_all model_ok ms1" by blast
  with 1 show ?case by simp
qed (auto simp: case_prod_beta Let_def)

lemma model_next_panic:
  "\<not> model_ok m \<Longrightarrow> model_next env t m g = Panic"
  "\<not> list_all model_ok ms \<Longrightarrow> models_sum env t ms acc g = Panic"
proof (induction env t m g and env t ms acc g rule: model_next_models_sum.induct)
  case (3 env t c s lo hi g)
  then show ?case by (simp add: random_walk_next_def f32_clamp_def split: prod.split)
next
  case (8 env t m ms acc g)
  show ?case
  proof (cases "model_ok m")
    case True
    then obtain v m1 g1 where "model_next env t m g = Ok (v, m1, g1)"
      using model_next_ok(1) [of m env t g] by auto
    with 8(2) [OF this refl refl] 8(3) True show ?thesis by simp
  next
    case False
    with 8(1) show ?thesis by simp
  qed
qed simp_all

subsection \<open>Runs\<close>

fun model_run :: "'g model_env \<Rightarrow> f64 list \<Rightarrow> value_model \<Rightarrow> 'g \<Rightarrow> (f32 list \<times> value_model) bres" where
  "model_run env [] m g = Ok ([], m)"
| "model_run env (t # ts) m g =
     rbind (model_next env t m g) (\<lambda>(v, m1, g1).
     rbind (model_run env ts m1 g1) (\<lambda>(vs, m2). Ok (v # vs, m2)))"

text \<open>What \<^verbatim>\<open>random::<f32>()\<close> documents: a number of the interval from 0 to 1, without 1.\<close>

definition unit_random :: "'g model_env \<Rightarrow> bool" where
  "unit_random env \<longleftrightarrow> (\<forall>g. f32_ge (fst (me_random env g)) 0 \<and> f32_lt (fst (me_random env g)) 0x3F800000)"

lemma f32_samples:
  "f32_ord 0x3F000000 = 2 ^ 148" "f32_mag 0x40000000 = 2 ^ 150" "f32_ord 0x3F800000 = 2 ^ 149"
  "\<not> f32_is_nan 0x3F000000" "\<not> f32_is_inf 0x3F000000"
  by (simp_all add: f32_ord_def f32_mag_def f32_exp_nat f32_frac_nat f32_sign_nat f32_is_nan_def f32_is_inf_def)

lemma f32_mag_le_power:
  assumes "f32_bits w \<le> f32_round_mag 0 (f32_mag v)" and "\<not> f32_is_nan v"
  shows "f32_mag w \<le> f32_mag v"
  using assms by (intro f32_bits_mag_mono) (simp add: f32_round_mag_number)

lemma symmetric_noise_bounded:
  assumes "f32_ge r 0" and "f32_lt r 0x3F800000" and "f32_exp std < 255"
  shows "f32_exp (symmetric_noise r std) < 255"
proof -
  have r: "\<not> f32_is_nan r" "0 \<le> f32_ord r" "f32_ord r < 2 ^ 149"
    using assms(1,2) by (simp_all add: f32_ge_def f32_lt_def f32_samples f32_ord_0)
  have fin: "\<not> f32_is_inf r"
  proof
    assume "f32_is_inf r"
    then have "f32_mag r = 2 ^ 23 * 2 ^ 254" by (simp add: f32_is_inf_def f32_mag_def)
    with r(2,3) show False by (simp add: f32_ord_def split: if_splits)
  qed
  let ?s = "f32_ord r - 2 ^ 148" and ?d = "f32_sub r 0x3F000000"
  have d: "?d = (if ?s = 0 then (if f32_sign r \<and> \<not> f32_sign 0x3F000000 then 0x80000000 else 0) else f32_round (?s < 0) 0 (nat \<bar>?s\<bar>))"
    using r fin f32_neg_number [of "0x3F000000"] by (simp add: f32_sub_def f32_add_def f32_samples Let_def)
  have half: "f32_mag 0x3F000000 = 2 ^ 148" "f32_mag 0x3F800000 = 2 ^ 149" "\<not> f32_is_nan 0x3F800000"
    by (simp_all add: f32_mag_def f32_exp_nat f32_frac_nat f32_is_nan_def)
  have d1: "\<not> f32_is_nan ?d" "f32_mag ?d \<le> 2 ^ 148"
  proof -
    have zero: "f32_mag 0 = 0" "f32_mag 0x80000000 = 0" "\<not> f32_is_nan 0x80000000" "\<not> f32_is_nan 0"
      by (simp_all add: f32_mag_def f32_exp_nat f32_frac_nat f32_is_nan_def)
    show "\<not> f32_is_nan ?d" by (simp add: d zero f32_round_fields)
    have "nat \<bar>?s\<bar> \<le> f32_mag 0x3F000000" using r(2,3) by (simp add: half)
    from f32_round_mag_mono [OF this, of 0] have "?s \<noteq> 0 \<Longrightarrow> f32_bits ?d \<le> f32_round_mag 0 (f32_mag 0x3F000000)"
      by (simp add: d f32_round_fields)
    then show "f32_mag ?d \<le> 2 ^ 148"
      using f32_mag_le_power [of ?d "0x3F000000"] by (cases "?s = 0") (simp_all add: d zero half f32_samples(4))
  qed
  let ?e = "f32_mul ?d 0x40000000"
  have e: "\<not> f32_is_nan ?e" "f32_mag ?e \<le> 2 ^ 149"
  proof -
    have "\<not> f32_is_inf ?d"
    proof
      assume "f32_is_inf ?d"
      then have "f32_mag ?d = 2 ^ 23 * 2 ^ 254" by (simp add: f32_is_inf_def f32_mag_def)
      with d1(2) show False by simp
    qed
    moreover have "\<not> f32_is_nan 0x40000000" "\<not> f32_is_inf 0x40000000"
      by (simp_all add: f32_is_nan_def f32_is_inf_def f32_exp_nat f32_frac_nat)
    ultimately have mul: "?e = f32_round (f32_sign ?d \<noteq> f32_sign 0x40000000) 149 (f32_mag ?d * 2 ^ 150)"
      using d1(1) by (simp add: f32_mul_def f32_samples Let_def)
    then show "\<not> f32_is_nan ?e" by (simp add: f32_round_fields)
    have "f32_mag ?d * 2 ^ 150 \<le> f32_mag 0x3F800000 * 2 ^ 149" using d1(2) by (simp add: half)
    from f32_round_mag_mono [OF this, of 149] have "f32_bits ?e \<le> f32_round_mag 0 (f32_mag 0x3F800000)"
      by (simp only: mul f32_round_fields f32_round_mag_scaled)
    from f32_mag_le_power [OF this half(3)] show "f32_mag ?e \<le> 2 ^ 149" by (simp add: half)
  qed
  from f32_mul_le(1) [OF e assms(3)] assms(3) show ?thesis
    by (simp add: symmetric_noise_def f32_finite_bits)
qed

lemma f32_add_number:
  assumes "\<not> f32_is_nan a" and "f32_exp b < 255"
  shows "\<not> f32_is_nan (f32_add a b)"
proof -
  have "\<not> f32_is_nan b" "\<not> f32_is_inf b" using assms(2) by (simp_all add: f32_is_nan_def f32_is_inf_def)
  moreover have "\<not> f32_is_nan 0x80000000" by (simp add: f32_is_nan_def f32_exp_nat)
  ultimately show ?thesis using assms(1) by (simp add: f32_add_def f32_round_fields Let_def)
qed

lemma random_walk_run:
  assumes "unit_random env" and "f32_ge hi lo" and "\<not> f32_is_nan c" and "f32_exp s < 255"
  shows "\<exists>vs c'. model_run env ts (RandomWalkModel c s lo hi) g = Ok (vs, RandomWalkModel c' s lo hi) \<and>
    length vs = length ts \<and> (\<forall>v \<in> set vs. f32_ge v lo \<and> f32_ge hi v)"
  using assms(3)
proof (induction ts arbitrary: c g)
  case (Cons t ts)
  obtain v g1 where v: "random_walk_next env c s lo hi g = Ok (v, g1)"
    using random_walk_next_Ok [OF assms(2), of env c s g] by auto
  have "f32_exp (symmetric_noise (fst (me_random env g)) s) < 255"
    using assms(1,4) by (intro symmetric_noise_bounded) (simp_all add: unit_random_def)
  from f32_add_number [OF Cons.prems this] v have "f32_ge v lo \<and> f32_ge hi v"
    by (auto simp: random_walk_next_def rbind_eq_Ok split: prod.splits dest: f32_clamp_bounds)
  moreover from this have "\<not> f32_is_nan v" by (simp add: f32_ge_def)
  ultimately show ?case using v Cons.IH [of v g1] by auto
qed simp

text \<open>A NaN stays.\<close>

lemma random_walk_nan:
  assumes "f32_ge hi lo" and "f32_is_nan c"
  shows "\<exists>vs c'. model_run env ts (RandomWalkModel c s lo hi) g = Ok (vs, RandomWalkModel c' s lo hi) \<and>
    length vs = length ts \<and> (\<forall>v \<in> set vs. f32_is_nan v)"
  using assms(2)
proof (induction ts arbitrary: c g)
  case (Cons t ts)
  have nan: "f32_is_nan f32_nan" by (simp add: f32_nan_def f32_is_nan_def f32_exp_nat f32_frac_nat)
  have "f32_clamp (f32_add c x) lo hi = (Ok f32_nan :: f32 bres)" for x
    using assms(1) Cons.prems nan by (simp add: f32_add_def f32_clamp_def f32_lt_def Let_def)
  then have "random_walk_next env c s lo hi g = Ok (f32_nan, snd (me_random env g))"
    by (simp add: random_walk_next_def case_prod_beta Let_def)
  with Cons.IH [OF nan, of "snd (me_random env g)"] nan show ?case by auto
qed simp

subsection \<open>Properties\<close>

text \<open>
  C37. A random walk stays within its bounds.  With bounds in order, a start that is a number and a
  finite step, and a generator of numbers of the unit interval, every value of a run, at any times, is a
  number from \<^verbatim>\<open>min\<close> to \<^verbatim>\<open>max\<close>; a walk that starts at NaN gives nothing but NaN; and with bounds that
  are swapped, or a NaN among them, already the first value panics, also inside a composite model.
\<close>

theorem random_walk_stays_in_bounds:
  assumes "unit_random env"
  shows "(f32_ge hi lo \<and> \<not> f32_is_nan c \<and> f32_exp s < 255 \<longrightarrow>
      (\<exists>vs c'. model_run env ts (RandomWalkModel c s lo hi) g = Ok (vs, RandomWalkModel c' s lo hi) \<and>
        length vs = length ts \<and> (\<forall>v \<in> set vs. f32_ge v lo \<and> f32_ge hi v))) \<and>
    (f32_ge hi lo \<and> f32_is_nan c \<longrightarrow>
      (\<exists>vs c'. model_run env ts (RandomWalkModel c s lo hi) g = Ok (vs, RandomWalkModel c' s lo hi) \<and>
        length vs = length ts \<and> (\<forall>v \<in> set vs. f32_is_nan v))) \<and>
    (f32_lt hi lo \<or> f32_is_nan lo \<or> f32_is_nan hi \<longrightarrow>
      model_next env t (RandomWalkModel c s lo hi) g = Panic \<and>
      (RandomWalkModel c s lo hi \<in> set ms \<longrightarrow> model_next env t (CompositeModel ms) g = Panic))"
proof -
  have p: "model_next env t (RandomWalkModel c s lo hi) g = Panic \<and>
      (RandomWalkModel c s lo hi \<in> set ms \<longrightarrow> model_next env t (CompositeModel ms) g = Panic)"
    if "f32_lt hi lo \<or> f32_is_nan lo \<or> f32_is_nan hi"
  proof -
    have bad: "\<not> model_ok (RandomWalkModel c s lo hi)" using that by (auto simp: f32_ge_def f32_lt_def)
    have "\<not> model_ok (CompositeModel ms)" if "RandomWalkModel c s lo hi \<in> set ms"
      using that bad by (auto simp: list_all_iff simp del: model_ok.simps(1) intro!: bexI [of _ "RandomWalkModel c s lo hi"])
    then show ?thesis by (intro conjI impI model_next_panic(1) bad)
  qed
  show ?thesis
    by (intro conjI [OF impI conjI [OF impI impI]]; (elim conjE)?)
      (rule random_walk_run [OF assms], assumption+, rule random_walk_nan, assumption+, rule p)
qed

definition example_env :: "nat model_env" where
  "example_env = \<lparr>me_sin = (\<lambda>x. x), me_exp = (\<lambda>x. x),
     me_random = (\<lambda>n. (if even n then 0x3F400000 else 0x3E800000, Suc n))\<rparr>"

theorem random_walk_stays_in_bounds_witness:
  "\<exists>vs c'. model_run example_env [0, 0] (RandomWalkModel 0x41A00000 0x3F000000 0 0x42C80000) 7 =
      Ok (vs, RandomWalkModel c' 0x3F000000 0 0x42C80000) \<and> length vs = 2 \<and> (\<forall>v \<in> set vs. f32_ge v 0 \<and> f32_ge 0x42C80000 v)"
proof -
  have g: "f32_ge 0x42C80000 0" "f32_ge 0x3F400000 0" "f32_ge 0x3E800000 0" "f32_lt 0x3F400000 0x3F800000"
      "f32_lt 0x3E800000 0x3F800000" by (simp_all add: f32_eval)
  have "unit_random example_env" using g by (simp add: unit_random_def example_env_def)
  note walk = conjunct1 [OF random_walk_stays_in_bounds [OF this, of "0x42C80000" 0 "0x41A00000" "0x3F000000" "[0, 0]" 7]]
  have "\<not> f32_is_nan 0x41A00000" "f32_exp 0x3F000000 < 255" by (simp_all add: f32_is_nan_def f32_exp_nat)
  with walk g(1) show ?thesis by (simp only: simp_thms) (simp add: numeral_2_eq_2 del: model_run.simps)
qed

end
