(* ===== verification/Sim_Engine.thy ===== *)
theory Sim_Engine
  imports Store Cov_Engine Alarm_Engine Value_Model
begin

text \<open>
  \<^verbatim>\<open>crates/bacnet-sim-engine/src/engine.rs\<close>, \<^verbatim>\<open>schedule_engine.rs\<close> and \<^verbatim>\<open>scenario.rs\<close>: one tick of the
  simulation over the store, the schedule outputs, and the two functions a scenario script calls.

  The clocks of a tick are arguments: the seconds since the start, the wall clock, the instant at
  which it begins, one for the subscriptions and the time it took.  \<open>se_sent\<close> is what went into the
  channel for notifications.
\<close>

record 'g model_entry =
  ent_model :: value_model
  ent_rng :: 'g
  ent_cov_increment :: f32
  ent_last_value :: f32
  ent_alarm :: "alarm_state_machine option"

type_synonym 'g models = "(store_key \<times> 'g model_entry) list"

record 'g sim_engine =
  se_store :: store
  se_tick_hz :: f64
  se_models :: "'g models"
  se_cov :: cov_subscriptions
  se_sent :: "engine_notification list"
  se_last_tick_nanos :: u64
  se_cov_notifications_total :: u64
  se_last_expire :: instant

definition sim_engine_new :: "store \<Rightarrow> f64 \<Rightarrow> instant \<Rightarrow> 'g sim_engine" where
  "sim_engine_new st hz now = \<lparr>se_store = st, se_tick_hz = hz, se_models = [], se_cov = [], se_sent = [],
     se_last_tick_nanos = 0, se_cov_notifications_total = 0, se_last_expire = now\<rparr>"

definition engine_obj_key :: "device_id \<Rightarrow> object_id \<Rightarrow> u64 \<times> u64" where
  "engine_obj_key device oid =
     (let dk = ucast device; k = push_bit 22 (ucast (ot_code (oid_type oid))) OR ucast (oid_instance oid)
      in (dk, k))"

definition add_model ::
  "('s \<Rightarrow> 'g) \<Rightarrow> device_id \<Rightarrow> object_id \<Rightarrow> value_model \<Rightarrow> f32 \<Rightarrow> alarm_state_machine option \<Rightarrow> 's \<Rightarrow>
   'g sim_engine \<Rightarrow> 'g sim_engine" where
  "add_model seed_from device oid m cov_increment alarm seed eng =
     eng\<lparr>se_models := hm_insert (engine_obj_key device oid)
       \<lparr>ent_model = m, ent_rng = seed_from seed, ent_cov_increment = f32_max cov_increment 0,
        ent_last_value = 0, ent_alarm = alarm\<rparr> (se_models eng)\<rparr>"

subsection \<open>One tick\<close>

type_synonym change = "device_id \<times> object_id \<times> f32"

definition model_step ::
  "'g model_env \<Rightarrow> f64 \<Rightarrow> system_time \<Rightarrow> duration \<Rightarrow> instant \<Rightarrow> bacnet_object \<Rightarrow> 'g model_entry \<Rightarrow>
   (bacnet_object \<times> 'g model_entry \<times> change list) bres" where
  "model_step env t sys period now ob e =
     rbind (model_next env t (ent_model e) (ent_rng e)) (\<lambda>(new_val, m1, g1).
       let (r, ob1) = obj_force_write sys now ob PID_PresentValue (PV_Real new_val) in
       if r = Panic then Panic
       else rbind (obj_tick sys period ob1) (\<lambda>ob2.
         let alarm1 = map_option (\<lambda>sm. snd (evaluate (PV_Real new_val) now (obj_object_id ob2) sm)) (ent_alarm e);
             e1 = e\<lparr>ent_model := m1, ent_rng := g1, ent_alarm := alarm1\<rparr> in
         if f32_ge (f32_abs (f32_sub new_val (ent_last_value e))) (ent_cov_increment e)
         then Ok (ob2, e1\<lparr>ent_last_value := new_val\<rparr>, [(obj_device_id ob2, obj_object_id ob2, new_val)])
         else Ok (ob2, e1, [])))"

definition tick_object ::
  "'g model_env \<Rightarrow> f64 \<Rightarrow> system_time \<Rightarrow> duration \<Rightarrow> instant \<Rightarrow> store_key \<Rightarrow> bacnet_object \<Rightarrow> 'g models \<Rightarrow>
   (bacnet_object \<times> 'g models \<times> change list) bres" where
  "tick_object env t sys period now k ob models =
     (case map_of models k of
        Some e \<Rightarrow>
          rbind (model_step env t sys period now ob e) (\<lambda>(ob1, e1, changed).
            Ok (ob1, hm_insert k e1 models, changed))
      | None \<Rightarrow> rbind (obj_tick sys period ob) (\<lambda>ob1. Ok (ob1, models, [])))"

fun tick_shard ::
  "'g model_env \<Rightarrow> f64 \<Rightarrow> system_time \<Rightarrow> duration \<Rightarrow> instant \<Rightarrow> shard \<Rightarrow> 'g models \<Rightarrow>
   (shard \<times> 'g models \<times> change list) bres" where
  "tick_shard env t sys period now [] models = Ok ([], models, [])"
| "tick_shard env t sys period now ((k, ob) # m) models =
     rbind (tick_object env t sys period now k ob models) (\<lambda>(ob1, models1, ch).
     rbind (tick_shard env t sys period now m models1) (\<lambda>(m1, models2, ch1).
       Ok ((k, ob1) # m1, models2, ch @ ch1)))"

fun tick_store ::
  "'g model_env \<Rightarrow> f64 \<Rightarrow> system_time \<Rightarrow> duration \<Rightarrow> instant \<Rightarrow> store \<Rightarrow> 'g models \<Rightarrow>
   (store \<times> 'g models \<times> change list) bres" where
  "tick_store env t sys period now [] models = Ok ([], models, [])"
| "tick_store env t sys period now (m # st) models =
     rbind (tick_shard env t sys period now m models) (\<lambda>(m1, models1, ch).
     rbind (tick_store env t sys period now st models1) (\<lambda>(st1, models2, ch1).
       Ok (m1 # st1, models2, ch @ ch1)))"

text \<open>The notifications of the changes: how many calls sent any, what was sent, the subscriptions.\<close>

fun notify_changes ::
  "instant \<Rightarrow> change list \<Rightarrow> cov_subscriptions \<Rightarrow> nat \<times> engine_notification list \<times> cov_subscriptions" where
  "notify_changes now [] subs = (0, [], subs)"
| "notify_changes now ((dev, oid, v) # ch) subs =
     (let ((notified, ns), subs1) = check_and_notify now dev oid PID_PresentValue (PV_Real v) subs;
          (n, ns1, subs2) = notify_changes now ch subs1
      in (of_bool notified + n, ns @ ns1, subs2))"

definition sim_tick ::
  "'g model_env \<Rightarrow> f64 \<Rightarrow> system_time \<Rightarrow> duration \<Rightarrow> instant \<Rightarrow> instant \<Rightarrow> duration \<Rightarrow> 'g sim_engine \<Rightarrow>
   'g sim_engine bres" where
  "sim_tick env t sys period now later elapsed eng =
     rbind (tick_store env t sys period now (se_store eng) (se_models eng)) (\<lambda>(st1, models1, changed).
       let (cov_sent, ns, subs1) = notify_changes later changed (se_cov eng);
           expire = 10 \<le> (now - se_last_expire eng) div 1000000000 in
       Ok (eng\<lparr>se_store := st1, se_models := models1, se_sent := se_sent eng @ ns,
             se_cov_notifications_total := se_cov_notifications_total eng + of_nat cov_sent,
             se_cov := if expire then snd (expire_old later subs1) else subs1,
             se_last_expire := if expire then now else se_last_expire eng,
             se_last_tick_nanos := of_nat elapsed\<rparr>))"

subsection \<open>Schedules\<close>

record schedule_output =
  so_schedule_device :: device_id
  so_schedule_object :: object_id
  so_target_device :: device_id
  so_target_object :: object_id
  so_target_property :: property_identifier

text \<open>One output: nothing happens unless the schedule is there, readable and not null.\<close>

definition schedule_output_tick ::
  "hash_fn \<Rightarrow> system_time \<Rightarrow> instant \<Rightarrow> schedule_output \<Rightarrow> store \<Rightarrow> store" where
  "schedule_output_tick fx sys now out st =
     (case store_get fx st (so_schedule_device out) (so_schedule_object out) of
        None \<Rightarrow> st
      | Some ob \<Rightarrow>
          (case obj_read_property sys ob PID_PresentValue None of
             Ok pv \<Rightarrow>
               if \<not> pv_eq pv PV_Null
               then snd (store_write fx now st (so_target_device out) (so_target_object out)
                 (so_target_property out) None pv None)
               else st
           | _ \<Rightarrow> st))"

definition schedule_engine_tick ::
  "hash_fn \<Rightarrow> system_time \<Rightarrow> instant \<Rightarrow> schedule_output list \<Rightarrow> store \<Rightarrow> store" where
  "schedule_engine_tick fx sys now outs st = fold (schedule_output_tick fx sys now) outs st"

subsection \<open>Scenario functions\<close>

text \<open>The script's integers are \<^verbatim>\<open>i64\<close>; the \<^verbatim>\<open>as\<close> casts keep their low bits.\<close>

definition scenario_oid :: "object_type \<Rightarrow> 64 word \<Rightarrow> 64 word \<Rightarrow> object_id" where
  "scenario_oid fallback object_type inst =
     \<lparr>oid_type = (case object_type_from_u16 (ucast object_type) of None \<Rightarrow> fallback | Some ty \<Rightarrow> ty),
      oid_instance = ucast inst\<rparr>"

definition set_analog ::
  "hash_fn \<Rightarrow> system_time \<Rightarrow> instant \<Rightarrow> 64 word \<Rightarrow> 64 word \<Rightarrow> 64 word \<Rightarrow> f64 \<Rightarrow> store \<Rightarrow> store" where
  "set_analog fx sys now device object_type inst v st =
     snd (store_force_write fx sys now st (ucast device) (scenario_oid OT_AnalogInput object_type inst)
       PID_PresentValue (PV_Real (f32_of_f64 v)))"

definition set_binary ::
  "hash_fn \<Rightarrow> system_time \<Rightarrow> instant \<Rightarrow> 64 word \<Rightarrow> 64 word \<Rightarrow> 64 word \<Rightarrow> bool \<Rightarrow> store \<Rightarrow> store" where
  "set_binary fx sys now device object_type inst v st =
     snd (store_force_write fx sys now st (ucast device) (scenario_oid OT_BinaryInput object_type inst)
       PID_PresentValue (PV_Boolean v))"

subsection \<open>The tick keeps the store\<close>

lemma engine_obj_key_eq: "engine_obj_key d oid = obj_key d oid"
  by (simp add: engine_obj_key_def obj_key_def)

definition models_ok :: "'g models \<Rightarrow> bool" where
  "models_ok models \<longleftrightarrow> hm_wf models \<and> (\<forall>(k, e) \<in> set models. model_ok (ent_model e))"

lemma models_ok_insert: "models_ok models \<Longrightarrow> model_ok (ent_model e) \<Longrightarrow> models_ok (hm_insert k e models)"
  using set_hm_insert [of k e models] by (auto simp: models_ok_def)

lemma models_ok_entry: "models_ok models \<Longrightarrow> map_of models k = Some e \<Longrightarrow> model_ok (ent_model e)"
  by (auto simp: models_ok_def dest: map_of_SomeD)

lemma model_step_ok:
  assumes "obj_ok ob" and "model_ok (ent_model e)"
  shows "\<exists>ob1 e1 ch v. model_step env t sys period now ob e = Ok (ob1, e1, ch) \<and>
    model_next env t (ent_model e) (ent_rng e) = Ok (v, ent_model e1, ent_rng e1) \<and>
    obj_tick sys period (snd (obj_force_write sys now ob PID_PresentValue (PV_Real v))) = Ok ob1 \<and>
    obj_ok ob1 \<and> obj_object_id ob1 = obj_object_id ob \<and> model_ok (ent_model e1)"
proof -
  obtain v m1 g1 where v: "model_next env t (ent_model e) (ent_rng e) = Ok (v, m1, g1)" and m: "model_ok m1"
    using model_next_ok(1) [OF assms(2), of env t "ent_rng e"] by auto
  let ?w = "obj_force_write sys now ob PID_PresentValue (PV_Real v)"
  have w: "fst ?w \<noteq> Panic" "obj_ok (snd ?w)" "obj_object_id (snd ?w) = obj_object_id ob"
    using objects.force_no_panic [OF assms(1)] objects.force_ok [OF assms(1)] objects.force_oid
    by (simp_all add: obj_force_write_def)
  from obj_tick_ok [OF w(2), of sys period] obtain ob1 where
    ob1: "obj_tick sys period (snd ?w) = Ok ob1" "obj_ok ob1" "obj_object_id ob1 = obj_object_id ob"
    using w(3) by auto
  with v m w(1) show ?thesis by (simp add: model_step_def case_prod_beta Let_def)
qed

text \<open>What a tick makes of the object and the model under one key.\<close>

definition ticked ::
  "'g model_env \<Rightarrow> f64 \<Rightarrow> system_time \<Rightarrow> duration \<Rightarrow> instant \<Rightarrow> bacnet_object \<Rightarrow> 'g model_entry option \<Rightarrow>
   bacnet_object \<Rightarrow> 'g model_entry option \<Rightarrow> bool" where
  "ticked env t sys period now ob eo ob1 eo1 \<longleftrightarrow>
     obj_ok ob1 \<and> obj_object_id ob1 = obj_object_id ob \<and>
     (case eo of
        None \<Rightarrow> obj_tick sys period ob = Ok ob1 \<and> eo1 = None
      | Some e \<Rightarrow> (\<exists>v e1. eo1 = Some e1 \<and>
          model_next env t (ent_model e) (ent_rng e) = Ok (v, ent_model e1, ent_rng e1) \<and>
          obj_tick sys period (snd (obj_force_write sys now ob PID_PresentValue (PV_Real v))) = Ok ob1))"

lemma tick_object_ticked:
  assumes "obj_ok ob" and "models_ok models"
  shows "\<exists>ob1 models1 ch. tick_object env t sys period now k ob models = Ok (ob1, models1, ch) \<and>
    models_ok models1 \<and> ticked env t sys period now ob (map_of models k) ob1 (map_of models1 k) \<and>
    (\<forall>j. j \<noteq> k \<longrightarrow> map_of models1 j = map_of models j)"
proof (cases "map_of models k")
  case None
  obtain ob1 where "obj_tick sys period ob = Ok ob1" "obj_ok ob1" "obj_object_id ob1 = obj_object_id ob"
    using obj_tick_ok [OF assms(1)] .
  with None assms(2) show ?thesis by (simp add: tick_object_def ticked_def)
next
  case (Some e)
  have "model_ok (ent_model e)" using models_ok_entry [OF assms(2) Some] .
  from model_step_ok [OF assms(1) this, of env t sys period now] obtain ob1 e1 ch v where
    s: "model_step env t sys period now ob e = Ok (ob1, e1, ch)" and m: "model_ok (ent_model e1)" and
    r: "model_next env t (ent_model e) (ent_rng e) = Ok (v, ent_model e1, ent_rng e1)"
      "obj_tick sys period (snd (obj_force_write sys now ob PID_PresentValue (PV_Real v))) = Ok ob1"
      "obj_ok ob1" "obj_object_id ob1 = obj_object_id ob" by (elim exE conjE) (rule that)
  have "ticked env t sys period now ob (Some e) ob1 (Some e1)"
    using r by (simp add: ticked_def)
  moreover have "tick_object env t sys period now k ob models = Ok (ob1, hm_insert k e1 models, ch)"
    by (simp add: tick_object_def Some s)
  moreover have "map_of (hm_insert k e1 models) k = Some e1"
    and "\<forall>j. j \<noteq> k \<longrightarrow> map_of (hm_insert k e1 models) j = map_of models j" by simp_all
  ultimately show ?thesis using models_ok_insert [OF assms(2) m, of k] Some
    by (intro exI [of _ ob1] exI [of _ "hm_insert k e1 models"] exI [of _ ch]) simp
qed

lemma tick_shard_ticked:
  assumes "distinct (map fst m)" and "\<forall>(k, ob) \<in> set m. obj_ok ob" and "models_ok models"
  shows "\<exists>m1 models1 ch. tick_shard env t sys period now m models = Ok (m1, models1, ch) \<and>
    map fst m1 = map fst m \<and> models_ok models1 \<and>
    (\<forall>k. map_of m k = None \<longrightarrow> map_of models1 k = map_of models k) \<and>
    (\<forall>k ob. map_of m k = Some ob \<longrightarrow> (\<exists>ob1. map_of m1 k = Some ob1 \<and>
      ticked env t sys period now ob (map_of models k) ob1 (map_of models1 k)))"
  using assms
proof (induction m arbitrary: models)
  case (Cons p m)
  obtain k ob where p: "p = (k, ob)" by (cases p)
  from Cons.prems p have ob: "obj_ok ob" and d: "distinct (map fst m)" and o: "\<forall>(k, ob) \<in> set m. obj_ok ob"
    and k: "map_of m k = None" by (auto simp: map_of_eq_None_iff)
  from tick_object_ticked [OF ob Cons.prems(3), of env t sys period now k] obtain ob1 models1 ch where
    1: "tick_object env t sys period now k ob models = Ok (ob1, models1, ch)" "models_ok models1"
      "ticked env t sys period now ob (map_of models k) ob1 (map_of models1 k)"
      "\<forall>j. j \<noteq> k \<longrightarrow> map_of models1 j = map_of models j" by blast
  from Cons.IH [OF d o 1(2)] obtain m1 models2 ch1 where
    2: "tick_shard env t sys period now m models1 = Ok (m1, models2, ch1)" "map fst m1 = map fst m"
      "models_ok models2" "\<forall>k. map_of m k = None \<longrightarrow> map_of models2 k = map_of models1 k"
      "\<forall>k ob. map_of m k = Some ob \<longrightarrow> (\<exists>ob1. map_of m1 k = Some ob1 \<and>
        ticked env t sys period now ob (map_of models1 k) ob1 (map_of models2 k))" by blast
  show ?case
  proof (intro exI conjI)
    show "tick_shard env t sys period now (p # m) models = Ok ((k, ob1) # m1, models2, ch @ ch1)"
      by (simp add: p 1(1) 2(1))
    show "models_ok models2" by (rule 2(3))
    show "\<forall>j. map_of (p # m) j = None \<longrightarrow> map_of models2 j = map_of models j"
      using 1(4) 2(4) by (auto simp: p split: if_splits)
    show "\<forall>j ob'. map_of (p # m) j = Some ob' \<longrightarrow> (\<exists>ob1'. map_of ((k, ob1) # m1) j = Some ob1' \<and>
        ticked env t sys period now ob' (map_of models j) ob1' (map_of models2 j))"
    proof (intro allI impI)
      fix j ob'
      assume j: "map_of (p # m) j = Some ob'"
      show "\<exists>ob1'. map_of ((k, ob1) # m1) j = Some ob1' \<and>
        ticked env t sys period now ob' (map_of models j) ob1' (map_of models2 j)"
      proof (cases "j = k")
        case True
        then show ?thesis using j 1(3) 2(4) [rule_format, OF k] by (simp add: p)
      next
        case False
        with j have "map_of m j = Some ob'" by (simp add: p)
        with 2(5) 1(4) False show ?thesis by fastforce
      qed
    qed
  qed (simp add: p 2(2))
qed simp

lemma tick_shard_append:
  "tick_shard env t sys period now (m @ n) models =
    rbind (tick_shard env t sys period now m models) (\<lambda>(m1, models1, ch).
    rbind (tick_shard env t sys period now n models1) (\<lambda>(n1, models2, ch1). Ok (m1 @ n1, models2, ch @ ch1)))"
proof (induction m arbitrary: models)
  case Nil
  show ?case by (cases "tick_shard env t sys period now n models") auto
next
  case (Cons p m)
  obtain k ob where p: "p = (k, ob)" by (cases p)
  show ?case
    by (cases "tick_object env t sys period now k ob models")
      (auto simp: p Cons rbind_assoc case_prod_beta intro!: arg_cong2 [where f = rbind])
qed

text \<open>The shards of a store are ticked like one long shard.\<close>

lemma tick_store_concat:
  "tick_shard env t sys period now (concat st) models =
    rbind (tick_store env t sys period now st models) (\<lambda>(st1, models1, ch). Ok (concat st1, models1, ch))"
proof (induction st arbitrary: models)
  case (Cons m st)
  show ?case
    by (cases "tick_shard env t sys period now m models")
      (auto simp: tick_shard_append Cons rbind_assoc case_prod_beta intro!: arg_cong2 [where f = rbind])
qed simp

lemma tick_shard_keys:
  "tick_shard env t sys period now m models = Ok (m1, models1, ch) \<Longrightarrow> map fst m1 = map fst m"
  by (induction m arbitrary: models m1 models1 ch) (auto simp: rbind_eq_Ok split: prod.splits)

lemma tick_store_keys:
  "tick_store env t sys period now st models = Ok (st1, models1, ch) \<Longrightarrow> map (map fst) st1 = map (map fst) st"
  by (induction st arbitrary: models st1 models1 ch)
    (auto simp: rbind_eq_Ok split: prod.splits dest!: tick_shard_keys)

lemma shards_distinct:
  "\<forall>s < length st. shard_ok fx (off + s) (st ! s) \<Longrightarrow>
   distinct (map fst (concat st)) \<and> (\<forall>k \<in> set (map fst (concat st)). off \<le> shard_index fx k)"
proof (induction st arbitrary: off)
  case (Cons m st)
  have m: "shard_ok fx off m" using Cons.prems by force
  have "\<forall>s < length st. shard_ok fx (Suc off + s) (st ! s)" using Cons.prems by auto
  note st = Cons.IH [OF this]
  have "\<forall>k \<in> set (map fst m). shard_index fx k = off" using m by (auto simp: shard_ok_def)
  moreover have "distinct (map fst m)" using m by (simp add: shard_ok_def hm_wf_def)
  moreover have "set (map fst m) \<inter> set (map fst (concat st)) = {}"
    using st calculation(1) by (metis Suc_n_not_le_n disjoint_iff)
  ultimately have "distinct (map fst (concat (m # st)))" using st by simp
  moreover have "\<forall>k \<in> set (map fst (concat (m # st))). off \<le> shard_index fx k"
  proof
    fix k
    assume "k \<in> set (map fst (concat (m # st)))"
    then have "k \<in> set (map fst m) \<or> k \<in> set (map fst (concat st))" by simp
    then show "off \<le> shard_index fx k"
    proof
      assume "k \<in> set (map fst m)"
      with \<open>\<forall>k \<in> set (map fst m). shard_index fx k = off\<close> show ?thesis by (simp only: order_refl)
    next
      assume "k \<in> set (map fst (concat st))"
      from bspec [OF conjunct2 [OF st] this] show ?thesis by (rule Suc_leD)
    qed
  qed
  ultimately show ?case by simp
qed simp

lemma store_keys_distinct: "store_ok fx st \<Longrightarrow> distinct (map fst (concat st))"
  using shards_distinct [of st fx 0] by (simp add: store_ok_def)

lemma store_get_concat:
  assumes "store_ok fx st"
  shows "store_get fx st d oid = map_of (concat st) (obj_key d oid)"
proof -
  let ?k = "obj_key d oid"
  let ?s = "shard_index fx ?k"
  have s: "?s < length st" using assms shard_index_less by (simp add: store_ok_def)
  have "map_of (st ! ?s) ?k = map_of (concat st) ?k"
  proof (cases "map_of (st ! ?s) ?k")
    case (Some ob)
    then have "(?k, ob) \<in> set (concat st)" using s by (auto dest: map_of_SomeD)
    then show ?thesis using Some store_keys_distinct [OF assms] by simp
  next
    case None
    have "?k \<notin> fst ` set (concat st)"
    proof
      assume "?k \<in> fst ` set (concat st)"
      then obtain ob r where r: "r < length st" "(?k, ob) \<in> set (st ! r)"
        by (auto simp: in_set_conv_nth [of _ st])
      then have "shard_index fx ?k = r" using assms by (auto simp: store_ok_def shard_ok_def)
      with None r(2) show False by (force simp: map_of_eq_None_iff)
    qed
    then have "map_of (concat st) ?k = None" by (simp only: map_of_eq_None_iff not_False_eq_True)
    then show ?thesis using None by simp
  qed
  then show ?thesis by (simp add: store_get_def shard_key_def)
qed

lemma tick_store_ticked:
  assumes "store_ok fx st" and "models_ok models"
  shows "\<exists>st1 models1 ch. tick_store env t sys period now st models = Ok (st1, models1, ch) \<and>
    store_ok fx st1 \<and> models_ok models1 \<and> store_count st1 = store_count st \<and>
    (\<forall>k. map_of (concat st) k = None \<longrightarrow> map_of models1 k = map_of models k) \<and>
    (\<forall>k ob. map_of (concat st) k = Some ob \<longrightarrow> (\<exists>ob1. map_of (concat st1) k = Some ob1 \<and>
      ticked env t sys period now ob (map_of models k) ob1 (map_of models1 k)))"
proof -
  have "\<forall>(k, ob) \<in> set (concat st). obj_ok ob"
    using assms(1) by (fastforce simp: store_ok_def shard_ok_def in_set_conv_nth [of _ st])
  from tick_shard_ticked [OF store_keys_distinct [OF assms(1)] this assms(2), of env t sys period now]
  obtain m1 models1 ch where c: "tick_shard env t sys period now (concat st) models = Ok (m1, models1, ch)"
      "models_ok models1" "\<forall>k. map_of (concat st) k = None \<longrightarrow> map_of models1 k = map_of models k"
      "\<forall>k ob. map_of (concat st) k = Some ob \<longrightarrow> (\<exists>ob1. map_of m1 k = Some ob1 \<and>
        ticked env t sys period now ob (map_of models k) ob1 (map_of models1 k))" by (elim exE conjE) (rule that)
  from c(1) obtain st1 where st1: "tick_store env t sys period now st models = Ok (st1, models1, ch)" "m1 = concat st1"
    by (auto simp: tick_store_concat rbind_eq_Ok)
  have keys: "map (map fst) st1 = map (map fst) st" by (rule tick_store_keys [OF st1(1)])
  have l: "length st1 = length st" using arg_cong [OF keys, of length] by simp
  have nth: "map fst (st1 ! s) = map fst (st ! s)" if "s < length st" for s
    using arg_cong [OF keys, of "\<lambda>xs. xs ! s"] that l by simp
  have count: "store_count st1 = store_count st"
    using arg_cong [OF keys, of "\<lambda>xs. sum_list (map length xs)"] by (simp add: store_count_def o_def)
  have "shard_ok fx s (st1 ! s)" if s: "s < length st" for s
  proof -
    have ok: "shard_ok fx s (st ! s)" using assms(1) s by (simp add: store_ok_def)
    have "shard_index fx k = s \<and> obj_ok ob1 \<and> snd k = snd (obj_key 0 (obj_object_id ob1))"
      if e: "(k, ob1) \<in> set (st1 ! s)" for k ob1
    proof -
      have "(k, ob1) \<in> set (concat st1)" using e s l by auto
      moreover have d: "distinct (map fst (concat st1))"
        using store_keys_distinct [OF assms(1)] keys by (simp add: map_concat)
      ultimately have m: "map_of (concat st1) k = Some ob1" by simp
      have "k \<in> set (map fst (st1 ! s))" using e by force
      then have "k \<in> set (map fst (st ! s))" by (simp only: nth [OF s])
      then obtain ob where ob: "(k, ob) \<in> set (st ! s)" by auto
      then have "map_of (concat st) k = Some ob"
        using s store_keys_distinct [OF assms(1)] by (intro map_of_is_SomeI) auto
      from c(4) [rule_format, OF this] m
      have "ticked env t sys period now ob (map_of models k) ob1 (map_of models1 k)" by (simp add: st1(2))
      then show ?thesis using ok ob by (auto simp: ticked_def shard_ok_def)
    qed
    then show ?thesis using ok nth [OF s] by (auto simp: shard_ok_def hm_wf_def)
  qed
  then have "store_ok fx st1" using assms(1) l by (simp add: store_ok_def)
  with st1 c(2-4) count show ?thesis by blast
qed

lemma notify_changes_wf: "hm_wf subs \<Longrightarrow> hm_wf (snd (snd (notify_changes now ch subs)))"
  by (induction ch arbitrary: subs) (auto simp: case_prod_beta Let_def)

lemma expire_old_wf: "hm_wf subs \<Longrightarrow> hm_wf (snd (expire_old now subs))"
  by (simp add: expire_old_def hm_wf_def distinct_map_filter)

lemma ai_force_write_read:
  "obj_read_property sys2 (snd (obj_force_write sys now (Obj_AnalogInput x) PID_PresentValue (PV_Real v)))
     PID_PresentValue None = Ok (PV_Real v)"
  by (simp add: obj_force_write_def force_write_property_def ai_write_property_def ai_read_property_def
      as_bool_def as_f32_def Let_def)

lemma ai_force_write_oos:
  "obj_read_property sys2 (snd (obj_force_write sys now (Obj_AnalogInput x) PID_PresentValue (PV_Real v)))
     PID_OutOfService None = obj_read_property sys2 (Obj_AnalogInput x) PID_OutOfService None"
  by (simp add: obj_force_write_def force_write_property_def ai_write_property_def ai_read_property_def
      as_bool_def as_f32_def Let_def)

lemma ai_force_write_input:
  "\<exists>y. snd (obj_force_write sys now (Obj_AnalogInput x) pid v) = Obj_AnalogInput y"
  by (simp add: obj_force_write_def force_write_property_def case_prod_beta Let_def split: rres.split)

subsection \<open>Outputs of schedules\<close>

definition outputs_ok :: "schedule_output list \<Rightarrow> bool" where
  "outputs_ok outs \<longleftrightarrow> (\<forall>out \<in> set outs. oid_ok (so_target_object out))"

lemma write_keeps_ok:
  assumes "store_ok fx st"
  shows "store_ok fx (snd (store_write fx now st d oid pid i v pr))"
  unfolding store_write_def
  by (rule objstore.ok_modify [OF assms]) (use objects.wr_ok objects.wr_oid in blast)

lemma schedule_output_tick_ok: "store_ok fx st \<Longrightarrow> store_ok fx (schedule_output_tick fx sys now out st)"
  by (simp add: schedule_output_tick_def write_keeps_ok split: option.split rres.split)

lemma schedule_output_tick_other:
  assumes "store_ok fx st" and "oid_ok (so_target_object out)" and "oid_ok oid"
    and "(e, oid) \<noteq> (so_target_device out, so_target_object out)"
  shows "store_get fx (schedule_output_tick fx sys now out st) e oid = store_get fx st e oid"
  using objstore.modify_other [OF assms]
  by (simp add: schedule_output_tick_def store_write_def split: option.split rres.split)

lemma schedule_engine_tick_other:
  assumes "store_ok fx st" and "outputs_ok outs" and "oid_ok oid"
    and "\<forall>out \<in> set outs. (e, oid) \<noteq> (so_target_device out, so_target_object out)"
  shows "store_get fx (schedule_engine_tick fx sys now outs st) e oid = store_get fx st e oid \<and>
    store_ok fx (schedule_engine_tick fx sys now outs st)"
  using assms
proof (induction outs arbitrary: st)
  case (Cons out outs)
  have "store_ok fx (schedule_output_tick fx sys now out st)" by (rule schedule_output_tick_ok [OF Cons.prems(1)])
  from Cons.IH [OF this] Cons.prems schedule_output_tick_other [OF Cons.prems(1), of out oid e]
  show ?case by (simp add: schedule_engine_tick_def outputs_ok_def)
qed (simp add: schedule_engine_tick_def)

lemma sim_tick_runs:
  assumes "store_ok fx (se_store eng)" and "models_ok (se_models eng)" and "hm_wf (se_cov eng)"
  shows "\<exists>eng1. sim_tick env t sys period now later elapsed eng = Ok eng1 \<and>
    store_ok fx (se_store eng1) \<and> models_ok (se_models eng1) \<and> hm_wf (se_cov eng1) \<and>
    store_count (se_store eng1) = store_count (se_store eng) \<and>
    (\<forall>d oid. case store_get fx (se_store eng) d oid of
       None \<Rightarrow> map_of (se_models eng1) (engine_obj_key d oid) = map_of (se_models eng) (engine_obj_key d oid)
     | Some ob \<Rightarrow> \<exists>ob1. store_get fx (se_store eng1) d oid = Some ob1 \<and>
         ticked env t sys period now ob (map_of (se_models eng) (engine_obj_key d oid)) ob1
           (map_of (se_models eng1) (engine_obj_key d oid)))"
proof -
  from tick_store_ticked [OF assms(1,2), of env t sys period now] obtain st1 models1 ch where
    1: "tick_store env t sys period now (se_store eng) (se_models eng) = Ok (st1, models1, ch)"
      "store_ok fx st1" "models_ok models1" "store_count st1 = store_count (se_store eng)"
      "\<forall>k. map_of (concat (se_store eng)) k = None \<longrightarrow> map_of models1 k = map_of (se_models eng) k"
      "\<forall>k ob. map_of (concat (se_store eng)) k = Some ob \<longrightarrow> (\<exists>ob1. map_of (concat st1) k = Some ob1 \<and>
        ticked env t sys period now ob (map_of (se_models eng) k) ob1 (map_of models1 k))"
    by (elim exE conjE) (rule that)
  let ?n = "notify_changes later ch (se_cov eng)"
  obtain eng1 where e: "sim_tick env t sys period now later elapsed eng = Ok eng1" "se_store eng1 = st1"
    "se_models eng1 = models1" "se_cov eng1 = snd (snd ?n) \<or> se_cov eng1 = snd (expire_old later (snd (snd ?n)))"
    using 1(1) by (simp add: sim_tick_def case_prod_beta Let_def)
  have "hm_wf (se_cov eng1)" using e(4) notify_changes_wf [OF assms(3)] expire_old_wf by metis
  moreover have "case store_get fx (se_store eng) d oid of
      None \<Rightarrow> map_of models1 (engine_obj_key d oid) = map_of (se_models eng) (engine_obj_key d oid)
    | Some ob \<Rightarrow> \<exists>ob1. store_get fx st1 d oid = Some ob1 \<and>
        ticked env t sys period now ob (map_of (se_models eng) (engine_obj_key d oid)) ob1
          (map_of models1 (engine_obj_key d oid))" for d oid
    using 1(5) [rule_format, of "obj_key d oid"] 1(6) [rule_format, of "obj_key d oid"]
    by (simp add: store_get_concat [OF assms(1)] store_get_concat [OF 1(2)] engine_obj_key_eq split: option.split)
  ultimately show ?thesis using e(1) 1(2-4) by (intro exI [of _ eng1] conjI allI) (simp_all only: e(2,3))
qed

subsection \<open>Properties\<close>

text \<open>
  The simulation runs on: with a well-formed store and models whose bounds are in order, a tick
  ends normally and leaves both so, with the same number of objects and every object under its key
  with its identifier; and every object is ticked exactly once, after its model, if it has one, has
  been advanced by one step, while a model without an object is left alone.
\<close>

theorem tick_runs_on:
  assumes "store_ok fx (se_store eng)" and "models_ok (se_models eng)" and "hm_wf (se_cov eng)"
  shows "\<exists>eng1. sim_tick env t sys period now later elapsed eng = Ok eng1 \<and>
    store_ok fx (se_store eng1) \<and> models_ok (se_models eng1) \<and> hm_wf (se_cov eng1) \<and>
    store_count (se_store eng1) = store_count (se_store eng) \<and>
    (\<forall>d oid. case store_get fx (se_store eng) d oid of
       None \<Rightarrow> map_of (se_models eng1) (engine_obj_key d oid) = map_of (se_models eng) (engine_obj_key d oid)
     | Some ob \<Rightarrow> \<exists>ob1. store_get fx (se_store eng1) d oid = Some ob1 \<and>
         ticked env t sys period now ob (map_of (se_models eng) (engine_obj_key d oid)) ob1
           (map_of (se_models eng1) (engine_obj_key d oid)))"
  by (rule sim_tick_runs [OF assms])

definition example_engine :: "nat sim_engine" where
  "example_engine = add_model (\<lambda>s. s) 1 example_oid (RandomWalkModel 0x41A00000 0x3F000000 0 0x42C80000) 0 None 7
     (sim_engine_new (store_insert (\<lambda>a b. 0) 1 (Obj_AnalogInput (ai_new 0 1 1 [] EU_NoUnits)) store_new)
       0x3FF0000000000000 0)"

lemma example_engine_ok:
  "store_ok (\<lambda>a b. 0) (se_store example_engine)" "models_ok (se_models example_engine)"
  "hm_wf (se_cov example_engine)"
proof -
  have "f32_ge 0x42C80000 0" by (simp add: f32_eval)
  then show "models_ok (se_models example_engine)"
    by (simp add: example_engine_def add_model_def sim_engine_new_def models_ok_def hm_wf_def)
  show "store_ok (\<lambda>a b. 0) (se_store example_engine)" "hm_wf (se_cov example_engine)"
    by (simp_all add: example_engine_def add_model_def sim_engine_new_def store_insert_ok store_new_ok)
qed

theorem tick_runs_on_witness:
  "\<exists>eng1. sim_tick example_env 0 0 1000000000 5 6 7 example_engine = Ok eng1 \<and> store_ok (\<lambda>a b. 0) (se_store eng1)"
  using tick_runs_on [OF example_engine_ok, of example_env 0 0 1000000000 5 6 7] by blast

text \<open>
  A tick shows the model's value: an analog input with a model reads as the next value of that
  model after the tick, although its present value is not writable over the network, and its
  out-of-service flag is as before; the model and its generator are one step on.
\<close>

theorem tick_shows_model_value:
  assumes "store_ok fx (se_store eng)" and "models_ok (se_models eng)" and "hm_wf (se_cov eng)"
    and "store_get fx (se_store eng) d oid = Some (Obj_AnalogInput x)"
    and "map_of (se_models eng) (engine_obj_key d oid) = Some e"
  shows "\<exists>eng1 v e1. sim_tick env t sys period now later elapsed eng = Ok eng1 \<and>
    model_next env t (ent_model e) (ent_rng e) = Ok (v, ent_model e1, ent_rng e1) \<and>
    map_of (se_models eng1) (engine_obj_key d oid) = Some e1 \<and>
    store_read fx sys2 (se_store eng1) d oid PID_PresentValue None = Ok (PV_Real v) \<and>
    store_read fx sys2 (se_store eng1) d oid PID_OutOfService None =
      store_read fx sys2 (se_store eng) d oid PID_OutOfService None"
proof -
  from sim_tick_runs [OF assms(1-3), of env t sys period now later elapsed] obtain eng1 where
    1: "sim_tick env t sys period now later elapsed eng = Ok eng1" and
    2: "\<forall>d oid. case store_get fx (se_store eng) d oid of
       None \<Rightarrow> map_of (se_models eng1) (engine_obj_key d oid) = map_of (se_models eng) (engine_obj_key d oid)
     | Some ob \<Rightarrow> \<exists>ob1. store_get fx (se_store eng1) d oid = Some ob1 \<and>
         ticked env t sys period now ob (map_of (se_models eng) (engine_obj_key d oid)) ob1
           (map_of (se_models eng1) (engine_obj_key d oid))" by (elim exE conjE) (rule that)
  from 2 [rule_format, of d oid] assms(4,5) obtain ob1 where ob1: "store_get fx (se_store eng1) d oid = Some ob1"
    "ticked env t sys period now (Obj_AnalogInput x) (Some e) ob1 (map_of (se_models eng1) (engine_obj_key d oid))"
    by auto
  then obtain v e1 where v: "map_of (se_models eng1) (engine_obj_key d oid) = Some e1"
    "model_next env t (ent_model e) (ent_rng e) = Ok (v, ent_model e1, ent_rng e1)"
    and w: "obj_tick sys period (snd (obj_force_write sys now (Obj_AnalogInput x) PID_PresentValue (PV_Real v))) = Ok ob1"
    by (auto simp: ticked_def)
  have "ob1 = snd (obj_force_write sys now (Obj_AnalogInput x) PID_PresentValue (PV_Real v))"
    using w ai_force_write_input [of sys now x PID_PresentValue "PV_Real v"] by auto
  then have "obj_read_property sys2 ob1 PID_PresentValue None = Ok (PV_Real v)"
    "obj_read_property sys2 ob1 PID_OutOfService None = obj_read_property sys2 (Obj_AnalogInput x) PID_OutOfService None"
    using ai_force_write_read ai_force_write_oos by simp_all
  with 1 v ob1(1) assms(4) show ?thesis by (simp add: store_read_def)
qed

theorem tick_shows_model_value_witness:
  "\<exists>eng1 v. sim_tick example_env 0 0 1000000000 5 6 7 example_engine = Ok eng1 \<and>
    store_read (\<lambda>a b. 0) 9 (se_store eng1) 1 example_oid PID_PresentValue None = Ok (PV_Real v)"
proof -
  have o: "oid_ok example_oid" by (simp add: oid_ok_def example_oid_def)
  have g: "store_get (\<lambda>a b. 0) (se_store example_engine) 1 example_oid = Some (Obj_AnalogInput (ai_new 0 1 1 [] EU_NoUnits))"
    using objstore.get_ins [OF store_new_ok, of "Obj_AnalogInput (ai_new 0 1 1 [] EU_NoUnits)" example_oid "\<lambda>a b. 0" 1 1] o
    by (simp add: example_engine_def add_model_def sim_engine_new_def ai_new_def example_oid_def)
  have "\<exists>e. map_of (se_models example_engine) (engine_obj_key 1 example_oid) = Some e"
    by (simp add: example_engine_def add_model_def sim_engine_new_def)
  then obtain e where "map_of (se_models example_engine) (engine_obj_key 1 example_oid) = Some e" ..
  from tick_shows_model_value [OF example_engine_ok g this, of example_env 0 0 1000000000 5 6 7 9]
  show ?thesis by blast
qed

text \<open>
  The outputs of the schedules write their targets and nothing else: a readable schedule whose
  value is not null has that value written to its target, as a network write without a priority
  would, and no object that is not the target of an output changes.
\<close>

theorem schedule_output_written:
  assumes "store_ok fx st" and "oid_ok (so_target_object out)" and "oid_ok oid"
    and "store_get fx st (so_schedule_device out) (so_schedule_object out) = Some sob"
    and "obj_read_property sys sob PID_PresentValue None = Ok pv"
    and "store_get fx st (so_target_device out) (so_target_object out) = Some target"
  shows "store_get fx (schedule_engine_tick fx sys now [out] st) e oid =
    (if (e, oid) = (so_target_device out, so_target_object out) \<and> pv \<noteq> PV_Null
     then Some (snd (obj_write_property now target (so_target_property out) None pv None))
     else store_get fx st e oid)"
proof -
  have n: "pv_eq pv PV_Null \<longleftrightarrow> pv = PV_Null" by (cases pv) simp_all
  show ?thesis
    using objstore.get_modify [OF assms(1,6,2,3), of "\<lambda>ob. obj_write_property now ob (so_target_property out) None pv None" e]
      assms(4,5) by (auto simp: schedule_engine_tick_def schedule_output_tick_def store_write_def n)
qed

definition example_schedule :: schedule where
  "example_schedule = (sch_new 1 1 [])\<lparr>sch_present_value := PV_Real 0x41A80000\<rparr>"

definition example_output :: schedule_output where
  "example_output = \<lparr>so_schedule_device = 1, so_schedule_object = \<lparr>oid_type = OT_Schedule, oid_instance = 1\<rparr>,
     so_target_device = 1, so_target_object = \<lparr>oid_type = OT_AnalogValue, oid_instance = 2\<rparr>,
     so_target_property = PID_PresentValue\<rparr>"

theorem schedule_output_written_witness:
  "let st = store_insert (\<lambda>a b. 0) 1 (Obj_Schedule example_schedule)
       (store_insert (\<lambda>a b. 0) 1 (Obj_AnalogValue (av_new 0 1 2 [] EU_NoUnits)) store_new)
   in store_get (\<lambda>a b. 0) (schedule_engine_tick (\<lambda>a b. 0) 0 5 [example_output] st) 1 (so_target_object example_output) =
     Some (Obj_AnalogValue ((av_new 0 1 2 [] EU_NoUnits)\<lparr>av_present_value := 0x41A80000, av_last_changed := 5\<rparr>))"
proof -
  let ?fx = "\<lambda>a b. 0 :: u64"
  let ?av = "Obj_AnalogValue (av_new 0 1 2 [] EU_NoUnits)" and ?s = "Obj_Schedule example_schedule"
  let ?base = "store_insert ?fx 1 ?av store_new"
  let ?st = "store_insert ?fx 1 ?s ?base"
  have o: "oid_ok (so_target_object example_output)" "oid_ok (obj_object_id ?av)" "oid_ok (obj_object_id ?s)"
      "oid_ok (so_schedule_object example_output)"
    by (simp_all add: oid_ok_def example_output_def av_new_def example_schedule_def sch_new_def)
  have ids: "obj_object_id ?av = so_target_object example_output" "obj_object_id ?s = so_schedule_object example_output"
      "so_target_object example_output \<noteq> so_schedule_object example_output"
      "so_schedule_device example_output = 1" "so_target_device example_output = 1"
      "so_target_property example_output = PID_PresentValue"
    by (simp_all add: example_output_def av_new_def example_schedule_def sch_new_def)
  have st0: "store_ok ?fx ?base" by (simp add: store_insert_ok store_new_ok)
  have st: "store_ok ?fx ?st"
  proof -
    have s: "obj_ok ?s" using sch_new_ok by (simp add: example_schedule_def sch_ok_def)
    show ?thesis by (rule store_insert_ok [OF st0 s])
  qed
  have gs: "store_get ?fx ?st 1 (so_schedule_object example_output) = Some ?s"
    using objstore.get_ins [OF st0 o(3,4)] ids by simp
  have gt: "store_get ?fx ?st 1 (so_target_object example_output) = Some ?av"
    using objstore.get_ins [OF st0 o(3,1)] objstore.get_ins [OF store_new_ok o(2,1)] ids by simp
  have pv: "obj_read_property 0 ?s PID_PresentValue None = Ok (PV_Real 0x41A80000)"
    by (simp add: example_schedule_def sch_read_property_def)
  have g: "store_get ?fx ?st (so_schedule_device example_output) (so_schedule_object example_output) = Some ?s"
      "store_get ?fx ?st (so_target_device example_output) (so_target_object example_output) = Some ?av"
    using gs gt ids by simp_all
  have "av_write_property 5 (av_new 0 1 2 [] EU_NoUnits) PID_PresentValue None (PV_Real 0x41A80000) None =
      (Ok (), (av_new 0 1 2 [] EU_NoUnits)\<lparr>av_present_value := 0x41A80000, av_last_changed := 5\<rparr>)"
    by (simp add: av_write_property_def real_of_def)
  then show ?thesis
    using schedule_output_written [OF st o(1,1) g(1) pv g(2), of 5 1] ids by (simp add: Let_def)
qed

text \<open>
  A scenario's \<^verbatim>\<open>set_analog\<close> sets the present value of an analog input whether or not the network
  may write it; of the device, type and instance it is given only the low 32, 16 and 32 bits count,
  and a type code that does not exist means an analog input.
\<close>

theorem set_analog_sets_value:
  assumes "store_ok fx st" and "oid_ok \<lparr>oid_type = OT_AnalogInput, oid_instance = ucast inst\<rparr>"
    and "store_get fx st (ucast device) \<lparr>oid_type = OT_AnalogInput, oid_instance = ucast inst\<rparr> = Some (Obj_AnalogInput x)"
    and "object_type_from_u16 (ucast ty) \<in> {None, Some OT_AnalogInput}"
  shows "store_read fx sys2 (set_analog fx sys now device ty inst v st) (ucast device)
    \<lparr>oid_type = OT_AnalogInput, oid_instance = ucast inst\<rparr> PID_PresentValue None = Ok (PV_Real (f32_of_f64 v))"
proof -
  have "scenario_oid OT_AnalogInput ty inst = \<lparr>oid_type = OT_AnalogInput, oid_instance = ucast inst\<rparr>"
    using assms(4) by (auto simp: scenario_oid_def)
  then show ?thesis
    using objstore.get_modify [OF assms(1,3,2,2)] ai_force_write_read
    by (simp add: set_analog_def store_force_write_def store_read_def)
qed

theorem set_analog_sets_value_witness:
  "store_read (\<lambda>a b. 0) 0 (set_analog (\<lambda>a b. 0) 0 1 0x100000001 999 1 0x4035000000000000 (se_store example_engine))
     1 \<lparr>oid_type = OT_AnalogInput, oid_instance = 1\<rparr> PID_PresentValue None = Ok (PV_Real (f32_of_f64 0x4035000000000000))"
proof -
  have d: "ucast (0x100000001 :: 64 word) = (1 :: u32)" by code_simp
  have o: "oid_ok \<lparr>oid_type = OT_AnalogInput, oid_instance = ucast (1 :: 64 word)\<rparr>" by (simp add: oid_ok_def)
  have g: "store_get (\<lambda>a b. 0) (se_store example_engine) (ucast (0x100000001 :: 64 word))
      \<lparr>oid_type = OT_AnalogInput, oid_instance = ucast (1 :: 64 word)\<rparr> = Some (Obj_AnalogInput (ai_new 0 1 1 [] EU_NoUnits))"
    using objstore.get_ins [OF store_new_ok, of "Obj_AnalogInput (ai_new 0 1 1 [] EU_NoUnits)"
        "\<lparr>oid_type = OT_AnalogInput, oid_instance = 1\<rparr>" "\<lambda>a b. 0" 1 1] o
    unfolding d by (simp add: example_engine_def add_model_def sim_engine_new_def ai_new_def)
  from set_analog_sets_value [OF example_engine_ok(1) o g, of 999 0 0 1 "0x4035000000000000"] show ?thesis
    unfolding d by (simp add: object_type_from_u16_def)
qed

end
