(* ===== verification/Dispatcher.thy ===== *)
theory Dispatcher
  imports Store Responses Npdu
begin

text \<open>
  \<^verbatim>\<open>crates/bacnet-stack/src\<close>: the service handlers, the routing of a request to a device, and the
  dispatcher that turns an inbound frame into the frames sent back.

  A handler runs to its end on the store it finds (its locks are held inside single operations);
  the tasks of the receive loop are a sequence of handled frames.  The outbound channel is the
  list of the frames sent, in order.  Logging is left out.
\<close>

subsection \<open>Frames\<close>

record inbound_frame =
  in_src :: network_address
  in_npdu :: bytes

datatype destination = Unicast network_address | Broadcast u16

record outbound_frame =
  out_dst :: destination
  out_npdu :: bytes

subsection \<open>Services\<close>

definition handle_read_property ::
  "hash_fn \<Rightarrow> system_time \<Rightarrow> read_property_request \<Rightarrow> store \<Rightarrow> device_id \<Rightarrow> complex_ack bres" where
  "handle_read_property fx sys req st device =
     rbind (ok_or UnknownObject (store_get fx st device (rp_object_id req))) (\<lambda>ob.
     rbind (obj_read_property sys ob (rp_property_id req) (rp_array_index req)) (\<lambda>value.
       Ok \<lparr>ca_invoke_id = 0,
           ca_service = Ack_ReadProperty
             \<lparr>rpa_object_id = rp_object_id req, rpa_property_id = rp_property_id req,
              rpa_array_index = rp_array_index req, rpa_value = value\<rparr>\<rparr>))"

text \<open>A \<^verbatim>\<open>Result\<close> as it is stored in a \<^verbatim>\<open>PropertyResult\<close>; a panic unwinds the handler.\<close>

fun to_result :: "'a bres \<Rightarrow> ((bacnet_error + 'a), bacnet_error) rres" where
  "to_result (Ok v) = Ok (Inr v)"
| "to_result (Err e) = Ok (Inl e)"
| "to_result Panic = Panic"

fun read_refs ::
  "system_time \<Rightarrow> bacnet_object \<Rightarrow> property_ref list \<Rightarrow> property_result list bres" where
  "read_refs sys ob [] = Ok []"
| "read_refs sys ob ((pid, i) # refs) =
     rbind (to_result (obj_read_property sys ob pid i)) (\<lambda>v.
     rbind (read_refs sys ob refs) (\<lambda>rs.
       Ok (\<lparr>pr_property_id = pid, pr_array_index = i, pr_value = v\<rparr> # rs)))"

definition rpm_object_results ::
  "hash_fn \<Rightarrow> system_time \<Rightarrow> store \<Rightarrow> device_id \<Rightarrow> rpm_spec \<Rightarrow> object_property_result bres" where
  "rpm_object_results fx sys st device spec =
     (let (oid, refs) = spec in
      rbind
        (case store_get fx st device oid of
           None \<Rightarrow> Ok (map (\<lambda>(pid, i). \<lparr>pr_property_id = pid, pr_array_index = i,
                                         pr_value = Inl UnknownObject\<rparr>) refs)
         | Some ob \<Rightarrow>
             (if \<exists>r \<in> set refs. fst r = PID_All
              then Ok (map (\<lambda>(pid, v). \<lparr>pr_property_id = pid, pr_array_index = None,
                                         pr_value = Inr v\<rparr>) (obj_all_properties ob))
              else read_refs sys ob refs))
        (\<lambda>results. Ok \<lparr>opr_object_id = oid, opr_property_results = results\<rparr>))"

fun rpm_results ::
  "hash_fn \<Rightarrow> system_time \<Rightarrow> store \<Rightarrow> device_id \<Rightarrow> rpm_spec list \<Rightarrow> object_property_result list bres" where
  "rpm_results fx sys st device [] = Ok []"
| "rpm_results fx sys st device (spec # specs) =
     rbind (rpm_object_results fx sys st device spec) (\<lambda>r.
     rbind (rpm_results fx sys st device specs) (\<lambda>rs. Ok (r # rs)))"

definition handle_read_property_multiple ::
  "hash_fn \<Rightarrow> system_time \<Rightarrow> rpm_spec list \<Rightarrow> store \<Rightarrow> device_id \<Rightarrow> u8 \<Rightarrow> complex_ack bres" where
  "handle_read_property_multiple fx sys specs st device invoke_id =
     rbind (rpm_results fx sys st device specs) (\<lambda>results.
       Ok \<lparr>ca_invoke_id = invoke_id, ca_service = Ack_ReadPropertyMultiple results\<rparr>)"

definition handle_write_property ::
  "hash_fn \<Rightarrow> instant \<Rightarrow> write_property_request \<Rightarrow> store \<Rightarrow> device_id \<Rightarrow> unit bres \<times> store" where
  "handle_write_property fx now req st device =
     store_write fx now st device (wp_object_id req) (wp_property_id req) (wp_array_index req)
       (wp_value req) (wp_priority req)"

definition handle_who_is ::
  "u32 option \<Rightarrow> u32 option \<Rightarrow> device_id \<Rightarrow> u16 \<Rightarrow> u16 \<Rightarrow> unconfirmed_request option" where
  "handle_who_is low high device max_apdu vendor =
     (let in_range = (case (low, high) of
                        (Some lo, Some hi) \<Rightarrow> lo \<le> device \<and> device \<le> hi
                      | _ \<Rightarrow> True)
      in if in_range
         then Some (UR_IAm \<lparr>iam_device_instance = device, iam_max_apdu = max_apdu,
                            iam_segmentation = Seg_NoSegmentation, iam_vendor_id = vendor\<rparr>)
         else None)"

subsection \<open>The dispatcher's state\<close>

record device_info =
  di_device_id :: device_id
  di_max_apdu :: u16
  di_vendor_id :: u16
  di_vendor_name :: rstring
  di_model_name :: rstring
  di_firmware_revision :: rstring
  di_description :: rstring

text \<open>The literals \<^verbatim>\<open>"1.0.0"\<close> and \<^verbatim>\<open>"Simulated device "\<close>.\<close>

definition device_info_new :: "u32 \<Rightarrow> device_info" where
  "device_info_new device =
     \<lparr>di_device_id = device, di_max_apdu = 1476, di_vendor_id = 999,
      di_vendor_name = bacnet_sim_text, di_model_name = bacnet_sim_text,
      di_firmware_revision = [0x31, 0x2E, 0x30, 0x2E, 0x30],
      di_description = [0x53, 0x69, 0x6D, 0x75, 0x6C, 0x61, 0x74, 0x65, 0x64, 0x20,
                        0x64, 0x65, 0x76, 0x69, 0x63, 0x65, 0x20] @ decimal (unat device)\<rparr>"

record dispatcher =
  dp_devices :: "(u32 \<times> device_info) list"
  dp_store :: store
  dp_sessions :: "(network_address \<times> device_id) list"

definition dispatcher_new :: "store \<Rightarrow> dispatcher" where
  "dispatcher_new st = \<lparr>dp_devices = [], dp_store = st, dp_sessions = []\<rparr>"

definition register_device :: "device_info \<Rightarrow> dispatcher \<Rightarrow> dispatcher" where
  "register_device info d = d\<lparr>dp_devices := hm_insert (di_device_id info) info (dp_devices d)\<rparr>"

subsection \<open>Who-Is\<close>

definition i_am_frames :: "network_address \<Rightarrow> unconfirmed_request \<Rightarrow> outbound_frame list" where
  "i_am_frames src iam =
     (let npdu = npdu_encode_local False (unconfirmed_encode iam)
      in [\<lparr>out_dst = Broadcast 0, out_npdu = npdu\<rparr>, \<lparr>out_dst = Unicast src, out_npdu = npdu\<rparr>])"

definition handle_unconfirmed ::
  "dispatcher \<Rightarrow> unconfirmed_request \<Rightarrow> network_address \<Rightarrow> outbound_frame list" where
  "handle_unconfirmed d req src =
     (case req of
        UR_WhoIs w \<Rightarrow>
          concat (map (\<lambda>(_, dev).
            case handle_who_is (wi_low_limit w) (wi_high_limit w) (di_device_id dev)
                   (di_max_apdu dev) (di_vendor_id dev) of
              None \<Rightarrow> []
            | Some iam \<Rightarrow> i_am_frames src iam) (dp_devices d))
      | _ \<Rightarrow> [])"

subsection \<open>The device a confirmed request is for\<close>

definition first_device :: "dispatcher \<Rightarrow> device_id bres" where
  "first_device d =
     ok_or UnknownObject
       (case dp_devices d of [] \<Rightarrow> None | (_, info) # _ \<Rightarrow> Some (di_device_id info))"

definition target_oid :: "confirmed_service_request \<Rightarrow> object_id option bres" where
  "target_oid service =
     (case service of
        Req_ReadProperty r \<Rightarrow> Ok (Some (rp_object_id r))
      | Req_WriteProperty w \<Rightarrow> Ok (Some (wp_object_id w))
      | Req_ReadPropertyMultiple specs \<Rightarrow>
          (case specs of [] \<Rightarrow> Err UnknownObject | s # _ \<Rightarrow> Ok (Some (fst s)))
      | _ \<Rightarrow> Ok None)"

definition resolve_device ::
  "dispatcher \<Rightarrow> confirmed_request \<Rightarrow> network_address \<Rightarrow> device_id bres \<times> dispatcher" where
  "resolve_device d req src =
     (case target_oid (cr_service req) of
        Err e \<Rightarrow> (Err e, d)
      | Panic \<Rightarrow> (Panic, d)
      | Ok None \<Rightarrow> (first_device d, d)
      | Ok (Some oid) \<Rightarrow>
          (if oid_type oid = OT_Device then
             (if map_of (dp_devices d) (oid_instance oid) \<noteq> None
              then (Ok (oid_instance oid),
                    d\<lparr>dp_sessions := hm_insert src (oid_instance oid) (dp_sessions d)\<rparr>)
              else (Err UnknownObject, d))
           else (case map_of (dp_sessions d) src of
                   Some cached \<Rightarrow> (Ok cached, d)
                 | None \<Rightarrow> (first_device d, d))))"

subsection \<open>Confirmed requests\<close>

definition error_class_of :: "bacnet_error \<Rightarrow> error_class \<times> error_code" where
  "error_class_of e =
     (case e of
        UnknownObject \<Rightarrow> (EClass_Object, ECode_UnknownObject)
      | UnknownProperty \<Rightarrow> (EClass_Property, ECode_UnknownProperty)
      | WriteAccessDenied \<Rightarrow> (EClass_Property, ECode_WriteAccessDenied)
      | ValueOutOfRange \<Rightarrow> (EClass_Property, ECode_ValueOutOfRange)
      | InvalidDataType \<Rightarrow> (EClass_Property, ECode_InvalidDataType)
      | ServiceError c k \<Rightarrow> (c, k)
      | _ \<Rightarrow> (EClass_Services, ECode_Other 0))"

definition encode_error_pdu :: "u8 \<Rightarrow> u8 \<Rightarrow> bacnet_error \<Rightarrow> bytes" where
  "encode_error_pdu invoke_id choice e =
     error_pdu_encode \<lparr>ep_invoke_id = invoke_id, ep_service = choice,
       ep_error_class = fst (error_class_of e), ep_error_code = snd (error_class_of e)\<rparr>"

text \<open>The APDU a request is answered with, and the store after it.\<close>

definition answer ::
  "hash_fn \<Rightarrow> system_time \<Rightarrow> instant \<Rightarrow> store \<Rightarrow> device_id \<Rightarrow> confirmed_request \<Rightarrow> bytes bres \<times> store" where
  "answer fx sys now st device req =
     (let invoke_id = cr_invoke_id req in
      case cr_service req of
        Req_ReadProperty r \<Rightarrow>
          ((case handle_read_property fx sys r st device of
              Ok ack \<Rightarrow> Ok (complex_ack_encode (ack\<lparr>ca_invoke_id := invoke_id\<rparr>))
            | Err e \<Rightarrow> Ok (encode_error_pdu invoke_id 12 e)
            | Panic \<Rightarrow> Panic), st)
      | Req_ReadPropertyMultiple specs \<Rightarrow>
          (rbind (handle_read_property_multiple fx sys specs st device invoke_id)
             (\<lambda>ack. Ok (complex_ack_encode ack)), st)
      | Req_WriteProperty w \<Rightarrow>
          (let (r, st') = handle_write_property fx now w st device in
           ((case r of
               Ok _ \<Rightarrow> Ok (simple_ack_encode \<lparr>sack_invoke_id = invoke_id, sack_service_choice = 15\<rparr>)
             | Err e \<Rightarrow> Ok (encode_error_pdu invoke_id 15 e)
             | Panic \<Rightarrow> Panic), st'))
      | Req_SubscribeCov s \<Rightarrow>
          (Ok (simple_ack_encode \<lparr>sack_invoke_id = invoke_id, sack_service_choice = 5\<rparr>), st))"

definition handle_confirmed ::
  "hash_fn \<Rightarrow> system_time \<Rightarrow> instant \<Rightarrow> dispatcher \<Rightarrow> confirmed_request \<Rightarrow> network_address \<Rightarrow>
   outbound_frame list bres \<times> dispatcher" where
  "handle_confirmed fx sys now d req src =
     (let (device, d1) = resolve_device d req src in
      case device of
        Err e \<Rightarrow> (Err e, d1)
      | Panic \<Rightarrow> (Panic, d1)
      | Ok dev \<Rightarrow>
          (let (apdu, st') = answer fx sys now (dp_store d1) dev req
           in (rbind apdu (\<lambda>bs. Ok [\<lparr>out_dst = Unicast src, out_npdu = npdu_encode_local False bs\<rparr>]),
               d1\<lparr>dp_store := st'\<rparr>)))"

subsection \<open>Frames\<close>

text \<open>Decode errors are logged and answered with nothing.\<close>

definition handle_frame ::
  "hash_fn \<Rightarrow> system_time \<Rightarrow> instant \<Rightarrow> dispatcher \<Rightarrow> inbound_frame \<Rightarrow>
   outbound_frame list bres \<times> dispatcher" where
  "handle_frame fx sys now d frame =
     (case npdu_decode (in_npdu frame) of
        Err e \<Rightarrow> (Err e, d)
      | Panic \<Rightarrow> (Panic, d)
      | Ok npdu \<Rightarrow>
          (if network_message (npdu_ctrl npdu) then (Ok [], d)
           else case npdu_apdu npdu of
             [] \<Rightarrow> (Ok [], d)
           | b # _ \<Rightarrow>
               (if b AND 0xF0 = 0x00 then
                  (case confirmed_decode (npdu_apdu npdu) of
                     Ok req \<Rightarrow> handle_confirmed fx sys now d req (in_src frame)
                   | Err _ \<Rightarrow> (Ok [], d)
                   | Panic \<Rightarrow> (Panic, d))
                else if b AND 0xF0 = 0x10 then
                  (case unconfirmed_decode (npdu_apdu npdu) of
                     Ok req \<Rightarrow> (Ok (handle_unconfirmed d req (in_src frame)), d)
                   | Err _ \<Rightarrow> (Ok [], d)
                   | Panic \<Rightarrow> (Panic, d))
                else (Ok [], d))))"

text \<open>
  The receive loop: every frame is handled by a task of its own, so an error or a panic in one
  drops its answers (for a panic, those not yet sent) and the next frame is handled.
\<close>

definition frame_output :: "outbound_frame list bres \<Rightarrow> outbound_frame list" where
  "frame_output r = (case r of Ok fs \<Rightarrow> fs | _ \<Rightarrow> [])"

fun run ::
  "hash_fn \<Rightarrow> dispatcher \<Rightarrow> (system_time \<times> instant \<times> inbound_frame) list \<Rightarrow>
   outbound_frame list \<times> dispatcher" where
  "run fx d [] = ([], d)"
| "run fx d ((sys, now, frame) # fs) =
     (let (r, d1) = handle_frame fx sys now d frame; (out, d2) = run fx d1 fs
      in (frame_output r @ out, d2))"

subsection \<open>The dispatcher's invariant\<close>

text \<open>
  The registry is keyed by device id, sessions name registered devices, and the store is
  consistent.
\<close>

definition registered :: "dispatcher \<Rightarrow> device_id \<Rightarrow> bool" where
  "registered d dev \<longleftrightarrow> map_of (dp_devices d) dev \<noteq> None"

definition dispatcher_ok :: "hash_fn \<Rightarrow> dispatcher \<Rightarrow> bool" where
  "dispatcher_ok fx d \<longleftrightarrow> store_ok fx (dp_store d) \<and> hm_wf (dp_devices d)
     \<and> (\<forall>(k, info) \<in> set (dp_devices d). di_device_id info = k)
     \<and> (\<forall>src dev. map_of (dp_sessions d) src = Some dev \<longrightarrow> registered d dev)"

lemma dispatcher_new_ok: "store_ok fx st \<Longrightarrow> dispatcher_ok fx (dispatcher_new st)"
  by (simp add: dispatcher_ok_def dispatcher_new_def)

lemma register_device_ok: "dispatcher_ok fx d \<Longrightarrow> dispatcher_ok fx (register_device info d)"
  using set_hm_insert [of "di_device_id info" info "dp_devices d"]
  by (auto simp: dispatcher_ok_def register_device_def registered_def split: if_splits)

lemma first_device_registered:
  assumes "dispatcher_ok fx d" and "first_device d = Ok dev"
  shows "registered d dev"
proof (cases "dp_devices d")
  case (Cons p ds)
  with assms show ?thesis
    by (cases p) (auto simp: first_device_def registered_def dispatcher_ok_def)
qed (use assms in \<open>simp add: first_device_def\<close>)

lemma resolve_device_registered:
  assumes "dispatcher_ok fx d" and "resolve_device d req src = (Ok dev, d')"
  shows "registered d dev"
  using assms first_device_registered [of fx d dev]
  by (auto simp: resolve_device_def registered_def dispatcher_ok_def split: rres.splits option.splits if_splits)

lemma resolve_device_ok:
  assumes "dispatcher_ok fx d" and "resolve_device d req src = (r, d')"
  shows "dispatcher_ok fx d' \<and> dp_store d' = dp_store d \<and> dp_devices d' = dp_devices d"
  using assms
  by (auto simp: resolve_device_def dispatcher_ok_def registered_def
      split: rres.splits option.splits if_splits)

lemma resolve_device_no_panic: "fst (resolve_device d req src) \<noteq> Panic"
proof -
  have "target_oid s \<noteq> Panic" for s
    by (simp add: target_oid_def split: confirmed_service_request.split list.split)
  then show ?thesis
    by (auto simp: resolve_device_def first_device_def split: rres.split option.split)
qed

subsection \<open>Services keep the store's contract\<close>

lemma write_keeps_object:
  "obj_ok ob \<Longrightarrow> obj_ok (snd (obj_write_property now ob pid i v pr)) \<and>
     obj_object_id (snd (obj_write_property now ob pid i v pr)) = obj_object_id ob"
  using objects.wr_ok objects.wr_oid by blast

lemma store_write_ok: "store_ok fx st \<Longrightarrow> store_ok fx (snd (store_write fx now st d oid pid i v pr))"
  unfolding store_write_def by (rule objstore.ok_modify [OF _ write_keeps_object])

lemma store_write_no_panic:
  assumes "store_ok fx st"
  shows "fst (store_write fx now st d oid pid i v pr) \<noteq> Panic"
proof (cases "store_get fx st d oid")
  case (Some ob)
  then show ?thesis
    using objects.wr_no_panic [OF objstore.get_ok [OF assms Some]]
    by (simp add: store_write_def objstore.modify_result)
qed (simp add: store_write_def objstore.modify_absent)

lemma handle_read_property_no_panic:
  assumes "store_ok fx st"
  shows "handle_read_property fx sys r st d \<noteq> Panic"
  using objects.rd_no_panic objstore.get_ok [OF assms]
  by (auto simp: handle_read_property_def rbind_eq_Panic)

lemma to_result_no_panic: "m \<noteq> Panic \<Longrightarrow> to_result m \<noteq> Panic"
  by (cases m) simp_all

lemma read_refs_no_panic: "obj_ok ob \<Longrightarrow> \<exists>rs. read_refs sys ob refs = Ok rs"
proof (induction refs)
  case (Cons r refs)
  obtain pid i where r: "r = (pid, i)" by (cases r)
  have "obj_read_property sys ob pid i \<noteq> Panic" using Cons.prems by (rule objects.rd_no_panic)
  then obtain v where "to_result (obj_read_property sys ob pid i) = Ok v"
    by (cases "obj_read_property sys ob pid i") auto
  with Cons show ?case by (auto simp: r)
qed simp

lemma rpm_object_results_total:
  assumes "store_ok fx st"
  shows "\<exists>rs. rpm_object_results fx sys st d spec = Ok rs"
proof (cases "store_get fx st d (fst spec)")
  case (Some ob)
  obtain rs where "read_refs sys ob (snd spec) = Ok rs"
    using read_refs_no_panic [OF objstore.get_ok [OF assms Some]] by blast
  with Some show ?thesis
    by (simp add: rpm_object_results_def case_prod_unfold)
qed (simp add: rpm_object_results_def case_prod_unfold)

lemma rpm_results_total: "store_ok fx st \<Longrightarrow> \<exists>rs. rpm_results fx sys st d specs = Ok rs"
proof (induction specs)
  case (Cons s specs)
  moreover obtain r where "rpm_object_results fx sys st d s = Ok r"
    using rpm_object_results_total [OF Cons.prems] by blast
  ultimately show ?case by auto
qed simp

lemma answer_ok:
  assumes "store_ok fx st"
  shows "store_ok fx (snd (answer fx sys now st d req))"
  using assms store_write_ok
  by (auto simp: answer_def handle_write_property_def Let_def case_prod_unfold
      split: confirmed_service_request.split)

text \<open>Every request that reaches a device is answered.\<close>

lemma answer_total:
  assumes "store_ok fx st"
  shows "\<exists>bs. fst (answer fx sys now st d req) = Ok bs"
proof (cases "cr_service req")
  case (Req_ReadProperty r)
  then show ?thesis using handle_read_property_no_panic [OF assms, of sys r d]
    by (auto simp: answer_def Let_def split: rres.split)
next
  case (Req_WriteProperty w)
  then show ?thesis
    using store_write_no_panic [OF assms, of now d "wp_object_id w" "wp_property_id w"
        "wp_array_index w" "wp_value w" "wp_priority w"]
    by (auto simp: answer_def Let_def handle_write_property_def case_prod_unfold split: rres.split)
next
  case (Req_SubscribeCov s)
  then show ?thesis by (simp add: answer_def Let_def)
next
  case (Req_ReadPropertyMultiple specs)
  then show ?thesis using rpm_results_total [OF assms, of sys d specs]
    by (auto simp: answer_def Let_def handle_read_property_multiple_def)
qed

lemma dispatcher_ok_store:
  "dispatcher_ok fx d \<Longrightarrow> store_ok fx st \<Longrightarrow> dispatcher_ok fx (d\<lparr>dp_store := st\<rparr>)"
  by (simp add: dispatcher_ok_def registered_def)

lemma handle_confirmed_ok:
  assumes "dispatcher_ok fx d"
  shows "dispatcher_ok fx (snd (handle_confirmed fx sys now d req src))"
    and "fst (handle_confirmed fx sys now d req src) \<noteq> Panic"
proof -
  obtain r d1 where r: "resolve_device d req src = (r, d1)"
    by (cases "resolve_device d req src")
  note d1 = resolve_device_ok [OF assms r]
  have st: "store_ok fx (dp_store d1)" using d1 unfolding dispatcher_ok_def by blast
  have np: "r \<noteq> Panic" using resolve_device_no_panic [of d req src] r by simp
  show "dispatcher_ok fx (snd (handle_confirmed fx sys now d req src))"
  proof (cases r)
    case (Ok dev)
    with r dispatcher_ok_store [OF conjunct1 [OF d1] answer_ok [OF st, of sys now dev req]]
    show ?thesis by (simp add: handle_confirmed_def case_prod_unfold Let_def)
  qed (use r d1 np in \<open>simp_all add: handle_confirmed_def\<close>)
  show "fst (handle_confirmed fx sys now d req src) \<noteq> Panic"
  proof (cases r)
    case (Ok dev)
    with r answer_total [OF st, of sys now dev req] show ?thesis
      by (auto simp: handle_confirmed_def case_prod_unfold Let_def)
  qed (use r np in \<open>simp_all add: handle_confirmed_def\<close>)
qed

lemma handle_frame_ok:
  assumes "dispatcher_ok fx d"
  shows "dispatcher_ok fx (snd (handle_frame fx sys now d frame))"
  using assms handle_confirmed_ok(1) [OF assms]
  by (auto simp: handle_frame_def split: rres.split list.split)

text \<open>A frame makes its task panic only where a decoder of its headers does.\<close>

lemma handle_frame_panic:
  assumes "dispatcher_ok fx d" and "fst (handle_frame fx sys now d frame) = Panic"
  shows "npdu_decode (in_npdu frame) = Panic \<or>
    (\<exists>npdu. npdu_decode (in_npdu frame) = Ok npdu \<and> confirmed_decode (npdu_apdu npdu) = Panic)"
  using assms(2) handle_confirmed_ok(2) [OF assms(1)] unconfirmed_decode_no_panic
  by (auto simp: handle_frame_def split: rres.splits list.splits if_splits)

lemma run_ok: "dispatcher_ok fx d \<Longrightarrow> dispatcher_ok fx (snd (run fx d frames))"
proof (induction frames arbitrary: d)
  case (Cons f frames)
  obtain sys now frame where f: "f = (sys, now, frame)" by (cases f)
  show ?case
    using Cons.IH [OF handle_frame_ok [OF Cons.prems]] by (simp add: f case_prod_unfold Let_def)
qed simp

subsection \<open>What the frames do\<close>

text \<open>A request as a client sends it, and the answer as the client gets it.\<close>

definition request_frame :: "network_address \<Rightarrow> confirmed_request \<Rightarrow> inbound_frame" where
  "request_frame src req = \<lparr>in_src = src, in_npdu = npdu_encode_local True (confirmed_wire req)\<rparr>"

definition answer_frame :: "network_address \<Rightarrow> bytes \<Rightarrow> outbound_frame" where
  "answer_frame src apdu = \<lparr>out_dst = Unicast src, out_npdu = npdu_encode_local False apdu\<rparr>"

lemma npdu_decode_local: "npdu_decode (npdu_encode_local e apdu) = Ok (local_npdu e apdu)"
  by (simp add: npdu_encode_local_wire npdu_decode_wire npdu_ok_local)

lemma confirmed_wire_head:
  "\<exists>rest. confirmed_wire r = ((if segmented_accepted r then 0x08 else 0x00)
     OR (if more_follows r then 0x04 else 0x00)) # rest"
  by (simp add: confirmed_wire_def confirmed_encode_def)

lemma handle_request_frame:
  assumes "confirmed_ok req"
  shows "handle_frame fx sys now d (request_frame src req) = handle_confirmed fx sys now d req src"
proof -
  obtain rest where w: "confirmed_wire req = ((if segmented_accepted req then 0x08 else 0x00)
      OR (if more_follows req then 0x04 else 0x00)) # rest"
    using confirmed_wire_head by blast
  have "((if segmented_accepted req then 0x08 else 0x00) OR (if more_follows req then 0x04 else 0x00))
      AND 0xF0 = (0 :: u8)"
    by simp
  then show ?thesis
    using confirmed_decode_wire [OF assms] w
    by (simp add: handle_frame_def request_frame_def npdu_decode_local local_npdu_def)
qed

text \<open>
  A request for a registered Device object, or one of a source that has a session, goes to that
  device and is answered by one frame to its sender.
\<close>

lemma handle_confirmed_resolved:
  assumes "resolve_device d req src = (Ok dev, d1)"
    and "fst (answer fx sys now (dp_store d1) dev req) = Ok bs"
  shows "handle_confirmed fx sys now d req src =
    (Ok [answer_frame src bs], d1\<lparr>dp_store := snd (answer fx sys now (dp_store d1) dev req)\<rparr>)"
  using assms by (simp add: handle_confirmed_def answer_frame_def case_prod_unfold Let_def)

text \<open>A frame that is no WriteProperty leaves the store alone.\<close>

definition is_write :: "confirmed_service_request \<Rightarrow> bool" where
  "is_write s = (case s of Req_WriteProperty _ \<Rightarrow> True | _ \<Rightarrow> False)"

text \<open>A read of one property by a client whose device is known.\<close>

lemma read_frame_answered:
  assumes "map_of (dp_sessions d) src = Some dev" and "store_get fx (dp_store d) dev oid = Some ob"
    and "oid_type oid \<noteq> OT_Device"
    and "confirmed_ok req" and "cr_service req = Req_ReadProperty r" and "rp_object_id r = oid"
    and "obj_read_property sys ob (rp_property_id r) (rp_array_index r) = Ok v"
  shows "fst (handle_frame fx sys now d (request_frame src req)) =
    Ok [answer_frame src (complex_ack_encode
       \<lparr>ca_invoke_id = cr_invoke_id req, ca_service = Ack_ReadProperty
         \<lparr>rpa_object_id = oid, rpa_property_id = rp_property_id r,
          rpa_array_index = rp_array_index r, rpa_value = v\<rparr>\<rparr>)]"
proof -
  have "resolve_device d req src = (Ok dev, d)"
    using assms(1,3,5,6) by (simp add: resolve_device_def target_oid_def)
  with assms(2,5-7) show ?thesis
    unfolding handle_request_frame [OF assms(4)]
    by (simp add: handle_confirmed_def answer_def handle_read_property_def answer_frame_def)
qed

lemma answer_store:
  "\<not> is_write (cr_service req) \<Longrightarrow> snd (answer fx sys now st d req) = st"
  by (simp add: answer_def is_write_def Let_def split: confirmed_service_request.splits)

lemma handle_confirmed_store:
  assumes "dispatcher_ok fx d" and "\<not> is_write (cr_service req)"
  shows "dp_store (snd (handle_confirmed fx sys now d req src)) = dp_store d"
proof -
  obtain r d1 where r: "resolve_device d req src = (r, d1)"
    by (cases "resolve_device d req src")
  with resolve_device_ok [OF assms(1) r] answer_store [OF assms(2)] show ?thesis
    by (simp add: handle_confirmed_def case_prod_unfold Let_def split: rres.split)
qed

text \<open>Nor does a WriteProperty touch any object but the one it names, of the device it is for.\<close>

lemma handle_write_isolated:
  assumes "dispatcher_ok fx d" and "cr_service req = Req_WriteProperty w"
    and "oid_ok (wp_object_id w)" and "oid_ok oid" and "oid \<noteq> wp_object_id w"
  shows "store_get fx (dp_store (snd (handle_confirmed fx sys now d req src))) dev oid =
    store_get fx (dp_store d) dev oid"
proof -
  obtain r d1 where r: "resolve_device d req src = (r, d1)"
    by (cases "resolve_device d req src")
  have d1: "dp_store d1 = dp_store d" and st: "store_ok fx (dp_store d)"
    using resolve_device_ok [OF assms(1) r] assms(1) by (auto simp: dispatcher_ok_def)
  have "store_get fx (snd (answer fx sys now (dp_store d) dev' req)) dev oid =
      store_get fx (dp_store d) dev oid" for dev'
    using objstore.modify_other [OF st assms(3,4), of dev dev'] assms(2,5)
    by (simp add: answer_def handle_write_property_def store_write_def case_prod_unfold Let_def)
  with r d1 show ?thesis
    by (simp add: handle_confirmed_def case_prod_unfold Let_def split: rres.split)
qed

subsection \<open>Who-Is\<close>

lemma handle_who_is_range:
  "handle_who_is (Some lo) (Some hi) dev ma v =
     (if lo \<le> dev \<and> dev \<le> hi then
        Some (UR_IAm \<lparr>iam_device_instance = dev, iam_max_apdu = ma,
          iam_segmentation = Seg_NoSegmentation, iam_vendor_id = v\<rparr>)
      else None)"
  by (simp add: handle_who_is_def)

text \<open>The devices in the range of a Who-Is, each announced twice: to all and to the asker.\<close>

definition announced :: "u32 \<Rightarrow> u32 \<Rightarrow> dispatcher \<Rightarrow> device_info list" where
  "announced lo hi d =
     filter (\<lambda>i. lo \<le> di_device_id i \<and> di_device_id i \<le> hi) (map snd (dp_devices d))"

definition i_am_of :: "device_info \<Rightarrow> unconfirmed_request" where
  "i_am_of i = UR_IAm \<lparr>iam_device_instance = di_device_id i, iam_max_apdu = di_max_apdu i,
     iam_segmentation = Seg_NoSegmentation, iam_vendor_id = di_vendor_id i\<rparr>"

lemma who_is_frames:
  "handle_unconfirmed d (UR_WhoIs \<lparr>wi_low_limit = Some lo, wi_high_limit = Some hi\<rparr>) src =
     concat (map (\<lambda>i. i_am_frames src (i_am_of i)) (announced lo hi d))"
proof -
  have "concat (map (\<lambda>(_, dev). case handle_who_is (Some lo) (Some hi) (di_device_id dev)
        (di_max_apdu dev) (di_vendor_id dev) of None \<Rightarrow> [] | Some iam \<Rightarrow> i_am_frames src iam) ds) =
      concat (map (\<lambda>i. i_am_frames src (i_am_of i))
        (filter (\<lambda>i. lo \<le> di_device_id i \<and> di_device_id i \<le> hi) (map snd ds)))" for ds :: "(u32 \<times> device_info) list"
    by (induction ds) (auto simp: handle_who_is_range i_am_of_def)
  then show ?thesis by (simp add: handle_unconfirmed_def announced_def)
qed

subsection \<open>Any frame\<close>

lemma store_modify_presence:
  assumes "length st = num_shards"
  shows "store_get fx (snd (store_modify fx st d oid f)) e oid' = None \<longleftrightarrow> store_get fx st e oid' = None"
proof (cases "store_get fx st d oid")
  case (Some ob)
  let ?k = "obj_key d oid"
  have k: "map_of (st ! shard_index fx ?k) ?k = Some ob"
    using Some by (simp add: store_get_def shard_key_def)
  have "shard_index fx ?k < length st" using assms shard_index_less by simp
  with k show ?thesis
    by (simp add: store_modify_def Some shard_key_def case_prod_unfold Let_def store_get_def
        nth_list_update)
qed (simp add: store_modify_def)

lemma answer_presence:
  "length st = num_shards \<Longrightarrow> store_get fx (snd (answer fx sys now st d req)) e oid = None \<longleftrightarrow> store_get fx st e oid = None"
  using store_modify_presence
  by (simp add: answer_def handle_write_property_def store_write_def case_prod_unfold Let_def
      split: confirmed_service_request.split)

lemma object_id_of_raw_ok: "oid_ok (object_id_of_raw raw)"
proof -
  have "raw AND 0x3FFFFF < 2 ^ 22" using and_mask_less' [of 22 raw] by (simp add: mask_eq_exp_minus_1)
  then show ?thesis by (simp add: oid_ok_def object_id_of_raw_def)
qed

lemma decode_write_property_oid_ok:
  "decode_write_property body = Ok w \<Longrightarrow> oid_ok (wp_object_id w)"
  using object_id_of_raw_ok
  by (auto simp: decode_write_property_def decode_ctx_object_id_def rbind_eq_Ok Let_def split: if_splits)

lemma confirmed_decode_oid_ok:
  assumes "confirmed_decode buf = Ok req" and "cr_service req = Req_WriteProperty w"
  shows "oid_ok (wp_object_id w)"
  using assms decode_write_property_oid_ok
  by (auto simp: confirmed_decode_def decode_service_def rbind_eq_Ok Let_def split: if_splits)

lemma handle_frame_presence:
  assumes "dispatcher_ok fx d"
  shows "store_get fx (dp_store (snd (handle_frame fx sys now d frame))) e oid = None \<longleftrightarrow>
    store_get fx (dp_store d) e oid = None"
    and "dp_devices (snd (handle_frame fx sys now d frame)) = dp_devices d"
proof -
  have len: "length (dp_store d) = num_shards"
    using assms by (simp add: dispatcher_ok_def store_ok_def)
  have "(store_get fx (dp_store (snd (handle_confirmed fx sys now d req src))) e oid = None \<longleftrightarrow>
      store_get fx (dp_store d) e oid = None) \<and>
    dp_devices (snd (handle_confirmed fx sys now d req src)) = dp_devices d" for req src
  proof -
    obtain r d1 where r: "resolve_device d req src = (r, d1)" by (cases "resolve_device d req src")
    with resolve_device_ok [OF assms r] answer_presence [OF len] show ?thesis
      by (simp add: handle_confirmed_def case_prod_unfold Let_def split: rres.split)
  qed
  then show "store_get fx (dp_store (snd (handle_frame fx sys now d frame))) e oid = None \<longleftrightarrow>
      store_get fx (dp_store d) e oid = None"
    and "dp_devices (snd (handle_frame fx sys now d frame)) = dp_devices d"
    by (simp_all add: handle_frame_def split: rres.split list.split)
qed

lemma run_presence:
  assumes "dispatcher_ok fx d"
  shows "(store_get fx (dp_store (snd (run fx d frames))) e oid = None \<longleftrightarrow>
      store_get fx (dp_store d) e oid = None) \<and> dp_devices (snd (run fx d frames)) = dp_devices d"
  using assms
proof (induction frames arbitrary: d)
  case (Cons f frames)
  obtain sys now frame where f: "f = (sys, now, frame)" by (cases f)
  show ?case
    using Cons.IH [OF handle_frame_ok [OF Cons.prems]] handle_frame_presence [OF Cons.prems]
    by (simp add: f case_prod_unfold Let_def)
qed simp

lemma resolve_device_cases:
  obtains (resolved) dev d1 where "resolve_device d req src = (Ok dev, d1)"
  | (unknown) "resolve_device d req src = (Err UnknownObject, d)"
proof -
  have f: "(\<exists>dev. first_device d = Ok dev) \<or> first_device d = Err UnknownObject"
    by (simp add: first_device_def split: option.split list.split)
  have t: "(\<exists>x. target_oid s = Ok x) \<or> target_oid s = Err UnknownObject" for s
    by (simp add: target_oid_def split: confirmed_service_request.split list.split)
  have "(\<exists>dev d1. resolve_device d req src = (Ok dev, d1)) \<or>
      resolve_device d req src = (Err UnknownObject, d)"
    using f t [of "cr_service req"]
    by (cases "first_device d"; cases "target_oid (cr_service req)")
      (auto simp: resolve_device_def split: option.split if_splits)
  then show thesis using resolved unknown by blast
qed

text \<open>The first bytes of an answer: its kind, and the invoke id of the request.\<close>

definition answers :: "u8 \<Rightarrow> bytes \<Rightarrow> bool" where
  "answers invoke_id apdu \<longleftrightarrow> (case apdu of k # i # _ \<Rightarrow> k \<in> {0x20, 0x30, 0x50} \<and> i = invoke_id | _ \<Rightarrow> False)"

lemma answers_encoded:
  "answers i (simple_ack_encode \<lparr>sack_invoke_id = i, sack_service_choice = c\<rparr>)"
  "answers i (encode_error_pdu i c e)"
  "answers (ca_invoke_id a) (complex_ack_encode a)"
  by (simp_all add: answers_def simple_ack_encode_def encode_error_pdu_def error_pdu_encode_def
      complex_ack_encode_def)

lemma answer_answers:
  assumes "fst (answer fx sys now st dev req) = Ok bs"
  shows "answers (cr_invoke_id req) bs"
proof -
  have "ca_invoke_id a = i" if "handle_read_property_multiple fx sys specs st dev i = Ok a" for a i specs
    using that by (auto simp: handle_read_property_multiple_def rbind_eq_Ok)
  then have "answers i (complex_ack_encode a)"
    if "handle_read_property_multiple fx sys specs st dev i = Ok a" for a i specs
    using that answers_encoded(3) [of a] by simp
  then show ?thesis
    using assms answers_encoded(1,2) answers_encoded(3) [of "_\<lparr>ca_invoke_id := _\<rparr>", simplified]
    by (auto simp: answer_def Let_def case_prod_unfold rbind_eq_Ok
        split: confirmed_service_request.splits rres.splits)
qed

subsection \<open>An example\<close>

text \<open>One device with an analog value, and a client that has read the device.\<close>

definition example_fx :: hash_fn where
  "example_fx a b = a XOR b"

definition example_client :: network_address where
  "example_client = \<lparr>na_network_number = 0, na_mac = Mac_Ip (SocketAddrV4 0x0A000002 47808)\<rparr>"

definition example_value :: object_id where
  "example_value = \<lparr>oid_type = OT_AnalogValue, oid_instance = 1\<rparr>"

definition example_store :: store where
  "example_store = store_insert example_fx 7 (Obj_AnalogValue (av_new 0 7 1 [] EU_NoUnits))
     (store_insert example_fx 7 (Obj_Device (dev_new 7 [])) store_new)"

definition example_dispatcher :: dispatcher where
  "example_dispatcher = (register_device (device_info_new 7) (dispatcher_new example_store))
     \<lparr>dp_sessions := [(example_client, 7)]\<rparr>"

definition example_request :: "u8 \<Rightarrow> confirmed_service_request \<Rightarrow> confirmed_request" where
  "example_request i s = \<lparr>segmented_accepted = True, more_follows = False,
     segmented_response_accepted = True, cr_max_segments = MS_Unspecified, cr_max_response = 480,
     cr_invoke_id = i, cr_sequence_number = None, cr_proposed_window = None, cr_service = s\<rparr>"

definition example_read :: read_property_request where
  "example_read = \<lparr>rp_object_id = example_value, rp_property_id = PID_PresentValue, rp_array_index = None\<rparr>"

definition example_write :: write_property_request where
  "example_write = \<lparr>wp_object_id = example_value, wp_property_id = PID_PresentValue,
     wp_array_index = None, wp_value = PV_Real 0x41A80000, wp_priority = None\<rparr>"

lemma example_ok: "dispatcher_ok example_fx example_dispatcher"
proof -
  have "store_ok example_fx example_store"
    unfolding example_store_def by (intro store_insert_ok store_new_ok) simp_all
  from register_device_ok [OF dispatcher_new_ok [OF this], of "device_info_new 7"] show ?thesis
    by (simp add: example_dispatcher_def dispatcher_ok_def register_device_def device_info_new_def
        registered_def dispatcher_new_def)
qed

lemma example_session: "map_of (dp_sessions example_dispatcher) example_client = Some 7"
  by (simp add: example_dispatcher_def)

lemma example_get:
  "store_get example_fx (dp_store example_dispatcher) 7 example_value =
     Some (Obj_AnalogValue (av_new 0 7 1 [] EU_NoUnits))"
proof -
  let ?av = "Obj_AnalogValue (av_new 0 7 1 [] EU_NoUnits)"
  have oid: "obj_object_id ?av = example_value" "oid_ok example_value"
    by (simp_all add: av_new_def example_value_def oid_ok_def)
  have "store_ok example_fx (store_insert example_fx 7 (Obj_Device (dev_new 7 [])) store_new)"
    by (intro store_insert_ok store_new_ok) simp_all
  from objstore.get_ins [OF this, of ?av example_value 7 7] oid show ?thesis
    by (simp add: example_dispatcher_def example_store_def register_device_def dispatcher_new_def)
qed

lemma example_request_simps [simp]:
  "cr_service (example_request i s) = s" "cr_invoke_id (example_request i s) = i"
  "confirmed_ok (example_request i s) \<longleftrightarrow> service_ok s"
  by (simp_all add: example_request_def confirmed_ok_def)

lemma example_fields:
  "oid_type example_value \<noteq> OT_Device" "wp_object_id example_write = example_value"
  "rp_object_id example_read = example_value" "rp_property_id example_read = PID_PresentValue"
  "rp_array_index example_read = None"
  by (simp_all add: example_value_def example_write_def example_read_def)

lemma example_services_ok:
  "service_ok (Req_ReadProperty example_read)" "service_ok (Req_WriteProperty example_write)"
  by (simp_all add: service_ok_def rp_ok_def wp_ok_def wf_oid_def known_type_def example_read_def
      example_write_def example_value_def object_type_from_u16_def)

subsection \<open>Properties\<close>

text \<open>
  A client with a session writes a property of an object and reads a property back, as bytes
  on the wire: the simulator sends exactly two frames, both to the client, the SimpleACK of the
  write and the ComplexACK of the read, which carries the value the object gives after the write.
\<close>

theorem write_then_read_over_the_wire:
  assumes "dispatcher_ok fx d" and "map_of (dp_sessions d) src = Some dev"
    and "store_get fx (dp_store d) dev oid = Some ob" and "oid_type oid \<noteq> OT_Device"
    and "confirmed_ok wreq" and "cr_service wreq = Req_WriteProperty w" and "wp_object_id w = oid"
    and "confirmed_ok rreq" and "cr_service rreq = Req_ReadProperty r" and "rp_object_id r = oid"
    and "obj_write_property now ob (wp_property_id w) (wp_array_index w) (wp_value w) (wp_priority w) = (Ok (), ob')"
    and "obj_read_property sys' ob' (rp_property_id r) (rp_array_index r) = Ok v"
  shows "fst (run fx d [(sys, now, request_frame src wreq), (sys', now', request_frame src rreq)]) =
    [answer_frame src (simple_ack_encode
       \<lparr>sack_invoke_id = cr_invoke_id wreq, sack_service_choice = 15\<rparr>),
     answer_frame src (complex_ack_encode
       \<lparr>ca_invoke_id = cr_invoke_id rreq, ca_service = Ack_ReadProperty
         \<lparr>rpa_object_id = oid, rpa_property_id = rp_property_id r,
          rpa_array_index = rp_array_index r, rpa_value = v\<rparr>\<rparr>)]"
proof -
  have st: "store_ok fx (dp_store d)" using assms(1) by (simp add: dispatcher_ok_def)
  have oid: "oid_ok oid"
    using assms(5-7) by (simp add: confirmed_ok_def service_ok_def wp_ok_def wf_oid_def oid_ok_def)
  define st' where "st' = snd (handle_write_property fx now w (dp_store d) dev)"
  have w: "fst (handle_write_property fx now w (dp_store d) dev) = Ok ()"
    using objstore.modify_result [OF assms(3)] assms(7,11)
    by (simp add: handle_write_property_def store_write_def)
  have g: "store_get fx st' dev oid = Some ob'"
    using objstore.get_modify [OF st assms(3) oid oid, of _ dev] assms(7,11)
    by (simp add: st'_def handle_write_property_def store_write_def)
  have "resolve_device d wreq src = (Ok dev, d)"
    using assms(2,4,6,7) by (simp add: resolve_device_def target_oid_def)
  then have wf: "handle_frame fx sys now d (request_frame src wreq) =
      (Ok [answer_frame src (simple_ack_encode
         \<lparr>sack_invoke_id = cr_invoke_id wreq, sack_service_choice = 15\<rparr>)], d\<lparr>dp_store := st'\<rparr>)"
    using w assms(6) unfolding handle_request_frame [OF assms(5)]
    by (simp add: handle_confirmed_def answer_def answer_frame_def Let_def case_prod_unfold st'_def)
  have "fst (handle_frame fx sys' now' (d\<lparr>dp_store := st'\<rparr>) (request_frame src rreq)) =
      Ok [answer_frame src (complex_ack_encode
       \<lparr>ca_invoke_id = cr_invoke_id rreq, ca_service = Ack_ReadProperty
         \<lparr>rpa_object_id = oid, rpa_property_id = rp_property_id r,
          rpa_array_index = rp_array_index r, rpa_value = v\<rparr>\<rparr>)]"
    using g assms(2) by (intro read_frame_answered [OF _ _ assms(4,8-10,12)]) simp_all
  with wf show ?thesis by (simp add: frame_output_def case_prod_unfold Let_def)
qed

theorem write_then_read_over_the_wire_witness:
  "fst (run example_fx example_dispatcher
     [(0, 0, request_frame example_client (example_request 1 (Req_WriteProperty example_write))),
      (1, 1, request_frame example_client (example_request 2 (Req_ReadProperty example_read)))]) =
   [answer_frame example_client [0x20, 1, 15],
    answer_frame example_client ([0x30, 2, 12] @ encode_read_property_ack
      \<lparr>rpa_object_id = example_value, rpa_property_id = PID_PresentValue, rpa_array_index = None,
       rpa_value = PV_Real 0x41A80000\<rparr>)]"
proof -
  let ?av = "av_new 0 7 1 [] EU_NoUnits"
  let ?av' = "?av\<lparr>av_present_value := 0x41A80000, av_last_changed := 0\<rparr>"
  have "obj_write_property 0 (Obj_AnalogValue ?av) (wp_property_id example_write)
      (wp_array_index example_write) (wp_value example_write) (wp_priority example_write) =
      (Ok (), Obj_AnalogValue ?av')"
    by (simp add: example_write_def av_write_property_def real_of_def)
  moreover have "obj_read_property 1 (Obj_AnalogValue ?av') (rp_property_id example_read)
      (rp_array_index example_read) = Ok (PV_Real 0x41A80000)"
    by (simp add: example_read_def av_read_property_def)
  ultimately show ?thesis
    using write_then_read_over_the_wire [OF example_ok example_session example_get example_fields(1)
        _ example_request_simps(1) example_fields(2) _ example_request_simps(1) example_fields(3)]
      example_services_ok
    by (simp add: example_fields simple_ack_encode_def complex_ack_encode_def)
qed

text \<open>
  C6. Every well-formed confirmed request whose device is known is answered by exactly one frame,
  to its sender, that carries its invoke id and is a SimpleACK, a ComplexACK or an error PDU;
  where no device is found the request is dropped, without an error PDU, and nothing changes.
\<close>

theorem confirmed_request_answered_once:
  assumes "dispatcher_ok fx d" and "confirmed_ok req"
    and "handle_frame fx sys now d (request_frame src req) = (r, d')"
  shows "(case fst (resolve_device d req src) of
      Ok dev \<Rightarrow> \<exists>apdu. r = Ok [answer_frame src apdu] \<and> answers (cr_invoke_id req) apdu
    | _ \<Rightarrow> frame_output r = [] \<and> d' = d)"
proof (cases rule: resolve_device_cases [of d req src])
  case (resolved dev d1)
  have "store_ok fx (dp_store d1)"
    using resolve_device_ok [OF assms(1) resolved] assms(1) by (simp add: dispatcher_ok_def)
  from answer_total [OF this] obtain bs where a: "fst (answer fx sys now (dp_store d1) dev req) = Ok bs"
    by blast
  from handle_confirmed_resolved [OF resolved a] answer_answers [OF a] resolved assms(3)
  show ?thesis by (auto simp: handle_request_frame [OF assms(2)])
next
  case unknown
  with assms(3) show ?thesis
    by (auto simp: handle_request_frame [OF assms(2)] handle_confirmed_def frame_output_def)
qed

theorem confirmed_request_answered_once_witness:
  "\<exists>apdu. fst (handle_frame example_fx 0 0 example_dispatcher
       (request_frame example_client (example_request 9 (Req_ReadProperty example_read)))) =
     Ok [answer_frame example_client apdu] \<and> answers 9 apdu"
proof -
  let ?req = "example_request 9 (Req_ReadProperty example_read)"
  have "fst (resolve_device example_dispatcher ?req example_client) = Ok 7"
    using example_session
    by (simp add: resolve_device_def target_oid_def example_read_def example_value_def)
  then show ?thesis
    using confirmed_request_answered_once [OF example_ok _ prod.collapse [symmetric], of ?req 0 0 example_client]
      example_services_ok by simp
qed

text \<open>
  Whatever frames arrive, in whatever order, with whatever bytes: the store and the registry
  stay consistent, sessions name registered devices only, no object appears or disappears, and
  the registered devices stay the same.
\<close>

theorem run_keeps_invariant:
  assumes "dispatcher_ok fx d"
  shows "dispatcher_ok fx (snd (run fx d frames)) \<and>
    (store_get fx (dp_store (snd (run fx d frames))) dev oid = None \<longleftrightarrow>
      store_get fx (dp_store d) dev oid = None) \<and>
    dp_devices (snd (run fx d frames)) = dp_devices d"
  using run_ok [OF assms] run_presence [OF assms] by blast

theorem run_keeps_invariant_witness:
  "dispatcher_ok example_fx (snd (run example_fx example_dispatcher
     [(0, 0, \<lparr>in_src = example_client, in_npdu = [0x01, 0x20, 0xFF]\<rparr>),
      (1, 1, request_frame example_client (example_request 1 (Req_WriteProperty example_write)))]))"
  by (rule run_keeps_invariant [OF example_ok, THEN conjunct1])

text \<open>
  One frame changes at most one object: the store differs after it from the store before in the
  object named by a WriteProperty, of the device it was resolved to, or in none.
\<close>

theorem frame_changes_one_object:
  assumes "dispatcher_ok fx d"
  shows "\<exists>dev0 oid0. \<forall>dev oid. oid_ok oid \<longrightarrow> (dev, oid) \<noteq> (dev0, oid0) \<longrightarrow>
    store_get fx (dp_store (snd (handle_frame fx sys now d frame))) dev oid =
    store_get fx (dp_store d) dev oid"
proof (cases "dp_store (snd (handle_frame fx sys now d frame)) = dp_store d")
  case False
  have "\<exists>buf req. confirmed_decode buf = Ok req \<and>
      handle_frame fx sys now d frame = handle_confirmed fx sys now d req (in_src frame)"
    using False by (auto simp: handle_frame_def split: rres.splits list.splits if_splits)
  then obtain buf req where dec: "confirmed_decode buf = Ok req"
    and h: "handle_frame fx sys now d frame = handle_confirmed fx sys now d req (in_src frame)"
    by blast
  then have "is_write (cr_service req)" using handle_confirmed_store [OF assms] False by metis
  then obtain w where w: "cr_service req = Req_WriteProperty w"
    by (auto simp: is_write_def split: confirmed_service_request.splits)
  obtain r d1 where r: "resolve_device d req (in_src frame) = (r, d1)"
    by (cases "resolve_device d req (in_src frame)")
  have d1: "dp_store d1 = dp_store d" and st: "store_ok fx (dp_store d)"
    using resolve_device_ok [OF assms r] assms by (auto simp: dispatcher_ok_def)
  obtain dev0 where "dp_store (snd (handle_frame fx sys now d frame)) =
      snd (answer fx sys now (dp_store d) dev0 req)"
    using False r d1 unfolding h
    by (auto simp: handle_confirmed_def case_prod_unfold Let_def split: rres.splits)
  then have "store_get fx (dp_store (snd (handle_frame fx sys now d frame))) dev oid =
      store_get fx (dp_store d) dev oid" if "oid_ok oid" "(dev, oid) \<noteq> (dev0, wp_object_id w)" for dev oid
    using objstore.modify_other [OF st confirmed_decode_oid_ok [OF dec w] that(1), of dev dev0] that(2) w
    by (simp add: answer_def handle_write_property_def store_write_def case_prod_unfold Let_def)
  then show ?thesis by blast
qed simp

theorem frame_changes_one_object_witness:
  "\<exists>dev0 oid0. \<forall>dev oid. oid_ok oid \<longrightarrow> (dev, oid) \<noteq> (dev0, oid0) \<longrightarrow>
    store_get example_fx (dp_store (snd (handle_frame example_fx 0 0 example_dispatcher
      (request_frame example_client (example_request 1 (Req_WriteProperty example_write)))))) dev oid =
    store_get example_fx (dp_store example_dispatcher) dev oid"
  by (rule frame_changes_one_object [OF example_ok])

text \<open>
  A request other than WriteProperty, and any other kind of frame, leaves the whole store as it
  is, and so does a WriteProperty that is answered with an error PDU, object by object.
\<close>

theorem refused_write_changes_nothing:
  assumes "dispatcher_ok fx d" and "oid_ok oid"
    and "\<forall>w. cr_service req = Req_WriteProperty w \<longrightarrow> oid_ok (wp_object_id w) \<and>
      (\<exists>e. fst (handle_confirmed fx sys now d req src) =
        Ok [answer_frame src (encode_error_pdu (cr_invoke_id req) 15 e)])"
  shows "store_get fx (dp_store (snd (handle_confirmed fx sys now d req src))) dev oid =
    store_get fx (dp_store d) dev oid"
proof (cases "is_write (cr_service req)")
  case True
  then obtain w where w: "cr_service req = Req_WriteProperty w"
    by (auto simp: is_write_def split: confirmed_service_request.splits)
  with assms(3) obtain e where oid: "oid_ok (wp_object_id w)"
    and e: "fst (handle_confirmed fx sys now d req src) =
      Ok [answer_frame src (encode_error_pdu (cr_invoke_id req) 15 e)]"
    by blast
  obtain dev0 d1 where r: "resolve_device d req src = (Ok dev0, d1)"
    using e by (cases rule: resolve_device_cases [of d req src]) (auto simp: handle_confirmed_def)
  have d1: "dp_store d1 = dp_store d" and st: "store_ok fx (dp_store d)"
    using resolve_device_ok [OF assms(1) r] assms(1) by (auto simp: dispatcher_ok_def)
  have "fst (handle_write_property fx now w (dp_store d) dev0) \<noteq> Ok ()"
    using e r d1 w
    by (auto simp: handle_confirmed_def answer_def answer_frame_def case_prod_unfold Let_def
        encode_error_pdu_def error_pdu_encode_def simple_ack_encode_def npdu_encode_local_def)
  then have "store_get fx (snd (handle_write_property fx now w (dp_store d) dev0)) dev oid =
      store_get fx (dp_store d) dev oid"
    unfolding handle_write_property_def store_write_def
    by (intro objstore.modify_err [OF st oid assms(2) objects.wr_keeps])
  with r d1 w show ?thesis
    by (simp add: handle_confirmed_def answer_def case_prod_unfold Let_def)
qed (simp add: handle_confirmed_store [OF assms(1)])

theorem refused_write_changes_nothing_witness:
  "store_get example_fx (dp_store (snd (handle_confirmed example_fx 0 0 example_dispatcher
      (example_request 3 (Req_ReadProperty example_read)) example_client))) 7 example_value =
   store_get example_fx (dp_store example_dispatcher) 7 example_value"
  by (rule refused_write_changes_nothing [OF example_ok]) (simp_all add: oid_ok_def example_value_def)

text \<open>
  The handler of a frame panics exactly where one of its two unchecked decoders does: on an
  NPDU cut inside an address, or on a WriteProperty with a malformed bit string.  The panic ends
  the task of that frame alone: the receive loop answers what follows as if it had not come.
\<close>

theorem dispatcher_panics:
  assumes "dispatcher_ok fx d"
  shows "(fst (handle_frame fx sys now d frame) = Panic \<longleftrightarrow>
      npdu_decode (in_npdu frame) = Panic \<or>
      (\<exists>npdu b rest. npdu_decode (in_npdu frame) = Ok npdu \<and> \<not> network_message (npdu_ctrl npdu) \<and>
         npdu_apdu npdu = b # rest \<and> b AND 0xF0 = 0 \<and> confirmed_decode (b # rest) = Panic)) \<and>
    (fst (handle_frame fx sys now d frame) = Panic \<longrightarrow>
      run fx d ((sys, now, frame) # frames) = run fx d frames)"
proof -
  have c: "fst (handle_confirmed fx sys now d req src) \<noteq> Panic" for req src
    by (rule handle_confirmed_ok(2) [OF assms])
  have iff: "fst (handle_frame fx sys now d frame) = Panic \<longleftrightarrow>
      npdu_decode (in_npdu frame) = Panic \<or>
      (\<exists>npdu b rest. npdu_decode (in_npdu frame) = Ok npdu \<and> \<not> network_message (npdu_ctrl npdu) \<and>
         npdu_apdu npdu = b # rest \<and> b AND 0xF0 = 0 \<and> confirmed_decode (b # rest) = Panic)"
    using c unconfirmed_decode_no_panic
    by (cases "npdu_decode (in_npdu frame)") (auto simp: handle_frame_def split: list.split rres.split)
  have "handle_frame fx sys now d frame = (Panic, d)" if "fst (handle_frame fx sys now d frame) = Panic"
    using that c
    by (cases "npdu_decode (in_npdu frame)")
      (auto simp: handle_frame_def split: list.splits rres.splits if_splits)
  then show ?thesis using iff by (simp add: frame_output_def case_prod_unfold Let_def)
qed

theorem dispatcher_panics_witness:
  "fst (handle_frame example_fx 0 0 example_dispatcher
     \<lparr>in_src = example_client, in_npdu = [0x01, 0x20, 0x00, 0x05, 0x06]\<rparr>) = Panic"
proof -
  have "npdu_decode [0x01, 0x20, 0x00, 0x05, 0x06] = Panic" by code_simp
  with dispatcher_panics [OF example_ok, of 0 0 "\<lparr>in_src = example_client, in_npdu = [0x01, 0x20, 0x00, 0x05, 0x06]\<rparr>"]
  show ?thesis by simp
qed



text \<open>
  Once a client has addressed the Device object of a registered device, its requests for other
  objects go to that device, until it addresses another one; the routing of other clients does not
  change.
\<close>

theorem session_routing:
  assumes "dispatcher_ok fx d" and "target_oid (cr_service req) = Ok (Some devoid)"
    and "oid_type devoid = OT_Device" and "registered d (oid_instance devoid)"
    and "d' = snd (handle_confirmed fx sys now d req src)"
    and "target_oid (cr_service req') = Ok (Some oid)" and "oid_type oid \<noteq> OT_Device"
  shows "fst (resolve_device d' req' src) = Ok (oid_instance devoid) \<and>
    (src' \<noteq> src \<longrightarrow> fst (resolve_device d' req'' src') = fst (resolve_device d req'' src'))"
proof -
  let ?d1 = "d\<lparr>dp_sessions := hm_insert src (oid_instance devoid) (dp_sessions d)\<rparr>"
  have "resolve_device d req src = (Ok (oid_instance devoid), ?d1)"
    using assms(2-4) by (simp add: resolve_device_def registered_def)
  then obtain st where d': "d' = ?d1\<lparr>dp_store := st\<rparr>"
    using assms(5) by (simp add: handle_confirmed_def case_prod_unfold Let_def)
  have "fst (resolve_device d' req' src) = Ok (oid_instance devoid)"
    using assms(6,7) by (simp add: d' resolve_device_def)
  moreover have "fst (resolve_device d' req'' src') = fst (resolve_device d req'' src')" if "src' \<noteq> src"
    using that by (simp add: d' resolve_device_def first_device_def split: rres.split option.split)
  ultimately show ?thesis by blast
qed

theorem session_routing_witness:
  "let d = example_dispatcher\<lparr>dp_sessions := []\<rparr>;
     whoami = example_request 1 (Req_ReadProperty
       (example_read\<lparr>rp_object_id := \<lparr>oid_type = OT_Device, oid_instance = 7\<rparr>, rp_property_id := PID_ObjectName\<rparr>))
   in fst (resolve_device (snd (handle_confirmed example_fx 0 0 d whoami example_client))
        (example_request 2 (Req_ReadProperty example_read)) example_client) = Ok 7"
proof -
  let ?oid = "\<lparr>oid_type = OT_Device, oid_instance = 7\<rparr>"
  let ?d = "example_dispatcher\<lparr>dp_sessions := []\<rparr>"
  have "dispatcher_ok example_fx ?d" using example_ok by (simp add: dispatcher_ok_def registered_def)
  moreover have "registered ?d (oid_instance ?oid)"
    by (simp add: registered_def example_dispatcher_def register_device_def dispatcher_new_def
        device_info_new_def)
  ultimately show ?thesis
    using session_routing [of example_fx ?d "example_request 1 (Req_ReadProperty
       (example_read\<lparr>rp_object_id := ?oid, rp_property_id := PID_ObjectName\<rparr>))" ?oid]
      example_fields by (simp add: target_oid_def)
qed

text \<open>
  Asking for ALL properties of an object in a ReadPropertyMultiple gives each of them once, with
  the value a ReadProperty for it alone would have given.
\<close>

theorem read_all_agrees_with_read:
  assumes "store_ok fx st" and "store_get fx st dev oid = Some ob" and "PID_All \<in> fst ` set refs"
  shows "\<exists>results. rpm_object_results fx sys st dev (oid, refs) =
      Ok \<lparr>opr_object_id = oid, opr_property_results = results\<rparr> \<and>
    distinct (map pr_property_id results) \<and>
    (\<forall>r \<in> set results. \<exists>v. pr_value r = Inr v \<and>
      handle_read_property fx sys \<lparr>rp_object_id = oid, rp_property_id = pr_property_id r,
        rp_array_index = None\<rparr> st dev =
      Ok \<lparr>ca_invoke_id = 0, ca_service = Ack_ReadProperty \<lparr>rpa_object_id = oid,
        rpa_property_id = pr_property_id r, rpa_array_index = None, rpa_value = v\<rparr>\<rparr>)"
proof -
  let ?rs = "map (\<lambda>(pid, v). \<lparr>pr_property_id = pid, pr_array_index = None, pr_value = Inr v\<rparr>)
    (obj_all_properties ob) :: property_result list"
  have ok: "obj_ok ob" using objstore.get_ok [OF assms(1,2)] .
  have "\<exists>r \<in> set refs. fst r = PID_All" using assms(3) by (auto simp: Bex_def)
  then have "rpm_object_results fx sys st dev (oid, refs) =
      Ok \<lparr>opr_object_id = oid, opr_property_results = ?rs\<rparr>"
    using assms(2) by (simp add: rpm_object_results_def)
  moreover have "map pr_property_id ?rs = map fst (obj_all_properties ob)" by auto
  then have "distinct (map pr_property_id ?rs)" using objects.all_distinct by metis
  moreover have "\<forall>r \<in> set ?rs. \<exists>v. pr_value r = Inr v \<and>
      handle_read_property fx sys \<lparr>rp_object_id = oid, rp_property_id = pr_property_id r,
        rp_array_index = None\<rparr> st dev =
      Ok \<lparr>ca_invoke_id = 0, ca_service = Ack_ReadProperty \<lparr>rpa_object_id = oid,
        rpa_property_id = pr_property_id r, rpa_array_index = None, rpa_value = v\<rparr>\<rparr>"
    using assms(2) objects.all_read [OF ok] by (auto simp: handle_read_property_def)
  ultimately show ?thesis by blast
qed

theorem read_all_agrees_with_read_witness:
  "\<exists>results. rpm_object_results example_fx 0 (dp_store example_dispatcher) 7 (example_value, [(PID_All, None)]) =
     Ok \<lparr>opr_object_id = example_value, opr_property_results = results\<rparr> \<and>
   distinct (map pr_property_id results)"
  using read_all_agrees_with_read [OF _ example_get, of "[(PID_All, None)]" 0] example_ok
  by (auto simp: dispatcher_ok_def)

end
