(* ===== verification/Names.thy ===== *)
theory Names
  imports State_Objects
begin

text \<open>
  What the REST API and the simulation builder do with names: string literals, the
  \<^verbatim>\<open>to_lowercase\<close> and \<^verbatim>\<open>replace\<close> of the standard library, and the names \<^verbatim>\<open>{:?}\<close> prints for an
  object type and a property identifier, which the derived \<^verbatim>\<open>Debug\<close> takes from the declarations of
  \<^verbatim>\<open>object_types.rs\<close> and \<^verbatim>\<open>property_id.rs\<close>.

  A Rust string is its UTF-8 bytes.  On an ASCII string \<^verbatim>\<open>to_lowercase\<close> is computed; the Unicode
  tables it uses on any other string are the argument \<open>uni\<close>, and nothing depends on them.
\<close>

definition lit :: "string \<Rightarrow> bytes" where
  "lit s = map of_char s"

definition ascii_lower :: "u8 \<Rightarrow> u8" where
  "ascii_lower b = (if 0x41 \<le> b \<and> b \<le> 0x5A then b + 0x20 else b)"

definition to_lowercase :: "(bytes \<Rightarrow> bytes) \<Rightarrow> rstring \<Rightarrow> rstring" where
  "to_lowercase uni s = (if list_all (\<lambda>b. b < 0x80) s then map ascii_lower s else uni s)"

text \<open>\<^verbatim>\<open>replace([...], "_")\<close> of ASCII characters, which no multibyte character contains.\<close>

definition replace_chars :: "u8 list \<Rightarrow> rstring \<Rightarrow> rstring" where
  "replace_chars cs s = map (\<lambda>b. if b \<in> set cs then 0x5F else b) s"

primrec ot_debug :: "object_type \<Rightarrow> rstring" where
  "ot_debug OT_AnalogInput = lit ''AnalogInput''"
| "ot_debug OT_AnalogOutput = lit ''AnalogOutput''"
| "ot_debug OT_AnalogValue = lit ''AnalogValue''"
| "ot_debug OT_BinaryInput = lit ''BinaryInput''"
| "ot_debug OT_BinaryOutput = lit ''BinaryOutput''"
| "ot_debug OT_BinaryValue = lit ''BinaryValue''"
| "ot_debug OT_Calendar = lit ''Calendar''"
| "ot_debug OT_Command = lit ''Command''"
| "ot_debug OT_Device = lit ''Device''"
| "ot_debug OT_EventEnrollment = lit ''EventEnrollment''"
| "ot_debug OT_File = lit ''File''"
| "ot_debug OT_Group = lit ''Group''"
| "ot_debug OT_Loop = lit ''Loop''"
| "ot_debug OT_MultiStateInput = lit ''MultiStateInput''"
| "ot_debug OT_MultiStateOutput = lit ''MultiStateOutput''"
| "ot_debug OT_NotificationClass = lit ''NotificationClass''"
| "ot_debug OT_Program = lit ''Program''"
| "ot_debug OT_Schedule = lit ''Schedule''"
| "ot_debug OT_Averaging = lit ''Averaging''"
| "ot_debug OT_MultiStateValue = lit ''MultiStateValue''"
| "ot_debug OT_TrendLog = lit ''TrendLog''"
| "ot_debug OT_LifeSafetyPoint = lit ''LifeSafetyPoint''"
| "ot_debug OT_LifeSafetyZone = lit ''LifeSafetyZone''"
| "ot_debug OT_Accumulator = lit ''Accumulator''"
| "ot_debug OT_PulseConverter = lit ''PulseConverter''"
| "ot_debug OT_EventLog = lit ''EventLog''"
| "ot_debug OT_GlobalGroup = lit ''GlobalGroup''"
| "ot_debug OT_TrendLogMultiple = lit ''TrendLogMultiple''"
| "ot_debug OT_LoadControl = lit ''LoadControl''"
| "ot_debug OT_StructuredView = lit ''StructuredView''"
| "ot_debug OT_AccessDoor = lit ''AccessDoor''"
| "ot_debug OT_Timer = lit ''Timer''"
| "ot_debug OT_AccessCredential = lit ''AccessCredential''"
| "ot_debug OT_AccessPoint = lit ''AccessPoint''"
| "ot_debug OT_AccessRights = lit ''AccessRights''"
| "ot_debug OT_AccessUser = lit ''AccessUser''"
| "ot_debug OT_AccessZone = lit ''AccessZone''"
| "ot_debug OT_CredentialDataInput = lit ''CredentialDataInput''"
| "ot_debug OT_NetworkSecurity = lit ''NetworkSecurity''"
| "ot_debug OT_BitStringValue = lit ''BitStringValue''"
| "ot_debug OT_CharacterStringValue = lit ''CharacterStringValue''"
| "ot_debug OT_DatePatternValue = lit ''DatePatternValue''"
| "ot_debug OT_DateValue = lit ''DateValue''"
| "ot_debug OT_DateTimePatternValue = lit ''DateTimePatternValue''"
| "ot_debug OT_DateTimeValue = lit ''DateTimeValue''"
| "ot_debug OT_IntegerValue = lit ''IntegerValue''"
| "ot_debug OT_LargeAnalogValue = lit ''LargeAnalogValue''"
| "ot_debug OT_OctetStringValue = lit ''OctetStringValue''"
| "ot_debug OT_PositiveIntegerValue = lit ''PositiveIntegerValue''"
| "ot_debug OT_TimePatternValue = lit ''TimePatternValue''"
| "ot_debug OT_TimeValue = lit ''TimeValue''"
| "ot_debug OT_NotificationForwarder = lit ''NotificationForwarder''"
| "ot_debug OT_AlertEnrollment = lit ''AlertEnrollment''"
| "ot_debug OT_Channel = lit ''Channel''"
| "ot_debug OT_LightingOutput = lit ''LightingOutput''"
| "ot_debug OT_BinaryLightingOutput = lit ''BinaryLightingOutput''"
| "ot_debug OT_NetworkPort = lit ''NetworkPort''"
| "ot_debug OT_ElevatorGroup = lit ''ElevatorGroup''"
| "ot_debug OT_Escalator = lit ''Escalator''"
| "ot_debug OT_Lift = lit ''Lift''"
| "ot_debug OT_Staging = lit ''Staging''"

primrec pid_debug :: "property_identifier \<Rightarrow> rstring" where
  "pid_debug PID_ObjectIdentifier = lit ''ObjectIdentifier''"
| "pid_debug PID_ObjectName = lit ''ObjectName''"
| "pid_debug PID_ObjectType = lit ''ObjectType''"
| "pid_debug PID_Description = lit ''Description''"
| "pid_debug PID_ProfileName = lit ''ProfileName''"
| "pid_debug PID_PresentValue = lit ''PresentValue''"
| "pid_debug PID_StatusFlags = lit ''StatusFlags''"
| "pid_debug PID_EventState = lit ''EventState''"
| "pid_debug PID_Reliability = lit ''Reliability''"
| "pid_debug PID_OutOfService = lit ''OutOfService''"
| "pid_debug PID_Units = lit ''Units''"
| "pid_debug PID_MinPresentValue = lit ''MinPresentValue''"
| "pid_debug PID_MaxPresentValue = lit ''MaxPresentValue''"
| "pid_debug PID_CovIncrement = lit ''CovIncrement''"
| "pid_debug PID_TimeDelay = lit ''TimeDelay''"
| "pid_debug PID_NotificationClass = lit ''NotificationClass''"
| "pid_debug PID_HighLimit = lit ''HighLimit''"
| "pid_debug PID_LowLimit = lit ''LowLimit''"
| "pid_debug PID_Deadband = lit ''Deadband''"
| "pid_debug PID_LimitEnable = lit ''LimitEnable''"
| "pid_debug PID_EventEnable = lit ''EventEnable''"
| "pid_debug PID_AckedTransitions = lit ''AckedTransitions''"
| "pid_debug PID_PriorityArray = lit ''PriorityArray''"
| "pid_debug PID_RelinquishDefault = lit ''RelinquishDefault''"
| "pid_debug PID_SystemStatus = lit ''SystemStatus''"
| "pid_debug PID_VendorName = lit ''VendorName''"
| "pid_debug PID_LocalDate = lit ''LocalDate''"
| "pid_debug PID_LocalTime = lit ''LocalTime''"
| "pid_debug PID_UtcOffset = lit ''UtcOffset''"
| "pid_debug PID_DaylightSavingsStatus = lit ''DaylightSavingsStatus''"
| "pid_debug PID_VendorIdentifier = lit ''VendorIdentifier''"
| "pid_debug PID_ModelName = lit ''ModelName''"
| "pid_debug PID_FirmwareRevision = lit ''FirmwareRevision''"
| "pid_debug PID_ApplicationSoftwareVersion = lit ''ApplicationSoftwareVersion''"
| "pid_debug PID_ProtocolVersion = lit ''ProtocolVersion''"
| "pid_debug PID_ProtocolRevision = lit ''ProtocolRevision''"
| "pid_debug PID_ProtocolServicesSupported = lit ''ProtocolServicesSupported''"
| "pid_debug PID_ProtocolObjectTypesSupported = lit ''ProtocolObjectTypesSupported''"
| "pid_debug PID_ObjectList = lit ''ObjectList''"
| "pid_debug PID_MaxApduLengthAccepted = lit ''MaxApduLengthAccepted''"
| "pid_debug PID_SegmentationSupported = lit ''SegmentationSupported''"
| "pid_debug PID_ApduTimeout = lit ''ApduTimeout''"
| "pid_debug PID_NumberOfApduRetries = lit ''NumberOfApduRetries''"
| "pid_debug PID_MaxMaster = lit ''MaxMaster''"
| "pid_debug PID_MaxInfoFrames = lit ''MaxInfoFrames''"
| "pid_debug PID_DatabaseRevision = lit ''DatabaseRevision''"
| "pid_debug PID_NumberOfStates = lit ''NumberOfStates''"
| "pid_debug PID_StateText = lit ''StateText''"
| "pid_debug PID_Enable = lit ''Enable''"
| "pid_debug PID_LogInterval = lit ''LogInterval''"
| "pid_debug PID_BufferSize = lit ''BufferSize''"
| "pid_debug PID_RecordCount = lit ''RecordCount''"
| "pid_debug PID_TotalRecordCount = lit ''TotalRecordCount''"
| "pid_debug PID_StartTime = lit ''StartTime''"
| "pid_debug PID_StopTime = lit ''StopTime''"
| "pid_debug PID_StopWhenFull = lit ''StopWhenFull''"
| "pid_debug PID_LogDeviceObjectProperty = lit ''LogDeviceObjectProperty''"
| "pid_debug PID_WeeklySchedule = lit ''WeeklySchedule''"
| "pid_debug PID_ScheduleDefault = lit ''ScheduleDefault''"
| "pid_debug PID_EffectivePeriod = lit ''EffectivePeriod''"
| "pid_debug PID_ListOfObjectPropertyReferences = lit ''ListOfObjectPropertyReferences''"
| "pid_debug PID_ExceptionSchedule = lit ''ExceptionSchedule''"
| "pid_debug PID_PropertyList = lit ''PropertyList''"
| "pid_debug PID_All = lit ''All''"
| "pid_debug PID_Required = lit ''Required''"
| "pid_debug PID_Optional = lit ''Optional''"
| "pid_debug (PID_Unknown v) = lit ''Unknown('' @ decimal (unat v) @ lit '')''"

lemma lit_eq: "lit s = lit t \<longleftrightarrow> s = t"
proof -
  have "inj (of_char :: char \<Rightarrow> u8)"
  proof (rule injI)
    fix c d :: char
    assume "(of_char c :: u8) = of_char d"
    then have "(of_nat (of_char c) :: u8) = of_nat (of_char d)" by (simp only: of_nat_of_char)
    then have "unat (of_nat (of_char c) :: u8) = unat (of_nat (of_char d) :: u8)" by (rule arg_cong)
    then have "(of_char c :: nat) mod 256 = of_char d mod 256" unfolding unat_of_nat by simp
    then show "c = d" by simp
  qed
  then show ?thesis unfolding lit_def by (simp add: inj_map_eq_map)
qed

lemma lit_simps: "lit [] = []" "lit (c # cs) = of_char c # lit cs"
  by (simp_all add: lit_def)

end
