(* ===== verification/Simulation_Builder.thy ===== *)
theory Simulation_Builder
  imports Sim_Engine Dispatcher Names
begin

text \<open>
  \<^verbatim>\<open>crates/bacnet-sim/src/simulation_builder.rs\<close>, which turns a parsed configuration
  (\<^verbatim>\<open>crates/bacnet-config/src/topology.rs\<close>) into the objects of the store, the registered devices of
  the dispatcher and the engine.  The store is shared: the argument's \<^verbatim>\<open>Arc<ObjectStore>\<close> is the one
  the dispatcher holds.
\<close>

subsection \<open>The configuration\<close>

record model_params =
  mp_amplitude :: "f32 option"
  mp_period_s :: "f64 option"
  mp_offset :: "f32 option"
  mp_noise_std :: "f32 option"
  mp_step_std :: "f32 option"
  mp_min :: "f32 option"
  mp_max :: "f32 option"
  mp_value :: "f32 option"

record object_config =
  oc_object_type :: rstring
  oc_count :: u32
  oc_name_prefix :: rstring
  oc_units :: "rstring option"
  oc_model :: "rstring option"
  oc_model_params :: model_params

record profile_config =
  pc_description :: "rstring option"
  pc_objects :: "object_config list"

record device_group_config =
  dg_id_range :: "u32 \<times> u32"
  dg_network :: u16
  dg_profile :: rstring

datatype transport_kind = TK_BacnetIp | TK_Mstp | TK_BacnetSc

record network_config =
  nw_id :: u16
  nw_transport :: transport_kind
  nw_bind :: "rstring option"
  nw_hub_url :: "rstring option"

record simulator_section =
  ss_tick_hz :: f64
  ss_seed :: "u64 option"

record simulator_config =
  sc_simulator :: simulator_section
  sc_networks :: "network_config list"
  sc_devices :: "device_group_config list"
  sc_profiles :: "(rstring \<times> profile_config) list"

subsection \<open>Names\<close>

definition config_type_name :: "(bytes \<Rightarrow> bytes) \<Rightarrow> rstring \<Rightarrow> rstring" where
  "config_type_name uni s = replace_chars [0x20, 0x2D] (to_lowercase uni s)"

definition parse_object_type :: "(bytes \<Rightarrow> bytes) \<Rightarrow> rstring \<Rightarrow> object_type option" where
  "parse_object_type uni s =
     (let t = config_type_name uni s in
      if t \<in> {lit ''analoginput'', lit ''analog_input''} then Some OT_AnalogInput
      else if t \<in> {lit ''analogoutput'', lit ''analog_output''} then Some OT_AnalogOutput
      else if t \<in> {lit ''analogvalue'', lit ''analog_value''} then Some OT_AnalogValue
      else if t \<in> {lit ''binaryinput'', lit ''binary_input''} then Some OT_BinaryInput
      else if t \<in> {lit ''binaryoutput'', lit ''binary_output''} then Some OT_BinaryOutput
      else if t \<in> {lit ''binaryvalue'', lit ''binary_value''} then Some OT_BinaryValue
      else if t \<in> {lit ''multistateinput'', lit ''multistate_input'', lit ''msi''} then Some OT_MultiStateInput
      else None)"

text \<open>The units with a degree sign are its two UTF-8 bytes and the letter.\<close>

definition parse_units :: "(bytes \<Rightarrow> bytes) \<Rightarrow> rstring option \<Rightarrow> engineering_units" where
  "parse_units uni s =
     (case map_option (to_lowercase uni) s of
        None \<Rightarrow> EU_NoUnits
      | Some t \<Rightarrow>
          (if t \<in> {lit ''degreescelsius'', lit ''degrees_celsius'', lit ''celsius'', [0xC2, 0xB0, 0x63]}
           then EU_DegreesCelsius
           else if t \<in> {lit ''degreesfahrenheit'', lit ''degrees_fahrenheit'', lit ''fahrenheit'', [0xC2, 0xB0, 0x66]}
           then EU_DegreesFahrenheit
           else if t \<in> {lit ''kelvin'', lit ''k''} then EU_Kelvin
           else if t \<in> {lit ''percent'', lit ''%''} then EU_Percent
           else if t \<in> {lit ''psi'', lit ''poundspersquareinch''} then EU_PoundsPerSquareInch
           else if t \<in> {lit ''watts'', lit ''w''} then EU_Watts
           else if t \<in> {lit ''kilowatts'', lit ''kw''} then EU_Kilowatts
           else if t \<in> {lit ''amperes'', lit ''a'', lit ''amps''} then EU_Amperes
           else if t \<in> {lit ''volts'', lit ''v''} then EU_Volts
           else if t \<in> {lit ''hertz'', lit ''hz''} then EU_Hertz
           else EU_NoUnits))"

definition unwrap_or :: "'a option \<Rightarrow> 'a \<Rightarrow> 'a" where
  "unwrap_or x d = (case x of None \<Rightarrow> d | Some v \<Rightarrow> v)"

text \<open>The defaults, as bits: 5, 3600, 20, 0.1, 0.5, 0, 100, 22, 600, 15 and 0.05.\<close>

definition parse_model :: "(bytes \<Rightarrow> bytes) \<Rightarrow> rstring option \<Rightarrow> model_params \<Rightarrow> value_model option" where
  "parse_model uni model params =
     (case model of
        None \<Rightarrow> None
      | Some m \<Rightarrow>
          (let t = to_lowercase uni m in
           if t = lit ''constant'' then Some (ConstantModel (unwrap_or (mp_value params) 0))
           else if t = lit ''sine'' then
             Some (SineModel (unwrap_or (mp_amplitude params) 0x40A00000)
               (unwrap_or (mp_period_s params) 0x40AC200000000000)
               (unwrap_or (mp_offset params) 0x41A00000) (unwrap_or (mp_noise_std params) 0x3DCCCCCD))
           else if t \<in> {lit ''random_walk'', lit ''randomwalk''} then
             Some (RandomWalkModel (unwrap_or (mp_offset params) 0x41A00000)
               (unwrap_or (mp_step_std params) 0x3F000000)
               (unwrap_or (mp_min params) 0) (unwrap_or (mp_max params) 0x42C80000))
           else if t = lit ''step'' then Some (StepModel [(0, unwrap_or (mp_value params) 0)])
           else if t = lit ''thermal'' then
             Some (ThermalModel (unwrap_or (mp_offset params) 0x41B00000)
               (unwrap_or (mp_offset params) 0x41B00000)
               (unwrap_or (mp_period_s params) 0x4082C00000000000)
               (unwrap_or (mp_min params) 0x41700000) (unwrap_or (mp_noise_std params) 0x3D4CCCCD) 0)
           else None))"

subsection \<open>The objects of a device\<close>

text \<open>\<^verbatim>\<open>lo..=hi\<close>.\<close>

definition u32_range :: "u32 \<Rightarrow> u32 \<Rightarrow> u32 list" where
  "u32_range lo hi = map of_nat [unat lo..<Suc (unat hi)]"

text \<open>\<^verbatim>\<open>format!("{}-{i:03}", prefix)\<close>.\<close>

definition object_name :: "rstring \<Rightarrow> u32 \<Rightarrow> rstring" where
  "object_name prefix i =
     (let ds = decimal (unat i) in prefix @ lit ''-'' @ replicate (3 - length ds) 0x30 @ ds)"

text \<open>The object a line of a profile makes as its number \<open>i\<close>, or nothing for an unknown type.\<close>

definition profile_object ::
    "(bytes \<Rightarrow> bytes) \<Rightarrow> instant \<Rightarrow> device_id \<Rightarrow> object_config \<Rightarrow> u32 \<Rightarrow> bacnet_object option" where
  "profile_object uni now dev c i =
     (let name = object_name (oc_name_prefix c) i;
          units = parse_units uni (oc_units c);
          t = config_type_name uni (oc_object_type c)
      in if t \<in> {lit ''analoginput'', lit ''analog_input''} then Some (Obj_AnalogInput (ai_new now dev i name units))
         else if t \<in> {lit ''analogoutput'', lit ''analog_output''} then Some (Obj_AnalogOutput (ao_new now dev i name units))
         else if t \<in> {lit ''analogvalue'', lit ''analog_value''} then Some (Obj_AnalogValue (av_new now dev i name units))
         else if t \<in> {lit ''binaryinput'', lit ''binary_input''} then Some (Obj_BinaryInput (bi_new now dev i name))
         else if t \<in> {lit ''binaryoutput'', lit ''binary_output''} then Some (Obj_BinaryOutput (bo_new now dev i name))
         else if t \<in> {lit ''binaryvalue'', lit ''binary_value''} then Some (Obj_BinaryValue (bv_new now dev i name))
         else if t \<in> {lit ''multistateinput'', lit ''multistate_input'', lit ''msi''}
         then Some (Obj_MultiStateInput (msi_new now dev i name 4))
         else None)"

type_synonym batch = "(device_id \<times> bacnet_object) list"

definition add_profile_objects ::
    "(bytes \<Rightarrow> bytes) \<Rightarrow> instant \<Rightarrow> device_id \<Rightarrow> profile_config \<Rightarrow> batch \<Rightarrow> batch" where
  "add_profile_objects uni now dev p b =
     b @ concat (map (\<lambda>c. map (Pair dev) (List.map_filter (profile_object uni now dev c) (u32_range 1 (oc_count c))))
           (pc_objects p))"

definition profile_object_list :: "(bytes \<Rightarrow> bytes) \<Rightarrow> u32 \<Rightarrow> profile_config \<Rightarrow> object_id list" where
  "profile_object_list uni device_instance p =
     \<lparr>oid_type = OT_Device, oid_instance = device_instance\<rparr> #
     concat (map (\<lambda>c. case parse_object_type uni (oc_object_type c) of
                         None \<Rightarrow> []
                       | Some t \<Rightarrow> map (\<lambda>i. \<lparr>oid_type = t, oid_instance = i\<rparr>) (u32_range 1 (oc_count c)))
              (pc_objects p))"

subsection \<open>The simulation\<close>

definition build_device ::
    "(bytes \<Rightarrow> bytes) \<Rightarrow> instant \<Rightarrow> profile_config \<Rightarrow> batch \<times> dispatcher \<Rightarrow> u32 \<Rightarrow> batch \<times> dispatcher" where
  "build_device uni now p bd device_instance =
     (let object_list = profile_object_list uni device_instance p;
          dev_obj = (dev_new device_instance (lit ''device-'' @ decimal (unat device_instance)))
            \<lparr>dev_object_list := object_list\<rparr>;
          b = fst bd @ [(device_instance, Obj_Device dev_obj)]
      in (add_profile_objects uni now device_instance p b,
          register_device (device_info_new device_instance) (snd bd)))"

definition build_group ::
    "(bytes \<Rightarrow> bytes) \<Rightarrow> instant \<Rightarrow> (rstring \<times> profile_config) list \<Rightarrow> batch \<times> dispatcher \<Rightarrow>
     device_group_config \<Rightarrow> batch \<times> dispatcher" where
  "build_group uni now profiles bd g =
     (case map_of profiles (dg_profile g) of
        None \<Rightarrow> bd
      | Some p \<Rightarrow> foldl (build_device uni now p) bd (u32_range (fst (dg_id_range g)) (snd (dg_id_range g))))"

definition build_simulation ::
    "hash_fn \<Rightarrow> (bytes \<Rightarrow> bytes) \<Rightarrow> instant \<Rightarrow> simulator_config \<Rightarrow> dispatcher \<Rightarrow> 'g sim_engine \<times> dispatcher" where
  "build_simulation fx uni now config d =
     (let (b, d1) = foldl (build_group uni now (sc_profiles config)) ([], d) (sc_devices config);
          st = store_bulk_insert fx b (dp_store d1)
      in (sim_engine_new st (ss_tick_hz (sc_simulator config)) now, d1\<lparr>dp_store := st\<rparr>))"

subsection \<open>What a profile makes\<close>

text \<open>The two matches on the type's name go through the same cases.\<close>

lemma match_agree:
  assumes "P t1 x1" "P t2 x2" "P t3 x3" "P t4 x4" "P t5 x5" "P t6 x6" "P t7 x7"
  shows "rel_option P
    (if a1 then Some t1 else if a2 then Some t2 else if a3 then Some t3 else if a4 then Some t4
     else if a5 then Some t5 else if a6 then Some t6 else if a7 then Some t7 else None)
    (if a1 then Some x1 else if a2 then Some x2 else if a3 then Some x3 else if a4 then Some x4
     else if a5 then Some x5 else if a6 then Some x6 else if a7 then Some x7 else None)"
  using assms by simp

lemma new_object_ids:
  "obj_object_id (Obj_AnalogInput (ai_new now dev i name u)) = \<lparr>oid_type = OT_AnalogInput, oid_instance = i\<rparr>"
  "obj_object_id (Obj_AnalogOutput (ao_new now dev i name u)) = \<lparr>oid_type = OT_AnalogOutput, oid_instance = i\<rparr>"
  "obj_object_id (Obj_AnalogValue (av_new now dev i name u)) = \<lparr>oid_type = OT_AnalogValue, oid_instance = i\<rparr>"
  "obj_object_id (Obj_BinaryInput (bi_new now dev i name)) = \<lparr>oid_type = OT_BinaryInput, oid_instance = i\<rparr>"
  "obj_object_id (Obj_BinaryOutput (bo_new now dev i name)) = \<lparr>oid_type = OT_BinaryOutput, oid_instance = i\<rparr>"
  "obj_object_id (Obj_BinaryValue (bv_new now dev i name)) = \<lparr>oid_type = OT_BinaryValue, oid_instance = i\<rparr>"
  "obj_object_id (Obj_MultiStateInput (msi_new now dev i name n)) = \<lparr>oid_type = OT_MultiStateInput, oid_instance = i\<rparr>"
  by (simp_all add: ai_new_def ao_new_def av_new_def bi_new_def bo_new_def bv_new_def msi_new_def)

lemma profile_object_agrees:
  "rel_option (\<lambda>t ob. obj_object_id ob = \<lparr>oid_type = t, oid_instance = i\<rparr> \<and> obj_ok ob \<and> t \<noteq> OT_Device)
    (parse_object_type uni (oc_object_type c)) (profile_object uni now dev c i)"
  unfolding parse_object_type_def profile_object_def Let_def
  by (rule match_agree) (simp_all only: new_object_ids obj_ok.simps ao_new_ok bo_new_ok msi_new_ok object_type.distinct simp_thms)

definition device_batch :: "(bytes \<Rightarrow> bytes) \<Rightarrow> instant \<Rightarrow> profile_config \<Rightarrow> u32 \<Rightarrow> batch" where
  "device_batch uni now p dev = add_profile_objects uni now dev p
     [(dev, Obj_Device ((dev_new dev (lit ''device-'' @ decimal (unat dev)))
        \<lparr>dev_object_list := profile_object_list uni dev p\<rparr>))]"

definition devices_of :: "(rstring \<times> profile_config) list \<Rightarrow> device_group_config list \<Rightarrow> (u32 \<times> profile_config) list" where
  "devices_of profiles gs = concat (map (\<lambda>g. case map_of profiles (dg_profile g) of
       None \<Rightarrow> []
     | Some p \<Rightarrow> map (\<lambda>dev. (dev, p)) (u32_range (fst (dg_id_range g)) (snd (dg_id_range g)))) gs)"

definition register_all :: "(u32 \<times> profile_config) list \<Rightarrow> dispatcher \<Rightarrow> dispatcher" where
  "register_all ds d = foldl (\<lambda>d dp. register_device (device_info_new (fst dp)) d) d ds"

lemma build_device_eq:
  "build_device uni now p bd dev =
    (fst bd @ device_batch uni now p dev, register_device (device_info_new dev) (snd bd))"
  by (simp add: build_device_def device_batch_def add_profile_objects_def Let_def)

lemma foldl_build_device:
  "foldl (build_device uni now p) bd devs =
    (fst bd @ concat (map (device_batch uni now p) devs), register_all (map (\<lambda>dev. (dev, p)) devs) (snd bd))"
  by (induction devs arbitrary: bd) (simp_all add: build_device_eq register_all_def)

lemma foldl_build_group:
  "foldl (build_group uni now profiles) bd gs =
    (fst bd @ concat (map (\<lambda>(dev, p). device_batch uni now p dev) (devices_of profiles gs)),
     register_all (devices_of profiles gs) (snd bd))"
proof (induction gs arbitrary: bd)
  case (Cons g gs)
  then show ?case
    by (simp add: build_group_def foldl_build_device devices_of_def register_all_def comp_def split: option.split)
qed (simp add: devices_of_def register_all_def)

definition simulation_batch :: "(bytes \<Rightarrow> bytes) \<Rightarrow> instant \<Rightarrow> simulator_config \<Rightarrow> batch" where
  "simulation_batch uni now config = concat (map (\<lambda>(dev, p). device_batch uni now p dev)
     (devices_of (sc_profiles config) (sc_devices config)))"

lemma build_simulation_eq:
  "build_simulation fx uni now config d =
    (let d1 = register_all (devices_of (sc_profiles config) (sc_devices config)) d;
         st = store_bulk_insert fx (simulation_batch uni now config) (dp_store d1)
     in (sim_engine_new st (ss_tick_hz (sc_simulator config)) now, d1\<lparr>dp_store := st\<rparr>))"
  by (simp add: build_simulation_def foldl_build_group simulation_batch_def Let_def)

lemma register_all_store [simp]: "dp_store (register_all ds d) = dp_store d"
  by (induction ds arbitrary: d) (simp_all add: register_all_def register_device_def)

lemma register_all_ok: "dispatcher_ok fx d \<Longrightarrow> dispatcher_ok fx (register_all ds d)"
  by (induction ds arbitrary: d) (simp_all add: register_all_def register_device_ok)

lemma register_all_registers:
  "registered (register_all ds d) dev \<longleftrightarrow> dev \<in> fst ` set ds \<or> registered d dev"
  by (induction ds arbitrary: d)
    (auto simp: register_all_def registered_def register_device_def device_info_new_def)

subsection \<open>The batch in the store\<close>

lemma get_insert_all:
  assumes "store_ok fx st" and "\<forall>(d, ob) \<in> set b. obj_ok ob \<and> oid_ok (obj_object_id ob)" and "oid_ok oid"
  shows "store_get fx (store_insert_all fx b st) dev oid =
    (case find (\<lambda>(d, ob). d = dev \<and> obj_object_id ob = oid) (rev b) of
       None \<Rightarrow> store_get fx st dev oid | Some (d, ob) \<Rightarrow> Some ob)"
  using assms(1,2)
proof (induction b rule: rev_induct)
  case (snoc p b)
  obtain d ob where p: "p = (d, ob)" by (cases p)
  have ok: "store_ok fx (store_insert_all fx b st)"
    using snoc.prems by (intro store_insert_all_ok) auto
  show ?case
    using objstore.get_ins [OF ok _ assms(3), of ob d dev] snoc p
    by (auto simp: store_insert_all_def)
qed (simp add: store_insert_all_def)

lemma set_u32_range: "i \<in> set (u32_range lo hi) \<longleftrightarrow> lo \<le> i \<and> i \<le> hi"
proof
  assume "i \<in> set (u32_range lo hi)"
  then obtain n where n: "i = of_nat n" "unat lo \<le> n" "n \<le> unat hi" by (auto simp: u32_range_def)
  moreover have "n < 2 ^ 32" using n(3) unsigned_less [of hi, where ?'a = nat] by simp
  ultimately have "unat i = n" by (simp add: unsigned_of_nat take_bit_nat_eq_self)
  with n(2,3) show "lo \<le> i \<and> i \<le> hi" by (simp add: word_le_nat_alt)
next
  assume "lo \<le> i \<and> i \<le> hi"
  then have "unat i \<in> set [unat lo..<Suc (unat hi)]" by (auto simp: word_le_nat_alt)
  then have "(of_nat (unat i) :: u32) \<in> of_nat ` set [unat lo..<Suc (unat hi)]" by (rule imageI)
  then show "i \<in> set (u32_range lo hi)" by (simp add: u32_range_def del: upt_Suc)
qed

definition profile_device :: "(bytes \<Rightarrow> bytes) \<Rightarrow> profile_config \<Rightarrow> u32 \<Rightarrow> device_object" where
  "profile_device uni p dev = (dev_new dev (lit ''device-'' @ decimal (unat dev)))\<lparr>dev_object_list := profile_object_list uni dev p\<rparr>"

lemma profile_device_id [simp]: "obj_object_id (Obj_Device (profile_device uni p dev)) = device_oid dev"
  by (simp add: profile_device_def dev_object_id_def dev_new_def)

definition made_by :: "(bytes \<Rightarrow> bytes) \<Rightarrow> instant \<Rightarrow> profile_config \<Rightarrow> u32 \<Rightarrow> bacnet_object \<Rightarrow> bool" where
  "made_by uni now p dev ob \<longleftrightarrow>
     (\<exists>c \<in> set (pc_objects p). \<exists>i. 1 \<le> i \<and> i \<le> oc_count c \<and> profile_object uni now dev c i = Some ob)"

lemma set_map_filter: "y \<in> set (List.map_filter f xs) \<longleftrightarrow> (\<exists>x \<in> set xs. f x = Some y)"
  by (induction xs) (auto simp: map_filter_simps split: option.splits)

lemma set_device_batch:
  "(d, ob) \<in> set (device_batch uni now p dev) \<longleftrightarrow>
    d = dev \<and> (ob = Obj_Device (profile_device uni p dev) \<or> made_by uni now p dev ob)"
  by (auto simp: device_batch_def add_profile_objects_def profile_device_def made_by_def set_map_filter
      set_u32_range image_iff)

lemma made_by_kind:
  assumes "made_by uni now p dev ob"
  shows "obj_ok ob \<and> oid_type (obj_object_id ob) \<noteq> OT_Device"
proof -
  obtain c i where "profile_object uni now dev c i = Some ob" using assms by (auto simp: made_by_def)
  then show ?thesis using profile_object_agrees [of i uni c now dev] by (auto simp: option_rel_Some2)
qed

lemma made_by_oid_ok:
  assumes "made_by uni now p dev ob" and "\<forall>c \<in> set (pc_objects p). oc_count c < 2 ^ 22"
  shows "oid_ok (obj_object_id ob)"
proof -
  obtain c i where c: "c \<in> set (pc_objects p)" "i \<le> oc_count c" "profile_object uni now dev c i = Some ob"
    using assms(1) by (auto simp: made_by_def)
  then show ?thesis
    using profile_object_agrees [of i uni c now dev] assms(2) by (auto simp: option_rel_Some2 oid_ok_def)
qed

lemma profile_object_list_iff:
  "oid \<in> set (profile_object_list uni dev p) \<longleftrightarrow>
    oid = device_oid dev \<or> (\<exists>ob. made_by uni now p dev ob \<and> obj_object_id ob = oid)"
proof -
  have made: "(\<exists>t. parse_object_type uni (oc_object_type c) = Some t \<and> oid = \<lparr>oid_type = t, oid_instance = i\<rparr>) \<longleftrightarrow>
      (\<exists>ob. profile_object uni now dev c i = Some ob \<and> obj_object_id ob = oid)" for c i
    using profile_object_agrees [of i uni c now dev]
    by (cases "parse_object_type uni (oc_object_type c)"; cases "profile_object uni now dev c i") auto
  have listed: "oid \<in> set (case parse_object_type uni (oc_object_type c) of None \<Rightarrow> []
        | Some t \<Rightarrow> map (\<lambda>i. \<lparr>oid_type = t, oid_instance = i\<rparr>) (u32_range 1 (oc_count c))) \<longleftrightarrow>
      (\<exists>i. 1 \<le> i \<and> i \<le> oc_count c \<and>
        (\<exists>t. parse_object_type uni (oc_object_type c) = Some t \<and> oid = \<lparr>oid_type = t, oid_instance = i\<rparr>))" for c
    by (auto simp: image_iff Bex_def set_u32_range split: option.split)
  have all: "oid \<in> set (profile_object_list uni dev p) \<longleftrightarrow> oid = device_oid dev \<or>
      (\<exists>c \<in> set (pc_objects p). oid \<in> set (case parse_object_type uni (oc_object_type c) of None \<Rightarrow> []
        | Some t \<Rightarrow> map (\<lambda>i. \<lparr>oid_type = t, oid_instance = i\<rparr>) (u32_range 1 (oc_count c))))"
    by (simp add: profile_object_list_def device_oid_def)
  show ?thesis unfolding all listed made made_by_def by blast
qed

subsection \<open>The configured devices\<close>

definition configured :: "simulator_config \<Rightarrow> u32 \<Rightarrow> profile_config \<Rightarrow> bool" where
  "configured config dev p \<longleftrightarrow> (\<exists>g \<in> set (sc_devices config).
     map_of (sc_profiles config) (dg_profile g) = Some p \<and> fst (dg_id_range g) \<le> dev \<and> dev \<le> snd (dg_id_range g))"

text \<open>Device and object instances that fit the 22 bits of an object identifier.\<close>

definition config_ok :: "simulator_config \<Rightarrow> bool" where
  "config_ok config \<longleftrightarrow> (\<forall>g \<in> set (sc_devices config). snd (dg_id_range g) < 2 ^ 22)
     \<and> (\<forall>(name, p) \<in> set (sc_profiles config). \<forall>c \<in> set (pc_objects p). oc_count c < 2 ^ 22)"

lemma set_devices_of:
  "(dev, p) \<in> set (devices_of (sc_profiles config) (sc_devices config)) \<longleftrightarrow> configured config dev p"
  by (auto simp: devices_of_def configured_def set_u32_range image_iff split: option.splits) metis

lemma configured_bounds:
  assumes "config_ok config" and "configured config dev p"
  shows "dev < 2 ^ 22" "\<forall>c \<in> set (pc_objects p). oc_count c < 2 ^ 22"
proof -
  obtain g where g: "g \<in> set (sc_devices config)" "map_of (sc_profiles config) (dg_profile g) = Some p"
      "dev \<le> snd (dg_id_range g)"
    using assms(2) by (auto simp: configured_def)
  show "dev < 2 ^ 22" using assms(1) g(1) order.strict_trans1 [OF g(3)] by (auto simp: config_ok_def)
  show "\<forall>c \<in> set (pc_objects p). oc_count c < 2 ^ 22"
    using assms(1) map_of_SomeD [OF g(2)] by (auto simp: config_ok_def)
qed

lemma set_simulation_batch:
  "(dev, ob) \<in> set (simulation_batch uni now config) \<longleftrightarrow>
    (\<exists>p. configured config dev p \<and> (ob = Obj_Device (profile_device uni p dev) \<or> made_by uni now p dev ob))"
  by (auto simp: simulation_batch_def set_device_batch simp flip: set_devices_of)

lemma simulation_batch_ok:
  "(dev, ob) \<in> set (simulation_batch uni now config) \<Longrightarrow> obj_ok ob"
  by (auto simp: set_simulation_batch dest: made_by_kind)

lemma simulation_batch_oid_ok:
  assumes "config_ok config" and "(dev, ob) \<in> set (simulation_batch uni now config)"
  shows "oid_ok (obj_object_id ob)"
  using assms(2) configured_bounds [OF assms(1)] made_by_oid_ok
  by (auto simp: set_simulation_batch oid_ok_def device_oid_def simp del: obj_object_id.simps)

lemma find_SomeD: "find P xs = Some x \<Longrightarrow> x \<in> set xs \<and> P x"
  by (auto simp: find_Some_iff)

lemma built_get:
  assumes "store_ok fx st" and "config_ok config" and "oid_ok oid"
    and b_def: "b = simulation_batch uni now config"
  shows "store_get fx (store_bulk_insert fx b st) dev oid = Some ob \<Longrightarrow>
      (dev, ob) \<in> set b \<and> obj_object_id ob = oid \<or> store_get fx st dev oid = Some ob"
    and "(dev, ob) \<in> set b \<Longrightarrow> obj_object_id ob = oid \<Longrightarrow>
      \<exists>ob'. store_get fx (store_bulk_insert fx b st) dev oid = Some ob' \<and> (dev, ob') \<in> set b \<and> obj_object_id ob' = oid"
proof -
  let ?f = "find (\<lambda>(d, ob). d = dev \<and> obj_object_id ob = oid) (rev b)"
  have len: "length st = num_shards" using assms(1) by (simp add: store_ok_def)
  have "\<forall>(d, ob) \<in> set b. obj_ok ob \<and> oid_ok (obj_object_id ob)"
    using simulation_batch_ok simulation_batch_oid_ok [OF assms(2)] by (auto simp: b_def)
  from get_insert_all [OF assms(1) this assms(3)]
  have get: "store_get fx (store_bulk_insert fx b st) dev oid =
      (case ?f of None \<Rightarrow> store_get fx st dev oid | Some (d, ob) \<Rightarrow> Some ob)"
    by (simp only: bulk_insert_eq_inserts [OF len])
  have found: "(d, x) \<in> set b \<and> d = dev \<and> obj_object_id x = oid" if "?f = Some (d, x)" for d x
    using find_SomeD [OF that] by auto
  show "(dev, ob) \<in> set b \<and> obj_object_id ob = oid \<or> store_get fx st dev oid = Some ob"
    if "store_get fx (store_bulk_insert fx b st) dev oid = Some ob"
  proof (cases ?f)
    case None
    with that show ?thesis by (simp add: get)
  next
    case (Some q)
    then obtain d x where q: "?f = Some (d, x)" by (cases q) simp
    with that have "x = ob" by (simp add: get)
    with found [OF q] show ?thesis by blast
  qed
  show "\<exists>ob'. store_get fx (store_bulk_insert fx b st) dev oid = Some ob' \<and> (dev, ob') \<in> set b \<and> obj_object_id ob' = oid"
    if "(dev, ob) \<in> set b" "obj_object_id ob = oid"
  proof (cases ?f)
    case None
    with that show ?thesis by (auto simp: find_None_iff)
  next
    case (Some q)
    then obtain d x where "?f = Some (d, x)" by (cases q) simp
    with found [OF this] show ?thesis by (auto simp: get)
  qed
qed

lemma built_store_ok:
  assumes "store_ok fx st"
  shows "store_ok fx (store_bulk_insert fx (simulation_batch uni now config) st)"
proof -
  have "length st = num_shards" using assms by (simp add: store_ok_def)
  then show ?thesis
    using simulation_batch_ok [of _ _ uni now config]
    by (auto simp: bulk_insert_eq_inserts intro!: store_insert_all_ok assms)
qed

text \<open>The engine that comes back has no value models, whatever the profiles say of them.\<close>

lemma built_engine_has_no_models: "se_models (fst (build_simulation fx uni now config d)) = []"
  by (simp add: build_simulation_eq Let_def sim_engine_new_def)

lemma store_get_new [simp]: "store_get fx store_new dev oid = None"
  using shard_index_less [of fx "obj_key dev oid"] by (simp add: store_get_def shard_key_def store_new_def)

text \<open>A device with one configured profile, in a store that was empty.\<close>

lemma built_device:
  assumes "config_ok config" and "configured config dev p" and "\<forall>p'. configured config dev p' \<longrightarrow> p' = p"
    and "build_simulation fx uni now config (dispatcher_new store_new) = (eng, d)"
  shows "store_get fx (dp_store d) dev (device_oid dev) = Some (Obj_Device (profile_device uni p dev)) \<and>
    (\<forall>oid. oid_ok oid \<longrightarrow>
      (oid \<in> set (profile_object_list uni dev p) \<longleftrightarrow> store_get fx (dp_store d) dev oid \<noteq> None))"
proof -
  let ?b = "simulation_batch uni now config"
  have st: "dp_store d = store_bulk_insert fx ?b store_new"
    using assms(4) by (auto simp: build_simulation_eq Let_def dispatcher_new_def)
  have only: "(dev, ob) \<in> set ?b \<longleftrightarrow> ob = Obj_Device (profile_device uni p dev) \<or> made_by uni now p dev ob" for ob
    unfolding set_simulation_batch using assms(2,3) by blast
  note got = built_get(1) [OF store_new_ok assms(1) _ refl, of _ fx uni now dev]
    and get = built_get(2) [OF store_new_ok assms(1) _ refl, of _ dev _ uni now fx]
  have dev: "oid_ok (device_oid dev)" using configured_bounds(1) [OF assms(1,2)] by (simp add: oid_ok_def device_oid_def)
  have "(dev, Obj_Device (profile_device uni p dev)) \<in> set ?b" using only by simp
  from get [OF dev this profile_device_id]
  obtain ob where ob: "store_get fx (dp_store d) dev (device_oid dev) = Some ob" "(dev, ob) \<in> set ?b"
      "obj_object_id ob = device_oid dev" by (auto simp: st)
  have "ob = Obj_Device (profile_device uni p dev)"
    using ob(2,3) made_by_kind [of uni now p dev ob] by (auto simp: only device_oid_def)
  moreover have "oid \<in> set (profile_object_list uni dev p) \<longleftrightarrow> store_get fx (dp_store d) dev oid \<noteq> None"
    if "oid_ok oid" for oid
  proof -
    have "oid \<in> set (profile_object_list uni dev p) \<longleftrightarrow> (\<exists>ob. (dev, ob) \<in> set ?b \<and> obj_object_id ob = oid)"
      unfolding profile_object_list_iff [where now = now] only by (metis profile_device_id)
    also have "\<dots> \<longleftrightarrow> store_get fx (dp_store d) dev oid \<noteq> None"
    proof
      assume "\<exists>ob. (dev, ob) \<in> set ?b \<and> obj_object_id ob = oid"
      then obtain ob where "(dev, ob) \<in> set ?b" "obj_object_id ob = oid" by (elim exE conjE)
      from get [OF that this] show "store_get fx (dp_store d) dev oid \<noteq> None" by (auto simp: st)
    next
      assume "store_get fx (dp_store d) dev oid \<noteq> None"
      then obtain ob where "store_get fx (store_bulk_insert fx ?b store_new) dev oid = Some ob"
        by (auto simp: st)
      from got [OF that this] show "\<exists>ob. (dev, ob) \<in> set ?b \<and> obj_object_id ob = oid" by auto
    qed
    finally show ?thesis .
  qed
  ultimately show ?thesis using ob(1) by auto
qed

definition example_profile :: profile_config where
  "example_profile = \<lparr>pc_description = None, pc_objects =
     [\<lparr>oc_object_type = lit ''Analog-Input'', oc_count = 2, oc_name_prefix = lit ''AI'', oc_units = Some (lit ''Celsius''),
       oc_model = None, oc_model_params = \<lparr>mp_amplitude = None, mp_period_s = None, mp_offset = None,
         mp_noise_std = None, mp_step_std = None, mp_min = None, mp_max = None, mp_value = None\<rparr>\<rparr>]\<rparr>"

definition example_config :: simulator_config where
  "example_config = \<lparr>sc_simulator = \<lparr>ss_tick_hz = 0x3FF0000000000000, ss_seed = None\<rparr>, sc_networks = [],
     sc_devices = [\<lparr>dg_id_range = (7, 8), dg_network = 1, dg_profile = lit ''office''\<rparr>],
     sc_profiles = [(lit ''office'', example_profile)]\<rparr>"

lemma example_config_ok: "config_ok example_config"
  by (simp add: config_ok_def example_config_def example_profile_def)

lemma example_configured: "configured example_config dev p \<longleftrightarrow> p = example_profile \<and> 7 \<le> dev \<and> dev \<le> 8"
  by (auto simp: configured_def example_config_def)

definition example_simulation :: "nat sim_engine \<times> dispatcher" where
  "example_simulation = build_simulation (\<lambda>a b. 0) (\<lambda>s. s) 5 example_config (dispatcher_new store_new)"

lemma example_simulation_pair:
  "build_simulation (\<lambda>a b. 0) (\<lambda>s. s) 5 example_config (dispatcher_new store_new) =
    (fst example_simulation, snd example_simulation)"
  by (simp add: example_simulation_def)

subsection \<open>Properties\<close>

text \<open>An object of a simulation built from nothing is the one its key names.\<close>

lemma built_object_id:
  assumes "config_ok config" and "build_simulation fx uni now config (dispatcher_new store_new) = (eng, d)"
    and "oid_ok oid" and "store_get fx (dp_store d) dev oid = Some ob"
  shows "obj_object_id ob = oid"
proof -
  have "dp_store d = store_bulk_insert fx (simulation_batch uni now config) store_new"
    using assms(2) by (auto simp: build_simulation_eq Let_def dispatcher_new_def)
  with built_get(1) [OF store_new_ok assms(1,3) refl, where dev = dev and now = now and uni = uni] assms(4) show ?thesis by auto
qed

text \<open>
  C31. A built simulation is well formed: whatever the configuration, the dispatcher and the store
  keep their invariant (so everything that is proved of a running dispatcher applies to it), the
  engine and the dispatcher share the store, every device of a group with a known profile is
  registered, and no other device is added.
\<close>

theorem built_simulation_well_formed:
  assumes "dispatcher_ok fx d" and "build_simulation fx uni now config d = (eng, d')"
  shows "dispatcher_ok fx d' \<and> se_store eng = dp_store d' \<and> models_ok (se_models eng) \<and>
    (\<forall>dev. registered d' dev \<longleftrightarrow> registered d dev \<or> (\<exists>p. configured config dev p))"
proof -
  let ?d = "register_all (devices_of (sc_profiles config) (sc_devices config)) d"
  have d': "d' = ?d\<lparr>dp_store := store_bulk_insert fx (simulation_batch uni now config) (dp_store d)\<rparr>"
      "eng = sim_engine_new (dp_store d') (ss_tick_hz (sc_simulator config)) now"
    using assms(2) by (auto simp: build_simulation_eq Let_def)
  have "store_ok fx (dp_store d)" using assms(1) unfolding dispatcher_ok_def by blast
  then have "dispatcher_ok fx d'"
    unfolding d'(1) by (intro dispatcher_ok_store register_all_ok assms(1) built_store_ok)
  moreover have "registered d' dev \<longleftrightarrow> registered d dev \<or> (\<exists>p. configured config dev p)" for dev
  proof -
    have "registered d' dev \<longleftrightarrow> registered ?d dev" by (simp add: d'(1) registered_def)
    moreover have "dev \<in> fst ` set ds \<longleftrightarrow> (\<exists>p. (dev, p) \<in> set ds)" for ds :: "(u32 \<times> profile_config) list"
      by force
    ultimately show ?thesis by (auto simp: register_all_registers simp flip: set_devices_of)
  qed
  ultimately show ?thesis by (simp add: d'(2) sim_engine_new_def models_ok_def)
qed

theorem built_simulation_well_formed_witness: "registered (snd example_simulation) 8"
  using built_simulation_well_formed [OF dispatcher_new_ok [OF store_new_ok] example_simulation_pair]
  by (simp add: example_configured)

text \<open>
  C13. The object list of a built device is exact: starting from an empty store, a device whose
  profile is the only one configured for it has a Device object, and its list names an object
  identifier if and only if the store holds an object of that device under it.  Device and object
  instances must fit in 22 bits.
\<close>

theorem built_object_list_exact:
  assumes "config_ok config" and "configured config dev p" and "\<forall>p'. configured config dev p' \<longrightarrow> p' = p"
    and "build_simulation fx uni now config (dispatcher_new store_new) = (eng, d)"
  shows "\<exists>x. store_get fx (dp_store d) dev (device_oid dev) = Some (Obj_Device x) \<and>
    (\<forall>oid. oid_ok oid \<longrightarrow> (oid \<in> set (dev_object_list x) \<longleftrightarrow> store_get fx (dp_store d) dev oid \<noteq> None))"
  using built_device [OF assms] by (intro exI [of _ "profile_device uni p dev"]) (simp add: profile_device_def)

theorem built_object_list_exact_witness:
  "\<exists>x. store_get (\<lambda>a b. 0) (dp_store (snd example_simulation)) 8 (device_oid 8) = Some (Obj_Device x)
    \<and> (\<lparr>oid_type = OT_AnalogInput, oid_instance = 3\<rparr> \<in> set (dev_object_list x) \<longleftrightarrow>
        store_get (\<lambda>a b. 0) (dp_store (snd example_simulation)) 8 \<lparr>oid_type = OT_AnalogInput, oid_instance = 3\<rparr> \<noteq> None)"
proof -
  have c: "configured example_config 8 example_profile" "\<forall>p'. configured example_config 8 p' \<longrightarrow> p' = example_profile"
    by (simp_all add: example_configured)
  have "oid_ok \<lparr>oid_type = OT_AnalogInput, oid_instance = 3\<rparr>" by (simp add: oid_ok_def)
  with built_object_list_exact [OF example_config_ok c example_simulation_pair] show ?thesis by blast
qed

end
