(* ===== verification/Rest_Api.thy ===== *)
theory Rest_Api
  imports Store Names
begin

text \<open>
  \<^verbatim>\<open>crates/bacnet-api/src/rest.rs\<close>: the handlers of the HTTP management API over the shared store.

  \<^verbatim>\<open>serde_json\<close> is a library: its \<^verbatim>\<open>Value\<close> has the constructors the handlers match on, its numbers
  are a type \<open>'n\<close>, and what \<^verbatim>\<open>json!\<close> and \<^verbatim>\<open>as_f64\<close> make of them is the record \<open>json_lib\<close>, with the
  \<^verbatim>\<open>{:?}\<close> texts of its values and of the errors.  The extraction of path and body by \<^verbatim>\<open>axum\<close> is the
  request the handler is given.
\<close>

subsection \<open>JSON\<close>

datatype 'n json_value =
    J_Null
  | J_Bool bool
  | J_Number 'n
  | J_String rstring
  | J_Array "'n json_value list"
  | J_Object "(rstring \<times> 'n json_value) list"

text \<open>A float that is not finite has no JSON number: \<^verbatim>\<open>json!\<close> makes it \<^verbatim>\<open>Null\<close>.\<close>

record 'n json_lib =
  jl_u32 :: "u32 \<Rightarrow> 'n"
  jl_i32 :: "u32 \<Rightarrow> 'n"
  jl_f32 :: "f32 \<Rightarrow> 'n option"
  jl_f64 :: "f64 \<Rightarrow> 'n option"
  jl_as_f64 :: "'n \<Rightarrow> f64 option"
  jl_debug :: "'n json_value \<Rightarrow> rstring"
  jl_debug_error :: "bacnet_error \<Rightarrow> rstring"

definition json_float :: "'n option \<Rightarrow> 'n json_value" where
  "json_float x = (case x of None \<Rightarrow> J_Null | Some n \<Rightarrow> J_Number n)"

fun property_to_json :: "'n json_lib \<Rightarrow> property_value \<Rightarrow> 'n json_value" where
  "property_to_json jl PV_Null = J_Null"
| "property_to_json jl (PV_Boolean b) = J_Bool b"
| "property_to_json jl (PV_Unsigned n) = J_Number (jl_u32 jl n)"
| "property_to_json jl (PV_Integer n) = J_Number (jl_i32 jl n)"
| "property_to_json jl (PV_Real f) = json_float (jl_f32 jl f)"
| "property_to_json jl (PV_Double f) = json_float (jl_f64 jl f)"
| "property_to_json jl (PV_CharacterString s) = J_String s"
| "property_to_json jl (PV_Enumerated n) = J_Number (jl_u32 jl n)"
| "property_to_json jl (PV_ObjectId oid) =
     J_Object [(lit ''type'', J_String (ot_debug (oid_type oid))),
               (lit ''instance'', J_Number (jl_u32 jl (oid_instance oid)))]"
| "property_to_json jl (PV_Array arr) = J_Array (map (property_to_json jl) arr)"
| "property_to_json jl (PV_List lst) = J_Array (map (property_to_json jl) lst)"
| "property_to_json jl _ = J_String (lit ''<binary>'')"

definition json_to_property_value ::
    "'n json_lib \<Rightarrow> 'n json_value \<Rightarrow> property_identifier \<Rightarrow> rstring + property_value" where
  "json_to_property_value jl v hint =
     (case v of
        J_Null \<Rightarrow> Inr PV_Null
      | J_Bool b \<Rightarrow> Inr (PV_Boolean b)
      | J_Number n \<Rightarrow>
          (case jl_as_f64 jl n of
             Some f \<Rightarrow> Inr (PV_Real (f32_of_f64 f))
           | None \<Rightarrow> Inl (lit ''Expected numeric value''))
      | J_String s \<Rightarrow> Inr (PV_CharacterString s)
      | _ \<Rightarrow> Inl (lit ''Unsupported JSON value type: '' @ jl_debug jl v))"

subsection \<open>State and errors\<close>

record app_state =
  as_store :: store
  as_device_ids :: "u32 list"

definition app_state_new :: "store \<Rightarrow> app_state" where
  "app_state_new st = \<lparr>as_store = st, as_device_ids = []\<rparr>"

definition api_register_device :: "u32 \<Rightarrow> app_state \<Rightarrow> app_state" where
  "api_register_device i state =
     (if i \<in> set (as_device_ids state) then state
      else state\<lparr>as_device_ids := as_device_ids state @ [i]\<rparr>)"

datatype api_error = Api_Error (ae_status: nat) (ae_message: rstring)

type_synonym 'a ares = "('a, api_error) rres"

definition not_found :: "rstring \<Rightarrow> api_error" where
  "not_found msg = Api_Error 404 msg"

definition bad_request :: "rstring \<Rightarrow> api_error" where
  "bad_request msg = Api_Error 400 msg"

subsection \<open>Names in the path\<close>

definition path_name :: "(bytes \<Rightarrow> bytes) \<Rightarrow> rstring \<Rightarrow> rstring" where
  "path_name uni s = replace_chars [0x2D] (to_lowercase uni s)"

definition rest_object_type :: "(bytes \<Rightarrow> bytes) \<Rightarrow> rstring \<Rightarrow> object_type ares" where
  "rest_object_type uni s =
     (let t = path_name uni s in
      if t \<in> {lit ''analog_input'', lit ''analoginput''} then Ok OT_AnalogInput
      else if t \<in> {lit ''analog_output'', lit ''analogoutput''} then Ok OT_AnalogOutput
      else if t \<in> {lit ''analog_value'', lit ''analogvalue''} then Ok OT_AnalogValue
      else if t \<in> {lit ''binary_input'', lit ''binaryinput''} then Ok OT_BinaryInput
      else if t \<in> {lit ''binary_output'', lit ''binaryoutput''} then Ok OT_BinaryOutput
      else if t \<in> {lit ''binary_value'', lit ''binaryvalue''} then Ok OT_BinaryValue
      else if t = lit ''device'' then Ok OT_Device
      else if t \<in> {lit ''multi_state_input'', lit ''multistateinput''} then Ok OT_MultiStateInput
      else if t \<in> {lit ''multi_state_output'', lit ''multistateoutput''} then Ok OT_MultiStateOutput
      else if t \<in> {lit ''multi_state_value'', lit ''multistatevalue''} then Ok OT_MultiStateValue
      else if t \<in> {lit ''notification_class'', lit ''notificationclass''} then Ok OT_NotificationClass
      else if t = lit ''schedule'' then Ok OT_Schedule
      else if t \<in> {lit ''trend_log'', lit ''trendlog''} then Ok OT_TrendLog
      else Err (bad_request (lit ''Unknown object type: '' @ s)))"

definition rest_property_id :: "(bytes \<Rightarrow> bytes) \<Rightarrow> rstring \<Rightarrow> property_identifier ares" where
  "rest_property_id uni s =
     (let t = path_name uni s in
      if t \<in> {lit ''present_value'', lit ''presentvalue''} then Ok PID_PresentValue
      else if t \<in> {lit ''object_name'', lit ''objectname''} then Ok PID_ObjectName
      else if t = lit ''description'' then Ok PID_Description
      else if t \<in> {lit ''out_of_service'', lit ''outofservice''} then Ok PID_OutOfService
      else if t = lit ''units'' then Ok PID_Units
      else if t \<in> {lit ''status_flags'', lit ''statusflags''} then Ok PID_StatusFlags
      else Err (bad_request (lit ''Unknown property: '' @ s)))"

subsection \<open>Reading handlers\<close>

record health_response =
  hr_status :: rstring
  hr_version :: rstring
  hr_objects_total :: nat
  hr_devices_total :: nat

record device_list_item =
  dl_id :: u32
  dl_object_count :: nat

record object_list_item =
  ol_object_type :: rstring
  ol_instance :: u32

record 'n object_detail =
  od_object_type :: rstring
  od_instance :: u32
  od_properties :: "(rstring \<times> 'n json_value) list"

definition health :: "app_state \<Rightarrow> health_response" where
  "health state = \<lparr>hr_status = lit ''ok'', hr_version = cargo_pkg_version,
     hr_objects_total = store_count (as_store state), hr_devices_total = length (as_device_ids state)\<rparr>"

text \<open>A panic while an object is read is a panic of the handler; any other result than the one asked for is not.\<close>

definition count_objects_for_device :: "hash_fn \<Rightarrow> system_time \<Rightarrow> store \<Rightarrow> device_id \<Rightarrow> nat ares" where
  "count_objects_for_device fx sys st dev =
     (case store_get fx st dev \<lparr>oid_type = OT_Device, oid_instance = dev\<rparr> of
        None \<Rightarrow> Ok 0
      | Some ob \<Rightarrow>
          (case obj_read_property sys ob PID_ObjectList (Some 0) of
             Ok (PV_Unsigned n) \<Rightarrow> Ok (unat n)
           | Panic \<Rightarrow> Panic
           | _ \<Rightarrow> Ok 0))"

definition list_item :: "property_value \<Rightarrow> object_list_item option" where
  "list_item v =
     (case v of
        PV_ObjectId oid \<Rightarrow> Some \<lparr>ol_object_type = ot_debug (oid_type oid), ol_instance = oid_instance oid\<rparr>
      | _ \<Rightarrow> None)"

definition collect_objects :: "hash_fn \<Rightarrow> system_time \<Rightarrow> store \<Rightarrow> device_id \<Rightarrow> object_list_item list ares" where
  "collect_objects fx sys st dev =
     (case store_get fx st dev \<lparr>oid_type = OT_Device, oid_instance = dev\<rparr> of
        None \<Rightarrow> Ok []
      | Some ob \<Rightarrow>
          (case obj_read_property sys ob PID_ObjectList None of
             Ok (PV_Array vs) \<Rightarrow> Ok (List.map_filter list_item vs)
           | Panic \<Rightarrow> Panic
           | _ \<Rightarrow> Ok []))"

definition device_item :: "hash_fn \<Rightarrow> system_time \<Rightarrow> store \<Rightarrow> u32 \<Rightarrow> device_list_item ares" where
  "device_item fx sys st i =
     rbind (count_objects_for_device fx sys st i) (\<lambda>n. Ok \<lparr>dl_id = i, dl_object_count = n\<rparr>)"

text \<open>\<^verbatim>\<open>map\<close> and \<^verbatim>\<open>collect\<close> with a closure that can panic.\<close>

fun map_result :: "('a \<Rightarrow> ('b, 'e) rres) \<Rightarrow> 'a list \<Rightarrow> ('b list, 'e) rres" where
  "map_result f [] = Ok []"
| "map_result f (x # xs) = rbind (f x) (\<lambda>y. rbind (map_result f xs) (\<lambda>ys. Ok (y # ys)))"

definition list_devices :: "hash_fn \<Rightarrow> system_time \<Rightarrow> app_state \<Rightarrow> device_list_item list ares" where
  "list_devices fx sys state = map_result (device_item fx sys (as_store state)) (as_device_ids state)"

definition device_missing :: "u32 \<Rightarrow> api_error" where
  "device_missing i = not_found (lit ''Device '' @ decimal (unat i) @ lit '' not found'')"

definition get_device :: "hash_fn \<Rightarrow> system_time \<Rightarrow> app_state \<Rightarrow> u32 \<Rightarrow> device_list_item ares" where
  "get_device fx sys state i =
     (if i \<notin> set (as_device_ids state) then Err (device_missing i)
      else device_item fx sys (as_store state) i)"

definition list_objects :: "hash_fn \<Rightarrow> system_time \<Rightarrow> app_state \<Rightarrow> u32 \<Rightarrow> object_list_item list ares" where
  "list_objects fx sys state i =
     (if i \<notin> set (as_device_ids state) then Err (device_missing i)
      else collect_objects fx sys (as_store state) i)"

definition get_object ::
    "'n json_lib \<Rightarrow> hash_fn \<Rightarrow> (bytes \<Rightarrow> bytes) \<Rightarrow> app_state \<Rightarrow> u32 \<Rightarrow> rstring \<Rightarrow> u32 \<Rightarrow> 'n object_detail ares" where
  "get_object jl fx uni state dev_id obj_type inst =
     rbind (rest_object_type uni obj_type) (\<lambda>otype.
       case store_get fx (as_store state) dev_id \<lparr>oid_type = otype, oid_instance = inst\<rparr> of
         None \<Rightarrow> Err (not_found (lit ''Object '' @ obj_type @ lit ''/'' @ decimal (unat inst)
                  @ lit '' on device '' @ decimal (unat dev_id) @ lit '' not found''))
       | Some ob \<Rightarrow>
           Ok \<lparr>od_object_type = obj_type, od_instance = inst,
               od_properties = foldl (\<lambda>m (k, v). hm_insert (pid_debug k) (property_to_json jl v) m) []
                 (obj_all_properties ob)\<rparr>)"

subsection \<open>Writing\<close>

definition write_property ::
    "'n json_lib \<Rightarrow> hash_fn \<Rightarrow> (bytes \<Rightarrow> bytes) \<Rightarrow> system_time \<Rightarrow> instant \<Rightarrow> app_state \<Rightarrow>
     u32 \<Rightarrow> rstring \<Rightarrow> u32 \<Rightarrow> rstring \<Rightarrow> 'n json_value \<Rightarrow> nat ares \<times> app_state" where
  "write_property jl fx uni sys now state dev_id obj_type inst prop value =
     (case rest_object_type uni obj_type of
        Err e \<Rightarrow> (Err e, state)
      | Panic \<Rightarrow> (Panic, state)
      | Ok otype \<Rightarrow>
          (let oid = \<lparr>oid_type = otype, oid_instance = inst\<rparr> in
           case rest_property_id uni prop of
             Err e \<Rightarrow> (Err e, state)
           | Panic \<Rightarrow> (Panic, state)
           | Ok pid \<Rightarrow>
               (case store_get fx (as_store state) dev_id oid of
                  None \<Rightarrow> (Err (not_found (lit ''Object not found'')), state)
                | Some _ \<Rightarrow>
                    (case json_to_property_value jl value pid of
                       Inl e \<Rightarrow> (Err (bad_request e), state)
                     | Inr pv \<Rightarrow>
                         (case store_force_write fx sys now (as_store state) dev_id oid pid pv of
                            (Ok (), st) \<Rightarrow> (Ok 204, state\<lparr>as_store := st\<rparr>)
                          | (Err e, st) \<Rightarrow> (Err (bad_request (jl_debug_error jl e)), state\<lparr>as_store := st\<rparr>)
                          | (Panic, st) \<Rightarrow> (Panic, state\<lparr>as_store := st\<rparr>))))))"

text \<open>
  A scenario is only checked to be there (\<open>metadata\<close> is the file system's error text, if it has
  one) and acknowledged.
\<close>

definition load_scenario :: "(rstring \<Rightarrow> rstring option) \<Rightarrow> rstring \<Rightarrow> 'n json_value ares" where
  "load_scenario metadata path =
     (case metadata path of
        Some e \<Rightarrow> Err (bad_request (lit ''Cannot access '' @ path @ lit '': '' @ e))
      | None \<Rightarrow> Ok (J_Object [(lit ''status'', J_String (lit ''accepted'')), (lit ''path'', J_String path)]))"

definition stop_scenario :: "'n json_value" where
  "stop_scenario = J_Object [(lit ''status'', J_String (lit ''stopped''))]"

subsection \<open>The routes\<close>

datatype 'n api_request =
    Get_Health
  | Get_Devices
  | Get_Device u32
  | Get_Objects u32
  | Get_Object u32 rstring u32
  | Put_Property u32 rstring u32 rstring "'n json_value"
  | Post_Load rstring
  | Post_Stop

datatype 'n api_response =
    R_Health health_response
  | R_Devices "device_list_item list"
  | R_Device device_list_item
  | R_Objects "object_list_item list"
  | R_Object "'n object_detail"
  | R_Status nat
  | R_Json "'n json_value"

definition api_serve ::
    "'n json_lib \<Rightarrow> hash_fn \<Rightarrow> (bytes \<Rightarrow> bytes) \<Rightarrow> (rstring \<Rightarrow> rstring option) \<Rightarrow> system_time \<Rightarrow> instant \<Rightarrow>
     'n api_request \<Rightarrow> app_state \<Rightarrow> 'n api_response ares \<times> app_state" where
  "api_serve jl fx uni metadata sys now req state =
     (case req of
        Get_Health \<Rightarrow> (Ok (R_Health (health state)), state)
      | Get_Devices \<Rightarrow> (rbind (list_devices fx sys state) (\<lambda>x. Ok (R_Devices x)), state)
      | Get_Device i \<Rightarrow> (rbind (get_device fx sys state i) (\<lambda>x. Ok (R_Device x)), state)
      | Get_Objects i \<Rightarrow> (rbind (list_objects fx sys state i) (\<lambda>x. Ok (R_Objects x)), state)
      | Get_Object d t i \<Rightarrow> (rbind (get_object jl fx uni state d t i) (\<lambda>x. Ok (R_Object x)), state)
      | Put_Property d t i p v \<Rightarrow>
          apfst (\<lambda>r. rbind r (\<lambda>x. Ok (R_Status x))) (write_property jl fx uni sys now state d t i p v)
      | Post_Load path \<Rightarrow> (rbind (load_scenario metadata path) (\<lambda>x. Ok (R_Json x)), state)
      | Post_Stop \<Rightarrow> (Ok (R_Json stop_scenario), state))"

subsection \<open>The forced write of the store\<close>

lemma hm_insert_same: "map_of m k = Some v \<Longrightarrow> hm_insert k v m = m"
  by (induction m) (auto split: if_splits)

lemma store_modify_same:
  assumes "store_get fx st dev oid = Some ob" and "snd (f ob) = ob"
  shows "snd (store_modify fx st dev oid f) = st"
  using assms hm_insert_same [of "st ! shard_index fx (obj_key dev oid)" "obj_key dev oid" ob]
  by (simp add: store_modify_def store_get_def shard_key_def case_prod_unfold Let_def)

text \<open>The outcome of a forced write on an object that is there.\<close>

lemma store_force_write_outcome:
  assumes "store_ok fx st" and "store_get fx st dev oid = Some ob"
    and "store_force_write fx sys now st dev oid pid v = (r, st')"
  shows "r \<noteq> Panic" "r \<noteq> Ok () \<Longrightarrow> st' = st" "store_ok fx st'" "r = fst (obj_force_write sys now ob pid v)"
proof -
  have ok: "obj_ok ob" by (rule store_get_shard(2) [OF assms(1,2)])
  have w: "store_modify fx st dev oid (\<lambda>ob. obj_force_write sys now ob pid v) = (r, st')"
    using assms(3) by (simp add: store_force_write_def)
  show r: "r = fst (obj_force_write sys now ob pid v)"
    using objstore.modify_result [OF assms(2), of "\<lambda>ob. obj_force_write sys now ob pid v"] w by simp
  show "r \<noteq> Panic" using objects.force_no_panic [OF ok, of sys now pid v] r by (simp add: obj_force_write_def)
  show "store_ok fx st'"
    using store_modify_ok [OF assms(1), of "\<lambda>ob. obj_force_write sys now ob pid v" dev oid] w
      objects.force_ok objects.force_oid by (simp add: obj_force_write_def)
  show "st' = st" if "r \<noteq> Ok ()"
  proof -
    have "snd (obj_force_write sys now ob pid v) = ob"
      using objects.force_err_unchanged [OF ok, of sys now pid v] that r by (simp add: obj_force_write_def)
    with store_modify_same [OF assms(2), of "\<lambda>ob. obj_force_write sys now ob pid v"] w show ?thesis by simp
  qed
qed

text \<open>The objects of a well-formed store are read without a panic.\<close>

lemma stored_read_no_panic:
  "store_ok fx st \<Longrightarrow> store_get fx st dev oid = Some ob \<Longrightarrow> obj_read_property sys ob pid i \<noteq> Panic"
  by (rule objects.rd_no_panic [OF store_get_shard(2)])

lemma device_item_no_panic: "store_ok fx st \<Longrightarrow> device_item fx sys st i \<noteq> Panic"
  using stored_read_no_panic [of fx st i "\<lparr>oid_type = OT_Device, oid_instance = i\<rparr>" _ sys PID_ObjectList "Some 0"]
  by (auto simp: device_item_def count_objects_for_device_def rbind_eq_Panic
      split: option.splits rres.splits property_value.splits)

lemma collect_objects_no_panic: "store_ok fx st \<Longrightarrow> collect_objects fx sys st i \<noteq> Panic"
  using stored_read_no_panic [of fx st i "\<lparr>oid_type = OT_Device, oid_instance = i\<rparr>" _ sys PID_ObjectList None]
  by (auto simp: collect_objects_def split: option.splits rres.splits property_value.splits)

lemma map_result_no_panic: "\<forall>x \<in> set xs. f x \<noteq> Panic \<Longrightarrow> map_result f xs \<noteq> Panic"
  by (induction xs) (simp_all add: rbind_eq_Panic)

lemmas reading_no_panic = device_item_no_panic collect_objects_no_panic map_result_no_panic

text \<open>
  The names under which \<open>get_object\<close> shows the properties of an object are all different, so none
  hides another: the response is the list of the properties, whatever the order of its hash map.
\<close>

definition listed_pids :: "property_identifier list" where
  "listed_pids =
     [PID_ApduTimeout, PID_BufferSize, PID_CovIncrement, PID_DatabaseRevision,
      PID_Description, PID_Enable, PID_EventState, PID_FirmwareRevision, PID_HighLimit,
      PID_LogInterval, PID_LowLimit, PID_MaxApduLengthAccepted, PID_ModelName,
      PID_NotificationClass, PID_NumberOfApduRetries, PID_NumberOfStates,
      PID_ObjectIdentifier, PID_ObjectList, PID_ObjectName, PID_ObjectType, PID_OutOfService,
      PID_PresentValue, PID_ProtocolObjectTypesSupported, PID_ProtocolRevision,
      PID_ProtocolServicesSupported, PID_ProtocolVersion, PID_RecordCount, PID_Reliability,
      PID_RelinquishDefault, PID_ScheduleDefault, PID_SegmentationSupported, PID_StatusFlags,
      PID_StopWhenFull, PID_SystemStatus, PID_TotalRecordCount, PID_Units,
      PID_VendorIdentifier, PID_VendorName]"

lemma listed_names: "distinct (map pid_debug listed_pids)"
  by (simp add: listed_pids_def lit_eq)

lemma all_properties_listed: "fst ` set (obj_all_properties ob) \<subseteq> set listed_pids"
  by (cases ob)
    (auto simp: ai_all_properties_def ao_all_properties_def av_all_properties_def bi_all_properties_def
      bo_all_properties_def bv_all_properties_def msi_all_properties_def nc_all_properties_def
      tl_all_properties_def sch_all_properties_def dev_all_properties_def listed_pids_def split: option.splits)

lemma property_names_distinct: "distinct (map (\<lambda>e. pid_debug (fst e)) (obj_all_properties ob))"
proof -
  have "inj_on pid_debug (fst ` set (obj_all_properties ob))"
    using listed_names all_properties_listed by (auto simp: distinct_map intro: inj_on_subset)
  then have "distinct (map pid_debug (map fst (obj_all_properties ob)))"
    using objects.all_distinct [of ob] by (subst distinct_map) simp
  then show ?thesis by (simp add: comp_def)
qed

lemma map_of_foldl_insert:
  assumes "distinct (map (\<lambda>e. f (fst e)) xs)"
  shows "map_of (foldl (\<lambda>m (k, v). hm_insert (f k) (g v) m) [] xs) = map_of (map (\<lambda>(k, v). (f k, g v)) xs)"
  using assms
proof (induction xs rule: rev_induct)
  case (snoc x xs)
  obtain k v where x: "x = (k, v)" by (cases x)
  have "f k \<notin> fst ` set (map (\<lambda>(k, v). (f k, g v)) xs)" using snoc.prems by (auto simp: x image_iff)
  then have "map_of (map (\<lambda>(k, v). (f k, g v)) xs) (f k) = None" by (simp only: map_of_eq_None_iff not_False_eq_True)
  with snoc show ?case by (auto simp: x fun_eq_iff map_add_def split: option.split)
qed simp

lemma get_object_shows:
  assumes "rest_object_type uni t = Ok (oid_type oid)" and "store_get fx (as_store state) dev oid = Some ob"
  shows "\<exists>od. get_object jl fx uni state dev t (oid_instance oid) = Ok od \<and>
    od_object_type od = t \<and> od_instance od = oid_instance oid \<and>
    map_of (od_properties od) =
      map_of (map (\<lambda>(pid, v). (pid_debug pid, property_to_json jl v)) (obj_all_properties ob))"
proof -
  have "\<lparr>oid_type = oid_type oid, oid_instance = oid_instance oid\<rparr> = oid" by simp
  with assms map_of_foldl_insert [OF property_names_distinct] show ?thesis
    by (simp only: get_object_def rbind.simps option.case rres.inject ex_simps object_detail.select_convs) simp
qed

lemma rest_object_type_no_panic: "rest_object_type uni s \<noteq> Panic"
  by (simp add: rest_object_type_def Let_def)

lemma rest_property_id_no_panic: "rest_property_id uni s \<noteq> Panic"
  by (simp add: rest_property_id_def Let_def)

lemma write_property_outcome:
  assumes "store_ok fx (as_store state)"
    and "write_property jl fx uni sys now state d t i p v = (r, state')"
  shows "r \<noteq> Panic \<and> store_ok fx (as_store state') \<and> as_device_ids state' = as_device_ids state \<and>
    (r = Ok 204 \<or> state' = state)"
proof (cases "rest_object_type uni t")
  case (Ok otype)
  let ?oid = "\<lparr>oid_type = otype, oid_instance = i\<rparr>"
  show ?thesis
  proof (cases "rest_property_id uni p")
    case ok: (Ok pid)
    show ?thesis
    proof (cases "store_get fx (as_store state) d ?oid")
      case (Some ob)
      show ?thesis
      proof (cases "json_to_property_value jl v pid")
        case (Inr pv)
        obtain w st where w: "store_force_write fx sys now (as_store state) d ?oid pid pv = (w, st)"
          by (cases "store_force_write fx sys now (as_store state) d ?oid pid pv")
        note out = store_force_write_outcome(1-3) [OF assms(1) Some w]
        have "(r, state') = (case w of Ok () \<Rightarrow> (Ok 204, state\<lparr>as_store := st\<rparr>)
            | Err e \<Rightarrow> (Err (bad_request (jl_debug_error jl e)), state\<lparr>as_store := st\<rparr>)
            | Panic \<Rightarrow> (Panic, state\<lparr>as_store := st\<rparr>))"
          using assms(2) by (simp add: write_property_def Ok ok Some Inr w Let_def)
        with out show ?thesis by (cases w) (simp_all add: case_unit_Unity)
      qed (use assms Ok ok Some in \<open>auto simp: write_property_def Let_def\<close>)
    qed (use assms Ok ok in \<open>auto simp: write_property_def Let_def\<close>)
  qed (use assms Ok rest_property_id_no_panic in \<open>auto simp: write_property_def Let_def\<close>)
qed (use assms rest_object_type_no_panic in \<open>auto simp: write_property_def\<close>)

text \<open>
  The instance in a path is any \<^verbatim>\<open>u32\<close>, but the store's keys keep the type above bit 22: past that an
  address names an object of another type.
\<close>

lemma path_instance_aliases:
  "store_get fx st dev \<lparr>oid_type = OT_AnalogInput, oid_instance = 0x400005\<rparr> =
    store_get fx st dev \<lparr>oid_type = OT_AnalogOutput, oid_instance = 5\<rparr>"
proof -
  have "obj_key dev \<lparr>oid_type = OT_AnalogInput, oid_instance = 0x400005\<rparr> =
      obj_key dev \<lparr>oid_type = OT_AnalogOutput, oid_instance = 5\<rparr>"
    unfolding obj_key_def by code_simp
  then show ?thesis by (simp add: store_get_def shard_key_def)
qed

definition example_json_lib :: "f64 json_lib" where
  "example_json_lib = \<lparr>jl_u32 = (\<lambda>n. ucast n), jl_i32 = (\<lambda>n. ucast n), jl_f32 = (\<lambda>f. None), jl_f64 = Some,
     jl_as_f64 = Some, jl_debug = (\<lambda>v. []), jl_debug_error = (\<lambda>e. [])\<rparr>"

definition example_app :: app_state where
  "example_app = api_register_device 7 (app_state_new
     (store_insert (\<lambda>a b. 0) 7 (Obj_MultiStateInput (msi_new 0 7 1 (lit ''Mode'') 3)) store_new))"

lemma example_app_ok: "store_ok (\<lambda>a b. 0) (as_store example_app)"
  by (simp add: example_app_def api_register_device_def app_state_new_def store_insert_ok store_new_ok msi_new_ok)

lemma example_app_get:
  "store_get (\<lambda>a b. 0) (as_store example_app) 7 \<lparr>oid_type = OT_MultiStateInput, oid_instance = 1\<rparr> =
    Some (Obj_MultiStateInput (msi_new 0 7 1 (lit ''Mode'') 3))"
  using objstore.get_ins [OF store_new_ok, of "Obj_MultiStateInput (msi_new 0 7 1 (lit ''Mode'') 3)"
      "\<lparr>oid_type = OT_MultiStateInput, oid_instance = 1\<rparr>" "\<lambda>a b. 0" 7 7]
  by (simp add: example_app_def api_register_device_def app_state_new_def msi_new_def oid_ok_def)

subsection \<open>Properties\<close>

text \<open>
  Every request to the management API is answered without a panic and leaves the store
  consistent and the device list as it was; only a PUT answered 204 changes anything: every other
  request, and every PUT that is refused, leaves the state exactly as it was.
\<close>

theorem api_requests_safe:
  assumes "store_ok fx (as_store state)"
    and "api_serve jl fx uni metadata sys now req state = (r, state')"
  shows "r \<noteq> Panic \<and> store_ok fx (as_store state') \<and> as_device_ids state' = as_device_ids state \<and>
    (state' = state \<or> (\<exists>d t i p v. req = Put_Property d t i p v) \<and> r = Ok (R_Status 204))"
proof (cases req)
  case (Put_Property d t i p v)
  obtain w state1 where w: "write_property jl fx uni sys now state d t i p v = (w, state1)"
    by (cases "write_property jl fx uni sys now state d t i p v")
  from write_property_outcome [OF assms(1) w] assms(2) show ?thesis
    by (cases w) (auto simp: api_serve_def Put_Property w)
next
  case (Get_Object d t i)
  with assms show ?thesis
    using rest_object_type_no_panic
    by (auto simp: api_serve_def get_object_def rbind_eq_Panic split: option.splits)
qed (use assms in \<open>auto simp: api_serve_def get_device_def list_devices_def list_objects_def load_scenario_def
      reading_no_panic rbind_eq_Panic split: option.splits if_splits\<close>)

theorem api_requests_safe_witness:
  "fst (api_serve example_json_lib (\<lambda>a b. 0) (\<lambda>s. s) (\<lambda>path. None) 0 5
     (Put_Property 7 (lit ''multi-state-input'') 1 (lit ''out-of-service'') (J_Bool True)) example_app) \<noteq> Panic"
  using api_requests_safe [OF example_app_ok prod.collapse [symmetric]] by blast

text \<open>
  Over the management API the present value of a multi-state object cannot be set: whatever
  JSON value is sent, the answer is not 204 and nothing changes, because a JSON number always
  becomes a Real and the object takes an Unsigned.
\<close>

theorem rest_cannot_set_multi_state:
  assumes "store_ok fx (as_store state)"
    and "store_get fx (as_store state) d \<lparr>oid_type = OT_MultiStateInput, oid_instance = i\<rparr> = Some (Obj_MultiStateInput x)"
    and "rest_object_type uni t = Ok OT_MultiStateInput" and "rest_property_id uni p = Ok PID_PresentValue"
  shows "\<exists>msg. write_property jl fx uni sys now state d t i p v = (Err (bad_request msg), state)"
proof (cases "json_to_property_value jl v PID_PresentValue")
  case (Inl e)
  with assms have "write_property jl fx uni sys now state d t i p v = (Err (bad_request e), state)"
    by (simp add: write_property_def Let_def)
  then show ?thesis by blast
next
  case (Inr pv)
  let ?oid = "\<lparr>oid_type = OT_MultiStateInput, oid_instance = i\<rparr>"
  obtain r st where w: "store_force_write fx sys now (as_store state) d ?oid PID_PresentValue pv = (r, st)"
    by (cases "store_force_write fx sys now (as_store state) d ?oid PID_PresentValue pv")
  have "unsigned_of pv = None"
    using Inr by (auto simp: json_to_property_value_def unsigned_of_def split: json_value.splits option.splits)
  then have "fst (obj_force_write sys now (Obj_MultiStateInput x) PID_PresentValue pv) \<noteq> Ok ()"
    by (auto simp: obj_force_write_def force_write_property_def msi_write_property_def msi_read_property_def Let_def boolean_of_def)
  then have "r \<noteq> Ok ()" unfolding store_force_write_outcome(4) [OF assms(1,2) w] .
  with store_force_write_outcome(1,2) [OF assms(1,2) w] obtain e where "r = Err e" "st = as_store state"
    by (cases r) simp_all
  with assms Inr w have
    "write_property jl fx uni sys now state d t i p v = (Err (bad_request (jl_debug_error jl e)), state)"
    by (simp add: write_property_def Let_def)
  then show ?thesis by blast
qed

theorem rest_cannot_set_multi_state_witness:
  "\<exists>msg. write_property example_json_lib (\<lambda>a b. 0) (\<lambda>s. s) 0 5 example_app 7 (lit ''multi-state-input'') 1
     (lit ''present-value'') (J_Number 0x4000000000000000) = (Err (bad_request msg), example_app)"
proof -
  have "rest_object_type (\<lambda>s. s) (lit ''multi-state-input'') = Ok OT_MultiStateInput"
      "rest_property_id (\<lambda>s. s) (lit ''present-value'') = Ok PID_PresentValue"
    by (simp_all add: rest_object_type_def rest_property_id_def path_name_def replace_chars_def
        to_lowercase_def ascii_lower_def lit_simps)
  from rest_cannot_set_multi_state [OF example_app_ok example_app_get this] show ?thesis .
qed

end
