(* ===== verification/Startup.thy ===== *)
theory Startup
  imports Simulation_Builder Rest_Api
begin

text \<open>
  \<^verbatim>\<open>crates/bacnet-sim/src/main.rs\<close>: how the program is put together before its tasks run, in
  configured and in demo mode: the store, the dispatcher, the engine and the state of the management
  API.  What is read from the environment is in \<open>Main_Program\<close>.
\<close>

subsection \<open>The configuration file\<close>

text \<open>
  \<^verbatim>\<open>args().skip(1)\<close> is the list, \<open>None\<close> an argument that is not Unicode, on which \<^verbatim>\<open>next\<close> of
  \<^verbatim>\<open>std::env::Args\<close> panics; \<^verbatim>\<open>--config=\<close> has nine bytes.
\<close>

fun next_arg :: "rstring option list \<Rightarrow> (rstring option, 'e) rres" where
  "next_arg [] = Ok None"
| "next_arg (None # args) = Panic"
| "next_arg (Some arg # args) = Ok (Some arg)"

fun parse_config_arg :: "rstring option list \<Rightarrow> (rstring option, 'e) rres" where
  "parse_config_arg [] = Ok None"
| "parse_config_arg (None # args) = Panic"
| "parse_config_arg (Some arg # args) =
     (if arg = lit ''--config'' then next_arg args
      else if take 9 arg = lit ''--config='' then Ok (Some (drop 9 arg))
      else parse_config_arg args)"

definition config_path :: "rstring option list \<Rightarrow> rstring option \<Rightarrow> (rstring option, 'e) rres" where
  "config_path args env =
     rbind (parse_config_arg args) (\<lambda>arg. Ok
       (case arg of
          Some path \<Rightarrow> Some path
        | None \<Rightarrow> (case env of Some s \<Rightarrow> if s \<noteq> [] then Some s else None | None \<Rightarrow> None)))"

lemma parse_config_arg_result:
  "(parse_config_arg args :: (rstring option, 'e) rres) \<noteq> Err e \<and>
   ((parse_config_arg args :: (rstring option, 'e) rres) = Panic \<longrightarrow> None \<in> set args)"
proof (induction args rule: parse_config_arg.induct)
  case (3 arg args)
  then show ?case by (cases args rule: next_arg.cases) auto
qed simp_all

lemma config_path_result:
  "(config_path args env :: (rstring option, 'e) rres) \<noteq> Err e \<and>
   ((config_path args env :: (rstring option, 'e) rres) = Panic \<longrightarrow> None \<in> set args)"
  using parse_config_arg_result [of args e]
  by (cases "parse_config_arg args :: (rstring option, 'e) rres") (auto simp: config_path_def)

subsection \<open>Configured mode\<close>

type_synonym 'g simulator = "'g sim_engine \<times> dispatcher \<times> app_state"

definition register_groups :: "device_group_config list \<Rightarrow> app_state \<Rightarrow> app_state" where
  "register_groups groups state =
     foldl (\<lambda>state g. foldl (\<lambda>state i. api_register_device i state) state
       (u32_range (fst (dg_id_range g)) (snd (dg_id_range g)))) state groups"

definition start_configured :: "hash_fn \<Rightarrow> (bytes \<Rightarrow> bytes) \<Rightarrow> instant \<Rightarrow> simulator_config \<Rightarrow> 'g simulator" where
  "start_configured fx uni now config =
     (let api_state = register_groups (sc_devices config) (app_state_new store_new);
          (eng, dispatcher) = build_simulation fx uni now config (dispatcher_new store_new)
      in (eng, dispatcher, api_state\<lparr>as_store := dp_store dispatcher\<rparr>))"

subsection \<open>Demo mode\<close>

text \<open>\<^verbatim>\<open>format!("AI-{i:02}")\<close>.\<close>

definition demo_name :: "rstring \<Rightarrow> u32 \<Rightarrow> rstring" where
  "demo_name prefix i = (let ds = decimal (unat i) in prefix @ replicate (2 - length ds) 0x30 @ ds)"

definition demo_device :: "u32 \<Rightarrow> device_object" where
  "demo_device demo_device_id =
     (let device_obj = dev_new demo_device_id (lit ''bacnet-sim-device'')
      in device_obj\<lparr>dev_object_list := dev_object_list device_obj
           @ map (\<lambda>i. \<lparr>oid_type = OT_AnalogInput, oid_instance = i\<rparr>) (u32_range 1 8)
           @ map (\<lambda>i. \<lparr>oid_type = OT_BinaryInput, oid_instance = i\<rparr>) (u32_range 1 4)\<rparr>)"

definition demo_store :: "hash_fn \<Rightarrow> instant \<Rightarrow> u32 \<Rightarrow> store" where
  "demo_store fx now device_id =
     (let st = store_insert fx device_id (Obj_Device (demo_device device_id)) store_new;
          st = foldl (\<lambda>st i. store_insert fx device_id
                 (Obj_AnalogInput (ai_new now device_id i (demo_name (lit ''AI-'') i) EU_DegreesCelsius)) st) st (u32_range 1 8)
      in foldl (\<lambda>st i. store_insert fx device_id
                 (Obj_BinaryInput (bi_new now device_id i (demo_name (lit ''BI-'') i))) st) st (u32_range 1 4))"

definition start_demo :: "hash_fn \<Rightarrow> instant \<Rightarrow> u32 \<Rightarrow> f64 \<Rightarrow> 'g simulator" where
  "start_demo fx now demo_device_id demo_tick_hz =
     (let st = demo_store fx now demo_device_id
      in (sim_engine_new st demo_tick_hz now,
          register_device (device_info_new demo_device_id) (dispatcher_new st),
          api_register_device demo_device_id (app_state_new st)))"

subsection \<open>What demo mode inserts\<close>

definition demo_batch :: "instant \<Rightarrow> u32 \<Rightarrow> batch" where
  "demo_batch now d =
     (d, Obj_Device (demo_device d)) #
     map (\<lambda>i. (d, Obj_AnalogInput (ai_new now d i (demo_name (lit ''AI-'') i) EU_DegreesCelsius))) (u32_range 1 8) @
     map (\<lambda>i. (d, Obj_BinaryInput (bi_new now d i (demo_name (lit ''BI-'') i)))) (u32_range 1 4)"

lemma foldl_insert_map:
  "foldl (\<lambda>st i. store_insert fx d (f i) st) st xs = store_insert_all fx (map (\<lambda>i. (d, f i)) xs) st"
  by (induction xs arbitrary: st) (simp_all add: store_insert_all_def)

lemma demo_store_eq: "demo_store fx now d = store_insert_all fx (demo_batch now d) store_new"
  by (simp add: demo_store_def demo_batch_def foldl_insert_map) (simp add: store_insert_all_def)

lemma demo_device_oid [simp]: "obj_object_id (Obj_Device (demo_device d)) = device_oid d"
  by (simp add: demo_device_def Let_def dev_object_id_def dev_new_def)

lemma demo_batch_ids:
  "map (\<lambda>(d, ob). obj_object_id ob) (demo_batch now d) = dev_object_list (demo_device d)"
  by (simp add: demo_batch_def demo_device_def new_object_ids comp_def Let_def dev_new_def del: obj_object_id.simps)
    (simp add: dev_object_id_def)

lemma demo_batch_fst: "(e, ob) \<in> set (demo_batch now d) \<Longrightarrow> e = d"
  by (auto simp: demo_batch_def)

lemma demo_batch_ok: "(e, ob) \<in> set (demo_batch now d) \<Longrightarrow> obj_ok ob"
  by (auto simp: demo_batch_def)

lemma demo_object_list:
  "oid \<in> set (dev_object_list (demo_device d)) \<longleftrightarrow> (\<exists>ob. (d, ob) \<in> set (demo_batch now d) \<and> obj_object_id ob = oid)"
proof
  assume "oid \<in> set (dev_object_list (demo_device d))"
  then obtain e ob where p: "(e, ob) \<in> set (demo_batch now d)" "oid = obj_object_id ob"
    unfolding demo_batch_ids [of now d, symmetric] by (auto simp del: obj_object_id.simps)
  then have "(d, ob) \<in> set (demo_batch now d)" using demo_batch_fst [OF p(1)] by simp
  with p(2) show "\<exists>ob. (d, ob) \<in> set (demo_batch now d) \<and> obj_object_id ob = oid" by blast
next
  assume "\<exists>ob. (d, ob) \<in> set (demo_batch now d) \<and> obj_object_id ob = oid"
  then show "oid \<in> set (dev_object_list (demo_device d))"
    unfolding demo_batch_ids [of now d, symmetric] by force
qed

lemma demo_object_list_ok:
  assumes "d < 2 ^ 22"
  shows "\<forall>oid \<in> set (dev_object_list (demo_device d)). oid_ok oid"
    and "distinct (dev_object_list (demo_device d))" and "length (dev_object_list (demo_device d)) = 13"
  using assms by (simp_all add: demo_device_def Let_def dev_new_def device_oid_def oid_ok_def u32_range_def upt_rec)

text \<open>Inserting objects that are new and different from each other counts them all.\<close>

lemma count_insert_all:
  assumes "store_ok fx st" and "\<forall>(d, ob) \<in> set b. obj_ok ob \<and> oid_ok (obj_object_id ob)"
    and "distinct (map (\<lambda>(d, ob). (d, obj_object_id ob)) b)"
    and "\<forall>(d, ob) \<in> set b. store_get fx st d (obj_object_id ob) = None"
  shows "store_count (store_insert_all fx b st) = store_count st + length b"
  using assms(2-4)
proof (induction b rule: rev_induct)
  case (snoc p b)
  obtain d ob where p: "p = (d, ob)" by (cases p)
  have ok: "store_ok fx (store_insert_all fx b st)"
    using snoc.prems(1) by (intro store_insert_all_ok assms(1)) auto
  have "find (\<lambda>(e, x). e = d \<and> obj_object_id x = obj_object_id ob) (rev b) = None"
    using snoc.prems(2) by (auto simp: p find_None_iff image_iff)
  then have "store_get fx (store_insert_all fx b st) d (obj_object_id ob) = None"
    using get_insert_all [OF assms(1), of b "obj_object_id ob" d] snoc.prems(1,3) by (simp add: p)
  then show ?case
    using store_count_insert [OF ok, of d ob] snoc by (simp add: p store_insert_all_def)
qed (simp add: store_insert_all_def)

lemma demo_get:
  assumes "d < 2 ^ 22" and "oid_ok oid"
  shows "store_get fx (demo_store fx now d) d oid \<noteq> None \<longleftrightarrow> oid \<in> set (dev_object_list (demo_device d))"
    and "store_get fx (demo_store fx now d) d (device_oid d) = Some (Obj_Device (demo_device d))"
proof -
  have ok: "\<forall>(e, ob) \<in> set (demo_batch now d). obj_ok ob \<and> oid_ok (obj_object_id ob)"
    using demo_batch_ok demo_batch_fst demo_object_list demo_object_list_ok(1) [OF assms(1)] by blast
  note get = get_insert_all [OF store_new_ok ok, folded demo_store_eq]
  show "store_get fx (demo_store fx now d) d oid \<noteq> None \<longleftrightarrow> oid \<in> set (dev_object_list (demo_device d))"
    unfolding get [OF assms(2)] demo_object_list [of oid d now]
    by (auto simp: find_None_iff split: option.split dest!: find_SomeD)
  let ?f = "find (\<lambda>(e, ob). e = d \<and> obj_object_id ob = device_oid d) (rev (demo_batch now d))"
  have "(d, Obj_Device (demo_device d)) \<in> set (demo_batch now d)" by (simp add: demo_batch_def)
  then obtain e ob where f: "?f = Some (e, ob)" using demo_device_oid [of d]
    by (cases ?f) (auto simp: find_None_iff simp del: obj_object_id.simps demo_device_oid)
  then have "(e, ob) \<in> set (demo_batch now d)" "obj_object_id ob = device_oid d"
    using find_SomeD [OF f] by auto
  then have "ob = Obj_Device (demo_device d)"
    by (auto simp: demo_batch_def new_object_ids device_oid_def simp del: obj_object_id.simps)
  with f show "store_get fx (demo_store fx now d) d (device_oid d) = Some (Obj_Device (demo_device d))"
    using get [of "device_oid d" fx d] assms(1) by (simp add: oid_ok_def device_oid_def)
qed

lemma demo_store_ok: "store_ok fx (demo_store fx now d)"
  unfolding demo_store_eq using demo_batch_ok by (intro store_insert_all_ok store_new_ok) auto

lemma store_count_new: "store_count store_new = 0"
  by (simp add: store_count_def store_new_def sum_list_replicate)

lemma demo_count:
  assumes "d < 2 ^ 22"
  shows "store_count (demo_store fx now d) = 13"
proof -
  have ok: "\<forall>(e, ob) \<in> set (demo_batch now d). obj_ok ob \<and> oid_ok (obj_object_id ob)"
    using demo_batch_ok demo_batch_fst demo_object_list demo_object_list_ok(1) [OF assms] by blast
  have "distinct (map (\<lambda>(e, ob). obj_object_id ob) (demo_batch now d))" "length (demo_batch now d) = 13"
    using demo_object_list_ok(2,3) [OF assms] unfolding demo_batch_ids [of now d, symmetric] by simp_all
  then show ?thesis
    unfolding demo_store_eq using count_insert_all [OF store_new_ok ok, of fx] store_count_new
    by (simp add: distinct_map inj_on_def split_beta)
qed

subsection \<open>Properties\<close>

text \<open>
  Demo mode starts a consistent simulator of one device and thirteen objects: the engine, the
  dispatcher and the management API share one store, which satisfies its invariant; the device is
  registered with the dispatcher and the API; the API counts thirteen objects, as many as the
  store holds; and the store has an object under an identifier exactly if the device lists it.
\<close>

theorem demo_mode_consistent:
  assumes "device_id < 2 ^ 22" and "start_demo fx now device_id hz = (eng, d, api)"
  shows "dispatcher_ok fx d \<and> se_store eng = dp_store d \<and> as_store api = dp_store d \<and>
    registered d device_id \<and> store_count (dp_store d) = 13 \<and>
    get_device fx sys api device_id = Ok \<lparr>dl_id = device_id, dl_object_count = 13\<rparr> \<and>
    (\<forall>oid. oid_ok oid \<longrightarrow> (store_get fx (dp_store d) device_id oid \<noteq> None \<longleftrightarrow>
      oid \<in> set (dev_object_list (demo_device device_id))))"
proof -
  let ?st = "demo_store fx now device_id"
  have eqs: "eng = sim_engine_new ?st hz now" "d = register_device (device_info_new device_id) (dispatcher_new ?st)"
      "api = api_register_device device_id (app_state_new ?st)"
    using assms(2) by (simp_all add: start_demo_def Let_def)
  have stores: "se_store eng = ?st" "dp_store d = ?st" "as_store api = ?st" "as_device_ids api = [device_id]"
    by (simp_all add: eqs sim_engine_new_def register_device_def dispatcher_new_def api_register_device_def app_state_new_def)
  have "dispatcher_ok fx d" unfolding eqs(2) by (intro register_device_ok dispatcher_new_ok demo_store_ok)
  moreover have "registered d device_id"
    by (simp add: eqs(2) registered_def register_device_def device_info_new_def)
  moreover have "count_objects_for_device fx sys ?st device_id = Ok 13"
    using demo_get(2) [OF assms(1), of "device_oid device_id" fx now] demo_object_list_ok(3) [OF assms(1)] assms(1)
    by (simp add: count_objects_for_device_def device_oid_def oid_ok_def dev_read_property_def read_array_def)
  ultimately show ?thesis
    using demo_count [OF assms(1)] demo_get(1) [OF assms(1)] by (simp add: stores get_device_def device_item_def)
qed

theorem demo_mode_consistent_witness:
  "store_count (dp_store (fst (snd (start_demo (\<lambda>a b. 0) 5 1234 0x3FF0000000000000 :: nat simulator)))) = 13"
proof -
  have "start_demo (\<lambda>a b. 0) 5 1234 0x3FF0000000000000 =
      (fst (start_demo (\<lambda>a b. 0) 5 1234 0x3FF0000000000000 :: nat simulator),
       fst (snd (start_demo (\<lambda>a b. 0) 5 1234 0x3FF0000000000000 :: nat simulator)),
       snd (snd (start_demo (\<lambda>a b. 0) 5 1234 0x3FF0000000000000 :: nat simulator)))"
    by simp
  from demo_mode_consistent [OF _ this] show ?thesis by simp
qed

end
