(* ===== verification/Object_Server.thy ===== *)
theory Object_Server
  imports Dispatcher
begin

text \<open>
  What the dispatcher means: a server of objects without bytes on the way in, without shards, hash
  functions and panics.  Its state is a map from devices and identifiers to objects, the sessions
  as a map, and the registry.  The dispatcher of \<^verbatim>\<open>crates/bacnet-stack/src/dispatcher.rs\<close> over the store
  of \<^verbatim>\<open>crates/bacnet-object/src/store.rs\<close> refines it, frame by frame.
\<close>

subsection \<open>Simulations\<close>

text \<open>Outputs and last state of a machine on a list of events.\<close>

fun exec :: "('e \<Rightarrow> 's \<Rightarrow> 'o list \<times> 's) \<Rightarrow> 'e list \<Rightarrow> 's \<Rightarrow> 'o list \<times> 's" where
  "exec step [] s = ([], s)"
| "exec step (e # es) s = (let (out, s1) = step e s; (outs, s2) = exec step es s1 in (out @ outs, s2))"

text \<open>A machine that keeps its invariant and does, under an abstraction, what another does.\<close>

locale simulation =
  fixes ok :: "'c \<Rightarrow> bool"
    and abs :: "'c \<Rightarrow> 'a"
    and step :: "'e \<Rightarrow> 'c \<Rightarrow> 'o list \<times> 'c"
    and spec :: "'e \<Rightarrow> 'a \<Rightarrow> 'o list \<times> 'a"
  assumes step_ok: "ok c \<Longrightarrow> ok (snd (step e c))"
    and step_abs: "ok c \<Longrightarrow> apsnd abs (step e c) = spec e (abs c)"
begin

lemma exec_ok: "ok c \<Longrightarrow> ok (snd (exec step es c))"
  by (induction es arbitrary: c) (simp_all add: case_prod_beta Let_def step_ok)

lemma exec_abs: "ok c \<Longrightarrow> apsnd abs (exec step es c) = exec spec es (abs c)"
proof (induction es arbitrary: c)
  case (Cons e es)
  from step_abs [OF Cons.prems, of e] Cons.IH [OF step_ok [OF Cons.prems, of e]] show ?case
    by (simp add: case_prod_beta Let_def apsnd_def map_prod_def prod_eq_iff)
qed simp

end

subsection \<open>The meaning of a frame\<close>

datatype meaning = Asks confirmed_request | Announces unconfirmed_request | Says_Nothing

definition meaning :: "bytes \<Rightarrow> meaning" where
  "meaning frame =
     (case npdu_decode frame of
        Ok npdu \<Rightarrow>
          (if network_message (npdu_ctrl npdu) then Says_Nothing
           else case npdu_apdu npdu of
             [] \<Rightarrow> Says_Nothing
           | b # _ \<Rightarrow>
               (if b AND 0xF0 = 0x00 then
                  (case confirmed_decode (npdu_apdu npdu) of Ok req \<Rightarrow> Asks req | _ \<Rightarrow> Says_Nothing)
                else if b AND 0xF0 = 0x10 then
                  (case unconfirmed_decode (npdu_apdu npdu) of Ok req \<Rightarrow> Announces req | _ \<Rightarrow> Says_Nothing)
                else Says_Nothing))
      | _ \<Rightarrow> Says_Nothing)"

subsection \<open>The objects\<close>

type_synonym object_db = "device_id \<Rightarrow> object_id \<Rightarrow> bacnet_object option"

definition read_result :: "'a bres \<Rightarrow> bacnet_error + 'a" where
  "read_result r = (case r of Ok v \<Rightarrow> Inr v | Err e \<Rightarrow> Inl e | Panic \<Rightarrow> Inl DecodeError)"

definition db_read ::
    "system_time \<Rightarrow> object_db \<Rightarrow> device_id \<Rightarrow> object_id \<Rightarrow> property_ref \<Rightarrow> bacnet_error + property_value" where
  "db_read sys db dev oid ref =
     (case db dev oid of
        None \<Rightarrow> Inl UnknownObject
      | Some ob \<Rightarrow> read_result (obj_read_property sys ob (fst ref) (snd ref)))"

text \<open>One object of a ReadPropertyMultiple: all properties, or each by itself.\<close>

definition db_results :: "system_time \<Rightarrow> object_db \<Rightarrow> device_id \<Rightarrow> rpm_spec \<Rightarrow> object_property_result" where
  "db_results sys db dev spec =
     \<lparr>opr_object_id = fst spec,
      opr_property_results =
        (case db dev (fst spec) of
           Some ob \<Rightarrow>
             if PID_All \<in> fst ` set (snd spec)
             then map (\<lambda>(pid, v). \<lparr>pr_property_id = pid, pr_array_index = None, pr_value = Inr v\<rparr>)
                    (obj_all_properties ob)
             else map (\<lambda>ref. \<lparr>pr_property_id = fst ref, pr_array_index = snd ref,
                              pr_value = db_read sys db dev (fst spec) ref\<rparr>) (snd spec)
         | None \<Rightarrow> map (\<lambda>ref. \<lparr>pr_property_id = fst ref, pr_array_index = snd ref,
                               pr_value = Inl UnknownObject\<rparr>) (snd spec))\<rparr>"

text \<open>A write that is accepted replaces the object; one that is refused changes nothing.\<close>

definition db_write ::
    "instant \<Rightarrow> object_db \<Rightarrow> device_id \<Rightarrow> write_property_request \<Rightarrow> bacnet_error option \<times> object_db" where
  "db_write now db dev w =
     (case db dev (wp_object_id w) of
        None \<Rightarrow> (Some UnknownObject, db)
      | Some ob \<Rightarrow>
          (case obj_write_property now ob (wp_property_id w) (wp_array_index w) (wp_value w) (wp_priority w) of
             (Ok _, ob1) \<Rightarrow> (None, db(dev := (db dev)(wp_object_id w \<mapsto> ob1)))
           | (Err e, _) \<Rightarrow> (Some e, db)
           | (Panic, _) \<Rightarrow> (Some DecodeError, db)))"

definition db_reply ::
    "system_time \<Rightarrow> instant \<Rightarrow> object_db \<Rightarrow> device_id \<Rightarrow> confirmed_request \<Rightarrow> bytes \<times> object_db" where
  "db_reply sys now db dev req =
     (let i = cr_invoke_id req in
      case cr_service req of
        Req_ReadProperty r \<Rightarrow>
          (case db_read sys db dev (rp_object_id r) (rp_property_id r, rp_array_index r) of
             Inl e \<Rightarrow> encode_error_pdu i 12 e
           | Inr v \<Rightarrow> complex_ack_encode \<lparr>ca_invoke_id = i, ca_service = Ack_ReadProperty
               \<lparr>rpa_object_id = rp_object_id r, rpa_property_id = rp_property_id r,
                rpa_array_index = rp_array_index r, rpa_value = v\<rparr>\<rparr>, db)
      | Req_ReadPropertyMultiple specs \<Rightarrow>
          (complex_ack_encode \<lparr>ca_invoke_id = i,
             ca_service = Ack_ReadPropertyMultiple (map (db_results sys db dev) specs)\<rparr>, db)
      | Req_WriteProperty w \<Rightarrow>
          apfst (\<lambda>r. case r of
              None \<Rightarrow> simple_ack_encode \<lparr>sack_invoke_id = i, sack_service_choice = 15\<rparr>
            | Some e \<Rightarrow> encode_error_pdu i 15 e) (db_write now db dev w)
      | Req_SubscribeCov s \<Rightarrow> (simple_ack_encode \<lparr>sack_invoke_id = i, sack_service_choice = 5\<rparr>, db))"

subsection \<open>The server\<close>

record object_server =
  os_devices :: "(u32 \<times> device_info) list"
  os_objects :: object_db
  os_sessions :: "network_address \<Rightarrow> device_id option"

text \<open>
  The device a request is for: a Device object names it and opens a session, any other object is
  one of the session's device, or else of the first device of the registry.
\<close>

definition server_device ::
    "confirmed_request \<Rightarrow> network_address \<Rightarrow> object_server \<Rightarrow> (device_id \<times> object_server) option" where
  "server_device req src srv =
     (let fallback = (case os_devices srv of [] \<Rightarrow> None | d # _ \<Rightarrow> Some (di_device_id (snd d), srv)) in
      case target_oid (cr_service req) of
        Ok (Some oid) \<Rightarrow>
          (if oid_type oid = OT_Device then
             (if oid_instance oid \<in> fst ` set (os_devices srv)
              then Some (oid_instance oid, srv\<lparr>os_sessions := (os_sessions srv)(src \<mapsto> oid_instance oid)\<rparr>)
              else None)
           else (case os_sessions srv src of Some dev \<Rightarrow> Some (dev, srv) | None \<Rightarrow> fallback))
      | Ok None \<Rightarrow> fallback
      | _ \<Rightarrow> None)"

definition server_i_am :: "who_is_request \<Rightarrow> network_address \<Rightarrow> device_info \<Rightarrow> outbound_frame list" where
  "server_i_am w src i =
     (case (wi_low_limit w, wi_high_limit w) of
        (Some lo, Some hi) \<Rightarrow> if lo \<le> di_device_id i \<and> di_device_id i \<le> hi then i_am_frames src (i_am_of i) else []
      | _ \<Rightarrow> i_am_frames src (i_am_of i))"

type_synonym timed_frame = "system_time \<times> instant \<times> inbound_frame"

definition server_step :: "timed_frame \<Rightarrow> object_server \<Rightarrow> outbound_frame list \<times> object_server" where
  "server_step e srv =
     (case e of (sys, now, frame) \<Rightarrow>
        (case meaning (in_npdu frame) of
           Says_Nothing \<Rightarrow> ([], srv)
         | Announces (UR_WhoIs w) \<Rightarrow> (concat (map (server_i_am w (in_src frame) \<circ> snd) (os_devices srv)), srv)
         | Announces _ \<Rightarrow> ([], srv)
         | Asks req \<Rightarrow>
             (case server_device req (in_src frame) srv of
                None \<Rightarrow> ([], srv)
              | Some (dev, srv1) \<Rightarrow>
                  (let (apdu, db) = db_reply sys now (os_objects srv1) dev req
                   in ([answer_frame (in_src frame) apdu], srv1\<lparr>os_objects := db\<rparr>)))))"

subsection \<open>The abstraction\<close>

definition db_of :: "hash_fn \<Rightarrow> store \<Rightarrow> object_db" where
  "db_of fx st dev oid = (if oid_ok oid then store_get fx st dev oid else None)"

definition server_of :: "hash_fn \<Rightarrow> dispatcher \<Rightarrow> object_server" where
  "server_of fx d = \<lparr>os_devices = dp_devices d, os_objects = db_of fx (dp_store d),
     os_sessions = map_of (dp_sessions d)\<rparr>"

text \<open>The dispatcher on one frame, as the machine that the server specifies.\<close>

definition dispatcher_step :: "hash_fn \<Rightarrow> timed_frame \<Rightarrow> dispatcher \<Rightarrow> outbound_frame list \<times> dispatcher" where
  "dispatcher_step fx e d = (case e of (sys, now, frame) \<Rightarrow> apfst frame_output (handle_frame fx sys now d frame))"

lemma run_exec: "run fx d frames = exec (dispatcher_step fx) frames d"
  by (induction frames arbitrary: d) (auto simp: dispatcher_step_def case_prod_beta Let_def)

subsection \<open>The objects a decoded request names\<close>

definition service_oids :: "confirmed_service_request \<Rightarrow> object_id set" where
  "service_oids s =
     (case s of
        Req_ReadProperty r \<Rightarrow> {rp_object_id r}
      | Req_WriteProperty w \<Rightarrow> {wp_object_id w}
      | Req_ReadPropertyMultiple specs \<Rightarrow> fst ` set specs
      | Req_SubscribeCov _ \<Rightarrow> {})"

lemma decode_ctx_object_id_ok: "decode_ctx_object_id buf pos t = Ok (oid, p) \<Longrightarrow> oid_ok oid"
  using object_id_of_raw_ok by (auto simp: decode_ctx_object_id_def rbind_eq_Ok Let_def split: if_splits)

lemma rpm_specs_oids: "rpm_specs body pos = Ok specs \<Longrightarrow> \<forall>oid \<in> fst ` set specs. oid_ok oid"
proof (induction body pos arbitrary: specs rule: rpm_specs.induct)
  case (1 body pos)
  show ?case
  proof (cases "pos < length body")
    case True
    with 1(2) obtain oid p props q specs1 where
      s: "decode_ctx_object_id body pos 0 = Ok (oid, p)" "is_opening body p 1"
        "rpm_props body (p + 1) = Ok (props, q)" "rpm_specs body (q + 1) = Ok specs1"
        "specs = (oid, props) # specs1"
      by (subst (asm) rpm_specs.simps) (auto simp: rbind_eq_Ok split: if_splits)
    with 1(1) [OF True s(1) refl _ s(3) refl s(4)] decode_ctx_object_id_ok [OF s(1)] show ?thesis by simp
  next
    case False
    with 1(2) show ?thesis by (subst (asm) rpm_specs.simps) simp
  qed
qed

lemma confirmed_decode_oids:
  assumes "confirmed_decode buf = Ok req"
  shows "\<forall>oid \<in> service_oids (cr_service req). oid_ok oid"
proof -
  have "\<forall>oid \<in> service_oids s. oid_ok oid" if "decode_service c body = Ok s" for c body s
    using that decode_ctx_object_id_ok rpm_specs_oids decode_write_property_oid_ok
    by (fastforce simp: decode_service_def decode_rpm_def decode_read_property_def service_oids_def rbind_eq_Ok
        split: if_splits)
  then show ?thesis using assms by (auto simp: confirmed_decode_def rbind_eq_Ok split: if_splits)
qed

subsection \<open>The dispatcher refines the server\<close>

lemma read_result_simps [simp]: "read_result (Ok v) = Inr v" "read_result (Err e) = Inl e"
  by (simp_all add: read_result_def)

lemma to_result_read: "m \<noteq> Panic \<Longrightarrow> to_result m = Ok (read_result m)"
  by (cases m) simp_all

lemma read_refs_db:
  assumes "obj_ok ob"
  shows "read_refs sys ob refs = Ok (map (\<lambda>ref. \<lparr>pr_property_id = fst ref, pr_array_index = snd ref,
    pr_value = read_result (obj_read_property sys ob (fst ref) (snd ref))\<rparr>) refs)"
proof (induction refs)
  case (Cons r refs)
  then show ?case using to_result_read [OF objects.rd_no_panic [OF assms]] by (cases r) simp
qed simp

lemma rpm_object_results_db:
  assumes "store_ok fx st" and "oid_ok (fst spec)"
  shows "rpm_object_results fx sys st dev spec = Ok (db_results sys (db_of fx st) dev spec)"
proof (cases "store_get fx st dev (fst spec)")
  case (Some ob)
  have "(\<exists>r \<in> set refs. fst r = PID_All) \<longleftrightarrow> PID_All \<in> fst ` set refs" for refs :: "property_ref list" by force
  then show ?thesis
    using read_refs_db [OF objstore.get_ok [OF assms(1) Some], of sys "snd spec"] Some assms(2)
    by (simp add: rpm_object_results_def db_results_def db_read_def db_of_def case_prod_beta)
qed (use assms(2) in \<open>simp add: rpm_object_results_def db_results_def db_of_def case_prod_beta\<close>)

lemma rpm_results_db:
  assumes "store_ok fx st" and "\<forall>oid \<in> fst ` set specs. oid_ok oid"
  shows "rpm_results fx sys st dev specs = Ok (map (db_results sys (db_of fx st) dev) specs)"
  using assms(2) by (induction specs) (simp_all add: rpm_object_results_db [OF assms(1)])

lemma db_of_modify:
  assumes "store_ok fx st" and "oid_ok oid" and "store_get fx st dev oid = Some ob"
  shows "db_of fx (snd (store_modify fx st dev oid f)) = (db_of fx st)(dev := (db_of fx st dev)(oid \<mapsto> snd (f ob)))"
  using objstore.get_modify [OF assms(1,3,2)] assms(2) by (auto simp: db_of_def fun_eq_iff)

lemma write_db:
  assumes "store_ok fx st" and "oid_ok (wp_object_id w)"
  shows "handle_write_property fx now w st dev = (r, st') \<Longrightarrow>
    r \<noteq> Panic \<and> db_write now (db_of fx st) dev w = (case r of Err e \<Rightarrow> Some e | _ \<Rightarrow> None, db_of fx st')"
proof (cases "store_get fx st dev (wp_object_id w)")
  case (Some ob)
  let ?f = "\<lambda>ob. obj_write_property now ob (wp_property_id w) (wp_array_index w) (wp_value w) (wp_priority w)"
  have db: "db_of fx st dev (wp_object_id w) = Some ob" using Some assms(2) by (simp add: db_of_def)
  assume "handle_write_property fx now w st dev = (r, st')"
  then have r: "r = fst (?f ob)" "st' = snd (store_modify fx st dev (wp_object_id w) ?f)"
    using objstore.modify_result [OF Some, of ?f] by (simp_all add: handle_write_property_def store_write_def prod_eq_iff)
  note st' = db_of_modify [OF assms Some, of ?f]
  show ?thesis
  proof (cases rule: objects.wr_cases [OF objstore.get_ok [OF assms(1) Some], of now "wp_property_id w"
        "wp_array_index w" "wp_value w" "wp_priority w"])
    case 1
    with r st' db show ?thesis by (cases "?f ob") (simp add: db_write_def)
  next
    case (2 e)
    then have "db_of fx st' = db_of fx st" using st' db by (auto simp: r(2) fun_eq_iff)
    with 2 r(1) db show ?thesis by (simp add: db_write_def)
  qed
qed (use assms(2) in \<open>auto simp: handle_write_property_def store_write_def objstore.modify_absent db_write_def db_of_def\<close>)

lemma answer_db:
  assumes "store_ok fx st" and "\<forall>oid \<in> service_oids (cr_service req). oid_ok oid"
  shows "map_prod id (db_of fx) (answer fx sys now st dev req) = apfst Ok (db_reply sys now (db_of fx st) dev req)"
proof (cases "cr_service req")
  case (Req_ReadProperty r)
  have oid: "oid_ok (rp_object_id r)" using assms(2) by (simp add: Req_ReadProperty service_oids_def)
  show ?thesis
  proof (cases "store_get fx st dev (rp_object_id r)")
    case (Some ob)
    then show ?thesis
      using oid objects.rd_no_panic [OF objstore.get_ok [OF assms(1) Some], of sys "rp_property_id r" "rp_array_index r"]
      by (cases "obj_read_property sys ob (rp_property_id r) (rp_array_index r)")
        (simp_all add: answer_def db_reply_def Req_ReadProperty handle_read_property_def db_read_def db_of_def Let_def)
  qed (use oid in \<open>simp add: answer_def db_reply_def Req_ReadProperty handle_read_property_def db_read_def db_of_def Let_def\<close>)
next
  case (Req_WriteProperty w)
  have "oid_ok (wp_object_id w)" using assms(2) by (simp add: Req_WriteProperty service_oids_def)
  then show ?thesis
    using write_db [OF assms(1), of w now dev]
    by (cases "handle_write_property fx now w st dev"; cases "fst (handle_write_property fx now w st dev)")
      (simp_all add: answer_def db_reply_def Req_WriteProperty Let_def)
next
  case (Req_ReadPropertyMultiple specs)
  then show ?thesis
    using rpm_results_db [OF assms(1), of specs sys dev] assms(2)
    by (simp add: answer_def db_reply_def handle_read_property_multiple_def service_oids_def Let_def)
qed (simp add: answer_def db_reply_def Let_def)

text \<open>The device of a request, and what a request does to the server.\<close>

lemma resolve_device_server:
  "resolve_device d req src = (r, d1) \<Longrightarrow>
   server_device req src (server_of fx d) = (case r of Ok dev \<Rightarrow> Some (dev, server_of fx d1) | _ \<Rightarrow> None)"
proof -
  have m: "map_of ds k \<noteq> None \<longleftrightarrow> k \<in> fst ` set ds" for ds :: "(u32 \<times> device_info) list" and k
    by (simp add: map_of_eq_None_iff)
  have f: "first_device d = (case dp_devices d of [] \<Rightarrow> Err UnknownObject | x # _ \<Rightarrow> Ok (di_device_id (snd x)))"
    by (simp add: first_device_def split: list.split)
  have h: "map_of (hm_insert k v m) = (map_of m)(k \<mapsto> v)" for k v and m :: "(network_address \<times> device_id) list"
    by (rule ext) simp
  assume "resolve_device d req src = (r, d1)"
  then show ?thesis
    unfolding resolve_device_def m
    by (auto simp: server_device_def server_of_def f h Let_def
        split: rres.splits option.splits if_splits list.splits)
qed

lemma handle_confirmed_server:
  assumes "dispatcher_ok fx d" and "\<forall>oid \<in> service_oids (cr_service req). oid_ok oid"
  shows "map_prod frame_output (server_of fx) (handle_confirmed fx sys now d req src) =
    (case server_device req src (server_of fx d) of
       None \<Rightarrow> ([], server_of fx d)
     | Some (dev, srv) \<Rightarrow>
         (let (apdu, db) = db_reply sys now (os_objects srv) dev req in ([answer_frame src apdu], srv\<lparr>os_objects := db\<rparr>)))"
proof (cases rule: resolve_device_cases [of d req src])
    case (resolved dev d2)
    have "store_ok fx (dp_store d2)" using conjunct1 [OF resolve_device_ok [OF assms(1) resolved]] by (simp add: dispatcher_ok_def)
    from answer_db [OF this assms(2), of sys now dev] show ?thesis
      using resolve_device_server [OF resolved, of fx]
      by (cases "answer fx sys now (dp_store d2) dev req"; cases "db_reply sys now (db_of fx (dp_store d2)) dev req")
        (simp add: handle_confirmed_def resolved frame_output_def answer_frame_def server_of_def)
  next
    case unknown
    then show ?thesis using resolve_device_server [OF unknown, of fx]
      by (simp add: handle_confirmed_def frame_output_def)
qed

lemma handle_unconfirmed_server:
  "handle_unconfirmed d req src =
    (case req of UR_WhoIs w \<Rightarrow> concat (map (server_i_am w src \<circ> snd) (dp_devices d)) | _ \<Rightarrow> [])"
  by (auto simp: handle_unconfirmed_def handle_who_is_def server_i_am_def i_am_of_def Let_def case_prod_beta
      split: unconfirmed_request.split option.split intro!: arg_cong [where f = concat] map_cong)

lemma dispatcher_step_server:
  assumes "dispatcher_ok fx d"
  shows "apsnd (server_of fx) (dispatcher_step fx e d) = server_step e (server_of fx d)"
proof -
  obtain sys now frame where e: "e = (sys, now, frame)" by (cases e)
  show ?thesis
  proof (cases "meaning (in_npdu frame)")
    case (Asks req)
    then have f: "handle_frame fx sys now d frame = handle_confirmed fx sys now d req (in_src frame)"
      and req: "\<exists>buf. confirmed_decode buf = Ok req"
      by (auto simp: meaning_def handle_frame_def split: rres.splits list.splits if_splits)
    then have "\<forall>oid \<in> service_oids (cr_service req). oid_ok oid" using confirmed_decode_oids by blast
    from handle_confirmed_server [OF assms this, of sys now "in_src frame"] show ?thesis
      by (simp add: e dispatcher_step_def server_step_def Asks f apsnd_def apfst_def prod.map_comp)
  next
    case (Announces req)
    then have "handle_frame fx sys now d frame = (Ok (handle_unconfirmed d req (in_src frame)), d)"
      by (auto simp: meaning_def handle_frame_def split: rres.splits list.splits if_splits)
    then show ?thesis
      by (simp add: e dispatcher_step_def server_step_def Announces frame_output_def handle_unconfirmed_server
          server_of_def split: unconfirmed_request.split)
  next
    case Says_Nothing
    then have "frame_output (fst (handle_frame fx sys now d frame)) = []" "snd (handle_frame fx sys now d frame) = d"
      by (auto simp: meaning_def handle_frame_def frame_output_def split: rres.splits list.splits if_splits)
    then show ?thesis
      by (simp add: e dispatcher_step_def server_step_def Says_Nothing prod_eq_iff)
  qed
qed

interpretation served: simulation "dispatcher_ok fx" "server_of fx" "dispatcher_step fx" server_step for fx
proof (unfold_locales, goal_cases)
  case (1 d e)
  then show ?case using handle_frame_ok by (cases e) (simp add: dispatcher_step_def)
next
  case (2 d e)
  then show ?case by (rule dispatcher_step_server)
qed

lemma db_of_insert:
  assumes "store_ok fx st" and "oid_ok (obj_object_id ob)"
  shows "db_of fx (store_insert fx dev ob st) = (db_of fx st)(dev := (db_of fx st dev)(obj_object_id ob \<mapsto> ob))"
  using objstore.get_ins [OF assms] assms(2) by (auto simp: db_of_def fun_eq_iff)

lemma db_of_new: "db_of fx store_new = (\<lambda>dev oid. None)"
  using shard_index_less by (auto simp: db_of_def store_get_def store_new_def shard_key_def fun_eq_iff)

subsection \<open>Properties\<close>

text \<open>
  C3. The dispatcher is an object server: whatever frames arrive, it sends the frames that the
  server over a plain map of objects sends, in the same order, and its state afterwards is that
  server's state.  Shards, keys, hash and panics are implementation.
\<close>

theorem dispatcher_refines_server:
  assumes "dispatcher_ok fx d"
  shows "apsnd (server_of fx) (run fx d frames) = exec server_step frames (server_of fx d)"
  unfolding run_exec by (rule served.exec_abs [OF assms])

theorem dispatcher_refines_server_witness:
  "apsnd (server_of example_fx) (run example_fx example_dispatcher
     [(0, 0, request_frame example_client (example_request 1 (Req_WriteProperty example_write))),
      (1, 1, request_frame example_client (example_request 2 (Req_ReadProperty example_read)))]) =
   exec server_step
     [(0, 0, request_frame example_client (example_request 1 (Req_WriteProperty example_write))),
      (1, 1, request_frame example_client (example_request 2 (Req_ReadProperty example_read)))]
     (server_of example_fx example_dispatcher)"
  by (rule dispatcher_refines_server [OF example_ok])

text \<open>
  C18. The hash function cannot be observed: two dispatchers whose stores hold the same objects under
  different hash functions, and so in different shards and in a different order, send the same
  frames in answer to the same frames, for ever.
\<close>

theorem hash_unobservable:
  assumes "dispatcher_ok fx d" and "dispatcher_ok fx' d'" and "server_of fx d = server_of fx' d'"
  shows "fst (run fx d frames) = fst (run fx' d' frames)"
proof -
  have "fst (run fx d frames) = fst (exec server_step frames (server_of fx d))" if "dispatcher_ok fx d" for fx d
    using served.exec_abs [OF that, of frames]
    by (simp add: run_exec apsnd_def map_prod_def case_prod_beta prod_eq_iff)
  with assms show ?thesis by simp
qed

definition example_other_dispatcher :: dispatcher where
  "example_other_dispatcher = example_dispatcher\<lparr>dp_store :=
     store_insert (\<lambda>a b. 3) 7 (Obj_Device (dev_new 7 []))
       (store_insert (\<lambda>a b. 3) 7 (Obj_AnalogValue (av_new 0 7 1 [] EU_NoUnits)) store_new)\<rparr>"

theorem hash_unobservable_witness:
  "fst (run example_fx example_dispatcher
     [(0, 0, request_frame example_client (example_request 2 (Req_ReadProperty example_read)))]) =
   fst (run (\<lambda>a b. 3) example_other_dispatcher
     [(0, 0, request_frame example_client (example_request 2 (Req_ReadProperty example_read)))])"
proof -
  let ?av = "Obj_AnalogValue (av_new 0 7 1 [] EU_NoUnits)" and ?dev = "Obj_Device (dev_new 7 [])"
  have oids: "obj_object_id ?av = example_value" "obj_object_id ?dev = \<lparr>oid_type = OT_Device, oid_instance = 7\<rparr>"
      "oid_ok example_value" "oid_ok \<lparr>oid_type = OT_Device, oid_instance = 7\<rparr>"
    by (simp_all add: av_new_def dev_object_id_def device_oid_def dev_new_def example_value_def oid_ok_def)
  have oks: "store_ok fx (store_insert fx 7 ?dev store_new)" "store_ok fx (store_insert fx 7 ?av store_new)"
      "store_ok fx (store_insert fx 7 ?dev (store_insert fx 7 ?av store_new))" for fx
    by (intro store_insert_ok store_new_ok; simp)+
  have "db_of example_fx (dp_store example_dispatcher) = db_of (\<lambda>a b. 3) (dp_store example_other_dispatcher)"
    using oids oks db_of_insert [OF oks(1), of ?av example_fx 7] db_of_insert [OF oks(2), of ?dev "\<lambda>a b. 3" 7]
      db_of_insert [OF store_new_ok, of ?dev example_fx 7] db_of_insert [OF store_new_ok, of ?av "\<lambda>a b. 3" 7]
    by (auto simp: example_dispatcher_def example_other_dispatcher_def register_device_def dispatcher_new_def
        example_store_def db_of_new example_value_def fun_eq_iff)
  then have "server_of example_fx example_dispatcher = server_of (\<lambda>a b. 3) example_other_dispatcher"
    by (simp add: server_of_def example_other_dispatcher_def)
  moreover have "dispatcher_ok (\<lambda>a b. 3) example_other_dispatcher"
    using example_ok oks(3) [of "\<lambda>a b. 3"] by (simp add: example_other_dispatcher_def dispatcher_ok_def registered_def)
  ultimately show ?thesis using hash_unobservable [OF example_ok] by blast
qed

end
