(* ===== verification/Engine_Loop.thy ===== *)
theory Engine_Loop
  imports Sim_Engine
begin

text \<open>
  \<^verbatim>\<open>SimEngine::run\<close> of \<^verbatim>\<open>crates/bacnet-sim-engine/src/engine.rs\<close>: the period of the tick, and the loop
  around the ticks of \<open>Sim_Engine\<close> on the readings of the clocks.

  \<^verbatim>\<open>tokio\<close>'s \<^verbatim>\<open>interval\<close> is a library function that refuses a zero period with a panic; it is the
  argument \<open>interval\<close>.
\<close>

subsection \<open>Durations and floats\<close>

text \<open>
  \<^verbatim>\<open>Duration::from_secs_f64\<close>: to the nearest nanosecond, ties to even; a negative number, one that is
  not finite and one of \<open>2 ^ 64\<close> seconds or more panic.
\<close>

definition duration_from_secs_f64 :: "f64 \<Rightarrow> (duration, 'e) rres" where
  "duration_from_secs_f64 w =
     (if f64_exp w = 2047 \<or> f64_sign w \<and> f64_mag w \<noteq> 0 then Panic
      else let nanos = round_half_even (f64_mag w * 1000000000) 1074
           in if 2 ^ 64 * 1000000000 \<le> nanos then Panic else Ok nanos)"

definition f64_of_nat :: "nat \<Rightarrow> f64" where
  "f64_of_nat n = f64_round False 0 (n * 2 ^ 1074)"

text \<open>\<^verbatim>\<open>Duration::as_secs_f64\<close>; the constant is \<open>1e9\<close>.\<close>

definition as_secs_f64 :: "duration \<Rightarrow> f64" where
  "as_secs_f64 d = f64_add (f64_of_nat (d div 1000000000)) (f64_div (f64_of_nat (d mod 1000000000)) 0x41CDCD6500000000)"

subsection \<open>The loop\<close>

definition engine_period :: "(duration \<Rightarrow> (unit, 'e) rres) \<Rightarrow> f64 \<Rightarrow> (duration, 'e) rres" where
  "engine_period interval tick_hz =
     rbind (duration_from_secs_f64 (f64_div 0x3FF0000000000000 tick_hz)) (\<lambda>period.
     rbind (interval period) (\<lambda>_. Ok period))"

text \<open>The clocks of one turn: as in \<open>sim_tick\<close>.\<close>

record tick_clock =
  tc_elapsed :: duration
  tc_sys :: system_time
  tc_now :: instant
  tc_later :: instant
  tc_took :: duration

fun engine_loop :: "'g model_env \<Rightarrow> duration \<Rightarrow> tick_clock list \<Rightarrow> 'g sim_engine \<Rightarrow> 'g sim_engine bres" where
  "engine_loop env period [] eng = Ok eng"
| "engine_loop env period (c # cs) eng =
     rbind (sim_tick env (as_secs_f64 (tc_elapsed c)) (tc_sys c) period (tc_now c) (tc_later c) (tc_took c) eng)
       (engine_loop env period cs)"

definition engine_run ::
  "'g model_env \<Rightarrow> (duration \<Rightarrow> unit bres) \<Rightarrow> instant \<Rightarrow> tick_clock list \<Rightarrow> 'g sim_engine \<Rightarrow> 'g sim_engine bres" where
  "engine_run env interval start cs eng =
     rbind (engine_period interval (se_tick_hz eng)) (\<lambda>period.
       engine_loop env period cs (eng\<lparr>se_last_expire := start\<rparr>))"

subsection \<open>Rates that are not positive\<close>

lemma f64_exp_nat: "f64_exp w = unat w div 2 ^ 52 mod 2 ^ 11"
  by (simp add: f64_exp_def take_bit_eq_mod drop_bit_eq_div unat_div_distrib unat_mod_distrib)

lemma f64_frac_nat: "f64_frac w = unat w mod 2 ^ 52"
  by (simp add: f64_frac_def take_bit_eq_mod unat_mod_distrib)

lemma f64_sign_nat: "f64_sign w \<longleftrightarrow> odd (unat w div 2 ^ 63)"
proof -
  have "bit w 63 \<longleftrightarrow> bit (unat w) 63" by (simp add: bit_unsigned_iff)
  then show ?thesis by (simp add: f64_sign_def bit_iff_odd)
qed

lemma f64_mag_less: "f64_exp w < 2047 \<Longrightarrow> f64_mag w < 2 ^ 2098"
proof -
  assume e: "f64_exp w < 2047"
  have f: "f64_frac w < 2 ^ 52" by (simp add: f64_frac_nat)
  have "(2 ^ 52 + f64_frac w) * 2 ^ (f64_exp w - 1) < 2 ^ 53 * 2 ^ (f64_exp w - 1)"
    using f by simp
  also have "\<dots> \<le> 2 ^ 53 * 2 ^ 2045" using e by (intro mult_left_mono power_increasing) auto
  finally have "(2 ^ 52 + f64_frac w) * 2 ^ (f64_exp w - 1) < 2 ^ (53 + 2045)" by (simp only: power_add)
  moreover have "f64_frac w < 2 ^ 2098"
    using f power_strict_increasing [of 52 2098 "2 :: nat"] by linarith
  ultimately show ?thesis by (simp add: f64_mag_def)
qed

lemma f64_mag_zero_iff: "f64_mag w = 0 \<longleftrightarrow> unat w mod 2 ^ 63 = 0"
proof -
  have "unat w mod 2 ^ 63 = f64_exp w * 2 ^ 52 + f64_frac w"
    using mod_mult2_eq' [of "unat w" "2 ^ 52" "2 ^ 11"] by (simp add: f64_exp_nat f64_frac_nat)
  then show ?thesis by (auto simp: f64_mag_def)
qed

text \<open>What is at least one unit is not rounded to zero; the sign is the one asked for.\<close>

lemma f64_round_fields:
  assumes "2 ^ k \<le> m"
  shows "f64_mag (f64_round neg k m) \<noteq> 0" and "f64_sign (f64_round neg k m) = neg"
proof -
  let ?s = "f64_shift k m"
  let ?x = "min (2047 * 2 ^ 52) (round_half_even m ?s + (?s - k) * 2 ^ 52)"
  have "2 ^ ?s \<le> m"
  proof (cases "bit_len m \<le> k + 53")
    case False
    have "bit_len m - 1 < bit_len m" using False by simp
    have "\<not> m < 2 ^ (bit_len m - 1)" using bit_len_le [of m "bit_len m - 1"] False by auto
    then have "2 ^ (bit_len m - 53) \<le> m"
      using power_increasing [of "bit_len m - 53" "bit_len m - 1" "2 :: nat"] by linarith
    with False show ?thesis by (simp add: f64_shift_def)
  qed (use assms in \<open>simp add: f64_shift_def\<close>)
  then have "1 \<le> m div 2 ^ ?s" by (simp add: div_greater_zero_iff Suc_leI)
  then have "1 \<le> round_half_even m ?s" by (simp add: round_half_even_def Let_def)
  then have x: "1 \<le> ?x" "?x < 2 ^ 63" by auto
  have u: "unat (f64_round neg k m) = (if neg then 2 ^ 63 else 0) + ?x"
    using x(2) by (simp add: f64_round_def Let_def unat_word_ariths unat_of_nat)
  define y where "y = ?x"
  have y: "1 \<le> y" "y < 2 ^ 63" "unat (f64_round neg k m) = (if neg then 2 ^ 63 else 0) + y"
    using x u unfolding y_def by blast+
  show "f64_mag (f64_round neg k m) \<noteq> 0"
    using y by (simp add: f64_mag_zero_iff)
  have "(2 ^ 63 + y) div 2 ^ 63 = 1" using y(2) by (intro div_nat_eqI) auto
  then show "f64_sign (f64_round neg k m) = neg"
    using y by (simp add: f64_sign_nat)
qed

text \<open>The reciprocal of a rate; \<open>0x3FF0000000000000\<close> is 1.0.\<close>

lemma f64_one: "f64_exp 0x3FF0000000000000 = 1023" "f64_frac 0x3FF0000000000000 = 0"
  "\<not> f64_sign 0x3FF0000000000000" "f64_mag 0x3FF0000000000000 = 2 ^ 1074"
proof -
  show e: "f64_exp 0x3FF0000000000000 = 1023" "f64_frac 0x3FF0000000000000 = 0"
    by (simp_all add: f64_exp_nat f64_frac_nat)
  show "\<not> f64_sign 0x3FF0000000000000" by (simp add: f64_sign_nat)
  show "f64_mag 0x3FF0000000000000 = 2 ^ 1074"
    using power_add [of "2 :: nat" 52 1022] by (simp add: f64_mag_def e)
qed

lemma f64_recip_negative:
  assumes "f64_sign hz" and "f64_exp hz < 2047" and "f64_mag hz \<noteq> 0"
  shows "f64_sign (f64_div 0x3FF0000000000000 hz)" and "f64_mag (f64_div 0x3FF0000000000000 hz) \<noteq> 0"
proof -
  let ?n = "2 ^ 1074 * 2 ^ 1134 :: nat"
  let ?m = "2 * (?n div f64_mag hz) + (if ?n mod f64_mag hz = 0 then 0 else 1)"
  have "f64_mag hz * 2 ^ 110 \<le> 2 ^ 2098 * 2 ^ 110"
    using f64_mag_less [OF assms(2)] by (intro mult_right_mono) auto
  also have "\<dots> = ?n" by (simp only: power_add [symmetric]) simp
  finally have "2 ^ 110 \<le> ?n div f64_mag hz"
    using assms(3) by (simp add: less_eq_div_iff_mult_less_eq mult.commute)
  moreover have "(2 :: nat) ^ 61 \<le> 2 ^ 110" by (rule power_increasing) auto
  ultimately have m: "2 ^ 61 \<le> ?m" by linarith
  have "f64_div 0x3FF0000000000000 hz = f64_round True 61 ?m"
    using assms by (simp add: f64_div_def f64_one f64_is_nan_def f64_is_inf_def Let_def)
  with f64_round_fields [OF m, of True] show "f64_sign (f64_div 0x3FF0000000000000 hz)"
    and "f64_mag (f64_div 0x3FF0000000000000 hz) \<noteq> 0" by simp_all
qed

lemma engine_period_bad:
  fixes interval :: "duration \<Rightarrow> unit bres"
  assumes "interval 0 = Panic" and "f64_sign hz \<or> f64_mag hz = 0 \<or> f64_exp hz = 2047"
  shows "engine_period interval hz = Panic"
proof -
  have specials: "f64_exp f64_nan = 2047" "f64_exp (f64_inf neg) = 2047" "f64_exp 0 \<noteq> 2047" "f64_mag 0 = 0"
      "f64_exp 0x8000000000000000 \<noteq> 2047" "f64_mag 0x8000000000000000 = 0" for neg
    by (auto simp: f64_nan_def f64_inf_def f64_exp_nat f64_mag_zero_iff)
  have zero: "f64_round neg 0 0 \<in> {0, 0x8000000000000000}" for neg
    by (simp add: f64_round_def f64_shift_def round_half_even_def)
  consider (nan) "f64_is_nan hz" | (inf) "f64_is_inf hz" | (zero) "f64_exp hz \<noteq> 2047" "f64_mag hz = 0"
    | (neg) "f64_sign hz" "f64_exp hz < 2047" "f64_mag hz \<noteq> 0"
  proof (cases "f64_exp hz = 2047")
    case True
    then show thesis using nan inf by (auto simp: f64_is_nan_def f64_is_inf_def)
  next
    case False
    then have "f64_exp hz < 2047" using less_le [of "f64_exp hz" 2047] f64_exp_nat [of hz] by simp
    then show thesis using assms(2) zero neg False by auto
  qed
  then show ?thesis
  proof cases
    case nan
    then have "f64_div 0x3FF0000000000000 hz = f64_nan" by (simp add: f64_div_def)
    then show ?thesis by (simp add: engine_period_def duration_from_secs_f64_def specials)
  next
    case inf
    then have "\<not> f64_is_nan hz" by (simp add: f64_is_nan_def f64_is_inf_def)
    with inf have "f64_div 0x3FF0000000000000 hz \<in> {0, 0x8000000000000000}"
      using zero by (simp add: f64_div_def f64_one f64_is_nan_def f64_is_inf_def Let_def)
    then have "(duration_from_secs_f64 (f64_div 0x3FF0000000000000 hz) :: duration bres) = Ok 0"
      by (auto simp: duration_from_secs_f64_def specials round_half_even_def)
    then show ?thesis using assms(1) by (simp add: engine_period_def)
  next
    case zero
    then have "f64_div 0x3FF0000000000000 hz = f64_inf (f64_sign hz)"
      by (simp add: f64_div_def f64_one f64_is_nan_def f64_is_inf_def Let_def)
    then show ?thesis by (simp add: engine_period_def duration_from_secs_f64_def specials)
  next
    case neg
    from f64_recip_negative [OF this] show ?thesis
      by (simp add: engine_period_def duration_from_secs_f64_def)
  qed
qed

lemma bit_len_power: "bit_len (2 ^ k) = Suc k"
  by (rule bit_len_eq) simp_all

lemma f64_div_self:
  assumes "f64_exp w < 2047" and "f64_mag w \<noteq> 0"
  shows "f64_div w w = 0x3FF0000000000000"
proof -
  define g where "g = f64_mag w"
  have "g \<noteq> 0" using assms(2) by (simp add: g_def)
  define k :: nat where "k = 1134"
  have q: "g * 2 ^ k div g = 2 ^ k" "g * 2 ^ k mod g = 0" using \<open>g \<noteq> 0\<close> by simp_all
  have fin: "\<not> f64_is_nan w" "\<not> f64_is_inf w" using assms(1) by (simp_all add: f64_is_nan_def f64_is_inf_def)
  have "f64_div w w = f64_round False 61 (2 * (g * 2 ^ k div g) + (if g * 2 ^ k mod g = 0 then 0 else 1))"
    using fin \<open>g \<noteq> 0\<close> unfolding f64_div_def Let_def g_def [symmetric] k_def [symmetric] by simp
  also have "\<dots> = f64_round False 61 (2 ^ Suc k)" by (simp add: q)
  also have "f64_shift 61 (2 ^ Suc k) = 1083" unfolding f64_shift_def bit_len_power by (simp add: k_def)
  then have "f64_round False 61 (2 ^ Suc k) = 0x3FF0000000000000"
    using round_half_even_exact [of "2 ^ 52" 1083] power_add [of "2 :: nat" 52 1083]
    by (simp only: f64_round_def Let_def) (simp add: k_def)
  finally show ?thesis .
qed

lemma engine_period_one:
  "interval 1000000000 = Ok () \<Longrightarrow> engine_period interval 0x3FF0000000000000 = Ok 1000000000"
proof -
  have "round_half_even (2 ^ 1074 * 1000000000) 1074 = 1000000000"
    using round_half_even_exact [of 1000000000 1074] by (simp only: mult.commute)
  then show "interval 1000000000 = Ok () \<Longrightarrow> ?thesis"
    by (simp add: engine_period_def f64_div_self f64_one duration_from_secs_f64_def f64_one)
qed

subsection \<open>The loop runs on\<close>

lemma sim_tick_keys:
  "sim_tick env t sys period now later took eng = Ok eng1 \<Longrightarrow> map (map fst) (se_store eng1) = map (map fst) (se_store eng)"
  by (auto simp: sim_tick_def rbind_eq_Ok case_prod_beta Let_def dest!: tick_store_keys)

lemma store_presence_keys:
  assumes "map (map fst) st1 = map (map fst) st" and "length st = num_shards"
  shows "store_get fx st1 d oid = None \<longleftrightarrow> store_get fx st d oid = None"
proof -
  let ?s = "shard_index fx (obj_key d oid)"
  have "length st1 = length st" using arg_cong [OF assms(1), of length] by simp
  then have "map fst (st1 ! ?s) = map fst (st ! ?s)"
    using arg_cong [OF assms(1), of "\<lambda>xs. xs ! ?s"] assms(2) shard_index_less [of fx "obj_key d oid"] by simp
  then have "fst ` set (st1 ! ?s) = fst ` set (st ! ?s)" by (metis set_map)
  then show ?thesis by (simp add: store_get_def shard_key_def map_of_eq_None_iff)
qed

lemma engine_loop_runs:
  assumes "store_ok fx (se_store eng)" and "models_ok (se_models eng)" and "hm_wf (se_cov eng)"
  shows "\<exists>eng1. engine_loop env period cs eng = Ok eng1 \<and>
    store_ok fx (se_store eng1) \<and> models_ok (se_models eng1) \<and> hm_wf (se_cov eng1) \<and>
    store_count (se_store eng1) = store_count (se_store eng) \<and>
    (\<forall>d oid. store_get fx (se_store eng1) d oid = None \<longleftrightarrow> store_get fx (se_store eng) d oid = None)"
  using assms
proof (induction cs arbitrary: eng)
  case (Cons c cs)
  from sim_tick_runs [OF Cons.prems, of env "as_secs_f64 (tc_elapsed c)" "tc_sys c" period "tc_now c" "tc_later c" "tc_took c"]
  obtain eng1 where 1: "sim_tick env (as_secs_f64 (tc_elapsed c)) (tc_sys c) period (tc_now c) (tc_later c) (tc_took c) eng = Ok eng1"
      "store_ok fx (se_store eng1)" "models_ok (se_models eng1)" "hm_wf (se_cov eng1)"
      "store_count (se_store eng1) = store_count (se_store eng)"
    and 2: "\<forall>d oid. case store_get fx (se_store eng) d oid of
       None \<Rightarrow> map_of (se_models eng1) (engine_obj_key d oid) = map_of (se_models eng) (engine_obj_key d oid)
     | Some ob \<Rightarrow> \<exists>ob1. store_get fx (se_store eng1) d oid = Some ob1 \<and> ticked env (as_secs_f64 (tc_elapsed c)) (tc_sys c) period (tc_now c) ob
           (map_of (se_models eng) (engine_obj_key d oid)) ob1 (map_of (se_models eng1) (engine_obj_key d oid))"
    by (elim exE conjE) (rule that)
  have "store_get fx (se_store eng1) d oid = None \<longleftrightarrow> store_get fx (se_store eng) d oid = None" for d oid
    using store_presence_keys [OF sim_tick_keys [OF 1(1)]] Cons.prems(1) by (simp add: store_ok_def)
  with Cons.IH [OF 1(2-4)] 1(1,5) show ?case by auto
qed simp

subsection \<open>Properties\<close>

text \<open>\<^verbatim>\<open>interval\<close> as \<^verbatim>\<open>tokio\<close> documents it.\<close>

definition example_interval :: "duration \<Rightarrow> unit bres" where
  "example_interval period = (if period = 0 then Panic else Ok ())"

text \<open>
  A tick rate that is zero, negative, infinite or not a number kills the engine before its first
  tick: the period panics and the task of the engine is gone, whatever the clocks say, while the
  rest of the program runs on.  Neither the configuration nor \<^verbatim>\<open>BACNET_TICK_HZ\<close> is checked.
\<close>

theorem bad_tick_rate_kills_engine:
  assumes "interval 0 = Panic"
    and "f64_sign (se_tick_hz eng) \<or> f64_mag (se_tick_hz eng) = 0 \<or> f64_exp (se_tick_hz eng) = 2047"
  shows "engine_run env interval start cs eng = Panic"
  using engine_period_bad [of interval, OF assms] by (simp add: engine_run_def)

theorem bad_tick_rate_kills_engine_witness:
  "engine_run example_env example_interval 5 [] (sim_engine_new store_new 0 5) = Panic"
  by (rule bad_tick_rate_kills_engine) (simp_all add: example_interval_def sim_engine_new_def f64_mag_zero_iff)

text \<open>
  C0. The engine never stops by itself: from a well-formed store, with a rate whose period \<^verbatim>\<open>tokio\<close>
  accepts, the loop makes every tick it is given time for without a panic, whatever the clocks
  show, and after them the store, the models and the subscriptions are well formed and the
  store holds objects under the same identifiers as before.
\<close>

theorem engine_runs_on:
  assumes "store_ok fx (se_store eng)" and "models_ok (se_models eng)" and "hm_wf (se_cov eng)"
    and "engine_period interval (se_tick_hz eng) = Ok period"
  shows "\<exists>eng1. engine_run env interval start cs eng = Ok eng1 \<and>
    store_ok fx (se_store eng1) \<and> models_ok (se_models eng1) \<and> hm_wf (se_cov eng1) \<and>
    store_count (se_store eng1) = store_count (se_store eng) \<and>
    (\<forall>d oid. store_get fx (se_store eng1) d oid = None \<longleftrightarrow> store_get fx (se_store eng) d oid = None)"
  using engine_loop_runs [of fx "eng\<lparr>se_last_expire := start\<rparr>"] assms by (simp add: engine_run_def)

theorem engine_runs_on_witness:
  "\<exists>eng1. engine_run example_env example_interval 5
     [\<lparr>tc_elapsed = 1000000000, tc_sys = 0, tc_now = 6, tc_later = 7, tc_took = 3\<rparr>,
      \<lparr>tc_elapsed = 2000000000, tc_sys = 1, tc_now = 8, tc_later = 9, tc_took = 3\<rparr>] example_engine = Ok eng1"
proof -
  have "se_tick_hz example_engine = 0x3FF0000000000000"
    by (simp add: example_engine_def add_model_def sim_engine_new_def)
  then have "engine_period example_interval (se_tick_hz example_engine) = Ok 1000000000"
    using engine_period_one [of example_interval] by (simp add: example_interval_def)
  from engine_runs_on [OF example_engine_ok this] show ?thesis by blast
qed

end
