(* ===== verification/Simulator.thy ===== *)
theory Simulator
  imports Startup Object_Server Engine_Loop
begin

text \<open>
  The running program: the tasks that \<^verbatim>\<open>crates/bacnet-sim/src/main.rs\<close> starts, interleaved over the
  store they share.  A step is what one task does between two points where another can run: the
  dispatcher handles a frame, the API a request, and the engine starts a tick, works on one shard
  under its lock, or ends the tick.  A request that reads several objects is one step.

  Theorems are about every sequence of steps from a started program.
\<close>

subsection \<open>The world\<close>

text \<open>What the libraries and the machine provide.\<close>

record ('g, 'n) platform =
  pf_models :: "'g model_env"
  pf_hash :: hash_fn
  pf_json :: "'n json_lib"
  pf_unicode :: "bytes \<Rightarrow> bytes"
  pf_files :: "rstring \<Rightarrow> rstring option"
  pf_interval :: "duration \<Rightarrow> unit bres"

text \<open>The local variables of a tick that is under way.\<close>

record tick_progress =
  tp_t :: f64
  tp_sys :: system_time
  tp_period :: duration
  tp_now :: instant
  tp_shard :: nat
  tp_changed :: "change list"

type_synonym 'g world = "'g simulator \<times> tick_progress option"

text \<open>The store is one: whoever has changed it, all see it.\<close>

definition with_store :: "store \<Rightarrow> 'g simulator \<Rightarrow> 'g simulator" where
  "with_store st s =
     (case s of (eng, d, api) \<Rightarrow> (eng\<lparr>se_store := st\<rparr>, d\<lparr>dp_store := st\<rparr>, api\<lparr>as_store := st\<rparr>))"

definition world_store :: "'g world \<Rightarrow> store" where
  "world_store w = dp_store (fst (snd (fst w)))"

text \<open>The part of a tick after its last shard.\<close>

definition tick_end ::
    "tick_progress \<Rightarrow> instant \<Rightarrow> duration \<Rightarrow> 'g sim_engine \<Rightarrow> engine_notification list \<times> 'g sim_engine" where
  "tick_end tk later took eng =
     (let (cov_sent, ns, subs) = notify_changes later (tp_changed tk) (se_cov eng);
          expire = 10 \<le> (tp_now tk - se_last_expire eng) div 1000000000
      in (ns, eng\<lparr>se_sent := se_sent eng @ ns,
                  se_cov_notifications_total := se_cov_notifications_total eng + of_nat cov_sent,
                  se_cov := if expire then snd (expire_old later subs) else subs,
                  se_last_expire := if expire then tp_now tk else se_last_expire eng,
                  se_last_tick_nanos := of_nat took\<rparr>))"

subsection \<open>Steps\<close>

datatype 'n sim_event =
    Frame_In system_time instant inbound_frame
  | Http_In system_time instant "'n api_request"
  | Tick_Starts duration system_time instant
  | Tick_Shard
  | Tick_Ends instant duration

datatype 'n sim_output =
    Frames_Out "outbound_frame list"
  | Http_Out "'n api_response ares"
  | Notified "engine_notification list"

inductive sim_step :: "('g, 'n) platform \<Rightarrow> 'g world \<Rightarrow> 'n sim_event \<Rightarrow> 'n sim_output \<Rightarrow> 'g world \<Rightarrow> bool"
  for pf :: "('g, 'n) platform" where
  frame: "handle_frame (pf_hash pf) sys now d f = (r, d1) \<Longrightarrow>
    sim_step pf ((eng, d, api), tk) (Frame_In sys now f) (Frames_Out (frame_output r))
      (with_store (dp_store d1) (eng, d1, api), tk)"
| http: "api_serve (pf_json pf) (pf_hash pf) (pf_unicode pf) (pf_files pf) sys now req api = (r, api1) \<Longrightarrow>
    sim_step pf ((eng, d, api), tk) (Http_In sys now req) (Http_Out r)
      (with_store (as_store api1) (eng, d, api1), tk)"
| tick_starts: "engine_period (pf_interval pf) (se_tick_hz eng) = Ok period \<Longrightarrow>
    sim_step pf ((eng, d, api), None) (Tick_Starts elapsed sys now) (Notified [])
      ((eng, d, api), Some \<lparr>tp_t = as_secs_f64 elapsed, tp_sys = sys, tp_period = period, tp_now = now,
         tp_shard = 0, tp_changed = []\<rparr>)"
| tick_shard: "tp_shard tk < length (se_store eng) \<Longrightarrow>
    tick_shard (pf_models pf) (tp_t tk) (tp_sys tk) (tp_period tk) (tp_now tk)
      (se_store eng ! tp_shard tk) (se_models eng) = Ok (m, models, ch) \<Longrightarrow>
    sim_step pf ((eng, d, api), Some tk) Tick_Shard (Notified [])
      (with_store ((se_store eng)[tp_shard tk := m]) (eng\<lparr>se_models := models\<rparr>, d, api),
       Some (tk\<lparr>tp_shard := Suc (tp_shard tk), tp_changed := tp_changed tk @ ch\<rparr>))"
| tick_ends: "length (se_store eng) \<le> tp_shard tk \<Longrightarrow> tick_end tk later took eng = (ns, eng1) \<Longrightarrow>
    sim_step pf ((eng, d, api), Some tk) (Tick_Ends later took) (Notified ns) ((eng1, d, api), None)"

inductive_cases sim_step_frame: "sim_step pf w (Frame_In sys now f) out w'"
inductive_cases sim_step_http: "sim_step pf w (Http_In sys now req) out w'"

inductive sim_runs :: "('g, 'n) platform \<Rightarrow> 'g world \<Rightarrow> ('n sim_event \<times> 'n sim_output) list \<Rightarrow> 'g world \<Rightarrow> bool"
  for pf :: "('g, 'n) platform" where
  none: "sim_runs pf w [] w"
| more: "sim_runs pf w tr w1 \<Longrightarrow> sim_step pf w1 e out w2 \<Longrightarrow> sim_runs pf w (tr @ [(e, out)]) w2"

lemma sim_runs_append:
  "sim_runs pf w1 tr2 w2 \<Longrightarrow> sim_runs pf w tr1 w1 \<Longrightarrow> sim_runs pf w (tr1 @ tr2) w2"
proof (induction rule: sim_runs.induct)
  case (more w1 tr w2 e out w3)
  from sim_runs.more [OF more.IH [OF more.prems] more.hyps(2)] show ?case by simp
qed simp

subsection \<open>The invariant\<close>

definition world_ok :: "hash_fn \<Rightarrow> 'g world \<Rightarrow> bool" where
  "world_ok fx w =
     (case w of ((eng, d, api), tk) \<Rightarrow>
        dispatcher_ok fx d \<and> se_store eng = dp_store d \<and> as_store api = dp_store d \<and>
        models_ok (se_models eng) \<and> hm_wf (se_cov eng) \<and>
        (case tk of None \<Rightarrow> True | Some t \<Rightarrow> tp_shard t \<le> num_shards))"

lemma world_ok_store: "world_ok fx w \<Longrightarrow> store_ok fx (world_store w)"
  by (auto simp: world_ok_def world_store_def dispatcher_ok_def split: prod.splits)

text \<open>The tick of one shard.\<close>

lemma tick_shard_ok:
  assumes "shard_ok fx s m" and "models_ok models"
  shows "\<exists>m1 models1 ch. tick_shard env t sys period now m models = Ok (m1, models1, ch) \<and>
    shard_ok fx s m1 \<and> models_ok models1 \<and>
    (\<forall>k. rel_option (\<lambda>ob ob1. \<exists>eo eo1. obj_ok ob \<and> ticked env t sys period now ob eo ob1 eo1) (map_of m k) (map_of m1 k))"
proof -
  have m: "distinct (map fst m)" "\<forall>(k, ob) \<in> set m. obj_ok ob"
    using assms(1) by (auto simp: shard_ok_def hm_wf_def)
  from tick_shard_ticked [OF m assms(2), of env t sys period now] obtain m1 models1 ch where
    1: "tick_shard env t sys period now m models = Ok (m1, models1, ch)" "map fst m1 = map fst m" "models_ok models1"
      "\<forall>k ob. map_of m k = Some ob \<longrightarrow> (\<exists>ob1. map_of m1 k = Some ob1 \<and>
        ticked env t sys period now ob (map_of models k) ob1 (map_of models1 k))" by blast
  have rel: "rel_option (\<lambda>ob ob1. \<exists>eo eo1. obj_ok ob \<and> ticked env t sys period now ob eo ob1 eo1) (map_of m k) (map_of m1 k)" for k
  proof (cases "map_of m k")
    case None
    then have "k \<notin> set (map fst m1)" unfolding 1(2) by (simp add: map_of_eq_None_iff)
    then have "map_of m1 k = None" by (simp add: map_of_eq_None_iff)
    with None show ?thesis by simp
  next
    case (Some ob)
    moreover have "obj_ok ob" using m(2) map_of_SomeD [OF Some] by auto
    ultimately show ?thesis using 1(4) [rule_format, OF Some] by (auto intro!: exI)
  qed
  have "shard_index fx k = s \<and> obj_ok ob1 \<and> snd k = snd (obj_key 0 (obj_object_id ob1))" if e: "(k, ob1) \<in> set m1" for k ob1
  proof -
    have m1: "map_of m1 k = Some ob1" using e m(1) by (simp add: 1(2))
    with rel [of k] obtain ob eo eo1 where ob: "map_of m k = Some ob" "ticked env t sys period now ob eo ob1 eo1"
      by (auto simp: option_rel_Some2)
    with assms(1) map_of_SomeD [OF ob(1)] show ?thesis by (auto simp: ticked_def shard_ok_def)
  qed
  then have "shard_ok fx s m1" using m(1) 1(2) by (auto simp: shard_ok_def hm_wf_def)
  with 1 rel show ?thesis by blast
qed

subsection \<open>What steps do to objects\<close>

text \<open>
  A relation between an object and what becomes of it that writes and ticks keep holds, for every
  place of the store, between the beginning and the end of a run.
\<close>

definition related :: "(bacnet_object \<Rightarrow> bacnet_object \<Rightarrow> bool) \<Rightarrow> hash_fn \<Rightarrow> store \<Rightarrow> store \<Rightarrow> bool" where
  "related R fx st st1 \<longleftrightarrow> (\<forall>dev oid. rel_option R (store_get fx st dev oid) (store_get fx st1 dev oid))"

lemma store_get_modify:
  assumes "length st = num_shards"
  shows "store_get fx (snd (store_modify fx st d oid f)) e oid' =
    (if obj_key e oid' = obj_key d oid then map_option (\<lambda>ob. snd (f ob)) (store_get fx st e oid')
     else store_get fx st e oid')"
proof (cases "store_get fx st d oid")
  case (Some ob)
  let ?k = "obj_key d oid"
  have k: "map_of (st ! shard_index fx ?k) ?k = Some ob"
    using Some by (simp add: store_get_def shard_key_def)
  have "shard_index fx ?k < length st" using assms shard_index_less by simp
  with k show ?thesis
    by (simp add: store_modify_def Some shard_key_def case_prod_unfold Let_def store_get_def nth_list_update)
next
  case None
  then have "store_get fx st e oid' = None" if "obj_key e oid' = obj_key d oid"
    using that by (simp add: store_get_def shard_key_def)
  with None show ?thesis by (auto simp: store_modify_def)
qed

text \<open>The store after a frame or a request is the old one, or one with one object written.\<close>

lemma handle_frame_writes:
  obtains "dp_store (snd (handle_frame fx sys now d f)) = dp_store d"
    | req w dev where "meaning (in_npdu f) = Asks req" "cr_service req = Req_WriteProperty w"
      "dp_store (snd (handle_frame fx sys now d f)) = snd (store_write fx now (dp_store d) dev (wp_object_id w)
         (wp_property_id w) (wp_array_index w) (wp_value w) (wp_priority w))"
proof (cases "meaning (in_npdu f)")
  case (Asks req)
  then have h: "handle_frame fx sys now d f = handle_confirmed fx sys now d req (in_src f)"
    by (auto simp: meaning_def handle_frame_def split: rres.splits list.splits if_splits)
  show thesis
  proof (cases rule: resolve_device_cases [of d req "in_src f"])
    case (resolved dev d1)
    have d1: "dp_store d1 = dp_store d"
      using resolved by (auto simp: resolve_device_def split: rres.splits option.splits if_splits)
    have "dp_store (snd (handle_frame fx sys now d f)) = snd (answer fx sys now (dp_store d) dev req)"
      by (simp add: h handle_confirmed_def resolved d1 case_prod_beta Let_def)
    moreover have "snd (answer fx sys now (dp_store d) dev req) = dp_store d \<or> (\<exists>w. cr_service req = Req_WriteProperty w \<and>
        snd (answer fx sys now (dp_store d) dev req) = snd (store_write fx now (dp_store d) dev (wp_object_id w)
          (wp_property_id w) (wp_array_index w) (wp_value w) (wp_priority w)))"
      by (auto simp: answer_def handle_write_property_def Let_def case_prod_beta split: confirmed_service_request.split)
    ultimately show thesis using that Asks by metis
  next
    case unknown
    with h that(1) show thesis by (simp add: handle_confirmed_def)
  qed
qed (use that(1) in \<open>auto simp: meaning_def handle_frame_def split: rres.splits list.splits if_splits\<close>)

lemma write_property_writes:
  assumes "write_property jl fx uni sys now api d t i p v = (r, api1)"
  obtains "api1 = api"
    | ty pid pv where "rest_object_type uni t = Ok ty"
      "as_store api1 = snd (store_force_write fx sys now (as_store api) d \<lparr>oid_type = ty, oid_instance = i\<rparr> pid pv)"
proof (cases "rest_object_type uni t")
  case (Ok ty)
  let ?oid = "\<lparr>oid_type = ty, oid_instance = i\<rparr>"
  show thesis
  proof (cases "rest_property_id uni p")
    case pid: (Ok pid)
    show thesis
    proof (cases "store_get fx (as_store api) d ?oid")
      case (Some ob)
      show thesis
      proof (cases "json_to_property_value jl v pid")
        case (Inr pv)
        obtain w st where w: "store_force_write fx sys now (as_store api) d ?oid pid pv = (w, st)"
          by (cases "store_force_write fx sys now (as_store api) d ?oid pid pv")
        have "(r, api1) = (case w of Ok () \<Rightarrow> (Ok 204, api\<lparr>as_store := st\<rparr>)
            | Err e \<Rightarrow> (Err (bad_request (jl_debug_error jl e)), api\<lparr>as_store := st\<rparr>)
            | Panic \<Rightarrow> (Panic, api\<lparr>as_store := st\<rparr>))"
          using assms by (simp add: write_property_def Ok pid Some Inr w Let_def)
        then have "as_store api1 = st" by (cases w) (simp_all add: case_unit_Unity)
        with that(2) [OF Ok, of pid pv] w show thesis by simp
      qed (use assms Ok pid Some that(1) in \<open>auto simp: write_property_def Let_def\<close>)
    qed (use assms Ok pid that(1) in \<open>auto simp: write_property_def Let_def\<close>)
  qed (use assms Ok that(1) in \<open>auto simp: write_property_def Let_def\<close>)
qed (use assms that(1) in \<open>auto simp: write_property_def\<close>)

lemma api_serve_writes:
  assumes "api_serve jl fx uni files sys now req api = (r, api1)"
  obtains "api1 = api"
    | d t i p v ty pid pv where "req = Put_Property d t i p v" "rest_object_type uni t = Ok ty"
      "as_store api1 = snd (store_force_write fx sys now (as_store api) d \<lparr>oid_type = ty, oid_instance = i\<rparr> pid pv)"
proof (cases req)
  case (Put_Property d t i p v)
  obtain w state1 where w: "write_property jl fx uni sys now api d t i p v = (w, state1)"
    by (cases "write_property jl fx uni sys now api d t i p v")
  with assms have s: "state1 = api1" by (simp add: api_serve_def Put_Property)
  show thesis
    using w unfolding s by (cases rule: write_property_writes) (use that Put_Property in \<open>blast+\<close>)
qed (use assms that(1) in \<open>simp_all add: api_serve_def\<close>)

lemma store_force_write_ok:
  "store_ok fx st \<Longrightarrow> store_ok fx (snd (store_force_write fx sys now st d oid pid v))"
  unfolding store_force_write_def obj_force_write_def
  by (rule objstore.ok_modify) (use objects.force_ok objects.force_oid in blast)+

lemma api_serve_ok:
  assumes "store_ok fx (as_store api)" and "api_serve jl fx uni files sys now req api = (r, api1)"
  shows "store_ok fx (as_store api1)"
  using assms(2) by (cases rule: api_serve_writes) (simp_all add: assms(1) store_force_write_ok)

lemma store_put_shard_ok:
  "store_ok fx st \<Longrightarrow> shard_ok fx s m \<Longrightarrow> store_ok fx (st[s := m])"
  by (cases "s < length st") (auto simp: store_ok_def nth_list_update)

lemma tick_end_simps:
  assumes "tick_end tk later took eng = (ns, eng1)"
  shows "se_store eng1 = se_store eng" "se_models eng1 = se_models eng" "se_tick_hz eng1 = se_tick_hz eng"
    "hm_wf (se_cov eng) \<Longrightarrow> hm_wf (se_cov eng1)"
  using assms notify_changes_wf [of "se_cov eng" later "tp_changed tk"]
    expire_old_wf [of "snd (snd (notify_changes later (tp_changed tk) (se_cov eng)))" later]
  by (auto simp: tick_end_def Let_def case_prod_beta split: if_splits)

lemma sim_step_ok:
  assumes "sim_step pf w e out w'" and "world_ok (pf_hash pf) w"
  shows "world_ok (pf_hash pf) w'"
  using assms
proof (induction rule: sim_step.induct)
  case (frame sys now d f r d1 eng api tk)
  have "dispatcher_ok (pf_hash pf) d" using frame.prems by (simp add: world_ok_def)
  then have d1: "dispatcher_ok (pf_hash pf) d1" using handle_frame_ok [of "pf_hash pf" d sys now f] frame.hyps by simp
  then have "d1\<lparr>dp_store := dp_store d1\<rparr> = d1" by simp
  with frame.prems d1 show ?case by (simp add: world_ok_def with_store_def)
next
  case (http sys now req api r api1 eng d tk)
  have "store_ok (pf_hash pf) (as_store api)" using http.prems by (simp add: world_ok_def dispatcher_ok_def)
  from api_serve_ok [OF this http.hyps] http.prems show ?case
    by (simp add: world_ok_def with_store_def dispatcher_ok_store)
next
  case (tick_starts eng period d api elapsed sys now)
  then show ?case by (simp add: world_ok_def)
next
  case (tick_shard tk eng m models ch d api)
  have ok: "store_ok (pf_hash pf) (se_store eng)" "models_ok (se_models eng)" "dispatcher_ok (pf_hash pf) d"
    using tick_shard.prems by (simp_all add: world_ok_def dispatcher_ok_def)
  have len: "length (se_store eng) = num_shards" using ok(1) by (simp add: store_ok_def)
  then have "shard_ok (pf_hash pf) (tp_shard tk) (se_store eng ! tp_shard tk)"
    using ok(1) tick_shard.hyps(1) by (simp add: store_ok_def)
  from tick_shard_ok [OF this ok(2), of "pf_models pf" "tp_t tk" "tp_sys tk" "tp_period tk" "tp_now tk"]
  have "shard_ok (pf_hash pf) (tp_shard tk) m" "models_ok models" using tick_shard.hyps(2) by auto
  then have "store_ok (pf_hash pf) ((se_store eng)[tp_shard tk := m])" "models_ok models"
    using store_put_shard_ok [OF ok(1)] by blast+
  with ok(3) tick_shard.prems tick_shard.hyps(1) len show ?case
    by (simp add: world_ok_def with_store_def dispatcher_ok_store)
next
  case (tick_ends eng tk later took ns eng1 d api)
  from tick_end_simps [OF tick_ends.hyps(2)] tick_ends.prems show ?case by (simp add: world_ok_def)
qed

lemma sim_runs_ok: "sim_runs pf w tr w' \<Longrightarrow> world_ok (pf_hash pf) w \<Longrightarrow> world_ok (pf_hash pf) w'"
  by (induction rule: sim_runs.induct) (simp_all add: sim_step_ok)

text \<open>What a step does to the store: nothing, one write, or the tick of one shard.\<close>

lemma world_store_with [simp]: "world_store (with_store st s, tk) = st"
  by (simp add: world_store_def with_store_def split: prod.split)

lemma with_store_models [simp]: "se_models (fst (with_store st s)) = se_models (fst s)"
  by (simp add: with_store_def split: prod.split)

lemma store_get_shard_update:
  assumes "s < length st"
    and "\<And>k. rel_option Q (map_of (st ! s) k) (map_of m k)" and "\<And>ob. Q ob ob"
  shows "related Q fx st (st[s := m])"
proof -
  have "rel_option Q (store_get fx st dev oid) (store_get fx (st[s := m]) dev oid)" for dev oid
    using assms(1,3) assms(2) [of "obj_key dev oid"]
    by (cases "s = shard_index fx (obj_key dev oid)")
      (simp_all add: store_get_def shard_key_def nth_list_update option.rel_refl)
  then show ?thesis by (simp add: related_def)
qed

lemma sim_step_store:
  assumes "sim_step pf w e out w'" and "world_ok (pf_hash pf) w"
  obtains (kept) "world_store w' = world_store w"
  | (net_write) sys now f req x d where "e = Frame_In sys now f" "meaning (in_npdu f) = Asks req"
        "cr_service req = Req_WriteProperty x"
        "world_store w' = snd (store_write (pf_hash pf) now (world_store w) d (wp_object_id x)
           (wp_property_id x) (wp_array_index x) (wp_value x) (wp_priority x))"
    | (http_put) sys now d t i p v ty pid pv where "e = Http_In sys now (Put_Property d t i p v)"
        "rest_object_type (pf_unicode pf) t = Ok ty"
        "world_store w' = snd (store_force_write (pf_hash pf) sys now (world_store w) d
           \<lparr>oid_type = ty, oid_instance = i\<rparr> pid pv)"
    | (one_shard) s m models models1 ch t sys period now where "e = Tick_Shard" "s < length (world_store w)"
        "models_ok models" "models = se_models (fst (fst w))" "models1 = se_models (fst (fst w'))"
        "tick_shard (pf_models pf) t sys period now (world_store w ! s) models = Ok (m, models1, ch)"
        "world_store w' = (world_store w)[s := m]"
  using assms
proof (induction rule: sim_step.induct)
  case (frame sys now d f r d1 eng api tk)
  have d1: "d1 = snd (handle_frame (pf_hash pf) sys now d f)" using frame.hyps by simp
  have "world_store ((eng, d, api), tk) = dp_store d" by (simp add: world_store_def)
  then show ?case
    using frame.prems(1,2) by (cases rule: handle_frame_writes [of "pf_hash pf" sys now d f]) (simp_all add: d1)
next
  case (http sys now req api r api1 eng d tk)
  have "world_store ((eng, d, api), tk) = as_store api" using http.prems by (simp add: world_store_def world_ok_def)
  then show ?case
    using http.prems(1,3) by (cases rule: api_serve_writes [OF http.hyps]) simp_all
next
  case (tick_starts eng period d api elapsed sys now)
  show ?case by (rule tick_starts.prems(1)) (simp add: world_store_def)
next
  case (tick_shard tk eng m models ch d api)
  have "world_store ((eng, d, api), Some tk) = se_store eng" "models_ok (se_models eng)"
    using tick_shard.prems by (simp_all add: world_store_def world_ok_def)
  with tick_shard.hyps show ?case by (intro tick_shard.prems(4)) simp_all
next
  case (tick_ends eng tk later took ns eng1 d api)
  show ?case by (rule tick_ends.prems(1)) (simp add: world_store_def)
qed

locale kept_relation =
  fixes R :: "bacnet_object \<Rightarrow> bacnet_object \<Rightarrow> bool"
  assumes refl: "R ob ob"
    and trans: "R a b \<Longrightarrow> R b c \<Longrightarrow> R a c"
    and written: "obj_ok ob \<Longrightarrow> R ob (snd (obj_write_property now ob pid i v pr))"
    and ticked_by: "obj_ok ob \<Longrightarrow> obj_tick sys period ob = Ok ob1 \<Longrightarrow> R ob ob1"
begin

lemma forced: "obj_ok ob \<Longrightarrow> R ob (snd (obj_force_write sys now ob pid v))"
proof -
  assume ok: "obj_ok ob"
  have w: "obj_ok a \<longrightarrow> obj_ok b \<and> R a b" if "obj_write_property now a p i x pr = (r, b)" for a p i x pr r b
    using written [of a now p i x pr] objects.wr_ok [of a now p i x pr] that by simp
  show ?thesis
    using ok refl
    by (auto simp: obj_force_write_def force_write_property_def Let_def split: prod.split rres.split dest!: w intro: trans)
qed

lemma model_ticked: "obj_ok ob \<Longrightarrow> ticked env t sys period now ob eo ob1 eo1 \<Longrightarrow> R ob ob1"
proof -
  assume ok: "obj_ok ob" and "ticked env t sys period now ob eo ob1 eo1"
  then have "(\<exists>v. obj_tick sys period (snd (obj_force_write sys now ob PID_PresentValue v)) = Ok ob1) \<or> obj_tick sys period ob = Ok ob1"
    by (auto simp: ticked_def split: option.splits)
  moreover have "obj_ok (snd (obj_force_write sys now ob PID_PresentValue v))" for v
    using objects.force_ok [OF ok] by (simp add: obj_force_write_def)
  ultimately show ?thesis using ok forced ticked_by trans by blast
qed

lemma modify_related:
  assumes "store_ok fx st" and "\<And>ob. obj_ok ob \<Longrightarrow> R ob (snd (f ob))"
  shows "related R fx st (snd (store_modify fx st d oid f))"
proof -
  have "rel_option R (store_get fx st e oid') (store_get fx (snd (store_modify fx st d oid f)) e oid')" for e oid'
    using assms(2) refl objstore.get_ok [OF assms(1), of e oid']
    by (cases "store_get fx st e oid'") (simp_all add: store_get_modify assms(1) [unfolded store_ok_def])
  then show ?thesis by (simp add: related_def)
qed

lemma step_related:
  assumes "sim_step pf w e out w'" and "world_ok (pf_hash pf) w"
  shows "related R (pf_hash pf) (world_store w) (world_store w')"
  using assms
proof (cases rule: sim_step_store)
  case kept
  then show ?thesis using refl by (simp add: related_def option.rel_refl)
next
  case (net_write sys now f req x d)
  then show ?thesis
    unfolding net_write(4) store_write_def by (intro modify_related world_ok_store assms(2) written)
next
  case (http_put sys now d t i p v ty pid pv)
  then show ?thesis
    unfolding http_put(3) store_force_write_def by (intro modify_related world_ok_store assms(2) forced)
next
  case (one_shard s m models models1 ch t sys period now)
  have "shard_ok (pf_hash pf) s (world_store w ! s)"
    using world_ok_store [OF assms(2)] one_shard(2) by (simp add: store_ok_def)
  from tick_shard_ok [OF this one_shard(3), of "pf_models pf" t sys period now] one_shard(6)
  have "rel_option (\<lambda>ob ob1. \<exists>eo eo1. obj_ok ob \<and> ticked (pf_models pf) t sys period now ob eo ob1 eo1)
      (map_of (world_store w ! s) k) (map_of m k)" for k by (auto simp del: split_paired_All)
  then have "rel_option R (map_of (world_store w ! s) k) (map_of m k)" for k
    by (rule option.rel_mono_strong) (use model_ticked in blast)
  then show ?thesis unfolding one_shard(7) using one_shard(2) refl by (intro store_get_shard_update)
qed

lemma related_trans: "related R fx a b \<Longrightarrow> related R fx b c \<Longrightarrow> related R fx a c"
  unfolding related_def
proof (intro allI)
  fix dev oid
  assume "\<forall>dev oid. rel_option R (store_get fx a dev oid) (store_get fx b dev oid)"
    and "\<forall>dev oid. rel_option R (store_get fx b dev oid) (store_get fx c dev oid)"
  then have "rel_option R (store_get fx a dev oid) (store_get fx b dev oid)"
    "rel_option R (store_get fx b dev oid) (store_get fx c dev oid)" by blast+
  then show "rel_option R (store_get fx a dev oid) (store_get fx c dev oid)"
    by (cases "store_get fx a dev oid"; cases "store_get fx b dev oid"; cases "store_get fx c dev oid") (auto intro: trans)
qed

lemma runs_related:
  "sim_runs pf w tr w' \<Longrightarrow> world_ok (pf_hash pf) w \<Longrightarrow> related R (pf_hash pf) (world_store w) (world_store w')"
proof (induction rule: sim_runs.induct)
  case (none w)
  show ?case using refl by (simp add: related_def option.rel_refl)
next
  case (more w tr w1 e out w2)
  from step_related [OF more.hyps(2) sim_runs_ok [OF more.hyps(1) more.prems]] more.IH [OF more.prems]
  show ?case by (rule related_trans [rotated])
qed

end

text \<open>Identifiers stay, and a Device object is never changed at all.\<close>

definition same_identity :: "bacnet_object \<Rightarrow> bacnet_object \<Rightarrow> bool" where
  "same_identity a b \<longleftrightarrow> obj_object_id b = obj_object_id a \<and> (\<forall>x. a = Obj_Device x \<longrightarrow> b = a)"

interpretation identity: kept_relation same_identity
proof (unfold_locales, goal_cases)
  case (1 ob)
  show ?case by (simp add: same_identity_def)
next
  case (2 a b c)
  then show ?case by (auto simp: same_identity_def)
next
  case (3 ob now pid i v pr)
  then show ?case using objects.wr_oid [of now ob pid i v pr]
    by (cases ob) (simp_all add: same_identity_def dev_write_property_def)
next
  case (4 ob sys period ob1)
  then show ?case by (elim obj_tick_ok [of ob sys period]) (cases ob, auto simp: same_identity_def)
qed

subsection \<open>A world in which nothing happens by itself\<close>

definition inert :: "bacnet_object \<Rightarrow> bool" where
  "inert ob = (case ob of Obj_TrendLog _ \<Rightarrow> False | Obj_Schedule _ \<Rightarrow> False | _ \<Rightarrow> True)"

definition quiet :: "'g world \<Rightarrow> bool" where
  "quiet w \<longleftrightarrow>
     (case w of ((eng, d, api), tk) \<Rightarrow>
        se_models eng = [] \<and> se_cov eng = [] \<and> se_sent eng = [] \<and> se_cov_notifications_total eng = 0 \<and>
        (case tk of None \<Rightarrow> True | Some t \<Rightarrow> tp_changed t = []))"

lemma tick_inert: "inert ob \<Longrightarrow> obj_tick sys period ob = Ok ob"
  by (cases ob) (simp_all add: inert_def)

lemma tick_shard_no_models:
  "tick_shard env t sys period now m [] = Ok (m1, models1, ch) \<Longrightarrow>
    models1 = [] \<and> ch = [] \<and> rel_option (\<lambda>ob ob1. obj_tick sys period ob = Ok ob1) (map_of m k) (map_of m1 k)"
proof (induction m arbitrary: m1 models1 ch)
  case (Cons p m)
  obtain j ob where p: "p = (j, ob)" by (cases p)
  from Cons.prems obtain ob1 m2 models2 ch1 where
    "obj_tick sys period ob = Ok ob1" "tick_shard env t sys period now m [] = Ok (m2, models2, ch1)"
    "m1 = (j, ob1) # m2" "models1 = models2" "ch = ch1"
    by (auto simp: p tick_object_def rbind_eq_Ok split: prod.splits)
  with Cons.IH show ?case by (simp add: p)
qed simp

lemma notify_changes_none [simp]: "notify_changes now [] subs = (0, [], subs)"
  by simp

lemma sim_step_quiet:
  assumes "sim_step pf w e out w'" and "quiet w"
  shows "quiet w'" and "\<forall>ns. out = Notified ns \<longrightarrow> ns = []"
proof -
  have "quiet w' \<and> (\<forall>ns. out = Notified ns \<longrightarrow> ns = [])"
    using assms
  proof (induction rule: sim_step.induct)
    case (tick_shard tk eng m models ch d api)
    then have "tick_shard (pf_models pf) (tp_t tk) (tp_sys tk) (tp_period tk) (tp_now tk)
        (se_store eng ! tp_shard tk) [] = Ok (m, models, ch)" by (simp add: quiet_def)
    from tick_shard_no_models [OF this] tick_shard.prems show ?case by (simp add: quiet_def with_store_def)
  qed (auto simp: quiet_def with_store_def tick_end_def expire_old_def Let_def)
  then show "quiet w'" and "\<forall>ns. out = Notified ns \<longrightarrow> ns = []" by simp_all
qed

text \<open>The identifier an event writes to, as the store's key has it.\<close>

definition written_key :: "(bytes \<Rightarrow> bytes) \<Rightarrow> 'n sim_event \<Rightarrow> u64 option" where
  "written_key uni e =
     (case e of
        Frame_In sys now f \<Rightarrow>
          (case meaning (in_npdu f) of
             Asks req \<Rightarrow>
               (case cr_service req of Req_WriteProperty x \<Rightarrow> Some (snd (obj_key 0 (wp_object_id x))) | _ \<Rightarrow> None)
           | _ \<Rightarrow> None)
      | Http_In sys now (Put_Property d t i p v) \<Rightarrow>
          (case rest_object_type uni t of
             Ok ty \<Rightarrow> Some (snd (obj_key 0 \<lparr>oid_type = ty, oid_instance = i\<rparr>))
           | _ \<Rightarrow> None)
      | _ \<Rightarrow> None)"

lemma sim_step_unwritten:
  assumes "sim_step pf w e out w'" and "world_ok (pf_hash pf) w" and "quiet w"
    and "store_get (pf_hash pf) (world_store w) dev oid = Some ob" and "inert ob"
    and "written_key (pf_unicode pf) e \<noteq> Some (snd (obj_key 0 oid))"
  shows "store_get (pf_hash pf) (world_store w') dev oid = Some ob"
proof -
  have len: "length (world_store w) = num_shards"
    using world_ok_store [OF assms(2)] by (simp add: store_ok_def)
  note modify = store_get_modify [OF len]
  show ?thesis
    using assms(1,2)
  proof (cases rule: sim_step_store)
    case kept
    then show ?thesis using assms(4) by simp
  next
    case (net_write sys now f req x d)
    then have "snd (obj_key d (wp_object_id x)) \<noteq> snd (obj_key dev oid)"
      using assms(6) obj_key_snd [of d _ 0] obj_key_snd [of dev _ 0] by (simp add: written_key_def)
    then have "obj_key dev oid \<noteq> obj_key d (wp_object_id x)" by metis
    then show ?thesis using net_write(4) assms(4) by (simp add: store_write_def modify)
  next
    case (http_put sys now d t i p v ty pid pv)
    let ?oid = "\<lparr>oid_type = ty, oid_instance = i\<rparr>"
    have "snd (obj_key d ?oid) \<noteq> snd (obj_key dev oid)"
      using assms(6) http_put obj_key_snd [of d _ 0] obj_key_snd [of dev _ 0] by (simp add: written_key_def)
    then have "obj_key dev oid \<noteq> obj_key d ?oid" by metis
    then show ?thesis using http_put(3) assms(4) by (simp add: store_force_write_def modify)
  next
    case (one_shard s m models models1 ch t sys period now)
    have "models = []" using assms(3) one_shard(4) by (auto simp: quiet_def)
    with tick_shard_no_models one_shard(6)
    have r: "rel_option (\<lambda>ob ob1. obj_tick sys period ob = Ok ob1) (map_of (world_store w ! s) k) (map_of m k)" for k
      by blast
    have "map_of m (obj_key dev oid) = Some ob" if "s = shard_index (pf_hash pf) (obj_key dev oid)"
      using r [of "obj_key dev oid"] assms(4) that tick_inert [OF assms(5)]
      by (auto simp: store_get_def shard_key_def option_rel_Some1)
    then show ?thesis
      using assms(4) one_shard(2,7) by (auto simp: store_get_def shard_key_def nth_list_update)
  qed
qed

lemma sim_runs_quiet:
  "sim_runs pf w tr w' \<Longrightarrow> quiet w \<Longrightarrow> quiet w' \<and> (\<forall>(e, out) \<in> set tr. \<forall>ns. out = Notified ns \<longrightarrow> ns = [])"
  by (induction rule: sim_runs.induct) (auto dest: sim_step_quiet)

lemma sim_runs_unwritten:
  assumes "sim_runs pf w tr w'" and "world_ok (pf_hash pf) w" and "quiet w"
    and "store_get (pf_hash pf) (world_store w) dev oid = Some ob" and "inert ob"
    and "\<forall>(e, out) \<in> set tr. written_key (pf_unicode pf) e \<noteq> Some (snd (obj_key 0 oid))"
  shows "store_get (pf_hash pf) (world_store w') dev oid = Some ob"
  using assms
proof (induction rule: sim_runs.induct)
  case (more w tr w1 e out w2)
  have "quiet w1" using sim_runs_quiet [OF more.hyps(1) more.prems(2)] ..
  moreover have "world_ok (pf_hash pf) w1" using sim_runs_ok [OF more.hyps(1) more.prems(1)] .
  ultimately show ?case using sim_step_unwritten [OF more.hyps(2)] more.IH more.prems by simp
qed simp

subsection \<open>The started program\<close>

inductive started :: "('g, 'n) platform \<Rightarrow> 'g world \<Rightarrow> bool" for pf :: "('g, 'n) platform" where
  configured_mode: "config_ok config \<Longrightarrow>
    started pf (start_configured (pf_hash pf) (pf_unicode pf) now config, None)"
| demo_mode: "device < 2 ^ 22 \<Longrightarrow> started pf (start_demo (pf_hash pf) now device hz, None)"

definition all_objects :: "(bacnet_object \<Rightarrow> bool) \<Rightarrow> store \<Rightarrow> bool" where
  "all_objects P st \<longleftrightarrow> (\<forall>m \<in> set st. \<forall>(k, ob) \<in> set m. P ob)"

lemma all_objects_insert_all:
  assumes "all_objects P st" and "\<forall>(d, ob) \<in> set b. P ob" and "length st = num_shards"
  shows "all_objects P (store_insert_all fx b st)"
  using assms
proof (induction b arbitrary: st)
  case (Cons p b)
  obtain d ob where p: "p = (d, ob)" by (cases p)
  let ?k = "obj_key d (obj_object_id ob)"
  have s: "shard_index fx ?k < length st" using Cons.prems(3) shard_index_less by simp
  have "\<forall>(k, x) \<in> set (hm_insert ?k ob (st ! shard_index fx ?k)). P x"
    using set_hm_insert [of ?k ob "st ! shard_index fx ?k"] Cons.prems(1,2) nth_mem [OF s]
    by (fastforce simp: p all_objects_def)
  then have "all_objects P (store_insert fx d ob st)"
    using Cons.prems(1) set_update_subset_insert [of st "shard_index fx ?k"]
    by (fastforce simp: all_objects_def store_insert_def shard_key_def)
  from Cons.IH [OF this] Cons.prems show ?case by (simp add: store_insert_all_def p)
qed (simp add: store_insert_all_def)

lemma all_objects_new: "all_objects P store_new" "length store_new = num_shards"
  by (simp_all add: all_objects_def store_new_def)

lemma all_objects_get:
  assumes "all_objects P st" and "length st = num_shards" and "store_get fx st dev oid = Some ob"
  shows "P ob"
proof -
  let ?s = "shard_index fx (obj_key dev oid)"
  have "st ! ?s \<in> set st" using assms(2) shard_index_less by simp
  moreover have "(obj_key dev oid, ob) \<in> set (st ! ?s)"
    using assms(3) by (auto simp: store_get_def shard_key_def dest: map_of_SomeD)
  ultimately show ?thesis using assms(1) by (auto simp: all_objects_def)
qed

text \<open>The builder makes no trend logs and no schedules.\<close>

lemma profile_object_inert: "profile_object uni now dev c i = Some ob \<Longrightarrow> inert ob"
  by (auto simp: profile_object_def Let_def inert_def split: if_splits)

lemma built_inert: "(d, ob) \<in> set (simulation_batch uni now config) \<Longrightarrow> inert ob"
  by (auto simp: set_simulation_batch made_by_def inert_def intro: profile_object_inert [unfolded inert_def])

lemma start_configured_parts:
  assumes "start_configured fx uni now config = (eng, d, api)"
  shows "\<exists>d1. build_simulation fx uni now config (dispatcher_new store_new) = (eng, d) \<and>
    d1 = register_all (devices_of (sc_profiles config) (sc_devices config)) (dispatcher_new store_new) \<and>
    d = d1\<lparr>dp_store := store_insert_all fx (simulation_batch uni now config) store_new\<rparr> \<and>
    eng = sim_engine_new (dp_store d) (ss_tick_hz (sc_simulator config)) now \<and> as_store api = dp_store d"
  using assms bulk_insert_eq_inserts [of store_new fx "simulation_batch uni now config"]
  by (auto simp: start_configured_def build_simulation_eq dispatcher_new_def Let_def all_objects_new(2) split: prod.splits)

lemma started_ok:
  assumes "started pf w"
  shows "world_ok (pf_hash pf) w" and "quiet w" and "all_objects inert (world_store w)"
proof -
  have "world_ok (pf_hash pf) w \<and> quiet w \<and> all_objects inert (world_store w)"
    using assms
  proof cases
    case (configured_mode config now)
    obtain eng d api where p: "fst w = (eng, d, api)" by (cases "fst w")
    then have w: "start_configured (pf_hash pf) (pf_unicode pf) now config = (eng, d, api)"
      using configured_mode(1) by simp
    let ?b = "simulation_batch (pf_unicode pf) now config"
    from start_configured_parts [OF w] have
      d: "d = (register_all (devices_of (sc_profiles config) (sc_devices config)) (dispatcher_new store_new))
          \<lparr>dp_store := store_insert_all (pf_hash pf) ?b store_new\<rparr>" and
      e: "eng = sim_engine_new (dp_store d) (ss_tick_hz (sc_simulator config)) now" "as_store api = dp_store d"
      by blast+
    have "\<forall>(d, ob) \<in> set ?b. obj_ok ob" using simulation_batch_ok by blast
    then have "dispatcher_ok (pf_hash pf) d"
      unfolding d by (intro dispatcher_ok_store register_all_ok dispatcher_new_ok store_new_ok store_insert_all_ok)
    moreover have "all_objects inert (dp_store d)"
      unfolding d using built_inert by (auto intro!: all_objects_insert_all all_objects_new)
    ultimately show ?thesis
      using configured_mode(1) w e
      by (simp add: world_ok_def quiet_def world_store_def sim_engine_new_def models_ok_def)
  next
    case (demo_mode device now hz)
    have "\<forall>(d, ob) \<in> set (demo_batch now device). inert ob" by (auto simp: demo_batch_def inert_def)
    then have "all_objects inert (demo_store (pf_hash pf) now device)"
      unfolding demo_store_eq by (intro all_objects_insert_all all_objects_new)
    moreover have "dispatcher_ok (pf_hash pf) (register_device (device_info_new device)
        (dispatcher_new (demo_store (pf_hash pf) now device)))"
      by (intro register_device_ok dispatcher_new_ok demo_store_ok)
    ultimately show ?thesis
      using demo_mode(1)
      by (simp add: start_demo_def Let_def world_ok_def quiet_def world_store_def sim_engine_new_def models_ok_def
          register_device_def dispatcher_new_def api_register_device_def app_state_new_def)
  qed
  then show "world_ok (pf_hash pf) w" and "quiet w" and "all_objects inert (world_store w)" by simp_all
qed

subsection \<open>A tick from its start to its end\<close>

lemma sim_runs_Cons:
  assumes "sim_step pf w e out w1" and "sim_runs pf w1 tr w2"
  shows "sim_runs pf w ((e, out) # tr) w2"
  using sim_runs_append [OF assms(2) sim_runs.more [OF sim_runs.none assms(1)]] by simp

text \<open>Shard after shard, undisturbed, is the tick of the store.\<close>

lemma shards_in_a_row:
  assumes "tick_store (pf_models pf) (tp_t tk) (tp_sys tk) (tp_period tk) (tp_now tk) st2 (se_models eng) = Ok (st3, models1, ch)"
    and "se_store eng = st1 @ st2" and "dp_store d = st1 @ st2" and "as_store api = st1 @ st2"
    and "tp_shard tk = length st1"
  shows "sim_runs pf ((eng, d, api), Some tk) (replicate (length st2) (Tick_Shard, Notified []))
    (with_store (st1 @ st3) (eng\<lparr>se_models := models1\<rparr>, d, api),
     Some (tk\<lparr>tp_shard := length st1 + length st2, tp_changed := tp_changed tk @ ch\<rparr>))"
  using assms
proof (induction st2 arbitrary: eng d api tk st1 st3 ch)
  case Nil
  have "with_store st1 (eng\<lparr>se_models := se_models eng\<rparr>, d, api) = (eng, d, api)"
    using Nil.prems by (simp add: with_store_def)
  moreover have "tk\<lparr>tp_shard := length st1, tp_changed := tp_changed tk\<rparr> = tk" using Nil.prems(5) by simp
  moreover have "st3 = []" "models1 = se_models eng" "ch = []" using Nil.prems(1) by simp_all
  ultimately show ?case using sim_runs.none [of pf "((eng, d, api), Some tk)"] by simp
next
  case (Cons m st2)
  from Cons.prems(1) obtain m1 models2 ch1 st4 ch2 where
    1: "tick_shard (pf_models pf) (tp_t tk) (tp_sys tk) (tp_period tk) (tp_now tk) m (se_models eng) = Ok (m1, models2, ch1)" and
    2: "tick_store (pf_models pf) (tp_t tk) (tp_sys tk) (tp_period tk) (tp_now tk) st2 models2 = Ok (st4, models1, ch2)" and
    3: "st3 = m1 # st4" "ch = ch1 @ ch2"
    by (auto simp: rbind_eq_Ok split: prod.splits)
  let ?w = "with_store (st1 @ m1 # st2) (eng\<lparr>se_models := models2\<rparr>, d, api)"
  let ?tk = "tk\<lparr>tp_shard := Suc (tp_shard tk), tp_changed := tp_changed tk @ ch1\<rparr>"
  have "sim_step pf ((eng, d, api), Some tk) Tick_Shard (Notified [])
      (with_store ((se_store eng)[tp_shard tk := m1]) (eng\<lparr>se_models := models2\<rparr>, d, api), Some ?tk)"
    using Cons.prems(2,5) 1 by (intro sim_step.tick_shard) simp_all
  then have step: "sim_step pf ((eng, d, api), Some tk) Tick_Shard (Notified []) (?w, Some ?tk)"
    using Cons.prems(2,5) by simp
  have "sim_runs pf (?w, Some ?tk) (replicate (length st2) (Tick_Shard, Notified []))
      (with_store ((st1 @ [m1]) @ st4) (eng\<lparr>se_models := models1\<rparr>, d, api),
       Some (?tk\<lparr>tp_shard := length (st1 @ [m1]) + length st2, tp_changed := tp_changed ?tk @ ch2\<rparr>))"
    using Cons.IH [of ?tk "(eng\<lparr>se_models := models2\<rparr>)\<lparr>se_store := st1 @ m1 # st2\<rparr>" st4 ch2 "st1 @ [m1]"
        "d\<lparr>dp_store := st1 @ m1 # st2\<rparr>" "api\<lparr>as_store := st1 @ m1 # st2\<rparr>"] 2 Cons.prems(5)
    by (simp add: with_store_def)
  then have "sim_runs pf (?w, Some ?tk) (replicate (length st2) (Tick_Shard, Notified []))
      (with_store (st1 @ st3) (eng\<lparr>se_models := models1\<rparr>, d, api),
       Some (tk\<lparr>tp_shard := length st1 + length (m # st2), tp_changed := tp_changed tk @ ch\<rparr>))"
    by (simp add: 3)
  from sim_runs_Cons [OF step this] show ?case by simp
qed

lemma uninterrupted_tick:
  assumes "world_ok (pf_hash pf) ((eng, d, api), None)"
    and "engine_period (pf_interval pf) (se_tick_hz eng) = Ok period"
    and "sim_tick (pf_models pf) (as_secs_f64 elapsed) sys period now later took eng = Ok eng1"
  shows "\<exists>ns. se_sent eng1 = se_sent eng @ ns \<and>
    sim_runs pf ((eng, d, api), None)
      ((Tick_Starts elapsed sys now, Notified []) # replicate num_shards (Tick_Shard, Notified []) @
        [(Tick_Ends later took, Notified ns)])
      (with_store (se_store eng1) (eng1, d, api), None)"
proof -
  let ?tk = "\<lparr>tp_t = as_secs_f64 elapsed, tp_sys = sys, tp_period = period, tp_now = now, tp_shard = 0, tp_changed = []\<rparr>"
  have ok: "dp_store d = se_store eng" "as_store api = se_store eng" "length (se_store eng) = num_shards"
    using assms(1) by (simp_all add: world_ok_def dispatcher_ok_def store_ok_def)
  from assms(3) obtain st1 models1 ch where
    st: "tick_store (pf_models pf) (as_secs_f64 elapsed) sys period now (se_store eng) (se_models eng) = Ok (st1, models1, ch)"
    by (auto simp: sim_tick_def rbind_eq_Ok)
  have len: "length st1 = num_shards"
    using arg_cong [OF tick_store_keys [OF st], of length] ok(3) by simp
  let ?w = "with_store st1 (eng\<lparr>se_models := models1\<rparr>, d, api)"
  let ?tk1 = "?tk\<lparr>tp_shard := num_shards, tp_changed := ch\<rparr>"
  have start: "sim_step pf ((eng, d, api), None) (Tick_Starts elapsed sys now) (Notified []) ((eng, d, api), Some ?tk)"
    using assms(2) by (rule sim_step.tick_starts)
  have shards: "sim_runs pf ((eng, d, api), Some ?tk) (replicate num_shards (Tick_Shard, Notified [])) (?w, Some ?tk1)"
    using shards_in_a_row [of pf ?tk "se_store eng" eng st1 models1 ch "[]" d api] st ok by simp
  obtain ns eng2 where e: "tick_end ?tk1 later took ((eng\<lparr>se_models := models1\<rparr>)\<lparr>se_store := st1\<rparr>) = (ns, eng2)"
    by (cases "tick_end ?tk1 later took ((eng\<lparr>se_models := models1\<rparr>)\<lparr>se_store := st1\<rparr>)")
  have eng1: "eng2 = eng1" "se_sent eng1 = se_sent eng @ ns" "se_store eng1 = st1"
    using e assms(3) st by (auto simp: tick_end_def sim_tick_def case_prod_beta Let_def)
  have ws: "with_store st1 (eng1, d, api) = (eng1, d\<lparr>dp_store := st1\<rparr>, api\<lparr>as_store := st1\<rparr>)"
    using eng1(3) by (simp add: with_store_def)
  have "sim_step pf (?w, Some ?tk1) (Tick_Ends later took) (Notified ns) (with_store st1 (eng1, d, api), None)"
    using sim_step.tick_ends [of "(eng\<lparr>se_models := models1\<rparr>)\<lparr>se_store := st1\<rparr>" ?tk1 later took ns eng2 pf
        "d\<lparr>dp_store := st1\<rparr>" "api\<lparr>as_store := st1\<rparr>"] e eng1(1) len
    unfolding ws by (simp add: with_store_def)
  from sim_runs.more [OF shards this] sim_runs_Cons [OF start] eng1(2,3) show ?thesis by auto
qed

text \<open>Whatever has happened since it started, the tick under way can be finished.\<close>

lemma tick_completes:
  assumes "world_ok (pf_hash pf) w"
  shows "\<exists>tr w'. sim_runs pf w tr w' \<and> snd w' = None \<and> length tr \<le> Suc num_shards \<and>
    (\<forall>(e, out) \<in> set tr. e = Tick_Shard \<or> e = Tick_Ends later took)"
proof (cases "snd w")
  case None
  then show ?thesis using sim_runs.none [of pf w] by (intro exI [of _ "[]"] exI [of _ w]) simp
next
  case (Some tk)
  have "\<exists>tr w'. sim_runs pf w tr w' \<and> snd w' = None \<and> length tr \<le> Suc (num_shards - tp_shard tk) \<and>
      (\<forall>(e, out) \<in> set tr. e = Tick_Shard \<or> e = Tick_Ends later took)"
    using assms Some
  proof (induction "num_shards - tp_shard tk" arbitrary: w tk)
    case 0
    obtain eng d api where w: "w = ((eng, d, api), Some tk)" using 0(3) by (cases w) auto
    obtain ns eng1 where e: "tick_end tk later took eng = (ns, eng1)" by (cases "tick_end tk later took eng")
    have "length (se_store eng) \<le> tp_shard tk"
      using 0(1,2) by (simp add: w world_ok_def dispatcher_ok_def store_ok_def)
    from sim_step.tick_ends [OF this e, of pf d api] have "sim_runs pf w [(Tick_Ends later took, Notified ns)] ((eng1, d, api), None)"
      using sim_runs_Cons sim_runs.none unfolding w by blast
    then show ?case by (intro exI [of _ "[(Tick_Ends later took, Notified ns)]"] exI [of _ "((eng1, d, api), None)"]) simp
  next
    case (Suc n)
    obtain eng d api where w: "w = ((eng, d, api), Some tk)" using Suc(4) by (cases w) auto
    have ok: "store_ok (pf_hash pf) (se_store eng)" "models_ok (se_models eng)"
      using Suc(3) by (simp_all add: w world_ok_def dispatcher_ok_def)
    then have s: "tp_shard tk < length (se_store eng)" using Suc(2) by (simp add: store_ok_def)
    with ok(1) have "shard_ok (pf_hash pf) (tp_shard tk) (se_store eng ! tp_shard tk)" by (simp add: store_ok_def)
    from tick_shard_ok [OF this ok(2)] obtain m models ch where
      "tick_shard (pf_models pf) (tp_t tk) (tp_sys tk) (tp_period tk) (tp_now tk) (se_store eng ! tp_shard tk) (se_models eng) = Ok (m, models, ch)"
      by blast
    note step = sim_step.tick_shard [OF s this, of d api, folded w]
    define tk1 where "tk1 = tk\<lparr>tp_shard := Suc (tp_shard tk), tp_changed := tp_changed tk @ ch\<rparr>"
    have "tp_shard tk1 = Suc (tp_shard tk)" unfolding tk1_def by simp
    with step [folded tk1_def] obtain w1 where
      1: "sim_step pf w Tick_Shard (Notified []) w1" "snd w1 = Some tk1" "tp_shard tk1 = Suc (tp_shard tk)" by fastforce
    have "n = num_shards - tp_shard tk1" using Suc(2) 1(3) by simp
    from Suc(1) [OF this sim_step_ok [OF 1(1) Suc(3)] 1(2)] obtain tr w' where
      "sim_runs pf w1 tr w'" "snd w' = None" "length tr \<le> Suc (num_shards - tp_shard tk1)"
      "\<forall>(e, out) \<in> set tr. e = Tick_Shard \<or> e = Tick_Ends later took" by blast
    with sim_runs_Cons [OF 1(1)] 1(3) Suc(2) show ?case
      by (intro exI [of _ "(Tick_Shard, Notified []) # tr"] exI [of _ w']) auto
  qed
  then obtain tr w' where r: "sim_runs pf w tr w'" "snd w' = None" "length tr \<le> Suc (num_shards - tp_shard tk)"
      "\<forall>(e, out) \<in> set tr. e = Tick_Shard \<or> e = Tick_Ends later took" by blast
  from r(3) have "length tr \<le> Suc num_shards" by linarith
  with r(1,2,4) show ?thesis by blast
qed

text \<open>
  A SubscribeCOV is acknowledged, whoever it is from, by the first device, and dropped where no
  device is registered; it changes nothing.
\<close>

lemma subscribe_answered:
  assumes "meaning (in_npdu f) = Asks req" and "cr_service req = Req_SubscribeCov s"
  shows "frame_output (fst (handle_frame fx sys now d f)) =
      (if dp_devices d = [] then []
       else [answer_frame (in_src f)
         (simple_ack_encode \<lparr>sack_invoke_id = cr_invoke_id req, sack_service_choice = 5\<rparr>)])"
    and "snd (handle_frame fx sys now d f) = d"
proof -
  have h: "handle_frame fx sys now d f = handle_confirmed fx sys now d req (in_src f)"
    using assms(1) by (auto simp: meaning_def handle_frame_def split: rres.splits list.splits if_splits)
  have r: "resolve_device d req (in_src f) = (first_device d, d)"
    by (simp add: resolve_device_def target_oid_def assms(2))
  have "frame_output (fst (handle_frame fx sys now d f)) =
      (if dp_devices d = [] then []
       else [answer_frame (in_src f)
         (simple_ack_encode \<lparr>sack_invoke_id = cr_invoke_id req, sack_service_choice = 5\<rparr>)]) \<and>
      snd (handle_frame fx sys now d f) = d"
    by (cases "dp_devices d")
      (auto simp: h r handle_confirmed_def first_device_def answer_def assms(2) answer_frame_def
        frame_output_def Let_def)
  then show "frame_output (fst (handle_frame fx sys now d f)) =
      (if dp_devices d = [] then []
       else [answer_frame (in_src f)
         (simple_ack_encode \<lparr>sack_invoke_id = cr_invoke_id req, sack_service_choice = 5\<rparr>)])"
    and "snd (handle_frame fx sys now d f) = d" by simp_all
qed

subsection \<open>An example\<close>

definition example_platform :: "(nat, f64) platform" where
  "example_platform = \<lparr>pf_models = example_env, pf_hash = (\<lambda>a b. 0), pf_json = example_json_lib,
     pf_unicode = (\<lambda>s. s), pf_files = (\<lambda>path. None), pf_interval = example_interval\<rparr>"

definition example_world :: "nat world" where
  "example_world = (start_demo (\<lambda>a b. 0) 5 1234 0x3FF0000000000000, None)"

lemma example_started: "started example_platform example_world"
proof -
  have "started example_platform (start_demo (pf_hash example_platform) 5 1234 0x3FF0000000000000, None)"
    by (rule started.demo_mode) simp
  then show ?thesis by (simp add: example_platform_def example_world_def)
qed

lemma example_world_device:
  "store_get (pf_hash example_platform) (world_store example_world) 1234 (device_oid 1234) = Some (Obj_Device (demo_device 1234))"
proof -
  have "world_store example_world = demo_store (\<lambda>a b. 0) 5 1234"
    by (simp add: world_store_def example_world_def start_demo_def Let_def register_device_def dispatcher_new_def)
  then show ?thesis
    using demo_get(2) [of 1234 "device_oid 1234" "\<lambda>a b. 0" 5] by (simp add: example_platform_def device_oid_def oid_ok_def)
qed

lemma example_run:
  "\<exists>out w'. sim_runs example_platform example_world
    [(Tick_Starts 1000000000 0 6, Notified []), (Http_In 0 7 Get_Health, out)] w'"
proof -
  obtain eng d api where w: "(start_demo (\<lambda>a b. 0) 5 1234 0x3FF0000000000000 :: nat simulator) = (eng, d, api)"
    and "se_tick_hz eng = 0x3FF0000000000000" by (simp add: start_demo_def Let_def sim_engine_new_def)
  then have "engine_period (pf_interval example_platform) (se_tick_hz eng) = Ok 1000000000"
    using engine_period_one [of example_interval] by (simp add: example_platform_def example_interval_def)
  from sim_step.tick_starts [OF this, of d api 1000000000 0 6]
  have 1: "\<exists>tk. sim_step example_platform example_world (Tick_Starts 1000000000 0 6) (Notified []) ((eng, d, api), Some tk)"
    unfolding example_world_def w by blast
  have "\<exists>out w'. sim_step example_platform ((eng, d, api), tk) (Http_In 0 7 Get_Health) out w'" for tk
    by (intro exI, rule sim_step.http) (rule prod.collapse [symmetric])
  with 1 sim_runs_Cons sim_runs.none show ?thesis by metis
qed

subsection \<open>Properties\<close>

text \<open>
  C4. A started program stays consistent: from every start, configured or demo, and through every
  interleaving of frames, HTTP requests and the steps of ticks, the dispatcher, the engine and the
  API share one store that satisfies its invariant, the sessions name registered devices, and
  the store has objects in the same places, with the same identifiers and the same Device
  objects, as at the start.
\<close>

theorem started_program_consistent:
  assumes "started pf w" and "sim_runs pf w tr w'"
  shows "world_ok (pf_hash pf) w' \<and> related same_identity (pf_hash pf) (world_store w) (world_store w')"
  using sim_runs_ok [OF assms(2) started_ok(1) [OF assms(1)]]
    identity.runs_related [OF assms(2) started_ok(1) [OF assms(1)]] by blast

theorem started_program_consistent_witness:
  "\<exists>tr w'. length tr = 2 \<and> sim_runs example_platform example_world tr w' \<and> world_ok (\<lambda>a b. 0) w'"
proof -
  obtain out w' where "sim_runs example_platform example_world
      [(Tick_Starts 1000000000 0 6, Notified []), (Http_In 0 7 Get_Health, out)] w'" using example_run by blast
  with started_program_consistent [OF example_started this] show ?thesis
    by (intro exI [of _ "[(Tick_Starts 1000000000 0 6, Notified []), (Http_In 0 7 Get_Health, out)]"] exI [of _ w'])
      (simp add: example_platform_def)
qed



text \<open>
  C16. Subscribers of a started program are never notified.  In every state a run can reach, a
  SubscribeCOV that decodes is acknowledged with a SimpleACK, or, where no device is registered, is
  dropped without an answer, and in both cases changes nothing; and no run, however long, has a
  subscription in the engine or sends a single notification.
\<close>

theorem subscriptions_never_served:
  assumes "started pf w" and "sim_runs pf w tr ((eng, d, api), tk)"
    and "meaning (in_npdu f) = Asks req" and "cr_service req = Req_SubscribeCov s"
  shows "sim_step pf ((eng, d, api), tk) (Frame_In sys now f)
      (Frames_Out (if dp_devices d = [] then []
        else [answer_frame (in_src f)
          (simple_ack_encode \<lparr>sack_invoke_id = cr_invoke_id req, sack_service_choice = 5\<rparr>)]))
      ((eng, d, api), tk) \<and>
    se_cov eng = [] \<and> se_sent eng = [] \<and> (\<forall>(e, out) \<in> set tr. \<forall>ns. out = Notified ns \<longrightarrow> ns = [])"
proof -
  have "world_ok (pf_hash pf) ((eng, d, api), tk)" using sim_runs_ok [OF assms(2) started_ok(1) [OF assms(1)]] .
  then have w: "with_store (dp_store d) (eng, d, api) = (eng, d, api)"
    by (simp add: world_ok_def with_store_def)
  obtain r where r: "handle_frame (pf_hash pf) sys now d f = (r, d)"
    using subscribe_answered(2) [OF assms(3,4), of "pf_hash pf" sys now d] by (metis prod.collapse)
  have "sim_step pf ((eng, d, api), tk) (Frame_In sys now f) (Frames_Out (frame_output r)) ((eng, d, api), tk)"
    using sim_step.frame [OF r, of eng api tk] w by simp
  then have "sim_step pf ((eng, d, api), tk) (Frame_In sys now f)
      (Frames_Out (if dp_devices d = [] then []
        else [answer_frame (in_src f)
          (simple_ack_encode \<lparr>sack_invoke_id = cr_invoke_id req, sack_service_choice = 5\<rparr>)]))
      ((eng, d, api), tk)"
    using subscribe_answered(1) [OF assms(3,4), of "pf_hash pf" sys now d] unfolding r fst_conv by (simp only:)
  with sim_runs_quiet [OF assms(2) started_ok(2) [OF assms(1)]] show ?thesis by (simp add: quiet_def)
qed

lemma meaning_request_frame: "confirmed_ok req \<Longrightarrow> meaning (in_npdu (request_frame src req)) = Asks req"
proof -
  assume ok: "confirmed_ok req"
  obtain rest where w: "confirmed_wire req = ((if segmented_accepted req then 0x08 else 0x00)
      OR (if more_follows req then 0x04 else 0x00)) # rest"
    using confirmed_wire_head by blast
  have "((if segmented_accepted req then 0x08 else 0x00) OR (if more_follows req then 0x04 else 0x00))
      AND 0xF0 = (0 :: u8)"
    by simp
  then show ?thesis
    using confirmed_decode_wire [OF ok] w
    by (simp add: meaning_def request_frame_def npdu_decode_local local_npdu_def)
qed

theorem subscriptions_never_served_witness:
  "\<exists>frame. sim_step example_platform example_world
    (Frame_In 0 7 (request_frame example_client (example_request 3 (Req_SubscribeCov
      \<lparr>scov_process_id = 1, scov_object = example_oid, scov_issue_confirmed = None, scov_lifetime = Some 60\<rparr>))))
    (Frames_Out [frame]) example_world"
proof -
  let ?s = "\<lparr>scov_process_id = 1, scov_object = example_oid, scov_issue_confirmed = None, scov_lifetime = Some 60\<rparr>"
  let ?req = "example_request 3 (Req_SubscribeCov ?s)"
  have "confirmed_ok ?req"
    by (simp add: service_ok_def wf_oid_def known_type_def example_oid_def object_type_from_u16_def)
  note m = meaning_request_frame [OF this, of example_client]
  obtain eng d api where w: "example_world = ((eng, d, api), None)" and d: "dp_devices d \<noteq> []"
    by (simp add: example_world_def start_demo_def Let_def register_device_def dispatcher_new_def)
  from subscriptions_never_served [OF example_started [unfolded w] sim_runs.none m] d show ?thesis unfolding w by auto
qed

text \<open>
  C15. Whatever interleaving of frames, requests and shards a tick has been through, it can be
  finished: from every state a run reaches, at most one step for each shard and one for the end lead
  to a state with no tick under way; no shard makes the engine panic.
\<close>

theorem tick_can_finish:
  assumes "started pf w" and "sim_runs pf w tr w'"
  shows "\<exists>tr2 w2. sim_runs pf w' tr2 w2 \<and> snd w2 = None \<and> length tr2 \<le> Suc num_shards \<and>
    (\<forall>(e, out) \<in> set tr2. e = Tick_Shard \<or> e = Tick_Ends later took)"
  by (rule tick_completes [OF sim_runs_ok [OF assms(2) started_ok(1) [OF assms(1)]]])

theorem tick_can_finish_witness:
  "\<exists>tr w2. 2 \<le> length tr \<and> sim_runs example_platform example_world tr w2 \<and> snd w2 = None"
proof -
  obtain out w' where r: "sim_runs example_platform example_world
      [(Tick_Starts 1000000000 0 6, Notified []), (Http_In 0 7 Get_Health, out)] w'" using example_run by blast
  from tick_can_finish [OF example_started r] obtain tr2 w2 where "sim_runs example_platform w' tr2 w2" "snd w2 = None" by blast
  with sim_runs_append [OF _ r] show ?thesis
    by (intro exI [of _ "[(Tick_Starts 1000000000 0 6, Notified []), (Http_In 0 7 Get_Health, out)] @ tr2"] exI [of _ w2]) auto
qed

end
