(* ===== verification/Object_Handles.thy ===== *)
theory Object_Handles
  imports Simulator
begin

text \<open>
  The handles of \<^verbatim>\<open>crates/bacnet-object/src/store.rs\<close>: \<^verbatim>\<open>ObjectRef\<close> and its guards.  \<^verbatim>\<open>get\<close> looks the
  object up under the lock of its shard, gives the lock back, and hands out the shard and the key; a
  guard made later indexes the shard with the key and panics when the key is gone.  The other
  theories read and write in one step; here is why that is the same.
\<close>

subsection \<open>Handles and guards\<close>

type_synonym object_ref = "nat \<times> store_key"

definition store_ref :: "hash_fn \<Rightarrow> store \<Rightarrow> device_id \<Rightarrow> object_id \<Rightarrow> object_ref option" where
  "store_ref fx st device oid =
     (let (shard_idx, k) = shard_key fx device oid
      in if map_of (st ! shard_idx) k \<noteq> None then Some (shard_idx, k) else None)"

definition read_guard_property ::
    "system_time \<Rightarrow> store \<Rightarrow> object_ref \<Rightarrow> property_identifier \<Rightarrow> u32 option \<Rightarrow> property_value bres" where
  "read_guard_property sys st r pid i =
     (case map_of (st ! fst r) (snd r) of None \<Rightarrow> Panic | Some ob \<Rightarrow> obj_read_property sys ob pid i)"

definition read_guard_all :: "store \<Rightarrow> object_ref \<Rightarrow> (property_identifier \<times> property_value) list bres" where
  "read_guard_all st r =
     (case map_of (st ! fst r) (snd r) of None \<Rightarrow> Panic | Some ob \<Rightarrow> Ok (obj_all_properties ob))"

text \<open>\<^verbatim>\<open>get_mut(..).unwrap()\<close> and the object that is left.\<close>

definition with_object ::
    "(bacnet_object \<Rightarrow> unit bres \<times> bacnet_object) \<Rightarrow> object_ref \<Rightarrow> store \<Rightarrow> unit bres \<times> store" where
  "with_object f r st =
     (case map_of (st ! fst r) (snd r) of
        None \<Rightarrow> (Panic, st)
      | Some ob \<Rightarrow> (let (res, ob') = f ob in (res, st[fst r := hm_insert (snd r) ob' (st ! fst r)])))"

definition write_guard_property ::
    "instant \<Rightarrow> property_identifier \<Rightarrow> u32 option \<Rightarrow> property_value \<Rightarrow> u8 option \<Rightarrow> object_ref \<Rightarrow> store \<Rightarrow>
     unit bres \<times> store" where
  "write_guard_property now pid i v pr = with_object (\<lambda>ob. obj_write_property now ob pid i v pr)"

definition write_guard_force ::
    "system_time \<Rightarrow> instant \<Rightarrow> property_identifier \<Rightarrow> property_value \<Rightarrow> object_ref \<Rightarrow> store \<Rightarrow> unit bres \<times> store" where
  "write_guard_force sys now pid v = with_object (\<lambda>ob. obj_force_write sys now ob pid v)"

subsection \<open>The handle and the store\<close>

lemma store_ref_Some:
  "store_ref fx st d oid = Some r \<longleftrightarrow> r = shard_key fx d oid \<and> store_get fx st d oid \<noteq> None"
  by (auto simp: store_ref_def store_get_def shard_key_def)

lemma with_object_modify:
  assumes "store_get fx st d oid \<noteq> None"
  shows "with_object f (shard_key fx d oid) st = store_modify fx st d oid f"
  using assms by (auto simp: with_object_def store_modify_def store_get_def shard_key_def split: prod.split)

lemma read_guard_store_read:
  assumes "store_get fx st d oid \<noteq> None"
  shows "read_guard_property sys st (shard_key fx d oid) pid i = store_read fx sys st d oid pid i"
  using assms by (auto simp: read_guard_property_def store_read_def store_get_def shard_key_def)

lemma related_present:
  "related R fx st st1 \<Longrightarrow> store_get fx st d oid \<noteq> None \<Longrightarrow> store_get fx st1 d oid \<noteq> None"
  unfolding related_def by (metis option.rel_distinct(2) option.collapse)

subsection \<open>Properties\<close>

text \<open>
  C22. A handle never dangles: however long after \<^verbatim>\<open>get\<close> a guard is made, and whatever frames, requests
  and ticks come between, the object is still there; the guard reads and writes what the store
  reads and writes under the identifier at that time, and nothing panics.
\<close>

theorem object_refs_never_dangle:
  assumes "started pf w" and "sim_runs pf w tr1 w1" and "sim_runs pf w1 tr2 w2"
    and "store_ref (pf_hash pf) (world_store w1) d oid = Some r"
  shows "read_guard_property sys (world_store w2) r pid i = store_read (pf_hash pf) sys (world_store w2) d oid pid i \<and>
    write_guard_property now pid i v pr r (world_store w2) = store_write (pf_hash pf) now (world_store w2) d oid pid i v pr \<and>
    write_guard_force sys now pid v r (world_store w2) = store_force_write (pf_hash pf) sys now (world_store w2) d oid pid v \<and>
    read_guard_property sys (world_store w2) r pid i \<noteq> Panic \<and>
    fst (write_guard_property now pid i v pr r (world_store w2)) \<noteq> Panic \<and>
    fst (write_guard_force sys now pid v r (world_store w2)) \<noteq> Panic"
proof -
  let ?fx = "pf_hash pf" and ?st = "world_store w2"
  have ok1: "world_ok ?fx w1" using sim_runs_ok [OF assms(2) started_ok(1) [OF assms(1)]] .
  have r: "r = shard_key ?fx d oid" "store_get ?fx (world_store w1) d oid \<noteq> None"
    using assms(4) by (simp_all add: store_ref_Some)
  from identity.runs_related [OF assms(3) ok1] r(2) have g: "store_get ?fx ?st d oid \<noteq> None"
    by (rule related_present)
  then obtain ob where ob: "store_get ?fx ?st d oid = Some ob" by blast
  have "obj_ok ob" by (rule store_get_shard(2) [OF world_ok_store [OF sim_runs_ok [OF assms(3) ok1]] ob])
  then have "obj_read_property sys ob pid i \<noteq> Panic" "fst (obj_write_property now ob pid i v pr) \<noteq> Panic"
      "fst (obj_force_write sys now ob pid v) \<noteq> Panic"
    using objects.rd_no_panic objects.wr_no_panic objects.force_no_panic unfolding obj_force_write_def by blast+
  then show ?thesis
    using ob unfolding r(1) write_guard_property_def write_guard_force_def with_object_modify [OF g] read_guard_store_read [OF g]
    by (simp add: store_write_def store_force_write_def store_read_def store_modify_def case_prod_beta Let_def)
qed

theorem object_refs_never_dangle_witness:
  "\<exists>tr w2. length tr = 2 \<and> sim_runs example_platform example_world tr w2 \<and>
    read_guard_property 0 (world_store w2) (shard_key (\<lambda>a b. 0) 1234 (device_oid 1234)) PID_ObjectName None =
      store_read (\<lambda>a b. 0) 0 (world_store w2) 1234 (device_oid 1234) PID_ObjectName None"
proof -
  obtain out w' where r: "sim_runs example_platform example_world
      [(Tick_Starts 1000000000 0 6, Notified []), (Http_In 0 7 Get_Health, out)] w'" using example_run by blast
  have "store_ref (pf_hash example_platform) (world_store example_world) 1234 (device_oid 1234) =
      Some (shard_key (\<lambda>a b. 0) 1234 (device_oid 1234))"
    using example_world_device by (simp add: store_ref_Some example_platform_def)
  from object_refs_never_dangle [OF example_started sim_runs.none r this, of 0 PID_ObjectName None] r show ?thesis
    by (intro exI [of _ "[(Tick_Starts 1000000000 0 6, Notified []), (Http_In 0 7 Get_Health, out)]"] exI [of _ w'])
      (simp add: example_platform_def)
qed

end
