(* ===== verification/Hot_Reload.thy ===== *)
theory Hot_Reload
  imports Names
begin

text \<open>
  \<^verbatim>\<open>crates/bacnet-sim/src/hot_reload.rs\<close>: the watcher of the configuration file, with the part of
  \<^verbatim>\<open>std::path\<close> it uses, on Unix.  \<^verbatim>\<open>notify\<close> is a library: whether it can be set up is a parameter, and
  what it reports is a list of events.
\<close>

subsection \<open>Paths\<close>

text \<open>\<^verbatim>\<open>str::split('/')\<close>.\<close>

fun split_slash :: "rstring \<Rightarrow> rstring list" where
  "split_slash [] = [[]]"
| "split_slash (b # s) =
     (if b = 0x2F then [] # split_slash s
      else (case split_slash s of [] \<Rightarrow> [[b]] | p # ps \<Rightarrow> (b # p) # ps))"

datatype path_component = Root_Dir | Cur_Dir | Parent_Dir | Normal_Name rstring

text \<open>
  \<^verbatim>\<open>Path::components\<close>: repeated slashes count once, and a \<^verbatim>\<open>.\<close> counts only at the beginning of a
  relative path.
\<close>

definition path_piece :: "rstring \<Rightarrow> path_component option" where
  "path_piece p =
     (if p = [] \<or> p = lit ''.'' then None
      else if p = lit ''..'' then Some Parent_Dir else Some (Normal_Name p))"

definition path_absolute :: "rstring \<Rightarrow> bool" where
  "path_absolute s \<longleftrightarrow> (case s of [] \<Rightarrow> False | b # _ \<Rightarrow> b = 0x2F)"

definition path_components :: "rstring \<Rightarrow> path_component list" where
  "path_components s =
     (if path_absolute s then [Root_Dir] else if hd (split_slash s) = lit ''.'' then [Cur_Dir] else []) @
     List.map_filter path_piece (split_slash s)"

text \<open>\<^verbatim>\<open>Path::ends_with\<close> compares whole components from the end.\<close>

definition path_ends_with :: "rstring \<Rightarrow> rstring \<Rightarrow> bool" where
  "path_ends_with p child =
     (take (length (path_components child)) (rev (path_components p)) = rev (path_components child))"

definition path_parent :: "rstring \<Rightarrow> path_component list option" where
  "path_parent s =
     (case rev (path_components s) of
        [] \<Rightarrow> None
      | Root_Dir # _ \<Rightarrow> None
      | _ # cs \<Rightarrow> Some (rev cs))"

subsection \<open>The watcher\<close>

datatype event_kind = EK_Any | EK_Access | EK_Create | EK_Modify | EK_Remove | EK_Other

text \<open>An event with the time the watcher looks at it.\<close>

datatype watch_event = Watch_Event "rstring list" event_kind instant | Watch_Error

text \<open>The number of announced changes and the time of the last; debounced by half a second.\<close>

definition watch_step :: "rstring \<Rightarrow> nat \<times> instant \<Rightarrow> watch_event \<Rightarrow> nat \<times> instant" where
  "watch_step path s ev =
     (case ev of
        Watch_Event paths kind now \<Rightarrow>
          (let is_our_file = list_ex (\<lambda>p. path_ends_with p path) paths;
               is_write = (case kind of EK_Modify \<Rightarrow> True | EK_Create \<Rightarrow> True | _ \<Rightarrow> False)
           in if is_our_file \<and> is_write
              then (if 500000000 \<le> now - snd s then (fst s + 1, now) else s)
              else s)
      | Watch_Error \<Rightarrow> s)"

text \<open>
  The watcher watches the directory of the file; \<open>created\<close> says whether \<^verbatim>\<open>notify\<close> can make a
  watcher and \<open>accepted\<close> whether it can watch a directory.  Taking ten seconds off the first
  \<^verbatim>\<open>Instant\<close> panics when the clock has not run that long.
\<close>

definition watch :: "bool \<Rightarrow> (path_component list \<Rightarrow> bool) \<Rightarrow> rstring \<Rightarrow> instant \<Rightarrow> watch_event list \<Rightarrow> (nat, unit) rres" where
  "watch created accepted config_path now evs =
     (let watch_path = (case path_parent config_path of Some p \<Rightarrow> p | None \<Rightarrow> path_components config_path)
      in if \<not> created then Ok 0
         else if \<not> accepted watch_path then Ok 0
         else if now < 10000000000 then Panic
         else Ok (fst (foldl (watch_step config_path) (0, now - 10000000000) evs)))"

subsection \<open>Lemmas\<close>

lemma split_slash_not_Nil [simp]: "split_slash s \<noteq> []"
  by (induction s) (auto split: list.split)

lemma split_slash_append: "split_slash (a @ 0x2F # b) = split_slash a @ split_slash b"
  by (induction a) (auto split: list.splits)

lemma map_filter_append: "List.map_filter f (xs @ ys) = List.map_filter f xs @ List.map_filter f ys"
  by (simp add: List.map_filter_def)

lemma no_cur_dir: "Cur_Dir \<notin> set (List.map_filter path_piece ps)"
  by (auto simp: List.map_filter_def path_piece_def split: if_splits)

text \<open>Announced changes are at least half a second apart.\<close>

lemma watch_debounced:
  "fst s * 500000000 + t0 \<le> snd s \<Longrightarrow>
    fst (foldl (watch_step path) s evs) * 500000000 + t0 \<le> snd (foldl (watch_step path) s evs)"
proof (induction evs arbitrary: s)
  case (Cons ev evs)
  have "fst (watch_step path s ev) * 500000000 + t0 \<le> snd (watch_step path s ev)"
    using Cons.prems by (auto simp: watch_step_def Let_def split: watch_event.split)
  then show ?case using Cons.IH by simp
qed simp

lemma watch_last_le:
  assumes "\<forall>ev \<in> set evs. case ev of Watch_Event ps k t \<Rightarrow> t \<le> end_time | Watch_Error \<Rightarrow> True" and "snd s \<le> end_time"
  shows "snd (foldl (watch_step path) s evs) \<le> end_time"
  using assms
proof (induction evs arbitrary: s)
  case (Cons ev evs)
  then have "snd (watch_step path s ev) \<le> end_time"
    by (auto simp: watch_step_def Let_def split: watch_event.splits)
  with Cons show ?case by simp
qed simp

lemma absolute_components: "path_absolute s \<Longrightarrow> Cur_Dir \<notin> set (path_components s)"
  by (simp add: path_components_def no_cur_dir)

lemma path_ends_with_subset: "path_ends_with p path \<Longrightarrow> set (path_components path) \<subseteq> set (path_components p)"
  unfolding path_ends_with_def by (metis set_rev set_take_subset)

lemma relative_under:
  assumes "path_absolute cwd" and "\<not> path_absolute path"
  shows "path_ends_with (cwd @ 0x2F # path) path \<longleftrightarrow> hd (split_slash path) \<noteq> lit ''.''"
proof -
  have "path_absolute (cwd @ 0x2F # path)" using assms(1) by (cases cwd) (simp_all add: path_absolute_def)
  note abs = this absolute_components [OF this]
  show ?thesis
  proof (cases "hd (split_slash path) = lit ''.''")
    case True
    then have c: "Cur_Dir \<in> set (path_components path)" using assms(2) by (simp add: path_components_def)
    with abs(2) path_ends_with_subset True show ?thesis by blast
  next
    case False
    then show ?thesis using abs(1) assms(2)
      by (simp add: path_ends_with_def path_components_def split_slash_append map_filter_append)
  qed
qed

lemma path_ends_with_self: "path_ends_with p p"
  by (simp add: path_ends_with_def)

lemma watch_ignores:
  assumes "\<forall>ev \<in> set evs. case ev of Watch_Event ps k t \<Rightarrow> \<not> list_ex (\<lambda>p. path_ends_with p path) ps | Watch_Error \<Rightarrow> True"
  shows "foldl (watch_step path) s evs = s"
  using assms by (induction evs arbitrary: s) (auto simp: watch_step_def Let_def split: watch_event.splits)

subsection \<open>Properties\<close>

text \<open>
  The announcements of the watcher are debounced: between its start and any later time it announces
  at most one change for every half second, counted from ten seconds before the start, however
  many events arrive.
\<close>

theorem reloads_debounced:
  assumes "10000000000 \<le> now"
    and "\<forall>ev \<in> set evs. case ev of Watch_Event ps k t \<Rightarrow> t \<le> end_time | Watch_Error \<Rightarrow> True" and "now \<le> end_time"
  shows "\<exists>n. watch created accepted path now evs = Ok n \<and> n * 500000000 \<le> end_time - now + 10000000000"
proof -
  let ?s = "(0, now - 10000000000) :: nat \<times> instant"
  let ?n = "foldl (watch_step path) ?s evs"
  have "fst ?n * 500000000 + (now - 10000000000) \<le> snd ?n" by (rule watch_debounced) simp
  moreover have "snd ?n \<le> end_time" using assms(3) by (intro watch_last_le [OF assms(2)]) simp
  ultimately have "fst ?n * 500000000 \<le> end_time - now + 10000000000" using assms(1,3) by linarith
  then show ?thesis using assms(1) by (simp add: watch_def Let_def)
qed

theorem reloads_debounced_witness:
  "watch True (\<lambda>p. True) (lit ''sim.toml'') 10000000000
     [Watch_Event [lit ''/etc/sim.toml''] EK_Modify 10000000001, Watch_Event [lit ''/etc/sim.toml''] EK_Modify 10000000002] = Ok 1 \<and>
   (\<exists>n. watch True (\<lambda>p. True) (lit ''sim.toml'') 10000000000
     [Watch_Event [lit ''/etc/sim.toml''] EK_Modify 10000000001, Watch_Event [lit ''/etc/sim.toml''] EK_Modify 10000000002] = Ok n \<and>
     n * 500000000 \<le> 10000000002 - 10000000000 + 10000000000)"
  using reloads_debounced [of 10000000000
      "[Watch_Event [lit ''/etc/sim.toml''] EK_Modify 10000000001, Watch_Event [lit ''/etc/sim.toml''] EK_Modify 10000000002]"
      10000000002 True "\<lambda>p. True" "lit ''sim.toml''"]
  by (simp add: watch_def watch_step_def path_ends_with_def path_components_def path_absolute_def path_piece_def
      path_parent_def List.map_filter_def lit_simps)

text \<open>
  C40. Whether a change of a configuration file given by a relative path is seen: reported under the
  working directory, as \<^verbatim>\<open>notify\<close> reports it, the first change is announced unless the path begins
  with \<^verbatim>\<open>./\<close>; with such a path no change ever is, whatever absolute paths are reported.
\<close>

theorem relative_path_reloads:
  assumes "path_absolute cwd" and "\<not> path_absolute path" and "10000000000 \<le> now"
    and "path_parent path = Some dir" and "accepted dir"
  shows "watch True accepted path now [Watch_Event [cwd @ 0x2F # path] EK_Modify now] =
      Ok (if hd (split_slash path) = lit ''.'' then 0 else 1) \<and>
    (hd (split_slash path) = lit ''.'' \<longrightarrow>
      (\<forall>evs. (\<forall>ev \<in> set evs. case ev of Watch_Event ps k t \<Rightarrow> list_all path_absolute ps | Watch_Error \<Rightarrow> True) \<longrightarrow>
        watch True accepted path now evs = Ok 0))"
proof (intro conjI impI allI)
  show "watch True accepted path now [Watch_Event [cwd @ 0x2F # path] EK_Modify now] =
      Ok (if hd (split_slash path) = lit ''.'' then 0 else 1)"
    using assms(3-5) relative_under [OF assms(1,2)] by (simp add: watch_def watch_step_def)
next
  fix evs
  assume dot: "hd (split_slash path) = lit ''.''"
    and evs: "\<forall>ev \<in> set evs. case ev of Watch_Event ps k t \<Rightarrow> list_all path_absolute ps | Watch_Error \<Rightarrow> True"
  have "\<not> path_ends_with p path" if "path_absolute p" for p
    using absolute_components [OF that] dot assms(2) path_ends_with_subset [of p path]
    by (auto simp: path_components_def)
  then have "foldl (watch_step path) s evs = s" for s
    using evs by (intro watch_ignores) (auto simp: list_all_iff list_ex_iff split: watch_event.splits)
  with assms(3-5) show "watch True accepted path now evs = Ok 0" by (simp add: watch_def)
qed

theorem relative_path_reloads_witness:
  "watch True (\<lambda>p. True) (lit ''./sim.toml'') 10000000000
     [Watch_Event [lit ''/etc'' @ 0x2F # lit ''./sim.toml''] EK_Modify 10000000000] = Ok 0 \<and>
   watch True (\<lambda>p. True) (lit ''sim.toml'') 10000000000
     [Watch_Event [lit ''/etc'' @ 0x2F # lit ''sim.toml''] EK_Modify 10000000000] = Ok 1"
  using relative_path_reloads [of "lit ''/etc''" "lit ''./sim.toml''" 10000000000 "[Cur_Dir]" "\<lambda>p. True"]
    relative_path_reloads [of "lit ''/etc''" "lit ''sim.toml''" 10000000000 "[]" "\<lambda>p. True"]
  by (simp add: path_components_def path_absolute_def path_piece_def path_parent_def List.map_filter_def lit_simps)

end
