(* ===== verification/Scenario.thy ===== *)
theory Scenario
  imports Simulator Hot_Reload
begin

text \<open>
  \<^verbatim>\<open>crates/bacnet-sim-engine/src/scenario.rs\<close>: loading and running scripts.  Rhai is a library: what
  compiles a text is an argument, and so is what a compiled script does at a time, which is the list
  of the calls it makes of the two functions it is given, and whether it ends without an error.  The
  functions return nothing, so the calls do not depend on the store.
\<close>

subsection \<open>Scripts\<close>

datatype script_call =
    Call_Set_Analog "64 word" "64 word" "64 word" f64
  | Call_Set_Binary "64 word" "64 word" "64 word" bool

record 'ast script_engine =
  sg_compile :: "rstring \<Rightarrow> 'ast option"
  sg_run :: "'ast \<Rightarrow> f64 \<Rightarrow> script_call list \<times> bool"

record 'ast scenario =
  scn_name :: rstring
  scn_ast :: 'ast

datatype scenario_error = Scenario_Unreadable | Scenario_Does_Not_Compile | Scenario_Failed

subsection \<open>Loading\<close>

text \<open>\<^verbatim>\<open>Path::file_stem\<close>: the last component up to its last dot, unless that is its first character.\<close>

definition file_name :: "rstring \<Rightarrow> rstring option" where
  "file_name path =
     (case rev (path_components path) of Normal_Name p # _ \<Rightarrow> Some p | _ \<Rightarrow> None)"

definition stem_of :: "rstring \<Rightarrow> rstring" where
  "stem_of name =
     (let rest = dropWhile (\<lambda>b. b \<noteq> 0x2E) (rev name)
      in if length rest \<le> 1 then name else rev (tl rest))"

definition file_stem :: "rstring \<Rightarrow> rstring option" where
  "file_stem path = map_option stem_of (file_name path)"

definition load_str :: "'ast script_engine \<Rightarrow> rstring \<Rightarrow> rstring \<Rightarrow> ('ast scenario, scenario_error) rres" where
  "load_str eng name source =
     (case sg_compile eng source of
        None \<Rightarrow> Err Scenario_Does_Not_Compile
      | Some ast \<Rightarrow> Ok \<lparr>scn_name = name, scn_ast = ast\<rparr>)"

definition load_file ::
    "(rstring \<Rightarrow> rstring option) \<Rightarrow> 'ast script_engine \<Rightarrow> rstring \<Rightarrow> ('ast scenario, scenario_error) rres" where
  "load_file read eng path =
     (case read path of
        None \<Rightarrow> Err Scenario_Unreadable
      | Some source \<Rightarrow>
          load_str eng (case file_stem path of Some s \<Rightarrow> s | None \<Rightarrow> lit ''unnamed'') source)"

subsection \<open>Running\<close>

fun run_script_call :: "hash_fn \<Rightarrow> system_time \<Rightarrow> instant \<Rightarrow> script_call \<Rightarrow> store \<Rightarrow> store" where
  "run_script_call fx sys now (Call_Set_Analog device object_type inst v) st =
     set_analog fx sys now device object_type inst v st"
| "run_script_call fx sys now (Call_Set_Binary device object_type inst v) st =
     set_binary fx sys now device object_type inst v st"

text \<open>The clocks are read at each call.\<close>

fun script_calls :: "hash_fn \<Rightarrow> (nat \<Rightarrow> system_time \<times> instant) \<Rightarrow> script_call list \<Rightarrow> store \<Rightarrow> store" where
  "script_calls fx clock [] st = st"
| "script_calls fx clock (c # cs) st =
     script_calls fx (\<lambda>i. clock (Suc i)) cs (run_script_call fx (fst (clock 0)) (snd (clock 0)) c st)"

definition scenario_run ::
    "hash_fn \<Rightarrow> 'ast script_engine \<Rightarrow> (nat \<Rightarrow> system_time \<times> instant) \<Rightarrow> 'ast scenario \<Rightarrow> f64 \<Rightarrow> store \<Rightarrow>
     (unit, scenario_error) rres \<times> store" where
  "scenario_run fx eng clock scenario t st =
     (let (calls, fine) = sg_run eng (scn_ast scenario) t
      in (if fine then Ok () else Err Scenario_Failed, script_calls fx clock calls st))"

subsection \<open>What calls do\<close>

primrec call_target :: "script_call \<Rightarrow> device_id \<times> object_id" where
  "call_target (Call_Set_Analog device object_type inst v) = (ucast device, scenario_oid OT_AnalogInput object_type inst)"
| "call_target (Call_Set_Binary device object_type inst v) = (ucast device, scenario_oid OT_BinaryInput object_type inst)"

primrec call_value :: "script_call \<Rightarrow> property_value" where
  "call_value (Call_Set_Analog device object_type inst v) = PV_Real (f32_of_f64 v)"
| "call_value (Call_Set_Binary device object_type inst v) = PV_Boolean v"

definition call_key :: "script_call \<Rightarrow> store_key" where
  "call_key c = obj_key (fst (call_target c)) (snd (call_target c))"

lemma run_script_call_force:
  "run_script_call fx sys now c st =
    snd (store_force_write fx sys now st (fst (call_target c)) (snd (call_target c)) PID_PresentValue (call_value c))"
  by (cases c) (simp_all add: set_analog_def set_binary_def)

lemma run_script_call_get:
  assumes "length st = num_shards"
  shows "store_get fx (run_script_call fx sys now c st) d oid =
    (if obj_key d oid = call_key c
     then map_option (\<lambda>ob. snd (obj_force_write sys now ob PID_PresentValue (call_value c))) (store_get fx st d oid)
     else store_get fx st d oid)"
  using assms by (simp add: run_script_call_force store_force_write_def store_get_modify call_key_def)

lemma run_script_call_ok: "store_ok fx st \<Longrightarrow> store_ok fx (run_script_call fx sys now c st)"
  unfolding run_script_call_force by (rule store_force_write_ok)

lemma script_calls_ok: "store_ok fx st \<Longrightarrow> store_ok fx (script_calls fx clock cs st)"
  by (induction cs arbitrary: clock st) (simp_all add: run_script_call_ok)

lemma store_ok_length: "store_ok fx st \<Longrightarrow> length st = num_shards"
  by (simp add: store_ok_def)

text \<open>What no call addresses stays; what is there stays there.\<close>

lemma script_calls_other:
  assumes "store_ok fx st" and "\<forall>c \<in> set cs. call_key c \<noteq> obj_key d oid"
  shows "store_get fx (script_calls fx clock cs st) d oid = store_get fx st d oid"
  using assms
  by (induction cs arbitrary: clock st) (auto simp: run_script_call_ok run_script_call_get store_ok_length)

lemma script_calls_None:
  assumes "store_ok fx st"
  shows "store_get fx (script_calls fx clock cs st) d oid = None \<longleftrightarrow> store_get fx st d oid = None"
  using assms
  by (induction cs arbitrary: clock st) (simp_all add: run_script_call_ok run_script_call_get store_ok_length)

text \<open>An analog input keeps its value but for the numbers it is given.\<close>

primrec analog_call :: "script_call \<Rightarrow> bool" where
  "analog_call (Call_Set_Analog device object_type inst v) = True"
| "analog_call (Call_Set_Binary device object_type inst v) = False"

lemma forced_analog_input:
  "\<exists>y. snd (obj_force_write sys now (Obj_AnalogInput x) PID_PresentValue (call_value c)) = Obj_AnalogInput y \<and>
    (if analog_call c then PV_Real (ai_present_value y) = call_value c else ai_present_value y = ai_present_value x)"
  by (cases c) (simp_all add: obj_force_write_def force_write_property_def ai_write_property_def ai_read_property_def
      as_bool_def as_f32_def Let_def)

definition final_value :: "device_id \<Rightarrow> object_id \<Rightarrow> script_call list \<Rightarrow> f32 \<Rightarrow> property_value" where
  "final_value d oid cs v =
     (case filter (\<lambda>c. analog_call c \<and> call_key c = obj_key d oid) cs of
        [] \<Rightarrow> PV_Real v
      | c # cs \<Rightarrow> call_value (last (c # cs)))"

lemma script_calls_analog_input:
  assumes "store_ok fx st" and "store_get fx st d oid = Some (Obj_AnalogInput x)"
  shows "\<exists>y. store_get fx (script_calls fx clock cs st) d oid = Some (Obj_AnalogInput y) \<and>
    PV_Real (ai_present_value y) = final_value d oid cs (ai_present_value x)"
  using assms
proof (induction cs arbitrary: clock st x)
  case (Cons c cs)
  let ?st = "run_script_call fx (fst (clock 0)) (snd (clock 0)) c st"
  note get = run_script_call_get [OF store_ok_length [OF Cons.prems(1)], of fx "fst (clock 0)" "snd (clock 0)" c d oid, unfolded Cons.prems(2)]
  obtain y where y: "store_get fx ?st d oid = Some (Obj_AnalogInput y)"
      "if analog_call c \<and> call_key c = obj_key d oid then PV_Real (ai_present_value y) = call_value c
       else ai_present_value y = ai_present_value x"
    using get forced_analog_input [of "fst (clock 0)" "snd (clock 0)" x c] by (cases "obj_key d oid = call_key c") auto
  from Cons.IH [OF run_script_call_ok [OF Cons.prems(1)] y(1), of "\<lambda>i. clock (Suc i)"] y(2)
  show ?case by (auto simp: final_value_def split: list.splits if_splits)
qed (simp add: final_value_def)

subsection \<open>Properties\<close>

text \<open>
  C27. A script leaves a well-formed store with the same places occupied, whatever it does and whether or
  not it ends with an error; an object no call addresses stays as it was; and the present value of
  an analog input, as anyone reads it afterwards, is the number of the last \<^verbatim>\<open>set_analog\<close> that
  addresses it, or what it was.
\<close>

theorem scenario_last_write_wins:
  assumes "store_ok fx st" and "sg_run eng (scn_ast scn) t = (calls, fine)"
    and "scenario_run fx eng clock scn t st = (r, st1)"
  shows "(r = Ok () \<longleftrightarrow> fine) \<and> store_ok fx st1 \<and>
    (\<forall>d oid. store_get fx st1 d oid = None \<longleftrightarrow> store_get fx st d oid = None) \<and>
    (\<forall>d oid. (\<forall>c \<in> set calls. call_key c \<noteq> obj_key d oid) \<longrightarrow> store_get fx st1 d oid = store_get fx st d oid) \<and>
    (\<forall>d oid x. store_get fx st d oid = Some (Obj_AnalogInput x) \<longrightarrow>
      store_read fx sys st1 d oid PID_PresentValue None = Ok (final_value d oid calls (ai_present_value x)))"
proof -
  have st1: "st1 = script_calls fx clock calls st" and r: "r = (if fine then Ok () else Err Scenario_Failed)"
    using assms(2,3) by (simp_all add: scenario_run_def)
  have "store_read fx sys st1 d oid PID_PresentValue None = Ok (final_value d oid calls (ai_present_value x))"
    if "store_get fx st d oid = Some (Obj_AnalogInput x)" for d oid x
    using script_calls_analog_input [OF assms(1) that, of clock calls]
    by (auto simp: st1 store_read_def ai_read_property_def)
  then show ?thesis
    using script_calls_ok [OF assms(1)] script_calls_None [OF assms(1)] script_calls_other [OF assms(1)]
    by (simp add: st1 r)
qed

theorem scenario_last_write_wins_witness:
  "\<exists>scn r st1. load_str \<lparr>sg_compile = (\<lambda>s. Some ()), sg_run = (\<lambda>a t. ([Call_Set_Analog 1 0 1 t, Call_Set_Binary 1 0 1 True], True))\<rparr>
      (lit ''test'') [] = Ok scn \<and>
    scenario_run (\<lambda>a b. 0) \<lparr>sg_compile = (\<lambda>s. Some ()), sg_run = (\<lambda>a t. ([Call_Set_Analog 1 0 1 t, Call_Set_Binary 1 0 1 True], True))\<rparr>
      (\<lambda>i. (0, 1)) scn 0x4045400000000000 (se_store example_engine) = (r, st1) \<and>
    r = Ok () \<and> store_read (\<lambda>a b. 0) 9 st1 1 example_oid PID_PresentValue None = Ok (PV_Real (f32_of_f64 0x4045400000000000))"
proof -
  let ?eng = "\<lparr>sg_compile = (\<lambda>s. Some ()), sg_run = (\<lambda>a t. ([Call_Set_Analog 1 0 1 t, Call_Set_Binary 1 0 1 True], True))\<rparr>"
  let ?scn = "\<lparr>scn_name = lit ''test'', scn_ast = ()\<rparr>"
  obtain r st1 where run: "scenario_run (\<lambda>a b. 0) ?eng (\<lambda>i. (0, 1)) ?scn 0x4045400000000000 (se_store example_engine) = (r, st1)"
    by (rule prod.exhaust)
  have o: "oid_ok example_oid" by (simp add: oid_ok_def example_oid_def)
  have g: "store_get (\<lambda>a b. 0) (se_store example_engine) 1 example_oid = Some (Obj_AnalogInput (ai_new 0 1 1 [] EU_NoUnits))"
    using objstore.get_ins [OF store_new_ok, of "Obj_AnalogInput (ai_new 0 1 1 [] EU_NoUnits)" example_oid "\<lambda>a b. 0" 1 1] o
    by (simp add: example_engine_def add_model_def sim_engine_new_def ai_new_def example_oid_def)
  have s: "sg_run ?eng (scn_ast ?scn) 0x4045400000000000 = ([Call_Set_Analog 1 0 1 0x4045400000000000, Call_Set_Binary 1 0 1 True], True)"
    by simp
  have "scenario_oid OT_AnalogInput 0 1 = example_oid"
    by (simp add: scenario_oid_def object_type_from_u16_def example_oid_def)
  then have "final_value 1 example_oid [Call_Set_Analog 1 0 1 0x4045400000000000, Call_Set_Binary 1 0 1 True] v =
      PV_Real (f32_of_f64 0x4045400000000000)" for v
    by (simp add: final_value_def call_key_def)
  with scenario_last_write_wins [OF example_engine_ok(1) s run] g run show ?thesis
    by (intro exI [of _ ?scn] exI [of _ r] exI [of _ st1]) (simp add: load_str_def)
qed

end
