(* ===== verification/Text_Parse.thy ===== *)
theory Text_Parse
  imports Names Float64
begin

text \<open>
  The text conversions of the Rust standard library that the program uses on its environment and on
  paths: \<^verbatim>\<open>str::parse\<close> into unsigned integers and floats, and what they make of printed numbers.
\<close>

subsection \<open>Numbers\<close>

text \<open>
  \<^verbatim>\<open>str::parse\<close> of an unsigned integer up to \<open>limit\<close>: an optional plus sign and at least one digit.
\<close>

definition digit_value :: "u8 \<Rightarrow> nat option" where
  "digit_value b = (if 0x30 \<le> b \<and> b \<le> 0x39 then Some (unat b - 48) else None)"

fun parse_digits :: "nat \<Rightarrow> nat \<Rightarrow> rstring \<Rightarrow> nat option" where
  "parse_digits limit acc [] = Some acc"
| "parse_digits limit acc (b # s) =
     (case digit_value b of
        None \<Rightarrow> None
      | Some d \<Rightarrow> if acc * 10 + d \<le> limit then parse_digits limit (acc * 10 + d) s else None)"

definition parse_uint :: "nat \<Rightarrow> rstring \<Rightarrow> nat option" where
  "parse_uint limit s =
     (let ds = (case s of b # r \<Rightarrow> if b = 0x2B then r else s | [] \<Rightarrow> s)
      in if ds = [] then None else parse_digits limit 0 ds)"

text \<open>
  \<^verbatim>\<open>f64::from_str\<close>: sign, digits with an optional point and exponent, or \<^verbatim>\<open>inf\<close>, \<^verbatim>\<open>infinity\<close> and
  \<^verbatim>\<open>nan\<close> in any case; the value is rounded once.
\<close>

fun take_digits :: "rstring \<Rightarrow> nat list \<times> rstring" where
  "take_digits [] = ([], [])"
| "take_digits (b # s) =
     (case digit_value b of
        None \<Rightarrow> ([], b # s)
      | Some d \<Rightarrow> (let (ds, r) = take_digits s in (d # ds, r)))"

definition digits_nat :: "nat list \<Rightarrow> nat" where
  "digits_nat ds = foldl (\<lambda>n d. n * 10 + d) 0 ds"

text \<open>The exponent stops growing when it has six digits or so.\<close>

definition exponent_nat :: "nat list \<Rightarrow> nat" where
  "exponent_nat ds = foldl (\<lambda>n d. if n < 0x10000 then n * 10 + d else n) 0 ds"

definition parse_exponent :: "rstring \<Rightarrow> int option" where
  "parse_exponent s =
     (let neg = (case s of b # _ \<Rightarrow> b = 0x2D | [] \<Rightarrow> False);
          r = (case s of b # r \<Rightarrow> if b = 0x2D \<or> b = 0x2B then r else s | [] \<Rightarrow> s);
          (ds, rest) = take_digits r
      in if ds = [] \<or> rest \<noteq> [] then None
         else Some (if neg then - int (exponent_nat ds) else int (exponent_nat ds)))"

definition f64_of_ratio :: "bool \<Rightarrow> nat \<Rightarrow> nat \<Rightarrow> f64" where
  "f64_of_ratio neg p q =
     (let n = p * 2 ^ 1134 in f64_round neg 61 (2 * (n div q) + (if n mod q = 0 then 0 else 1)))"

definition f64_of_decimal :: "bool \<Rightarrow> nat \<Rightarrow> int \<Rightarrow> f64" where
  "f64_of_decimal neg m e =
     (if 0 \<le> e then f64_of_ratio neg (m * 10 ^ nat e) 1 else f64_of_ratio neg m (10 ^ nat (- e)))"

definition parse_f64 :: "rstring \<Rightarrow> f64 option" where
  "parse_f64 s =
     (let neg = (case s of b # _ \<Rightarrow> b = 0x2D | [] \<Rightarrow> False);
          body = (case s of b # r \<Rightarrow> if b = 0x2D \<or> b = 0x2B then r else s | [] \<Rightarrow> s);
          (ints, r1) = take_digits body;
          (fracs, r2) = (case r1 of b # r \<Rightarrow> if b = 0x2E then take_digits r else ([], r1) | [] \<Rightarrow> ([], r1));
          word = List.map ascii_lower body
      in if ints @ fracs = [] then
           (if word = lit ''nan'' then Some (if neg then f64_neg f64_nan else f64_nan)
            else if word = lit ''inf'' \<or> word = lit ''infinity'' then Some (f64_inf neg) else None)
         else
           (case r2 of
              [] \<Rightarrow> Some (f64_of_decimal neg (digits_nat (ints @ fracs)) (- int (length fracs)))
            | b # r3 \<Rightarrow>
                if b = 0x65 \<or> b = 0x45
                then (case parse_exponent r3 of
                        Some e \<Rightarrow> Some (f64_of_decimal neg (digits_nat (ints @ fracs)) (e - int (length fracs)))
                      | None \<Rightarrow> None)
                else None))"

definition parse_u16 :: "rstring \<Rightarrow> u16 option" where
  "parse_u16 s = map_option of_nat (parse_uint 65535 s)"

definition parse_u32 :: "rstring \<Rightarrow> u32 option" where
  "parse_u32 s = map_option of_nat (parse_uint 4294967295 s)"

subsection \<open>Printed numbers\<close>

lemma digit_value_of_nat: "d < 10 \<Longrightarrow> digit_value (of_nat (48 + d)) = Some d"
proof -
  assume "d < 10"
  then have "d \<in> {0, 1, 2, 3, 4, 5, 6, 7, 8, 9}" by auto
  then show ?thesis by (auto simp: digit_value_def)
qed

lemma parse_digits_append:
  "parse_digits limit acc (a @ b) = Option.bind (parse_digits limit acc a) (\<lambda>n. parse_digits limit n b)"
  by (induction a arbitrary: acc) (simp_all split: option.split)

lemma decimal_digits: "n < 10 \<Longrightarrow> decimal n = [of_nat (48 + n)]"
  "\<not> n < 10 \<Longrightarrow> decimal n = decimal (n div 10) @ [of_nat (48 + n mod 10)]"
  by (simp_all add: decimal.simps [of n])

lemma parse_digits_decimal: "parse_digits limit 0 (decimal n) = (if n \<le> limit then Some n else None)"
proof (induction n rule: decimal.induct)
  case (1 n)
  show ?case
  proof (cases "n < 10")
    case True
    then show ?thesis by (simp add: decimal_digits(1) digit_value_of_nat del: of_nat_add)
  next
    case False
    with 1 have "parse_digits limit 0 (decimal (n div 10)) = (if n div 10 \<le> limit then Some (n div 10) else None)" by simp
    with False show ?thesis
      by (simp add: decimal_digits(2) parse_digits_append digit_value_of_nat del: of_nat_add) linarith?
  qed
qed

lemma decimal_not_Nil [simp]: "decimal n \<noteq> []"
  by (cases "n < 10") (simp_all add: decimal_digits)

text \<open>What is printed is read back, unless it is too large.\<close>

lemma parse_uint_decimal: "parse_uint limit (decimal n) = (if n \<le> limit then Some n else None)"
proof -
  obtain b r where d: "decimal n = b # r" by (cases "decimal n") auto
  have "b \<noteq> 0x2B" using parse_digits_decimal [of n n] d by (auto simp: digit_value_def)
  with d parse_digits_decimal [of limit n] show ?thesis by (simp add: parse_uint_def)
qed

end
