(* ===== verification/Metrics.thy ===== *)
theory Metrics
  imports Engine_Loop Names Utf8
begin

text \<open>
  \<^verbatim>\<open>crates/bacnet-api/src/metrics.rs\<close> and the refresh of the metrics in \<^verbatim>\<open>crates/bacnet-sim/src/main.rs\<close>.

  \<^verbatim>\<open>prometheus\<close> is a library: what the code does to it is the list of the calls it makes, and the
  text a scrape returns is an argument that encodes such a list.  The static cells that hold the
  registered metrics are the list of those that are set.
\<close>

datatype metric =
    DEVICES_TOTAL
  | OBJECTS_TOTAL
  | REQUESTS_TOTAL
  | COV_NOTIFICATIONS_TOTAL
  | ACTIVE_COV_SUBSCRIPTIONS
  | TICK_DURATION_SECONDS

text \<open>Kind, name, help, labels; the buckets of the histogram are \<open>0.001 * 2 ^ i\<close> for \<open>i < 12\<close>.\<close>

datatype metric_kind = Gauge | Counter_Vec | Histogram_Vec "f64 \<times> f64 \<times> nat"

record metric_desc =
  md_kind :: metric_kind
  md_name :: rstring
  md_help :: rstring
  md_labels :: "rstring list"

primrec metric_desc_of :: "metric \<Rightarrow> metric_desc" where
  "metric_desc_of DEVICES_TOTAL =
     \<lparr>md_kind = Gauge, md_name = lit ''bacnet_devices_total'', md_help = lit ''Total simulated devices'', md_labels = []\<rparr>"
| "metric_desc_of OBJECTS_TOTAL =
     \<lparr>md_kind = Gauge, md_name = lit ''bacnet_objects_total'', md_help = lit ''Total simulated objects'', md_labels = []\<rparr>"
| "metric_desc_of REQUESTS_TOTAL =
     \<lparr>md_kind = Counter_Vec, md_name = lit ''bacnet_requests_total'', md_help = lit ''BACnet requests processed'',
      md_labels = [lit ''service'', lit ''result'']\<rparr>"
| "metric_desc_of COV_NOTIFICATIONS_TOTAL =
     \<lparr>md_kind = Counter_Vec, md_name = lit ''bacnet_cov_notifications_total'', md_help = lit ''COV notifications sent'',
      md_labels = [lit ''transport'']\<rparr>"
| "metric_desc_of ACTIVE_COV_SUBSCRIPTIONS =
     \<lparr>md_kind = Gauge, md_name = lit ''bacnet_active_cov_subscriptions'',
      md_help = lit ''Number of active COV subscriptions'', md_labels = []\<rparr>"
| "metric_desc_of TICK_DURATION_SECONDS =
     \<lparr>md_kind = Histogram_Vec (0x3F50624DD2F1A9FC, 0x4000000000000000, 12), md_name = lit ''bacnet_tick_duration_seconds'',
      md_help = lit ''Simulation tick duration in seconds'', md_labels = [lit ''tick_hz'']\<rparr>"

datatype metric_call =
    Register metric_desc
  | Set_Value metric f64
  | Inc_By metric "rstring list" f64
  | Observe metric "rstring list" f64

record metrics =
  mt_cells :: "metric list"
  mt_calls :: "metric_call list"

definition metrics_new :: metrics where
  "metrics_new = \<lparr>mt_cells = [], mt_calls = []\<rparr>"

text \<open>What is registered so far.\<close>

fun registrations :: "metric_call list \<Rightarrow> metric_desc list" where
  "registrations [] = []"
| "registrations (Register d # calls) = d # registrations calls"
| "registrations (_ # calls) = registrations calls"

text \<open>
  \<^verbatim>\<open>get_or_init\<close>: the first use registers, and panics when the registry refuses; whether it accepts
  a description after those it has is an argument.
\<close>

type_synonym registry = "metric_desc list \<Rightarrow> metric_desc \<Rightarrow> bool"

definition metric_cell :: "registry \<Rightarrow> metric \<Rightarrow> metrics \<Rightarrow> (metrics, unit) rres" where
  "metric_cell reg c m =
     (if c \<in> set (mt_cells m) then Ok m
      else if reg (registrations (mt_calls m)) (metric_desc_of c)
      then Ok (m\<lparr>mt_cells := c # mt_cells m, mt_calls := mt_calls m @ [Register (metric_desc_of c)]\<rparr>)
      else Panic)"

text \<open>A call on the cell; \<^verbatim>\<open>with_label_values\<close> panics unless it is given a value for every label.\<close>

fun call_labels :: "metric_call \<Rightarrow> rstring list" where
  "call_labels (Inc_By c ls x) = ls"
| "call_labels (Observe c ls x) = ls"
| "call_labels _ = []"

definition use_metric :: "registry \<Rightarrow> metric \<Rightarrow> metric_call \<Rightarrow> metrics \<Rightarrow> (metrics, unit) rres" where
  "use_metric reg c call m =
     rbind (metric_cell reg c m) (\<lambda>m.
       if length (call_labels call) = length (md_labels (metric_desc_of c))
       then Ok (m\<lparr>mt_calls := mt_calls m @ [call]\<rparr>) else Panic)"

subsection \<open>The setters\<close>

definition set_devices :: "registry \<Rightarrow> f64 \<Rightarrow> metrics \<Rightarrow> (metrics, unit) rres" where
  "set_devices reg n = use_metric reg DEVICES_TOTAL (Set_Value DEVICES_TOTAL n)"

definition set_objects :: "registry \<Rightarrow> f64 \<Rightarrow> metrics \<Rightarrow> (metrics, unit) rres" where
  "set_objects reg n = use_metric reg OBJECTS_TOTAL (Set_Value OBJECTS_TOTAL n)"

definition inc_requests :: "registry \<Rightarrow> rstring \<Rightarrow> rstring \<Rightarrow> metrics \<Rightarrow> (metrics, unit) rres" where
  "inc_requests reg service result =
     use_metric reg REQUESTS_TOTAL (Inc_By REQUESTS_TOTAL [service, result] 0x3FF0000000000000)"

definition inc_cov_notifications :: "registry \<Rightarrow> rstring \<Rightarrow> metrics \<Rightarrow> (metrics, unit) rres" where
  "inc_cov_notifications reg transport =
     use_metric reg COV_NOTIFICATIONS_TOTAL (Inc_By COV_NOTIFICATIONS_TOTAL [transport] 0x3FF0000000000000)"

definition inc_cov_notifications_n :: "registry \<Rightarrow> rstring \<Rightarrow> u64 \<Rightarrow> metrics \<Rightarrow> (metrics, unit) rres" where
  "inc_cov_notifications_n reg transport n =
     use_metric reg COV_NOTIFICATIONS_TOTAL (Inc_By COV_NOTIFICATIONS_TOTAL [transport] (f64_of_nat (unat n)))"

definition set_active_cov_subscriptions :: "registry \<Rightarrow> f64 \<Rightarrow> metrics \<Rightarrow> (metrics, unit) rres" where
  "set_active_cov_subscriptions reg n =
     use_metric reg ACTIVE_COV_SUBSCRIPTIONS (Set_Value ACTIVE_COV_SUBSCRIPTIONS n)"

text \<open>\<^verbatim>\<open>format!("{:.1}")\<close>: the exact value to one decimal, ties to even.\<close>

definition format_f64_1 :: "f64 \<Rightarrow> rstring" where
  "format_f64_1 w =
     (if f64_is_nan w then lit ''NaN''
      else (if f64_sign w then lit ''-'' else []) @
        (if f64_is_inf w then lit ''inf''
         else let n = round_half_even (f64_mag w * 10) 1074
              in decimal (n div 10) @ lit ''.'' @ decimal (n mod 10)))"

definition observe_tick_duration :: "registry \<Rightarrow> f64 \<Rightarrow> f64 \<Rightarrow> metrics \<Rightarrow> (metrics, unit) rres" where
  "observe_tick_duration reg tick_hz seconds =
     use_metric reg TICK_DURATION_SECONDS (Observe TICK_DURATION_SECONDS [format_f64_1 tick_hz] seconds)"

text \<open>The scrape: the encoder writes the text of the calls, and text that is not UTF-8 is dropped.\<close>

definition gather :: "(metric_call list \<Rightarrow> bytes) \<Rightarrow> metrics \<Rightarrow> rstring" where
  "gather encode m = (let buf = encode (mt_calls m) in if utf8_valid buf then buf else [])"

subsection \<open>The refresh of the main program\<close>

text \<open>One turn of the loop that runs every fifteen seconds; \<open>0x41CDCD6500000000\<close> is \<open>1e9\<close>.\<close>

definition refresh_metrics :: "registry \<Rightarrow> 'g sim_engine \<Rightarrow> metrics \<Rightarrow> (metrics, unit) rres" where
  "refresh_metrics reg eng m =
     (let nanos = se_last_tick_nanos eng;
          cov = se_cov_notifications_total eng
      in rbind (if 0 < nanos
                then observe_tick_duration reg (se_tick_hz eng) (f64_div (f64_of_nat (unat nanos)) 0x41CDCD6500000000) m
                else Ok m) (\<lambda>m.
         rbind (set_active_cov_subscriptions reg (f64_of_nat (unat cov)) m)
           (set_objects reg (f64_of_nat (store_count (se_store eng))))))"

subsection \<open>Registration\<close>

text \<open>
  What the registry documents: it takes a description with a name of its own, in the characters of
  the data model, a help text, and labels that are well-formed and different.
\<close>

definition metric_head :: "u8 \<Rightarrow> bool" where
  "metric_head b \<longleftrightarrow> 0x41 \<le> b \<and> b \<le> 0x5A \<or> 0x61 \<le> b \<and> b \<le> 0x7A \<or> b = 0x5F"

definition metric_name_valid :: "rstring \<Rightarrow> bool" where
  "metric_name_valid s \<longleftrightarrow> s \<noteq> [] \<and> metric_head (hd s) \<and>
     list_all (\<lambda>b. metric_head b \<or> 0x30 \<le> b \<and> b \<le> 0x39) s"

definition metric_desc_valid :: "metric_desc \<Rightarrow> bool" where
  "metric_desc_valid d \<longleftrightarrow> metric_name_valid (md_name d) \<and> md_help d \<noteq> [] \<and>
     list_all metric_name_valid (md_labels d) \<and> distinct (md_labels d)"

definition registry_ok :: "registry \<Rightarrow> bool" where
  "registry_ok reg \<longleftrightarrow> (\<forall>ds d. metric_desc_valid d \<longrightarrow> md_name d \<notin> set (map md_name ds) \<longrightarrow> reg ds d)"

lemma metric_desc_of_valid: "metric_desc_valid (metric_desc_of c)"
  by (cases c) (simp_all add: metric_desc_valid_def metric_name_valid_def metric_head_def lit_simps)

lemma metric_desc_names: "md_name (metric_desc_of c) = md_name (metric_desc_of c') \<longleftrightarrow> c = c'"
  by (cases c; cases c') (simp_all add: lit_simps)

text \<open>What is registered is what the cells hold.\<close>

definition metrics_ok :: "metrics \<Rightarrow> bool" where
  "metrics_ok m \<longleftrightarrow> distinct (mt_cells m) \<and> registrations (mt_calls m) = map metric_desc_of (rev (mt_cells m))"

lemma registrations_append: "registrations (a @ b) = registrations a @ registrations b"
  by (induction a rule: registrations.induct) simp_all

lemma metrics_new_ok: "metrics_ok metrics_new"
  by (simp add: metrics_ok_def metrics_new_def)

lemma metric_cell_ok:
  assumes "registry_ok reg" and "metrics_ok m"
  shows "\<exists>m'. metric_cell reg c m = Ok m' \<and> metrics_ok m' \<and> c \<in> set (mt_cells m') \<and>
    (\<exists>more. mt_calls m' = mt_calls m @ more)"
proof (cases "c \<in> set (mt_cells m)")
  case False
  with assms(2) have "md_name (metric_desc_of c) \<notin> set (map md_name (registrations (mt_calls m)))"
    by (auto simp: metrics_ok_def metric_desc_names)
  with assms(1) metric_desc_of_valid [of c] have "reg (registrations (mt_calls m)) (metric_desc_of c)"
    unfolding registry_ok_def by blast
  with False assms(2) show ?thesis
    by (auto simp: metric_cell_def metrics_ok_def registrations_append)
qed (use assms(2) in \<open>auto simp: metric_cell_def\<close>)

text \<open>The operations of the module, as a list of what is done to the metrics.\<close>

datatype metric_op =
    Op_Devices f64
  | Op_Objects f64
  | Op_Request rstring rstring
  | Op_Cov rstring
  | Op_Cov_N rstring u64
  | Op_Active f64
  | Op_Tick f64 f64

primrec run_metric_op :: "registry \<Rightarrow> metric_op \<Rightarrow> metrics \<Rightarrow> (metrics, unit) rres" where
  "run_metric_op reg (Op_Devices n) = set_devices reg n"
| "run_metric_op reg (Op_Objects n) = set_objects reg n"
| "run_metric_op reg (Op_Request s r) = inc_requests reg s r"
| "run_metric_op reg (Op_Cov t) = inc_cov_notifications reg t"
| "run_metric_op reg (Op_Cov_N t n) = inc_cov_notifications_n reg t n"
| "run_metric_op reg (Op_Active n) = set_active_cov_subscriptions reg n"
| "run_metric_op reg (Op_Tick hz s) = observe_tick_duration reg hz s"

lemmas setter_defs = set_devices_def set_objects_def inc_requests_def inc_cov_notifications_def
  inc_cov_notifications_n_def set_active_cov_subscriptions_def observe_tick_duration_def

lemma use_metric_ok:
  assumes "registry_ok reg" and "metrics_ok m"
    and "length (call_labels call) = length (md_labels (metric_desc_of c))" and "registrations [call] = []"
  shows "\<exists>m'. use_metric reg c call m = Ok m' \<and> metrics_ok m' \<and> (\<exists>pre. mt_calls m' = mt_calls m @ pre @ [call])"
proof -
  obtain m1 pre where "metric_cell reg c m = Ok m1" "metrics_ok m1" "mt_calls m1 = mt_calls m @ pre"
    using metric_cell_ok [OF assms(1,2), of c] by blast
  with assms(3,4) show ?thesis by (auto simp: use_metric_def metrics_ok_def registrations_append)
qed

lemma run_metric_op_ok:
  assumes "registry_ok reg" and "metrics_ok m"
  shows "\<exists>m'. run_metric_op reg op m = Ok m' \<and> metrics_ok m'"
  by (cases op) (use use_metric_ok [OF assms] in \<open>force simp: setter_defs\<close>)+

primrec run_metric_ops :: "registry \<Rightarrow> metric_op list \<Rightarrow> metrics \<Rightarrow> (metrics, unit) rres" where
  "run_metric_ops reg [] m = Ok m"
| "run_metric_ops reg (op # ops) m = rbind (run_metric_op reg op m) (run_metric_ops reg ops)"

lemma run_metric_ops_ok:
  "registry_ok reg \<Longrightarrow> metrics_ok m \<Longrightarrow> \<exists>m'. run_metric_ops reg ops m = Ok m' \<and> metrics_ok m'"
proof (induction ops arbitrary: m)
  case (Cons op ops)
  from run_metric_op_ok [OF Cons.prems] obtain m1 where "run_metric_op reg op m = Ok m1" "metrics_ok m1" by blast
  with Cons.IH [OF Cons.prems(1)] show ?case by simp
qed simp

lemma refresh_metrics_ok:
  assumes "registry_ok reg" and "metrics_ok m"
  shows "\<exists>m' pre pre2. refresh_metrics reg eng m = Ok m' \<and> metrics_ok m' \<and>
    mt_calls m' = mt_calls m @ pre @ [Set_Value ACTIVE_COV_SUBSCRIPTIONS (f64_of_nat (unat (se_cov_notifications_total eng)))] @
      pre2 @ [Set_Value OBJECTS_TOTAL (f64_of_nat (store_count (se_store eng)))]"
proof -
  obtain m1 pre1 where 1: "(if 0 < se_last_tick_nanos eng
      then observe_tick_duration reg (se_tick_hz eng) (f64_div (f64_of_nat (unat (se_last_tick_nanos eng))) 0x41CDCD6500000000) m
      else Ok m) = Ok m1" "metrics_ok m1" "mt_calls m1 = mt_calls m @ pre1"
  proof (cases "0 < se_last_tick_nanos eng")
    case True
    with use_metric_ok [OF assms, of "Observe TICK_DURATION_SECONDS [format_f64_1 (se_tick_hz eng)]
        (f64_div (f64_of_nat (unat (se_last_tick_nanos eng))) 0x41CDCD6500000000)" TICK_DURATION_SECONDS] that
    show ?thesis by (auto simp: observe_tick_duration_def)
  qed (use assms(2) that in auto)
  obtain m2 pre2 where 2: "set_active_cov_subscriptions reg (f64_of_nat (unat (se_cov_notifications_total eng))) m1 = Ok m2"
      "metrics_ok m2"
      "mt_calls m2 = mt_calls m1 @ pre2 @ [Set_Value ACTIVE_COV_SUBSCRIPTIONS (f64_of_nat (unat (se_cov_notifications_total eng)))]"
    using use_metric_ok [OF assms(1) 1(2), of "Set_Value ACTIVE_COV_SUBSCRIPTIONS (f64_of_nat (unat (se_cov_notifications_total eng)))"
        ACTIVE_COV_SUBSCRIPTIONS] by (auto simp: set_active_cov_subscriptions_def)
  obtain m3 pre3 where "set_objects reg (f64_of_nat (store_count (se_store eng))) m2 = Ok m3" "metrics_ok m3"
      "mt_calls m3 = mt_calls m2 @ pre3 @ [Set_Value OBJECTS_TOTAL (f64_of_nat (store_count (se_store eng)))]"
    using use_metric_ok [OF assms(1) 2(2), of "Set_Value OBJECTS_TOTAL (f64_of_nat (store_count (se_store eng)))" OBJECTS_TOTAL]
    by (auto simp: set_objects_def)
  with 1 2 show ?thesis
    by (intro exI [of _ m3] exI [of _ "pre1 @ pre2"] exI [of _ pre3]) (simp add: refresh_metrics_def Let_def)
qed

subsection \<open>Properties\<close>

text \<open>
  The metrics never panic: whatever the module is asked, in whatever order, each metric is
  registered once, at its first use, under a name no other has and with as many label values as
  it has labels, so that neither the registration nor the lookup of a label set is refused.
\<close>

theorem metrics_never_panic:
  assumes "registry_ok reg"
  shows "\<exists>m. run_metric_ops reg ops metrics_new = Ok m \<and> distinct (map md_name (registrations (mt_calls m)))"
proof -
  obtain m where m: "run_metric_ops reg ops metrics_new = Ok m" "metrics_ok m"
    using run_metric_ops_ok [OF assms metrics_new_ok] by blast
  then have "distinct (map md_name (registrations (mt_calls m)))"
    by (auto simp: metrics_ok_def distinct_map inj_on_def metric_desc_names rev_map)
  with m(1) show ?thesis by blast
qed

theorem metrics_never_panic_witness:
  "registry_ok (\<lambda>ds d. d \<notin> set ds) \<and>
    (\<exists>m. run_metric_ops (\<lambda>ds d. d \<notin> set ds) [Op_Objects 0, Op_Cov (lit ''ip''), Op_Objects 1] metrics_new = Ok m)"
proof -
  have "registry_ok (\<lambda>ds d. d \<notin> set ds)" by (auto simp: registry_ok_def)
  with metrics_never_panic [OF this] show ?thesis by blast
qed

end
