(* ===== verification/Api_Routes.thy ===== *)
theory Api_Routes
  imports Rest_Api Text_Parse Hot_Reload Metrics
begin

text \<open>
  The router of \<^verbatim>\<open>serve\<close> in \<^verbatim>\<open>crates/bacnet-api/src/rest.rs\<close>: its table of routes, and what the
  extractors of the handlers take from a request.

  \<^verbatim>\<open>axum\<close> and \<^verbatim>\<open>serde\<close> are libraries.  What is used of them is what they document: a capture stands
  for one segment that is not empty, a \<^verbatim>\<open>GET\<close> route also answers \<^verbatim>\<open>HEAD\<close>, an unknown path and a wrong
  method are refused, and \<^verbatim>\<open>Path\<close> parses numbers with \<^verbatim>\<open>str::parse\<close>.  Percent decoding is the argument
  \<open>pct\<close>; what \<^verbatim>\<open>Json\<close> makes of the body is part of the request.
\<close>

subsection \<open>The table\<close>

datatype http_method = M_GET | M_HEAD | M_PUT | M_POST | M_Other

datatype endpoint =
    EP_health
  | EP_metrics_handler
  | EP_list_devices
  | EP_get_device
  | EP_list_objects
  | EP_get_object
  | EP_write_property
  | EP_load_scenario
  | EP_stop_scenario

datatype route_segment = Seg string | Capture

definition api_routes :: "(route_segment list \<times> http_method \<times> endpoint) list" where
  "api_routes =
     [([Seg ''api'', Seg ''v1'', Seg ''health''], M_GET, EP_health),
      ([Seg ''api'', Seg ''v1'', Seg ''metrics''], M_GET, EP_metrics_handler),
      ([Seg ''api'', Seg ''v1'', Seg ''devices''], M_GET, EP_list_devices),
      ([Seg ''api'', Seg ''v1'', Seg ''devices'', Capture], M_GET, EP_get_device),
      ([Seg ''api'', Seg ''v1'', Seg ''devices'', Capture, Seg ''objects''], M_GET, EP_list_objects),
      ([Seg ''api'', Seg ''v1'', Seg ''devices'', Capture, Seg ''objects'', Capture, Capture], M_GET, EP_get_object),
      ([Seg ''api'', Seg ''v1'', Seg ''devices'', Capture, Seg ''objects'', Capture, Capture, Seg ''properties'', Capture],
         M_PUT, EP_write_property),
      ([Seg ''api'', Seg ''v1'', Seg ''scenarios'', Seg ''load''], M_POST, EP_load_scenario),
      ([Seg ''api'', Seg ''v1'', Seg ''scenarios'', Seg ''stop''], M_POST, EP_stop_scenario)]"

subsection \<open>Matching\<close>

fun match_segments :: "route_segment list \<Rightarrow> rstring list \<Rightarrow> rstring list option" where
  "match_segments [] [] = Some []"
| "match_segments (Seg s # rs) (p # ps) = (if p = lit s then match_segments rs ps else None)"
| "match_segments (Capture # rs) (p # ps) = (if p = [] then None else map_option (\<lambda>cs. p # cs) (match_segments rs ps))"
| "match_segments _ _ = None"

fun find_route :: "(route_segment list \<times> http_method \<times> endpoint) list \<Rightarrow> rstring list \<Rightarrow>
    (http_method \<times> endpoint \<times> rstring list) option" where
  "find_route [] ps = None"
| "find_route ((segs, m, ep) # rs) ps =
     (case match_segments segs ps of Some cs \<Rightarrow> Some (m, ep, cs) | None \<Rightarrow> find_route rs ps)"

record 'n http_request =
  hr_method :: http_method
  hr_path :: rstring
  hr_value :: "'n json_value option"
  hr_scenario :: "rstring option"

datatype 'n routed =
    Routed "'n api_request"
  | Metrics_Page
  | No_Route
  | Wrong_Method
  | Bad_Path
  | Bad_Body

text \<open>The extractors: the captures are decoded, then parsed; the body comes last.\<close>

definition extract_args :: "endpoint \<Rightarrow> rstring list \<Rightarrow> 'n http_request \<Rightarrow> 'n routed" where
  "extract_args ep cs req =
     (case (ep, cs) of
        (EP_health, []) \<Rightarrow> Routed Get_Health
      | (EP_metrics_handler, []) \<Rightarrow> Metrics_Page
      | (EP_list_devices, []) \<Rightarrow> Routed Get_Devices
      | (EP_get_device, [d]) \<Rightarrow> (case parse_u32 d of Some d \<Rightarrow> Routed (Get_Device d) | None \<Rightarrow> Bad_Path)
      | (EP_list_objects, [d]) \<Rightarrow> (case parse_u32 d of Some d \<Rightarrow> Routed (Get_Objects d) | None \<Rightarrow> Bad_Path)
      | (EP_get_object, [d, t, i]) \<Rightarrow>
          (case (parse_u32 d, parse_u32 i) of
             (Some d, Some i) \<Rightarrow> Routed (Get_Object d t i)
           | _ \<Rightarrow> Bad_Path)
      | (EP_write_property, [d, t, i, p]) \<Rightarrow>
          (case (parse_u32 d, parse_u32 i) of
             (Some d, Some i) \<Rightarrow> (case hr_value req of Some v \<Rightarrow> Routed (Put_Property d t i p v) | None \<Rightarrow> Bad_Body)
           | _ \<Rightarrow> Bad_Path)
      | (EP_load_scenario, []) \<Rightarrow> (case hr_scenario req of Some path \<Rightarrow> Routed (Post_Load path) | None \<Rightarrow> Bad_Body)
      | (EP_stop_scenario, []) \<Rightarrow> Routed Post_Stop
      | _ \<Rightarrow> Bad_Path)"

fun decode_captures :: "(rstring \<Rightarrow> rstring option) \<Rightarrow> rstring list \<Rightarrow> rstring list option" where
  "decode_captures pct [] = Some []"
| "decode_captures pct (c # cs) =
     Option.bind (pct c) (\<lambda>d. map_option (\<lambda>ds. d # ds) (decode_captures pct cs))"

definition route_in ::
    "(route_segment list \<times> http_method \<times> endpoint) list \<Rightarrow> (rstring \<Rightarrow> rstring option) \<Rightarrow> 'n http_request \<Rightarrow> 'n routed" where
  "route_in routes pct req =
     (case split_slash (hr_path req) of
        [] # segs \<Rightarrow>
          (case find_route routes segs of
             None \<Rightarrow> No_Route
           | Some (m, ep, cs) \<Rightarrow>
               (if hr_method req = m \<or> m = M_GET \<and> hr_method req = M_HEAD
                then (case decode_captures pct cs of Some cs \<Rightarrow> extract_args ep cs req | None \<Rightarrow> Bad_Path)
                else Wrong_Method))
      | _ \<Rightarrow> No_Route)"

definition route_request :: "(rstring \<Rightarrow> rstring option) \<Rightarrow> 'n http_request \<Rightarrow> 'n routed" where
  "route_request pct req = route_in api_routes pct req"

text \<open>The metrics handler, and a request from its bytes to its answer.\<close>

definition metrics_handler :: "(metric_call list \<Rightarrow> bytes) \<Rightarrow> metrics \<Rightarrow> rstring" where
  "metrics_handler encode m = gather encode m"

datatype 'n http_answer = Answered "'n api_response ares" | Metrics_Text rstring | Refused nat | Refused_Body

definition answer_routed ::
    "(metric_call list \<Rightarrow> bytes) \<Rightarrow> metrics \<Rightarrow> 'n json_lib \<Rightarrow> hash_fn \<Rightarrow> (bytes \<Rightarrow> bytes) \<Rightarrow>
     (rstring \<Rightarrow> rstring option) \<Rightarrow> system_time \<Rightarrow> instant \<Rightarrow> 'n routed \<Rightarrow> app_state \<Rightarrow> 'n http_answer \<times> app_state" where
  "answer_routed encode m jl fx uni files sys now routed state =
     (case routed of
        Routed r \<Rightarrow> apfst Answered (api_serve jl fx uni files sys now r state)
      | Metrics_Page \<Rightarrow> (Metrics_Text (metrics_handler encode m), state)
      | No_Route \<Rightarrow> (Refused 404, state)
      | Wrong_Method \<Rightarrow> (Refused 405, state)
      | Bad_Path \<Rightarrow> (Refused 400, state)
      | Bad_Body \<Rightarrow> (Refused_Body, state))"

definition http_serve ::
    "(rstring \<Rightarrow> rstring option) \<Rightarrow> (metric_call list \<Rightarrow> bytes) \<Rightarrow> metrics \<Rightarrow> 'n json_lib \<Rightarrow> hash_fn \<Rightarrow> (bytes \<Rightarrow> bytes) \<Rightarrow>
     (rstring \<Rightarrow> rstring option) \<Rightarrow> system_time \<Rightarrow> instant \<Rightarrow> 'n http_request \<Rightarrow> app_state \<Rightarrow> 'n http_answer \<times> app_state" where
  "http_serve pct encode m jl fx uni files sys now req state =
     answer_routed encode m jl fx uni files sys now (route_request pct req) state"

subsection \<open>The address of a request\<close>

text \<open>The request a client writes for each operation; \<open>enc\<close> encodes a name for a path.\<close>

definition api_path :: "rstring list \<Rightarrow> rstring" where
  "api_path ps = concat (map (\<lambda>p. 0x2F # p) (lit ''api'' # lit ''v1'' # ps))"

definition http_of :: "http_method \<Rightarrow> rstring list \<Rightarrow> 'n http_request" where
  "http_of m ps = \<lparr>hr_method = m, hr_path = api_path ps, hr_value = None, hr_scenario = None\<rparr>"

definition object_path :: "(rstring \<Rightarrow> rstring) \<Rightarrow> u32 \<Rightarrow> rstring \<Rightarrow> u32 \<Rightarrow> rstring list" where
  "object_path enc d t i = [lit ''devices'', decimal (unat d), lit ''objects'', enc t, decimal (unat i)]"

primrec request_http :: "(rstring \<Rightarrow> rstring) \<Rightarrow> 'n api_request \<Rightarrow> 'n http_request" where
  "request_http enc Get_Health = http_of M_GET [lit ''health'']"
| "request_http enc Get_Devices = http_of M_GET [lit ''devices'']"
| "request_http enc (Get_Device d) = http_of M_GET [lit ''devices'', decimal (unat d)]"
| "request_http enc (Get_Objects d) = http_of M_GET [lit ''devices'', decimal (unat d), lit ''objects'']"
| "request_http enc (Get_Object d t i) = http_of M_GET (object_path enc d t i)"
| "request_http enc (Put_Property d t i p v) =
     (http_of M_PUT (object_path enc d t i @ [lit ''properties'', enc p]))\<lparr>hr_value := Some v\<rparr>"
| "request_http enc (Post_Load path) = (http_of M_POST [lit ''scenarios'', lit ''load''])\<lparr>hr_scenario := Some path\<rparr>"
| "request_http enc Post_Stop = http_of M_POST [lit ''scenarios'', lit ''stop'']"

subsection \<open>Lemmas\<close>

lemma split_slash_segment: "0x2F \<notin> set p \<Longrightarrow> split_slash p = [p]"
  by (induction p) auto

lemma split_slash_prefix: "0x2F \<notin> set p \<Longrightarrow> split_slash (p @ 0x2F # s) = p # split_slash s"
  by (simp add: split_slash_append split_slash_segment)

lemma split_slash_path:
  "\<forall>p \<in> set (q # ps). 0x2F \<notin> set p \<Longrightarrow> split_slash (concat (map (\<lambda>p. 0x2F # p) (q # ps))) = [] # q # ps"
proof (induction ps arbitrary: q)
  case (Cons p ps)
  then have "split_slash (concat (map (\<lambda>p. 0x2F # p) (p # ps))) = [] # p # ps" by simp
  then have "split_slash (q @ concat (map (\<lambda>p. 0x2F # p) (p # ps))) = q # p # ps"
    using split_slash_prefix [of q] Cons.prems by simp
  then show ?case by simp
qed (simp add: split_slash_segment)

lemma split_api_path:
  "\<forall>p \<in> set ps. 0x2F \<notin> set p \<Longrightarrow> split_slash (api_path ps) = [] # lit ''api'' # lit ''v1'' # ps"
  unfolding api_path_def by (rule split_slash_path) (auto simp: lit_simps)

lemma decimal_chars: "b \<in> set (decimal n) \<Longrightarrow> 0x30 \<le> b \<and> b \<le> 0x39"
proof (induction n rule: decimal.induct)
  case (1 n)
  have "0x30 \<le> (of_nat (48 + d) :: u8) \<and> (of_nat (48 + d) :: u8) \<le> 0x39" if "d < 10" for d
    using digit_value_of_nat [OF that] by (auto simp: digit_value_def split: if_splits)
  with 1 show ?case by (cases "n < 10") (auto simp: decimal_digits simp del: of_nat_add)
qed

lemma decimal_no_slash: "0x2F \<notin> set (decimal n)"
  using decimal_chars [of "0x2F" n] by auto

lemma parse_u32_decimal: "parse_u32 (decimal (unat i)) = Some i"
proof -
  have "unat i \<le> 4294967295" using unsigned_less [of i, where ?'a = nat] by simp
  then show ?thesis by (simp add: parse_u32_def parse_uint_decimal)
qed

text \<open>
  What is asked of percent encoding: numbers and names survive, as one segment.  A name is a
  Rust string, so valid UTF-8; a path that decodes to anything else is refused.
\<close>

definition encodes :: "(rstring \<Rightarrow> rstring option) \<Rightarrow> (rstring \<Rightarrow> rstring) \<Rightarrow> bool" where
  "encodes pct enc \<longleftrightarrow>
     (\<forall>s. utf8_valid s \<longrightarrow> pct (enc s) = Some s \<and> 0x2F \<notin> set (enc s) \<and> (s \<noteq> [] \<longrightarrow> enc s \<noteq> [])) \<and>
     (\<forall>n. pct (decimal n) = Some (decimal n))"

definition path_text :: "rstring \<Rightarrow> bool" where
  "path_text s \<longleftrightarrow> s \<noteq> [] \<and> utf8_valid s"

primrec named_request :: "'n api_request \<Rightarrow> bool" where
  "named_request Get_Health \<longleftrightarrow> True"
| "named_request Get_Devices \<longleftrightarrow> True"
| "named_request (Get_Device d) \<longleftrightarrow> True"
| "named_request (Get_Objects d) \<longleftrightarrow> True"
| "named_request (Get_Object d t i) \<longleftrightarrow> path_text t"
| "named_request (Put_Property d t i p v) \<longleftrightarrow> path_text t \<and> path_text p"
| "named_request (Post_Load path) \<longleftrightarrow> True"
| "named_request Post_Stop \<longleftrightarrow> True"

text \<open>Only the PUT route leads to a write.\<close>

lemma find_route_put:
  "find_route api_routes segs = Some (meth, EP_write_property, cs) \<Longrightarrow> meth = M_PUT"
  by (simp add: api_routes_def split: option.splits)

lemma extract_args_put:
  "extract_args ep cs req = Routed (Put_Property d t i p v) \<Longrightarrow> ep = EP_write_property"
  by (auto simp: extract_args_def split: endpoint.splits list.splits option.splits)

lemma routed_put: "route_request pct req = Routed (Put_Property d t i p v) \<Longrightarrow> hr_method req = M_PUT"
  by (auto simp: route_request_def route_in_def split: list.splits option.splits if_splits
      dest!: extract_args_put find_route_put)

text \<open>
  An encoding: slash and percent sign as \<^verbatim>\<open>%2F\<close> and \<^verbatim>\<open>%25\<close>.  Its decoder takes any two hexadecimal
  digits, leaves a percent sign without them as it is, and refuses what is not UTF-8.
\<close>

definition example_enc :: "rstring \<Rightarrow> rstring" where
  "example_enc s = concat (map (\<lambda>b. if b = 0x2F then [0x25, 0x32, 0x46] else if b = 0x25 then [0x25, 0x32, 0x35] else [b]) s)"

definition hex_value :: "u8 \<Rightarrow> u8 option" where
  "hex_value b =
     (if 0x30 \<le> b \<and> b \<le> 0x39 then Some (b - 0x30)
      else if 0x41 \<le> b \<and> b \<le> 0x46 then Some (b - 0x37)
      else if 0x61 \<le> b \<and> b \<le> 0x66 then Some (b - 0x57)
      else None)"

fun percent_bytes :: "rstring \<Rightarrow> bytes" where
  "percent_bytes (b # h # l # s) =
     (if b = 0x25
      then (case (hex_value h, hex_value l) of
              (Some x, Some y) \<Rightarrow> (16 * x + y) # percent_bytes s
            | _ \<Rightarrow> b # percent_bytes (h # l # s))
      else b # percent_bytes (h # l # s))"
| "percent_bytes s = s"

definition example_pct :: "rstring \<Rightarrow> rstring option" where
  "example_pct s = (let r = percent_bytes s in if utf8_valid r then Some r else None)"

lemma percent_bytes_other: "b \<noteq> 0x25 \<Longrightarrow> percent_bytes (b # s) = b # percent_bytes s"
  by (cases s; cases "tl s") auto

lemma example_encodes: "encodes example_pct example_enc"
proof -
  have "percent_bytes (example_enc s) = s" for s
  proof (induction s)
    case (Cons b s)
    have "percent_bytes ([0x25, 0x32, 0x46] @ t) = 0x2F # percent_bytes t"
      and "percent_bytes ([0x25, 0x32, 0x35] @ t) = 0x25 # percent_bytes t" for t
      by (simp_all add: hex_value_def)
    with Cons show ?case by (simp add: example_enc_def percent_bytes_other)
  qed (simp add: example_enc_def)
  moreover have "0x2F \<notin> set (example_enc s)" for s
    by (auto simp: example_enc_def split: if_splits)
  moreover have "s \<noteq> [] \<longrightarrow> example_enc s \<noteq> []" for s
    by (cases s) (simp_all add: example_enc_def)
  moreover have "percent_bytes s = s" if "0x25 \<notin> set s" for s
    using that by (induction s) (simp_all add: percent_bytes_other)
  moreover have "0x25 \<notin> set (decimal n)" for n using decimal_chars [of "0x25" n] by auto
  moreover have "utf8_valid (decimal n)" for n
    using decimal_chars by (intro utf8_valid_ascii) (fastforce intro: le_less_trans [of _ "0x39"])
  ultimately show ?thesis by (simp add: encodes_def example_pct_def)
qed

lemma route_request_http:
  assumes "encodes pct enc" and "named_request r"
  shows "route_request pct (request_http enc r) = Routed r"
proof -
  have e: "utf8_valid s \<Longrightarrow> pct (enc s) = Some s" "utf8_valid s \<Longrightarrow> 0x2F \<notin> set (enc s)"
      "utf8_valid s \<Longrightarrow> s \<noteq> [] \<Longrightarrow> enc s \<noteq> []" "pct (decimal n) = Some (decimal n)" for s n
    using assms(1) by (auto simp: encodes_def)
  have lits: "0x2F \<notin> set (lit ''health'')" "0x2F \<notin> set (lit ''devices'')" "0x2F \<notin> set (lit ''objects'')"
      "0x2F \<notin> set (lit ''properties'')" "0x2F \<notin> set (lit ''scenarios'')" "0x2F \<notin> set (lit ''load'')"
      "0x2F \<notin> set (lit ''stop'')" by (simp_all add: lit_simps)
  have diff: "lit ''devices'' \<noteq> lit ''health''" "lit ''devices'' \<noteq> lit ''metrics''" "lit ''scenarios'' \<noteq> lit ''health''"
      "lit ''scenarios'' \<noteq> lit ''metrics''" "lit ''scenarios'' \<noteq> lit ''devices''" "lit ''stop'' \<noteq> lit ''load''"
    by (simp_all add: lit_simps)
  show ?thesis
    using assms(2)
    by (cases r) (simp_all add: route_request_def route_in_def http_of_def object_path_def split_api_path lits decimal_no_slash
        e api_routes_def diff extract_args_def parse_u32_decimal path_text_def)
qed

subsection \<open>Properties\<close>

text \<open>
  C29. Every request of the API has an address that leads to it: the path and body a client writes
  for an operation are routed to the handler of that operation with the very arguments, for
  every device, instance, value and path of a scenario, and every type name and property name
  that is a string (valid UTF-8) and not empty; none is shadowed by another route.  Percent encoding
  gives such names back and is otherwise arbitrary.
\<close>

theorem request_route_roundtrip:
  assumes "encodes pct enc" and "named_request r"
  shows "route_request pct (request_http enc r) = Routed r"
  by (rule route_request_http [OF assms])

theorem request_route_roundtrip_witness:
  "route_request example_pct (request_http example_enc (Put_Property 7 (lit ''a/b'') 1 (lit ''present-value'') J_Null)) =
     Routed (Put_Property 7 (lit ''a/b'') 1 (lit ''present-value'') J_Null)"
  by (rule request_route_roundtrip [OF example_encodes]) (simp add: path_text_def utf8_valid_ascii lit_simps)

text \<open>
  C28. No HTTP request, to whatever path, by whatever method and with whatever body, makes a handler
  panic or breaks the store; and only a PUT changes anything, and only when it answers 204.
\<close>

theorem http_requests_safe:
  assumes "store_ok fx (as_store state)"
    and "http_serve pct encode m jl fx uni files sys now req state = (r, state')"
  shows "r \<noteq> Answered Panic \<and> store_ok fx (as_store state') \<and> as_device_ids state' = as_device_ids state \<and>
    (state' = state \<or> hr_method req = M_PUT \<and> r = Answered (Ok (R_Status 204)))"
proof (cases "route_request pct req")
  case (Routed q)
  obtain a st where a: "api_serve jl fx uni files sys now q state = (a, st)" by (rule prod.exhaust)
  then have eqs: "r = Answered a" "state' = st" using assms(2) Routed by (simp_all add: http_serve_def answer_routed_def)
  have "hr_method req = M_PUT" if "q = Put_Property d t i p v" for d t i p v
    using Routed unfolding that by (rule routed_put)
  then show ?thesis using api_requests_safe [OF assms(1) a] by (auto simp: eqs)
qed (use assms in \<open>auto simp: http_serve_def answer_routed_def\<close>)

theorem http_requests_safe_witness:
  "snd (http_serve Some (\<lambda>calls. []) metrics_new example_json_lib (\<lambda>a b. 0) (\<lambda>s. s) (\<lambda>path. None) 0 5
     (http_of M_GET [lit ''devices'', lit ''x'']) example_app) = example_app"
proof -
  have "hr_method (http_of M_GET [lit ''devices'', lit ''x'']) \<noteq> M_PUT" by (simp add: http_of_def)
  with http_requests_safe [OF example_app_ok prod.collapse [symmetric]] show ?thesis by blast
qed

end
