(* ===== verification/Ip_Transport.thy ===== *)
theory Ip_Transport
  imports Dispatcher Bvll
begin

text \<open>
  \<^verbatim>\<open>crates/bacnet-transport/src/ip.rs\<close>: the BACnet/IP transport, between the datagrams of its
  socket and the frames of the dispatcher.  The socket is the list of what \<^verbatim>\<open>recv_from\<close> returns,
  in order; what \<^verbatim>\<open>send_to\<close> is given is a list of addressed datagrams.
\<close>

datatype socket_addr = Addr_V4 socket_addr_v4 | Addr_V6 bytes u16

datatype udp_recv = Datagram bytes socket_addr | Recv_Error

text \<open>The NPDU of a frame the receive loop handles; the other functions are skipped.\<close>

fun npdu_of_bvll :: "bvll_frame \<Rightarrow> bytes option" where
  "npdu_of_bvll (OriginalUnicastNpdu npdu) = Some npdu"
| "npdu_of_bvll (OriginalBroadcastNpdu npdu) = Some npdu"
| "npdu_of_bvll (DistributeBroadcastToNetwork npdu) = Some npdu"
| "npdu_of_bvll (ForwardedNpdu _ npdu) = Some npdu"
| "npdu_of_bvll _ = None"

text \<open>One datagram: the frame it puts on the channel, if any, or the panic of its decoder.\<close>

definition ip_receive :: "bytes \<Rightarrow> socket_addr \<Rightarrow> inbound_frame option bres" where
  "ip_receive buf src =
     (case bvll_decode buf of
        Ok frame \<Rightarrow>
          (case npdu_of_bvll frame of
             None \<Rightarrow> Ok None
           | Some npdu \<Rightarrow>
               (case src of
                  Addr_V4 v4 \<Rightarrow>
                    Ok (Some \<lparr>in_src = \<lparr>na_network_number = 0, na_mac = Mac_Ip v4\<rparr>, in_npdu = npdu\<rparr>)
                | Addr_V6 _ _ \<Rightarrow> Ok None))
      | Err _ \<Rightarrow> Ok None
      | Panic \<Rightarrow> Panic)"

text \<open>
  The receive loop is one task: a receive error breaks it, and a panic ends it, so nothing that
  arrives later is looked at.
\<close>

fun ip_receive_loop :: "udp_recv list \<Rightarrow> inbound_frame list" where
  "ip_receive_loop [] = []"
| "ip_receive_loop (Recv_Error # _) = []"
| "ip_receive_loop (Datagram buf src # rest) =
     (case ip_receive buf src of
        Ok (Some f) \<Rightarrow> f # ip_receive_loop rest
      | Ok None \<Rightarrow> ip_receive_loop rest
      | Err _ \<Rightarrow> ip_receive_loop rest
      | Panic \<Rightarrow> [])"

text \<open>The send loop; a unicast to an address of another transport is skipped.\<close>

definition ip_broadcast :: socket_addr_v4 where
  "ip_broadcast = SocketAddrV4 0xFFFFFFFF 47808"

definition ip_send :: "outbound_frame \<Rightarrow> (socket_addr_v4 \<times> bytes) option" where
  "ip_send f =
     (case out_dst f of
        Unicast a \<Rightarrow>
          (case na_mac a of
             Mac_Ip v4 \<Rightarrow> Some (v4, bvll_encode (OriginalUnicastNpdu (out_npdu f)))
           | _ \<Rightarrow> None)
      | Broadcast _ \<Rightarrow> Some (ip_broadcast, bvll_encode (OriginalBroadcastNpdu (out_npdu f))))"

definition ip_send_loop :: "outbound_frame list \<Rightarrow> (socket_addr_v4 \<times> bytes) list" where
  "ip_send_loop fs = List.map_filter ip_send fs"

subsection \<open>Frames through the socket\<close>

lemma ip_receive_encoded:
  assumes "bvll_ok frame"
  shows "ip_receive (bvll_encode frame) (Addr_V4 v4) =
    Ok (map_option (\<lambda>npdu. \<lparr>in_src = \<lparr>na_network_number = 0, na_mac = Mac_Ip v4\<rparr>, in_npdu = npdu\<rparr>)
      (npdu_of_bvll frame))"
  using bvll.dec_enc [OF assms] by (simp add: ip_receive_def split: option.split)

lemma ip_receive_eq_Panic: "ip_receive buf src = Panic \<longleftrightarrow> bvll_decode buf = Panic"
  by (auto simp: ip_receive_def split: rres.split option.split socket_addr.split)

lemma ip_receive_loop_append:
  assumes "\<forall>r \<in> set rs. \<exists>buf src. r = Datagram buf src \<and> bvll_decode buf \<noteq> Panic"
  shows "ip_receive_loop (rs @ rest) = ip_receive_loop rs @ ip_receive_loop rest"
  using assms
proof (induction rs)
  case (Cons r rs)
  then obtain buf src where r: "r = Datagram buf src" and b: "bvll_decode buf \<noteq> Panic" by auto
  then have "ip_receive buf src \<noteq> Panic" by (simp add: ip_receive_eq_Panic)
  with Cons r show ?case by (cases "ip_receive buf src") (auto split: option.split)
qed simp

text \<open>The datagrams of one client, each carrying an NPDU the way the client may send it.\<close>

definition client_datagram :: "socket_addr_v4 \<Rightarrow> bytes \<Rightarrow> udp_recv" where
  "client_datagram v4 npdu = Datagram (bvll_encode (OriginalUnicastNpdu npdu)) (Addr_V4 v4)"

lemma ip_receive_client:
  assumes "length npdu + 4 < 2 ^ 16"
  shows "ip_receive_loop (client_datagram v4 npdu # rest) =
    \<lparr>in_src = \<lparr>na_network_number = 0, na_mac = Mac_Ip v4\<rparr>, in_npdu = npdu\<rparr> # ip_receive_loop rest"
  using ip_receive_encoded [of "OriginalUnicastNpdu npdu" v4] assms by (simp add: client_datagram_def)

subsection \<open>A transport under the dispatcher\<close>

text \<open>
  What the dispatcher relies on in a transport: an NPDU that fits and is sent to an address it can
  reach is received once, whole, with its sender.
\<close>

locale transport =
  fixes send :: "network_address \<Rightarrow> bytes \<Rightarrow> 'w option"
    and receive :: "network_address \<Rightarrow> 'w \<Rightarrow> inbound_frame list"
    and reaches :: "network_address \<Rightarrow> bool"
    and fits :: "bytes \<Rightarrow> bool"
  assumes delivered: "reaches a \<Longrightarrow> reaches b \<Longrightarrow> fits npdu \<Longrightarrow>
      \<exists>w. send b npdu = Some w \<and> receive a w = [\<lparr>in_src = a, in_npdu = npdu\<rparr>]"
begin

text \<open>A request and its reply: what the client's frame does at the dispatcher comes back to it.\<close>

lemma exchange:
  assumes "reaches client" and "reaches me" and "fits request" and "fits reply"
    and "fst (handle_frame fx sys now d \<lparr>in_src = client, in_npdu = request\<rparr>) =
      Ok [\<lparr>out_dst = Unicast client, out_npdu = reply\<rparr>]"
  shows "\<exists>w w'. send me request = Some w \<and>
    fst (run fx d (map (\<lambda>f. (sys, now, f)) (receive client w))) = [\<lparr>out_dst = Unicast client, out_npdu = reply\<rparr>] \<and>
    send client reply = Some w' \<and> receive me w' = [\<lparr>in_src = me, in_npdu = reply\<rparr>]"
proof -
  obtain w where w: "send me request = Some w" "receive client w = [\<lparr>in_src = client, in_npdu = request\<rparr>]"
    using delivered [OF assms(1,2,3)] by blast
  obtain w' where w': "send client reply = Some w'" "receive me w' = [\<lparr>in_src = me, in_npdu = reply\<rparr>]"
    using delivered [OF assms(2,1,4)] by blast
  show ?thesis
    using w w' assms(5) by (intro exI conjI) (auto simp: case_prod_unfold Let_def frame_output_def)
qed

end

text \<open>BACnet/IP: a datagram, and the address it goes to.\<close>

definition ip_reaches :: "network_address \<Rightarrow> bool" where
  "ip_reaches a \<longleftrightarrow> na_network_number a = 0 \<and> (\<exists>v4. na_mac a = Mac_Ip v4)"

definition ip_fits :: "bytes \<Rightarrow> bool" where
  "ip_fits npdu \<longleftrightarrow> length npdu + 4 < 2 ^ 16"

definition ip_datagram_from :: "network_address \<Rightarrow> socket_addr_v4 \<times> bytes \<Rightarrow> inbound_frame list" where
  "ip_datagram_from a dg =
     (case na_mac a of Mac_Ip v4 \<Rightarrow> ip_receive_loop [Datagram (snd dg) (Addr_V4 v4)] | _ \<Rightarrow> [])"

interpretation ip: transport "\<lambda>a npdu. ip_send \<lparr>out_dst = Unicast a, out_npdu = npdu\<rparr>" ip_datagram_from ip_reaches ip_fits
proof (unfold_locales, goal_cases)
  case (1 a b npdu)
  then obtain v4 v4' where "na_mac a = Mac_Ip v4" "na_mac b = Mac_Ip v4'" "na_network_number a = 0"
    by (auto simp: ip_reaches_def)
  moreover have "a = \<lparr>na_network_number = 0, na_mac = Mac_Ip v4\<rparr>"
    using calculation by (cases a) simp
  ultimately show ?case
    using 1(3) ip_receive_encoded [of "OriginalUnicastNpdu npdu" v4]
    by (simp add: ip_send_def ip_datagram_from_def ip_fits_def)
qed

text \<open>The whole stack on received datagrams: receive loop, dispatcher, send loop.\<close>

definition ip_serve ::
    "hash_fn \<Rightarrow> system_time \<Rightarrow> instant \<Rightarrow> dispatcher \<Rightarrow> udp_recv list \<Rightarrow> (socket_addr_v4 \<times> bytes) list" where
  "ip_serve fx sys now d rs =
     ip_send_loop (fst (run fx d (map (\<lambda>f. (sys, now, f)) (ip_receive_loop rs))))"

subsection \<open>Properties\<close>

text \<open>
  C26. A single datagram of four bytes stops the BACnet/IP transport: the panic of the BVLL decoder on
  a length field below 4 ends the task of the receive loop, so of everything that arrives after
  such a datagram, from anyone, nothing reaches the dispatcher; up to it all is delivered.
\<close>

theorem malformed_datagram_stops_receiver:
  assumes "\<forall>r \<in> set before. \<exists>buf src. r = Datagram buf src \<and> bvll_decode buf \<noteq> Panic"
    and "unat len < 4"
  shows "ip_receive_loop (before @ Datagram ([0x81, function] @ u16_to_be len @ body) src # later) =
    ip_receive_loop before"
proof -
  have "bvll_decode ([0x81, function] @ u16_to_be len @ body) = Panic"
    using assms(2) by (simp add: bvll_decode_eq_Panic u16_to_be_def numeral_2_eq_2 numeral_3_eq_3)
  then have "ip_receive ([0x81, function] @ u16_to_be len @ body) src = Panic"
    by (simp only: ip_receive_eq_Panic)
  then show ?thesis
    by (simp add: ip_receive_loop_append [OF assms(1)])
qed

theorem malformed_datagram_stops_receiver_witness:
  "ip_receive_loop [client_datagram (SocketAddrV4 0x0A000002 47808) [0x01, 0x00],
     Datagram [0x81, 0x0A, 0x00, 0x00] (Addr_V4 (SocketAddrV4 0x0A000003 1)),
     client_datagram (SocketAddrV4 0x0A000002 47808) [0x01, 0x00]] =
   [\<lparr>in_src = \<lparr>na_network_number = 0, na_mac = Mac_Ip (SocketAddrV4 0x0A000002 47808)\<rparr>,
     in_npdu = [0x01, 0x00]\<rparr>]"
proof -
  let ?c = "client_datagram (SocketAddrV4 0x0A000002 47808) [0x01, 0x00]"
  have "bvll_decode (bvll_encode (OriginalUnicastNpdu [0x01, 0x00])) \<noteq> Panic"
    using bvll.dec_enc [of "OriginalUnicastNpdu [0x01, 0x00]"] by simp
  then have "\<forall>r \<in> set [?c]. \<exists>buf src. r = Datagram buf src \<and> bvll_decode buf \<noteq> Panic"
    by (simp add: client_datagram_def)
  from malformed_datagram_stops_receiver [OF this, of 0 "0x0A" "[]" _ "[?c]"] show ?thesis
    by (simp add: u16_to_be_def ip_receive_client)
qed

text \<open>
  An answer the dispatcher sends to a client reaches it over the wire as it was: the datagram goes
  to the client's own address, and a receiver of the same transport takes the same NPDU out of it,
  from 65531 bytes down; broadcasts go to the limited broadcast address.
\<close>

theorem ip_transport_roundtrip:
  assumes "length npdu + 4 < 2 ^ 16"
  shows "(\<exists>bs. ip_send \<lparr>out_dst = Unicast \<lparr>na_network_number = n, na_mac = Mac_Ip v4\<rparr>, out_npdu = npdu\<rparr> =
      Some (v4, bs) \<and>
    ip_receive bs (Addr_V4 me) = Ok (Some \<lparr>in_src = \<lparr>na_network_number = 0, na_mac = Mac_Ip me\<rparr>, in_npdu = npdu\<rparr>)) \<and>
    (\<exists>bs. ip_send \<lparr>out_dst = Broadcast n, out_npdu = npdu\<rparr> = Some (ip_broadcast, bs) \<and>
    ip_receive bs (Addr_V4 me) = Ok (Some \<lparr>in_src = \<lparr>na_network_number = 0, na_mac = Mac_Ip me\<rparr>, in_npdu = npdu\<rparr>))"
  using assms ip_receive_encoded [of "OriginalUnicastNpdu npdu"] ip_receive_encoded [of "OriginalBroadcastNpdu npdu"]
  by (simp_all add: ip_send_def)

theorem ip_transport_roundtrip_witness:
  "\<exists>bs. ip_send (answer_frame \<lparr>na_network_number = 0, na_mac = Mac_Ip (SocketAddrV4 0x0A000002 47808)\<rparr> [0x20, 1, 15]) =
      Some (SocketAddrV4 0x0A000002 47808, bs) \<and>
    ip_receive bs (Addr_V4 (SocketAddrV4 0x0A000001 47808)) =
      Ok (Some \<lparr>in_src = \<lparr>na_network_number = 0, na_mac = Mac_Ip (SocketAddrV4 0x0A000001 47808)\<rparr>,
        in_npdu = npdu_encode_local False [0x20, 1, 15]\<rparr>)"
  unfolding answer_frame_def
  by (rule conjunct1 [OF ip_transport_roundtrip]) (simp add: npdu_encode_local_def)

text \<open>
  C8. A read over UDP: the datagram of a client with a session that carries an encoded ReadProperty
  request is answered with exactly one datagram, to the client's own address, from which the same
  transport and the NPDU decoder take out the ComplexACK with the property's value.
\<close>

theorem read_over_udp:
  assumes "map_of (dp_sessions d) \<lparr>na_network_number = 0, na_mac = Mac_Ip v4\<rparr> = Some dev"
    and "store_get fx (dp_store d) dev oid = Some ob" and "oid_type oid \<noteq> OT_Device"
    and "confirmed_ok req" and "cr_service req = Req_ReadProperty r" and "rp_object_id r = oid"
    and "obj_read_property sys ob (rp_property_id r) (rp_array_index r) = Ok v"
    and "ack = complex_ack_encode \<lparr>ca_invoke_id = cr_invoke_id req, ca_service = Ack_ReadProperty
         \<lparr>rpa_object_id = oid, rpa_property_id = rp_property_id r, rpa_array_index = rp_array_index r, rpa_value = v\<rparr>\<rparr>"
    and "ip_fits (npdu_encode_local True (confirmed_wire req))" and "ip_fits (npdu_encode_local False ack)"
  shows "\<exists>dg npdu. ip_serve fx sys now d [client_datagram v4 (npdu_encode_local True (confirmed_wire req))] = [(v4, dg)] \<and>
    ip_receive dg (Addr_V4 me) = Ok (Some \<lparr>in_src = \<lparr>na_network_number = 0, na_mac = Mac_Ip me\<rparr>, in_npdu = npdu\<rparr>) \<and>
    npdu_decode npdu = Ok (local_npdu False ack)"
proof -
  let ?c = "\<lparr>na_network_number = 0, na_mac = Mac_Ip v4\<rparr>" and ?me = "\<lparr>na_network_number = 0, na_mac = Mac_Ip me\<rparr>"
  let ?answer = "npdu_encode_local False ack"
  have "fst (handle_frame fx sys now d (request_frame ?c req)) = Ok [answer_frame ?c ack]"
    unfolding assms(8) by (rule read_frame_answered [OF assms(1-7)])
  from ip.exchange [OF _ _ assms(9,10) this [unfolded request_frame_def answer_frame_def], of ?me]
  obtain w w' where w: "ip_send \<lparr>out_dst = Unicast ?me, out_npdu = npdu_encode_local True (confirmed_wire req)\<rparr> = Some w"
      "fst (run fx d (map (\<lambda>f. (sys, now, f)) (ip_datagram_from ?c w))) = [\<lparr>out_dst = Unicast ?c, out_npdu = ?answer\<rparr>]"
      "ip_send \<lparr>out_dst = Unicast ?c, out_npdu = ?answer\<rparr> = Some w'"
      "ip_datagram_from ?me w' = [\<lparr>in_src = ?me, in_npdu = ?answer\<rparr>]"
    by (auto simp: ip_reaches_def)
  have "snd w = bvll_encode (OriginalUnicastNpdu (npdu_encode_local True (confirmed_wire req)))" "fst w' = v4"
    using w(1,3) by (auto simp: ip_send_def)
  then have "ip_serve fx sys now d [client_datagram v4 (npdu_encode_local True (confirmed_wire req))] = [(v4, snd w')]"
    using w(2,3) by (simp add: ip_serve_def ip_send_loop_def ip_datagram_from_def client_datagram_def map_filter_simps prod_eq_iff
        del: ip_receive_loop.simps)
  moreover have "ip_receive (snd w') (Addr_V4 me) = Ok (Some \<lparr>in_src = ?me, in_npdu = ?answer\<rparr>)"
    using w(4) by (simp add: ip_datagram_from_def split: rres.splits option.splits)
  ultimately show ?thesis using npdu_decode_local by blast
qed

theorem read_over_udp_witness:
  "\<exists>dg npdu. ip_serve example_fx 9 9 example_dispatcher [client_datagram (SocketAddrV4 0x0A000002 47808)
      (npdu_encode_local True (confirmed_wire (example_request 2 (Req_ReadProperty example_read))))] =
      [(SocketAddrV4 0x0A000002 47808, dg)] \<and>
    ip_receive dg (Addr_V4 (SocketAddrV4 0x0A000001 47808)) =
      Ok (Some \<lparr>in_src = \<lparr>na_network_number = 0, na_mac = Mac_Ip (SocketAddrV4 0x0A000001 47808)\<rparr>, in_npdu = npdu\<rparr>) \<and>
    npdu_decode npdu = Ok (local_npdu False (complex_ack_encode \<lparr>ca_invoke_id = 2, ca_service = Ack_ReadProperty
      \<lparr>rpa_object_id = example_value, rpa_property_id = PID_PresentValue, rpa_array_index = None,
       rpa_value = PV_Real 0\<rparr>\<rparr>))"
proof -
  let ?req = "example_request 2 (Req_ReadProperty example_read)"
  have len: "length (u32_to_be x) = 4" "length (uint_bytes x) \<le> 4" for x
    by (simp_all add: u32_to_be_def uint_bytes_def)
  have v: "obj_read_property 9 (Obj_AnalogValue (av_new 0 7 1 [] EU_NoUnits)) (rp_property_id example_read)
      (rp_array_index example_read) = Ok (PV_Real 0)"
    by (simp add: example_read_def av_read_property_def av_new_def)
  have req: "confirmed_ok ?req" "cr_service ?req = Req_ReadProperty example_read" "ip_fits (npdu_encode_local True (confirmed_wire ?req))"
    using len(2) [of "pid_to_u32 PID_PresentValue"]
    by (simp_all add: example_services_ok ip_fits_def npdu_encode_local_def confirmed_wire_def confirmed_encode_def service_wire_def
        rp_wire_def encode_ctx_object_id_def encode_ctx_u32_def opt_u32_wire_def example_fields len(1))
  from read_over_udp [OF example_session [unfolded example_client_def] example_get example_fields(1) req(1,2) example_fields(3) v refl req(3)]
  show ?thesis
    using len(2) [of "pid_to_u32 PID_PresentValue"]
    by (simp add: example_fields ip_fits_def npdu_encode_local_def complex_ack_encode_def encode_read_property_ack_def
        encode_ctx_object_id_def encode_ctx_u32_def encode_opening_tag_def encode_closing_tag_def encode_application_real_def len(1))
qed

end
