(* ===== verification/Main_Program.thy ===== *)
theory Main_Program
  imports Simulator Metrics Ip_Transport Text_Parse
begin

text \<open>
  \<^verbatim>\<open>main\<close> of \<^verbatim>\<open>crates/bacnet-sim/src/main.rs\<close> up to the point where its tasks run: what it reads from the
  arguments and the environment, the sockets it opens, and the simulator it builds.

  The machine is a record: arguments (\<open>None\<close> is one that is not Unicode, which \<^verbatim>\<open>std::env::args\<close> panics
  on), environment (\<open>None\<close> is a variable that is not set or not Unicode), files, the TOML parser of the
  configuration crate, and which addresses can be bound; whether a TCP listener can be, may depend
  on those already open.
\<close>

subsection \<open>Addresses\<close>

text \<open>
  \<^verbatim>\<open>SocketAddr::from_str\<close> on an IPv4 address: four numbers of at most three digits without leading
  zeros, and a port of any number of digits.  The IPv6 form is the argument \<open>v6\<close>.
\<close>

definition read_octet :: "rstring \<Rightarrow> (nat \<times> rstring) option" where
  "read_octet s =
     (let (ds, r) = take_digits s
      in if ds = [] \<or> 3 < length ds \<or> 255 < digits_nat ds \<or> hd ds = 0 \<and> 1 < length ds then None
         else Some (digits_nat ds, r))"

definition read_byte :: "u8 \<Rightarrow> rstring \<Rightarrow> rstring option" where
  "read_byte c s = (case s of b # r \<Rightarrow> if b = c then Some r else None | [] \<Rightarrow> None)"

definition parse_v4 :: "rstring \<Rightarrow> socket_addr_v4 option" where
  "parse_v4 s =
     Option.bind (read_octet s) (\<lambda>(a, s).
     Option.bind (read_byte 0x2E s) (\<lambda>s.
     Option.bind (read_octet s) (\<lambda>(b, s).
     Option.bind (read_byte 0x2E s) (\<lambda>s.
     Option.bind (read_octet s) (\<lambda>(c, s).
     Option.bind (read_byte 0x2E s) (\<lambda>s.
     Option.bind (read_octet s) (\<lambda>(d, s).
     Option.bind (read_byte 0x3A s) (\<lambda>s.
       if s = [] then None
       else Option.bind (parse_digits 65535 0 s) (\<lambda>port.
         Some (SocketAddrV4 (of_nat (((a * 256 + b) * 256 + c) * 256 + d)) (of_nat port)))))))))))"

definition parse_socket_addr :: "(rstring \<Rightarrow> socket_addr option) \<Rightarrow> rstring \<Rightarrow> socket_addr option" where
  "parse_socket_addr v6 s = (case parse_v4 s of Some a \<Rightarrow> Some (Addr_V4 a) | None \<Rightarrow> v6 s)"

subsection \<open>The machine and its settings\<close>

record machine =
  mc_args :: "rstring option list"
  mc_env :: "rstring \<Rightarrow> rstring option"
  mc_read :: "rstring \<Rightarrow> rstring option"
  mc_from_toml :: "rstring \<Rightarrow> simulator_config option"
  mc_bind_udp :: "socket_addr \<Rightarrow> bool"
  mc_bind_tcp :: "socket_addr list \<Rightarrow> socket_addr \<Rightarrow> bool"
  mc_v6 :: "rstring \<Rightarrow> socket_addr option"
  mc_registry :: registry
  mc_now :: instant

text \<open>A variable that is not set and one that cannot be parsed both give the default.\<close>

definition env_parse :: "machine \<Rightarrow> string \<Rightarrow> (rstring \<Rightarrow> 'a option) \<Rightarrow> 'a \<Rightarrow> 'a" where
  "env_parse mc var parse dflt = (case Option.bind (mc_env mc (lit var)) parse of Some v \<Rightarrow> v | None \<Rightarrow> dflt)"

definition bacnet_ip_port :: "machine \<Rightarrow> u16" where
  "bacnet_ip_port mc = env_parse mc ''BACNET_IP_PORT'' parse_u16 47808"

definition api_port :: "machine \<Rightarrow> u16" where
  "api_port mc = env_parse mc ''BACNET_API_PORT'' parse_u16 8080"

definition sc_port :: "machine \<Rightarrow> u16" where
  "sc_port mc = env_parse mc ''BACNET_SC_PORT'' parse_u16 47814"

definition demo_device_id :: "machine \<Rightarrow> u32" where
  "demo_device_id mc = env_parse mc ''BACNET_DEVICE_ID'' parse_u32 1234"

definition demo_tick_hz :: "machine \<Rightarrow> f64" where
  "demo_tick_hz mc = env_parse mc ''BACNET_TICK_HZ'' parse_f64 0x3FF0000000000000"

text \<open>\<^verbatim>\<open>trim_start_matches\<close> takes the prefix off as often as it is there.\<close>

function trim_start_matches :: "rstring \<Rightarrow> rstring \<Rightarrow> rstring" where
  "trim_start_matches pat s =
     (if pat \<noteq> [] \<and> s \<noteq> [] \<and> take (length pat) s = pat then trim_start_matches pat (drop (length pat) s) else s)"
  by pat_completeness auto
termination by (relation "measure (\<lambda>(pat, s). length s)") auto

declare trim_start_matches.simps [simp del]

fun find_arg :: "(rstring \<Rightarrow> bool) \<Rightarrow> rstring option list \<Rightarrow> (rstring option, 'e) rres" where
  "find_arg p [] = Ok None"
| "find_arg p (None # args) = Panic"
| "find_arg p (Some arg # args) = (if p arg then Ok (Some arg) else find_arg p args)"

definition log_format :: "machine \<Rightarrow> (rstring, 'e) rres" where
  "log_format mc =
     (let flag = lit ''--log-format='' in
      rbind (find_arg (\<lambda>a. take (length flag) a = flag) (mc_args mc)) (\<lambda>arg. Ok
        (case arg of
           Some a \<Rightarrow> trim_start_matches flag a
         | None \<Rightarrow> (case mc_env mc (lit ''BACNET_LOG_FORMAT'') of Some v \<Rightarrow> v | None \<Rightarrow> lit ''text''))))"

definition machine_config_path :: "machine \<Rightarrow> (rstring option, 'e) rres" where
  "machine_config_path mc = config_path (drop 1 (mc_args mc)) (mc_env mc (lit ''BACNET_CONFIG_FILE''))"

subsection \<open>Starting\<close>

definition any_address :: "u16 \<Rightarrow> rstring" where
  "any_address port = lit ''0.0.0.0:'' @ decimal (unat port)"

text \<open>The address of a hub: an unreadable one is replaced by the default, which is unwrapped.\<close>

definition sc_bind :: "machine \<Rightarrow> network_config \<Rightarrow> (socket_addr, 'e) rres" where
  "sc_bind mc net =
     (let sc_default = any_address (sc_port mc)
      in case parse_socket_addr (mc_v6 mc) (case nw_bind net of Some b \<Rightarrow> b | None \<Rightarrow> sc_default) of
           Some a \<Rightarrow> Ok a
         | None \<Rightarrow> (case parse_socket_addr (mc_v6 mc) sc_default of Some a \<Rightarrow> Ok a | None \<Rightarrow> Panic))"

text \<open>The hubs that listen, those already open first; one that cannot is logged and left out.\<close>

fun start_transports :: "machine \<Rightarrow> socket_addr list \<Rightarrow> network_config list \<Rightarrow> (socket_addr list, 'e) rres" where
  "start_transports mc hubs [] = Ok hubs"
| "start_transports mc hubs (net # nets) =
     (case nw_transport net of
        TK_BacnetSc \<Rightarrow>
          rbind (sc_bind mc net) (\<lambda>a. start_transports mc (if mc_bind_tcp mc hubs a then hubs @ [a] else hubs) nets)
      | _ \<Rightarrow> start_transports mc hubs nets)"

datatype main_error = Address_Invalid | Udp_Bind_Failed | Config_Unreadable | Config_Invalid

record 'g program =
  pr_json_logs :: bool
  pr_udp :: socket_addr
  pr_api :: socket_addr
  pr_hubs :: "socket_addr list"
  pr_watched :: "rstring option"
  pr_sim :: "'g simulator"
  pr_metrics :: metrics

definition main_topology ::
    "('g, 'n) platform \<Rightarrow> machine \<Rightarrow> rstring option \<Rightarrow> (socket_addr list \<times> 'g simulator, main_error) rres" where
  "main_topology pf mc cfg =
     (case cfg of
        Some path \<Rightarrow>
          (case mc_read mc path of
             None \<Rightarrow> Err Config_Unreadable
           | Some toml_str \<Rightarrow>
               (case mc_from_toml mc toml_str of
                  None \<Rightarrow> Err Config_Invalid
                | Some config \<Rightarrow>
                    rbind (start_transports mc [] (sc_networks config)) (\<lambda>hubs.
                      Ok (hubs, start_configured (pf_hash pf) (pf_unicode pf) (mc_now mc) config))))
      | None \<Rightarrow> Ok ([], start_demo (pf_hash pf) (mc_now mc) (demo_device_id mc) (demo_tick_hz mc)))"

definition main_start :: "('g, 'n) platform \<Rightarrow> machine \<Rightarrow> ('g program, main_error) rres" where
  "main_start pf mc =
     rbind (log_format mc) (\<lambda>format. rbind (machine_config_path mc) (\<lambda>cfg.
     case parse_socket_addr (mc_v6 mc) (any_address (bacnet_ip_port mc)) of
        None \<Rightarrow> Err Address_Invalid
      | Some bind_addr \<Rightarrow>
          if \<not> mc_bind_udp mc bind_addr then Err Udp_Bind_Failed
          else
            rbind (main_topology pf mc cfg) (\<lambda>(hubs, sim).
            case set_objects (mc_registry mc) (f64_of_nat (store_count (world_store (sim, None)))) metrics_new of
              Ok m \<Rightarrow>
                (case parse_socket_addr (mc_v6 mc) (any_address (api_port mc)) of
                   None \<Rightarrow> Err Address_Invalid
                 | Some api_addr \<Rightarrow>
                     Ok \<lparr>pr_json_logs = (format = lit ''json''), pr_udp = bind_addr, pr_api = api_addr, pr_hubs = hubs,
                         pr_watched = cfg, pr_sim = sim, pr_metrics = m\<rparr>)
            | _ \<Rightarrow> Panic)))"

subsection \<open>Lemmas\<close>

lemma port_setting:
  assumes "mc_env mc (lit var) = Some (decimal n)"
  shows "env_parse mc var parse_u16 dflt = (if n < 65536 then of_nat n else dflt)"
  using assms by (auto simp: env_parse_def parse_u16_def parse_uint_decimal)

lemma parse_any_address: "parse_socket_addr v6 (any_address port) = Some (Addr_V4 (SocketAddrV4 0 port))"
proof -
  have "unat port \<le> 65535" using unsigned_less [of port, where ?'a = nat] by simp
  then show ?thesis
    by (simp add: parse_socket_addr_def any_address_def parse_v4_def read_octet_def read_byte_def lit_simps
        digit_value_def digits_nat_def parse_digits_decimal)
qed

text \<open>Each BACnet/SC network gets the address it names, or the default when that is none.\<close>

definition hub_address :: "machine \<Rightarrow> network_config \<Rightarrow> socket_addr" where
  "hub_address mc net =
     (case Option.bind (nw_bind net) (parse_socket_addr (mc_v6 mc)) of
        Some a \<Rightarrow> a
      | None \<Rightarrow> Addr_V4 (SocketAddrV4 0 (sc_port mc)))"

lemma sc_bind_eq: "sc_bind mc net = Ok (hub_address mc net)"
  by (cases "nw_bind net") (auto simp: sc_bind_def hub_address_def parse_any_address Let_def split: option.splits)

text \<open>
  The hubs that come up: of the addresses of the networks, in their order, those that can be bound
  beside the listeners already open.
\<close>

definition open_hubs :: "machine \<Rightarrow> socket_addr list \<Rightarrow> socket_addr list \<Rightarrow> socket_addr list" where
  "open_hubs mc hubs as = foldl (\<lambda>hubs a. if mc_bind_tcp mc hubs a then hubs @ [a] else hubs) hubs as"

lemma start_transports_eq:
  "start_transports mc hubs nets =
    Ok (open_hubs mc hubs (map (hub_address mc) (filter (\<lambda>net. nw_transport net = TK_BacnetSc) nets)))"
  by (induction nets arbitrary: hubs) (simp_all add: open_hubs_def sc_bind_eq split: transport_kind.split)

text \<open>A port can be listened on once, unless it is 0, which asks the system for a free one.\<close>

definition addr_port :: "socket_addr \<Rightarrow> u16" where
  "addr_port a = (case a of Addr_V4 (SocketAddrV4 ip port) \<Rightarrow> port | Addr_V6 rest port \<Rightarrow> port)"

definition listens_once :: "(socket_addr list \<Rightarrow> socket_addr \<Rightarrow> bool) \<Rightarrow> bool" where
  "listens_once bind \<longleftrightarrow> (\<forall>hubs. \<forall>a \<in> set hubs. addr_port a \<noteq> 0 \<longrightarrow> \<not> bind hubs a)"

lemma open_hubs_distinct:
  assumes "listens_once (mc_bind_tcp mc)" and "distinct (filter (\<lambda>a. addr_port a \<noteq> 0) hubs)"
  shows "distinct (filter (\<lambda>a. addr_port a \<noteq> 0) (open_hubs mc hubs as))"
  using assms(2)
proof (induction as arbitrary: hubs)
  case (Cons a as)
  have "distinct (filter (\<lambda>a. addr_port a \<noteq> 0) (if mc_bind_tcp mc hubs a then hubs @ [a] else hubs))"
    using Cons.prems assms(1) by (auto simp: listens_once_def)
  with Cons.IH show ?case by (simp add: open_hubs_def)
qed (simp add: open_hubs_def)

lemma set_objects_new:
  assumes "registry_ok reg"
  shows "set_objects reg n metrics_new =
    Ok \<lparr>mt_cells = [OBJECTS_TOTAL], mt_calls = [Register (metric_desc_of OBJECTS_TOTAL), Set_Value OBJECTS_TOTAL n]\<rparr>"
proof -
  have "reg [] (metric_desc_of OBJECTS_TOTAL)"
    using assms metric_desc_of_valid unfolding registry_ok_def by (metis empty_iff list.map(1) list.set(1))
  then show ?thesis by (simp add: set_objects_def use_metric_def metric_cell_def metrics_new_def)
qed

text \<open>What the program runs with: the configuration it is told to read, or the demo device.\<close>

definition main_hubs :: "machine \<Rightarrow> simulator_config \<Rightarrow> socket_addr list" where
  "main_hubs mc config =
     open_hubs mc [] (map (hub_address mc) (filter (\<lambda>net. nw_transport net = TK_BacnetSc) (sc_networks config)))"

lemma main_topology_eq:
  "main_topology pf mc cfg =
     (case cfg of
        None \<Rightarrow> Ok ([], start_demo (pf_hash pf) (mc_now mc) (demo_device_id mc) (demo_tick_hz mc))
      | Some path \<Rightarrow>
          (case mc_read mc path of
             None \<Rightarrow> Err Config_Unreadable
           | Some toml_str \<Rightarrow>
               (case mc_from_toml mc toml_str of
                  None \<Rightarrow> Err Config_Invalid
                | Some config \<Rightarrow>
                    Ok (main_hubs mc config, start_configured (pf_hash pf) (pf_unicode pf) (mc_now mc) config))))"
  by (simp add: main_topology_def start_transports_eq main_hubs_def split: option.split)

lemma find_arg_result:
  "(find_arg p args :: (rstring option, 'e) rres) \<noteq> Err e \<and>
   ((find_arg p args :: (rstring option, 'e) rres) = Panic \<longrightarrow> None \<in> set args)"
  by (induction p args rule: find_arg.induct) auto

lemma log_format_result:
  "(log_format mc :: (rstring, 'e) rres) \<noteq> Err e \<and>
   ((log_format mc :: (rstring, 'e) rres) = Panic \<longrightarrow> None \<in> set (mc_args mc))"
  using find_arg_result [of "\<lambda>a. take (length (lit ''--log-format='')) a = lit ''--log-format=''" "mc_args mc" e]
  by (cases "find_arg (\<lambda>a. take (length (lit ''--log-format='')) a = lit ''--log-format='') (mc_args mc) :: (rstring option, 'e) rres")
    (simp_all add: log_format_def Let_def)

lemma machine_config_path_result:
  "(machine_config_path mc :: (rstring option, 'e) rres) \<noteq> Err e \<and>
   ((machine_config_path mc :: (rstring option, 'e) rres) = Panic \<longrightarrow> None \<in> set (mc_args mc))"
  using config_path_result [of "drop 1 (mc_args mc)" "mc_env mc (lit ''BACNET_CONFIG_FILE'')" e]
  by (auto simp: machine_config_path_def dest: in_set_dropD)

lemma main_start_eq:
  assumes "registry_ok (mc_registry mc)" and "mc_bind_udp mc (Addr_V4 (SocketAddrV4 0 (bacnet_ip_port mc)))"
    and "log_format mc = (Ok format :: (rstring, main_error) rres)"
    and "machine_config_path mc = (Ok cfg :: (rstring option, main_error) rres)"
  shows "main_start pf mc = rbind (main_topology pf mc cfg) (\<lambda>(hubs, sim).
    Ok \<lparr>pr_json_logs = (format = lit ''json''), pr_udp = Addr_V4 (SocketAddrV4 0 (bacnet_ip_port mc)),
        pr_api = Addr_V4 (SocketAddrV4 0 (api_port mc)), pr_hubs = hubs, pr_watched = cfg,
        pr_sim = sim,
        pr_metrics = \<lparr>mt_cells = [OBJECTS_TOTAL], mt_calls = [Register (metric_desc_of OBJECTS_TOTAL),
          Set_Value OBJECTS_TOTAL (f64_of_nat (store_count (world_store (sim, None))))]\<rparr>\<rparr>)"
  unfolding main_start_def assms(3,4) rbind.simps parse_any_address set_objects_new [OF assms(1)] using assms(2) by simp

lemma main_start_topology:
  assumes "main_start pf mc = Ok pr"
  shows "machine_config_path mc = (Ok (pr_watched pr) :: (rstring option, main_error) rres) \<and>
    main_topology pf mc (pr_watched pr) = Ok (pr_hubs pr, pr_sim pr)"
proof -
  obtain format cfg hubs sim where parts: "log_format mc = (Ok format :: (rstring, main_error) rres)"
      "machine_config_path mc = (Ok cfg :: (rstring option, main_error) rres)" "main_topology pf mc cfg = Ok (hubs, sim)"
    using assms by (auto simp: main_start_def rbind_eq_Ok split: option.splits if_splits)
  then show ?thesis
    using assms
    by (cases "set_objects (mc_registry mc) (f64_of_nat (store_count (world_store (sim, None)))) metrics_new")
      (auto simp: main_start_def parse_any_address split: if_splits)
qed

text \<open>With a rate the engine cannot run at, no tick ever starts; everything else goes on.\<close>

lemma never_ticks:
  assumes "engine_period (pf_interval pf) hz = Panic"
  shows "sim_runs pf w tr w' \<Longrightarrow> snd w = None \<Longrightarrow> se_tick_hz (fst (fst w)) = hz \<Longrightarrow>
    snd w' = None \<and> se_tick_hz (fst (fst w')) = hz \<and>
    (\<forall>(e, out) \<in> set tr. (\<exists>sys now f. e = Frame_In sys now f) \<or> (\<exists>sys now r. e = Http_In sys now r))"
proof (induction rule: sim_runs.induct)
  case (more w tr w1 e out w2)
  from more.IH [OF more.prems] have w1: "snd w1 = None" "se_tick_hz (fst (fst w1)) = hz" by blast+
  from more.hyps(2) have "snd w2 = None \<and> se_tick_hz (fst (fst w2)) = hz \<and>
      ((\<exists>sys now f. e = Frame_In sys now f) \<or> (\<exists>sys now r. e = Http_In sys now r))"
    using w1 assms by cases (auto simp: with_store_def)
  with more.IH [OF more.prems] show ?case by auto
qed simp

lemma start_demo_rate: "se_tick_hz (fst (start_demo fx now device hz)) = hz"
  by (simp add: start_demo_def Let_def sim_engine_new_def)

subsection \<open>Properties\<close>

text \<open>The identifiers of the settings in force fit in 22 bits.\<close>

definition settings_fit :: "machine \<Rightarrow> rstring option \<Rightarrow> bool" where
  "settings_fit mc cfg \<longleftrightarrow>
     (case cfg of
        None \<Rightarrow> demo_device_id mc < 2 ^ 22
      | Some path \<Rightarrow>
          (case Option.bind (mc_read mc path) (mc_from_toml mc) of None \<Rightarrow> True | Some config \<Rightarrow> config_ok config))"


definition example_machine :: machine where
  "example_machine = \<lparr>mc_args = [Some (lit ''bacnet-sim'')], mc_env = (\<lambda>v. if v = lit ''BACNET_DEVICE_ID'' then Some (decimal 77) else None),
     mc_read = (\<lambda>p. None), mc_from_toml = (\<lambda>t. None), mc_bind_udp = (\<lambda>a. True), mc_bind_tcp = (\<lambda>hubs a. a \<notin> set hubs),
     mc_v6 = (\<lambda>s. None), mc_registry = (\<lambda>ds d. d \<notin> set ds), mc_now = 5\<rparr>"


text \<open>
  C30. A demo rate that is not positive and finite stops the simulation without a word: the program starts
  and answers frames and requests, but its engine is dead, and no run of it ever contains a tick.
\<close>

theorem bad_rate_never_ticks:
  assumes "pf_interval pf 0 = Panic" and "machine_config_path mc = (Ok None :: (rstring option, main_error) rres)"
    and "mc_env mc (lit ''BACNET_TICK_HZ'') = Some s" and "parse_f64 s = Some hz"
    and "f64_sign hz \<or> f64_mag hz = 0 \<or> f64_exp hz = 2047"
    and "main_start pf mc = Ok pr" and "sim_runs pf (pr_sim pr, None) tr w'"
  shows "snd w' = None \<and>
    (\<forall>(e, out) \<in> set tr. (\<exists>sys now f. e = Frame_In sys now f) \<or> (\<exists>sys now r. e = Http_In sys now r))"
proof -
  have "demo_tick_hz mc = hz" by (simp add: demo_tick_hz_def env_parse_def assms(3,4))
  then have "pr_sim pr = start_demo (pf_hash pf) (mc_now mc) (demo_device_id mc) hz"
    using main_start_topology [OF assms(6)] assms(2) by (auto simp: main_topology_eq)
  then have "se_tick_hz (fst (pr_sim pr)) = hz" by (simp add: start_demo_rate)
  with never_ticks [OF engine_period_bad [of "pf_interval pf", OF assms(1,5)] assms(7)] show ?thesis by simp
qed

definition example_bad_rate :: machine where
  "example_bad_rate = example_machine\<lparr>mc_env := (\<lambda>v. if v = lit ''BACNET_TICK_HZ'' then Some (lit ''NaN'') else None)\<rparr>"

theorem bad_rate_never_ticks_witness:
  "\<exists>pr w'. main_start example_platform example_bad_rate = Ok pr \<and> sim_runs example_platform (pr_sim pr, None) [] w' \<and> snd w' = None"
proof -
  have mc: "machine_config_path example_bad_rate = (Ok None :: (rstring option, main_error) rres)"
      "log_format example_bad_rate = (Ok (lit ''text'') :: (rstring, main_error) rres)"
      "mc_env example_bad_rate (lit ''BACNET_TICK_HZ'') = Some (lit ''NaN'')"
      "mc_bind_udp example_bad_rate a" "registry_ok (mc_registry example_bad_rate)" for a
    by (auto simp: example_bad_rate_def example_machine_def machine_config_path_def config_path_def registry_ok_def
        log_format_def lit_simps)
  have nan: "parse_f64 (lit ''NaN'') = Some f64_nan"
    by (simp add: parse_f64_def digit_value_def ascii_lower_def lit_simps Let_def)
  have "f64_exp f64_nan = 2047" by code_simp
  then have bad: "f64_sign f64_nan \<or> f64_mag f64_nan = 0 \<or> f64_exp f64_nan = 2047" by blast
  have i: "pf_interval example_platform 0 = Panic" by (simp add: example_platform_def example_interval_def)
  obtain pr where pr: "main_start example_platform example_bad_rate = Ok pr"
    using main_start_eq [OF mc(5,4,2,1), of example_platform] by (simp add: main_topology_eq)
  from bad_rate_never_ticks [OF i mc(1,3) nan bad pr sim_runs.none] pr sim_runs.none show ?thesis by blast
qed

end
