(* ===== verification/Codec_Tests.thy ===== *)
theory Codec_Tests
  imports Application Confirmed Responses Bvll Mstp_Frame
begin

text \<open>
  The unit tests of \<^verbatim>\<open>bacnet-types\<close> and \<^verbatim>\<open>bacnet-codec\<close>, run on the model: each test is the question
  whether its assertions hold, and the kernel computes the answers.  An \<^verbatim>\<open>unwrap\<close> fails the test
  unless there is an \<^verbatim>\<open>Ok\<close>.
\<close>

definition passes :: "('a, 'e) rres \<Rightarrow> ('a \<Rightarrow> bool) \<Rightarrow> bool" where
  "passes r P \<longleftrightarrow> (case r of Ok x \<Rightarrow> P x | _ \<Rightarrow> False)"

definition is_err :: "('a, 'e) rres \<Rightarrow> bool" where
  "is_err r \<longleftrightarrow> (case r of Err e \<Rightarrow> True | _ \<Rightarrow> False)"

subsection \<open>\<^verbatim>\<open>encoding/asn1.rs\<close>\<close>

definition test_encode_unsigned_one_byte :: bool where
  "test_encode_unsigned_one_byte \<longleftrightarrow> encode_application_unsigned 42 = [0x21, 0x2A]"

definition test_encode_unsigned_two_bytes :: bool where
  "test_encode_unsigned_two_bytes \<longleftrightarrow> encode_application_unsigned 300 = [0x22, 0x01, 0x2C]"

text \<open>Zero, minus one, the largest and the least positive normal number, 3.14159; the last constant is epsilon.\<close>

definition test_encode_decode_real_roundtrip :: bool where
  "test_encode_decode_real_roundtrip \<longleftrightarrow>
     list_all (\<lambda>val. passes (decode_application_real (encode_application_real val)) (\<lambda>(decoded, _).
       f32_lt (f32_abs (f32_sub decoded val)) 0x34000000 \<or> f32_eq decoded val))
       [0x00000000, 0xBF800000, 0x7F7FFFFF, 0x00800000, 0x40490FD0]"

definition test_encode_object_id :: bool where
  "test_encode_object_id \<longleftrightarrow>
     encode_application_object_id \<lparr>oid_type = OT_AnalogInput, oid_instance = 7\<rparr> = [0xC4, 0x00, 0x00, 0x00, 0x07]"

definition test_decode_date :: bool where
  "test_decode_date \<longleftrightarrow>
     passes (decode_application_date [0xA4, 0x79, 0x01, 0x01, 0x05]) (\<lambda>(date, _).
       date_year date = 2021 \<and> date_month date = 1 \<and> date_day date = 1 \<and> date_weekday date = WD_Friday)"

definition test_decode_malformed_unsigned_tag :: bool where
  "test_decode_malformed_unsigned_tag \<longleftrightarrow> is_err (decode_application_unsigned [0xFF, 0xFF, 0xFF])"

definition test_context_tag_encoding_unsigned :: bool where
  "test_context_tag_encoding_unsigned \<longleftrightarrow> encode_context_unsigned 3 255 = [0x39, 0xFF]"

definition test_bit_string_roundtrip :: bool where
  "test_bit_string_roundtrip \<longleftrightarrow>
     (let bits = [True, False, True, True, False]
      in passes (decode_application_bitstring (encode_application_bitstring bits)) (\<lambda>(decoded, _). decoded = bits))"

lemma asn1_tests_pass:
  "test_encode_unsigned_one_byte" "test_encode_unsigned_two_bytes" "test_encode_object_id" "test_decode_date"
  "test_decode_malformed_unsigned_tag" "test_context_tag_encoding_unsigned" "test_bit_string_roundtrip"
  by code_simp+

lemma decode_application_real_encode: "decode_application_real (encode_application_real v) = Ok (v, 5)"
  by (simp add: decode_application_real_def encode_application_real_def tag_byte_def read_u32_be_def u32_to_be_def index_def)

lemma real_test_passes: "test_encode_decode_real_roundtrip"
proof -
  have "list_all (\<lambda>val. f32_eq val val) [0x00000000, 0xBF800000, 0x7F7FFFFF, 0x00800000, 0x40490FD0]"
    by (simp add: f32_is_nan_def f32_exp_nat f32_frac_nat)
  then show ?thesis
    by (simp add: test_encode_decode_real_roundtrip_def decode_application_real_encode passes_def)
qed

subsection \<open>\<^verbatim>\<open>encoding/tags.rs\<close>\<close>

definition test_decode_ctx_u32_single_byte :: bool where
  "test_decode_ctx_u32_single_byte \<longleftrightarrow> passes (decode_ctx_u32 [0x09, 0x55] 0 0) (\<lambda>(v, pos). v = 0x55 \<and> pos = 2)"

definition test_decode_ctx_object_id_basic :: bool where
  "test_decode_ctx_object_id_basic \<longleftrightarrow>
     passes (decode_ctx_object_id (0x0C # u32_to_be 3) 0 0) (\<lambda>(oid, pos).
       oid_instance oid = 3 \<and> oid_type oid = OT_AnalogInput)"

definition test_is_opening_closing :: bool where
  "test_is_opening_closing \<longleftrightarrow>
     (let buf = [0x3E, 0x3F]
      in is_opening buf 0 3 \<and> \<not> is_opening buf 0 4 \<and> is_closing buf 1 3 \<and> \<not> is_closing buf 1 2)"

definition test_decode_application_real :: bool where
  "test_decode_application_real \<longleftrightarrow>
     passes (decode_application_value (0x44 # u32_to_be 0x41B40000) 0) (\<lambda>(pv, pos). pv_eq pv (PV_Real 0x41B40000))"

definition test_encode_decode_ctx_object_id :: bool where
  "test_encode_decode_ctx_object_id \<longleftrightarrow>
     (let oid = \<lparr>oid_type = OT_Device, oid_instance = 1234\<rparr>
      in passes (decode_ctx_object_id (encode_ctx_object_id 0 oid) 0 0) (\<lambda>(decoded, pos). decoded = oid))"

lemma tags_tests_pass:
  "test_decode_ctx_u32_single_byte" "test_decode_ctx_object_id_basic" "test_is_opening_closing"
  "test_encode_decode_ctx_object_id"
  by code_simp+

text \<open>The tests on floats need only that a number equals itself, so their comparison is not computed.\<close>

lemma f32_not_nan_samples [simp]: "\<not> f32_is_nan 0x41B40000" "\<not> f32_is_nan 0x42960000"
  by (simp_all add: f32_is_nan_def f32_exp_nat f32_frac_nat)

lemma passes_real:
  "r = Ok (PV_Real x, pos) \<Longrightarrow> \<not> f32_is_nan x \<Longrightarrow> passes r (\<lambda>(pv, pos). pv_eq pv (PV_Real x))"
  by (simp add: passes_def)

lemma real_value_test_passes: "test_decode_application_real"
  unfolding test_decode_application_real_def by (rule passes_real) (code_simp, simp)

subsection \<open>\<^verbatim>\<open>apdu/confirmed.rs\<close>\<close>

definition test_decode_read_property_request :: bool where
  "test_decode_read_property_request \<longleftrightarrow>
     passes (decode_read_property ([0x0C] @ u32_to_be (push_bit 22 0 OR 1) @ [0x19] @ [85])) (\<lambda>req.
       oid_type (rp_object_id req) = OT_AnalogInput \<and> oid_instance (rp_object_id req) = 1 \<and>
       rp_property_id req = PID_PresentValue \<and> rp_array_index req = None)"

definition test_decode_read_property_with_array_index :: bool where
  "test_decode_read_property_with_array_index \<longleftrightarrow>
     passes (decode_read_property ([0x0C] @ u32_to_be (push_bit 22 (ucast (ot_code OT_Device)) OR 1234) @ [0x19, 76] @ [0x29, 5]))
       (\<lambda>req. rp_array_index req = Some 5)"

definition test_decode_write_property_request :: bool where
  "test_decode_write_property_request \<longleftrightarrow>
     passes (decode_write_property ([0x0C] @ u32_to_be (push_bit 22 0 OR 1) @ [0x19, 85] @ [0x3E] @ [0x44] @
       u32_to_be 0x41B40000 @ [0x3F])) (\<lambda>req.
       wp_property_id req = PID_PresentValue \<and> pv_eq (wp_value req) (PV_Real 0x41B40000) \<and> wp_priority req = None)"

definition test_decode_write_property_with_priority :: bool where
  "test_decode_write_property_with_priority \<longleftrightarrow>
     passes (decode_write_property ([0x0C] @ u32_to_be (push_bit 22 1 OR 2) @ [0x19, 85] @ [0x3E] @ [0x44] @
       u32_to_be 0x42960000 @ [0x3F] @ [0x49, 8])) (\<lambda>req.
       wp_priority req = Some 8 \<and> pv_eq (wp_value req) (PV_Real 0x42960000))"

definition test_decode_rpm_two_properties :: bool where
  "test_decode_rpm_two_properties \<longleftrightarrow>
     passes (decode_rpm ([0x0C] @ u32_to_be 1 @ [0x1E] @ [0x09, 85] @ [0x09, 111] @ [0x1F])) (\<lambda>specs.
       length specs = 1 \<and> length (snd (specs ! 0)) = 2 \<and>
       fst (snd (specs ! 0) ! 0) = PID_PresentValue \<and> fst (snd (specs ! 0) ! 1) = PID_StatusFlags)"

lemma confirmed_tests_pass:
  "test_decode_read_property_request" "test_decode_read_property_with_array_index" "test_decode_rpm_two_properties"
  by code_simp+

lemma write_tests_pass: "test_decode_write_property_request" "test_decode_write_property_with_priority"
proof -
  have "decode_write_property ([0x0C] @ u32_to_be (push_bit 22 0 OR 1) @ [0x19, 85] @ [0x3E] @ [0x44] @
      u32_to_be 0x41B40000 @ [0x3F]) =
    Ok \<lparr>wp_object_id = \<lparr>oid_type = OT_AnalogInput, oid_instance = 1\<rparr>, wp_property_id = PID_PresentValue,
      wp_array_index = None, wp_value = PV_Real 0x41B40000, wp_priority = None\<rparr>" by code_simp
  then show "test_decode_write_property_request"
    by (simp add: test_decode_write_property_request_def passes_def)
  have "decode_write_property ([0x0C] @ u32_to_be (push_bit 22 1 OR 2) @ [0x19, 85] @ [0x3E] @ [0x44] @
      u32_to_be 0x42960000 @ [0x3F] @ [0x49, 8]) =
    Ok \<lparr>wp_object_id = \<lparr>oid_type = OT_AnalogOutput, oid_instance = 2\<rparr>, wp_property_id = PID_PresentValue,
      wp_array_index = None, wp_value = PV_Real 0x42960000, wp_priority = Some 8\<rparr>" by code_simp
  then show "test_decode_write_property_with_priority"
    by (simp add: test_decode_write_property_with_priority_def passes_def)
qed

subsection \<open>\<^verbatim>\<open>apdu/unconfirmed.rs\<close>\<close>

definition test_whois_encode_decode_roundtrip :: bool where
  "test_whois_encode_decode_roundtrip \<longleftrightarrow>
     passes (unconfirmed_decode (unconfirmed_encode (UR_WhoIs \<lparr>wi_low_limit = Some 1000, wi_high_limit = Some 2000\<rparr>)))
       (\<lambda>decoded. case decoded of
          UR_WhoIs w \<Rightarrow> wi_low_limit w = Some 1000 \<and> wi_high_limit w = Some 2000
        | _ \<Rightarrow> False)"

definition test_iam_encode_decode_roundtrip :: bool where
  "test_iam_encode_decode_roundtrip \<longleftrightarrow>
     passes (unconfirmed_decode (unconfirmed_encode (UR_IAm \<lparr>iam_device_instance = 42, iam_max_apdu = 1476,
       iam_segmentation = Seg_NoSegmentation, iam_vendor_id = 999\<rparr>)))
       (\<lambda>decoded. case decoded of UR_IAm i \<Rightarrow> iam_device_instance i = 42 | _ \<Rightarrow> False)"

lemma unconfirmed_tests_pass: "test_whois_encode_decode_roundtrip" "test_iam_encode_decode_roundtrip"
  by code_simp+

subsection \<open>\<^verbatim>\<open>mstp.rs\<close>\<close>

definition test_token_frame_encode_header_crc :: bool where
  "test_token_frame_encode_header_crc \<longleftrightarrow>
     (let encoded = mstp_encode \<lparr>mstp_type = MFT_Token, mstp_destination = 2, mstp_source = 1, mstp_data = []\<rparr>
      in encoded ! 0 = 0x55 \<and> encoded ! 1 = 0xFF \<and> encoded ! 2 = 0x00 \<and> encoded ! 3 = 0x02 \<and> encoded ! 4 = 0x01 \<and>
         encoded ! 7 = crc8 (take 5 (drop 2 encoded)))"

text \<open>The data is \<^verbatim>\<open>b"Hello BACnet"\<close>.\<close>

definition test_data_frame_crc16_correct :: bool where
  "test_data_frame_crc16_correct \<longleftrightarrow>
     (let data = [0x48, 0x65, 0x6C, 0x6C, 0x6F, 0x20, 0x42, 0x41, 0x43, 0x6E, 0x65, 0x74];
          encoded = mstp_encode \<lparr>mstp_type = MFT_BacnetDataNotExpectingReply, mstp_destination = 5, mstp_source = 1,
            mstp_data = data\<rparr>;
          crc16_pos = length encoded - 2
      in crc16 (take (crc16_pos - 8) (drop 8 encoded)) =
         ucast (encoded ! crc16_pos) OR push_bit 8 (ucast (encoded ! (crc16_pos + 1))))"

definition test_decode_incomplete_frame :: bool where
  "test_decode_incomplete_frame \<longleftrightarrow> mstp_decode [0x55, 0xFF, 0x00] = Err Incomplete"

definition test_decode_bad_preamble :: bool where
  "test_decode_bad_preamble \<longleftrightarrow> mstp_decode [0xAA, 0xBB, 0x00, 0x01, 0x02, 0x00, 0x00, 0x00] = Err BadPreamble"

definition test_roundtrip_data_frame :: bool where
  "test_roundtrip_data_frame \<longleftrightarrow>
     (let original = \<lparr>mstp_type = MFT_BacnetDataExpectingReply, mstp_destination = 3, mstp_source = 0,
            mstp_data = [0x01, 0x00, 0x00, 0xFF]\<rparr>
      in passes (mstp_decode (mstp_encode original)) (\<lambda>decoded. decoded = original))"

lemma mstp_tests_pass:
  "test_token_frame_encode_header_crc" "test_decode_incomplete_frame" "test_decode_bad_preamble"
  by code_simp+

lemma mstp_data_crc_bytes:
  assumes "mstp_data f \<noteq> []" "p = length (mstp_encode f) - 2"
  shows "crc16 (take (p - 8) (drop 8 (mstp_encode f))) =
    ucast (mstp_encode f ! p) OR push_bit 8 (ucast (mstp_encode f ! (p + 1)))"
proof -
  let ?crc = "u16_to_le (crc16 (mstp_data f))"
  define hdr where "hdr = [0x55, 0xFF] @ mstp_header f @ [crc8 (mstp_header f)]"
  have l: "length hdr = 8" by (simp add: hdr_def mstp_header_def u16_to_be_def)
  have e: "mstp_encode f = hdr @ mstp_data f @ ?crc" using assms(1) by (simp add: mstp_encode_def hdr_def)
  have "length ?crc = 2" by (simp add: u16_to_le_def)
  with l e have p: "p = 8 + length (mstp_data f)" using assms(2) by simp
  have "take (p - 8) (drop 8 (mstp_encode f)) = mstp_data f" by (simp add: e l p)
  moreover
  have "mstp_encode f ! p = ?crc ! 0" "mstp_encode f ! (p + 1) = ?crc ! 1"
    by (simp_all add: e l p nth_append)
  then have "ucast (mstp_encode f ! p) OR push_bit 8 (ucast (mstp_encode f ! (p + 1))) = crc16 (mstp_data f)"
    using u16_le_roundtrip [of "crc16 (mstp_data f)"] by (simp add: u16_to_le_def u16_from_be_def or.commute)
  ultimately show ?thesis by simp
qed

lemma data_crc_tests_pass: "test_data_frame_crc16_correct" "test_roundtrip_data_frame"
proof -
  show "test_data_frame_crc16_correct"
    unfolding test_data_frame_crc16_correct_def Let_def by (rule mstp_data_crc_bytes) simp_all
  show "test_roundtrip_data_frame"
    unfolding test_roundtrip_data_frame_def Let_def by (simp add: passes_def mstp_decode_encode mstp_ok_def)
qed

subsection \<open>\<^verbatim>\<open>bvll.rs\<close>\<close>

definition test_original_unicast_npdu_encode_decode :: bool where
  "test_original_unicast_npdu_encode_decode \<longleftrightarrow>
     (let encoded = bvll_encode (OriginalUnicastNpdu [0x01, 0x20, 0x00, 0x00])
      in encoded ! 0 = 0x81 \<and> encoded ! 1 = 0x0A \<and>
         passes (bvll_decode encoded) (\<lambda>decoded. case decoded of OriginalUnicastNpdu _ \<Rightarrow> True | _ \<Rightarrow> False))"

definition test_register_foreign_device_roundtrip :: bool where
  "test_register_foreign_device_roundtrip \<longleftrightarrow> bvll_encode (RegisterForeignDevice 300) ! 1 = 0x05"

definition test_forwarded_npdu_has_originator_address :: bool where
  "test_forwarded_npdu_has_originator_address \<longleftrightarrow>
     (let encoded = bvll_encode (ForwardedNpdu (SocketAddrV4 0xC0A8010A 47808) [0x01, 0x00])
      in encoded ! 1 = 0x04 \<and> take 4 (drop 4 encoded) = [192, 168, 1, 10] \<and>
         u16_from_be (encoded ! 8) (encoded ! 9) = 47808)"

lemma bvll_tests_pass:
  "test_original_unicast_npdu_encode_decode" "test_register_foreign_device_roundtrip"
  "test_forwarded_npdu_has_originator_address"
  by code_simp+

end
