(* ===== verification/System_Tests.thy ===== *)
theory System_Tests
  imports Codec_Tests Simulation_Builder Scenario Api_Routes
begin

text \<open>
  The unit tests of the objects, the engine, the scenarios, the simulation builder and the REST API,
  run on the model.  What a test reads from the outside (the clocks, the Unicode tables, the metrics
  encoder, the file system) is an argument, and the test passes for each of its values.
\<close>

subsection \<open>\<^verbatim>\<open>schedule.rs\<close>\<close>

text \<open>18 and 21 degrees.\<close>

definition make_schedule :: schedule where
  "make_schedule =
     (let sched = (sch_new 1 1 (lit ''SCHED-01''))\<lparr>sch_schedule_default := PV_Real 0x41900000\<rparr>
      in sched\<lparr>sch_weekly_schedule := (sch_weekly_schedule sched)[0 := \<lparr>ds_slots =
           [\<lparr>tv_secs = 8 * 3600, tv_value = PV_Real 0x41A80000\<rparr>,
            \<lparr>tv_secs = 18 * 3600, tv_value = PV_Real 0x41900000\<rparr>]\<rparr>]\<rparr>)"

definition test_schedule_default_before_first_slot :: bool where
  "test_schedule_default_before_first_slot \<longleftrightarrow>
     passes (evaluate_at make_schedule (1704067200 + 7 * 3600)) (\<lambda>val. pv_eq val (PV_Real 0x41900000))"

definition test_schedule_occupied_slot :: bool where
  "test_schedule_occupied_slot \<longleftrightarrow>
     passes (evaluate_at make_schedule (1704067200 + 9 * 3600)) (\<lambda>val. pv_eq val (PV_Real 0x41A80000))"

definition test_schedule_unoccupied_slot :: bool where
  "test_schedule_unoccupied_slot \<longleftrightarrow>
     passes (evaluate_at make_schedule (1704067200 + 19 * 3600)) (\<lambda>val. pv_eq val (PV_Real 0x41900000))"

lemma schedule_values_are_numbers: "\<not> f32_is_nan 0x41900000" "\<not> f32_is_nan 0x41A80000"
  by (simp_all add: f32_is_nan_def f32_exp_nat f32_frac_nat)

lemma schedule_tests_pass:
  "test_schedule_default_before_first_slot" "test_schedule_occupied_slot" "test_schedule_unoccupied_slot"
  by (simp_all add: test_schedule_default_before_first_slot_def test_schedule_occupied_slot_def
      test_schedule_unoccupied_slot_def make_schedule_def evaluate_at_def sch_new_def active_at_def passes_def
      index_def Let_def schedule_values_are_numbers)

subsection \<open>\<^verbatim>\<open>trend_log.rs\<close>\<close>

definition test_trend_log_record_and_cap :: "instant \<Rightarrow> (u32 \<Rightarrow> system_time) \<Rightarrow> bool" where
  "test_trend_log_record_and_cap now sys \<longleftrightarrow>
     (let tl = foldl (\<lambda>tl i. tl_record (sys i) (PV_Unsigned i) tl)
            ((tl_new now 1 1 (lit ''TL-01''))\<lparr>tl_buffer_size := 3\<rparr>) [0, 1, 2, 3, 4]
      in length (tl_log_buffer tl) = 3 \<and> tl_record_count tl = 3 \<and> tl_total_record_count tl = 5 \<and>
         (case tle_value (last (tl_log_buffer tl)) of PV_Unsigned v \<Rightarrow> v = 4 | _ \<Rightarrow> False))"

text \<open>The values are 1 and 2.\<close>

definition test_trend_log_clear_via_write :: "instant \<Rightarrow> instant \<Rightarrow> system_time \<Rightarrow> system_time \<Rightarrow> bool" where
  "test_trend_log_clear_via_write now now' sys1 sys2 \<longleftrightarrow>
     (let tl = tl_record sys2 (PV_Real 0x40000000) (tl_record sys1 (PV_Real 0x3F800000) (tl_new now 1 1 (lit ''TL-01'')));
          (r, tl) = tl_write_property now' tl PID_RecordCount None (PV_Unsigned 0) None
      in passes r (\<lambda>_. tl_record_count tl = 0 \<and> tl_log_buffer tl = []))"

definition test_trend_log_disabled_does_not_record :: "instant \<Rightarrow> system_time \<Rightarrow> bool" where
  "test_trend_log_disabled_does_not_record now sys \<longleftrightarrow>
     tl_record_count (tl_record sys (PV_Real 0x3F800000) ((tl_new now 1 1 (lit ''TL-01''))\<lparr>tl_enable := False\<rparr>)) = 0"

lemma trend_log_tests_pass:
  "test_trend_log_record_and_cap now sys" "test_trend_log_clear_via_write now now' sys1 sys2"
  "test_trend_log_disabled_does_not_record now sys1"
  by (simp_all add: test_trend_log_record_and_cap_def test_trend_log_clear_via_write_def
      test_trend_log_disabled_does_not_record_def tl_new_def tl_record_def tl_write_property_def unsigned_of_def
      passes_def sat_succ_u32_def)

subsection \<open>\<^verbatim>\<open>engine.rs\<close> and \<^verbatim>\<open>scenario.rs\<close>\<close>

definition test_obj_key_deterministic :: bool where
  "test_obj_key_deterministic \<longleftrightarrow>
     (let (dk, ok) = engine_obj_key 42 \<lparr>oid_type = OT_AnalogInput, oid_instance = 7\<rparr> in dk = 42 \<and> ok = 7)"

text \<open>The tick rate 1, the constant 42 and the increment 0.1.\<close>

definition test_add_model_registers_entry :: "(nat \<Rightarrow> 'g) \<Rightarrow> instant \<Rightarrow> bool" where
  "test_add_model_registers_entry seed_from now \<longleftrightarrow>
     (let engine = sim_engine_new store_new 0x3FF0000000000000 now
      in length (se_models (add_model seed_from 1 \<lparr>oid_type = OT_AnalogInput, oid_instance = 1\<rparr>
           (ConstantModel 0x42280000) 0x3DCCCCCD None 0 engine)) = 1)"

lemma engine_tests_pass: "test_obj_key_deterministic" "test_add_model_registers_entry seed_from now"
  by code_simp (simp add: test_add_model_registers_entry_def sim_engine_new_def add_model_def)

definition test_scenario_set_analog_value ::
    "'ast script_engine \<Rightarrow> hash_fn \<Rightarrow> instant \<Rightarrow> (nat \<Rightarrow> system_time \<times> instant) \<Rightarrow> system_time \<Rightarrow> bool" where
  "test_scenario_set_analog_value eng fx now clock sys \<longleftrightarrow>
     (let store = store_insert fx 1 (Obj_AnalogInput (ai_new now 1 1 (lit ''AI-1'') EU_DegreesCelsius)) store_new
      in passes (load_str eng (lit ''test'') (lit ''set_analog(1, 0, 1, 42.5)'')) (\<lambda>scenario.
           let (r, store) = scenario_run fx eng clock scenario 0 store
           in passes r (\<lambda>_. passes
                (store_read fx sys store 1 \<lparr>oid_type = OT_AnalogInput, oid_instance = 1\<rparr> PID_PresentValue None)
                (\<lambda>val. pv_eq val (PV_Real 0x422A0000)))))"

text \<open>The script engine is a library: what the test asks of it is that it makes the one call of the script.\<close>

text \<open>42.5 as an \<^verbatim>\<open>f64\<close> and as an \<^verbatim>\<open>f32\<close>.\<close>

lemma narrowed_value: "f32_of_f64 0x4045400000000000 = 0x422A0000" "\<not> f32_is_nan 0x422A0000"
proof -
  have e: "f64_exp 0x4045400000000000 = 1028" "\<not> f64_sign 0x4045400000000000" by code_simp+
  have f: "f64_frac 0x4045400000000000 = 0x5400000000000"
    by (simp add: f64_frac_def unsigned_take_bit_eq take_bit_nat_eq_self take_bit_eq_mod)
  have m: "f64_mag 0x4045400000000000 = 0xAA0000 * 2 ^ 1056"
    by (simp add: f64_mag_def e f)
  have "bit_len (0xAA0000 * 2 ^ 1056) = Suc 1079" by (rule bit_len_eq) simp_all
  then have "f32_round False 925 (0xAA0000 * 2 ^ 1056) = 0x422A0000"
    by (simp add: f32_round_def f32_round_mag_def f32_shift_def Let_def del: power_numeral) simp
  with e m show "f32_of_f64 0x4045400000000000 = 0x422A0000" by (simp only: f32_of_f64_def f64_is_nan_def) simp
  show "\<not> f32_is_nan 0x422A0000" by (simp add: f32_is_nan_def f32_exp_nat f32_frac_nat)
qed

lemma scenario_test_passes:
  assumes "sg_compile eng (lit ''set_analog(1, 0, 1, 42.5)'') = Some ast"
    and "sg_run eng ast 0 = ([Call_Set_Analog 1 0 1 0x4045400000000000], True)"
  shows "test_scenario_set_analog_value eng fx now clock sys"
proof -
  let ?oid = "\<lparr>oid_type = OT_AnalogInput, oid_instance = 1\<rparr> :: object_id"
  let ?ai = "ai_new now 1 1 (lit ''AI-1'') EU_DegreesCelsius"
  let ?st = "store_insert fx 1 (Obj_AnalogInput ?ai) store_new"
  have st: "store_ok fx ?st" by (simp add: store_insert_ok store_new_ok)
  have "oid_ok ?oid" by (simp add: oid_ok_def)
  then have get: "store_get fx ?st 1 ?oid = Some (Obj_AnalogInput ?ai)"
    using objstore.get_ins [OF store_new_ok, of "Obj_AnalogInput ?ai" ?oid fx 1 1] by (simp add: ai_new_def)
  have t: "object_type_from_u16 0 = Some OT_AnalogInput" by (simp add: object_type_from_u16_def)
  obtain y where y: "store_get fx (script_calls fx clock [Call_Set_Analog 1 0 1 0x4045400000000000] ?st) 1 ?oid =
        Some (Obj_AnalogInput y)" "PV_Real (ai_present_value y) = PV_Real 0x422A0000"
    using script_calls_analog_input [OF st get, of clock "[Call_Set_Analog 1 0 1 0x4045400000000000]"]
    by (auto simp: final_value_def call_key_def scenario_oid_def t narrowed_value simp del: script_calls.simps)
  then show ?thesis
    using assms narrowed_value(2)
    by (simp add: test_scenario_set_analog_value_def load_str_def scenario_run_def passes_def
        store_read_def ai_read_property_def del: script_calls.simps)
qed

subsection \<open>The number of objects of a simulation\<close>

lemma distinct_u32_range: "distinct (u32_range lo hi)"
proof -
  have "inj_on (of_nat :: nat \<Rightarrow> u32) {unat lo..<Suc (unat hi)}"
  proof (rule inj_onI)
    fix m n assume m: "m \<in> {unat lo..<Suc (unat hi)}" "n \<in> {unat lo..<Suc (unat hi)}" "(of_nat m :: u32) = of_nat n"
    have "unat (of_nat k :: u32) = k" if "k \<in> {unat lo..<Suc (unat hi)}" for k
      using that unsigned_less [of hi, where ?'a = nat] by (simp add: unsigned_of_nat take_bit_nat_eq_self)
    with m show "m = n" by metis
  qed
  then show ?thesis by (simp add: u32_range_def distinct_map del: upt_Suc)
qed

lemma length_u32_range: "length (u32_range lo hi) = Suc (unat hi) - unat lo"
  by (simp add: u32_range_def del: upt_Suc)

text \<open>The identifiers of a device's objects are its object list, in order.\<close>

lemma profile_object_ids:
  "map obj_object_id (List.map_filter (profile_object uni now dev c) is) =
    (case parse_object_type uni (oc_object_type c) of None \<Rightarrow> []
     | Some t \<Rightarrow> map (\<lambda>i. \<lparr>oid_type = t, oid_instance = i\<rparr>) is)"
proof (induction "is")
  case (Cons i "is")
  then show ?case
    using profile_object_agrees [of i uni c now dev]
    by (cases "parse_object_type uni (oc_object_type c)"; cases "profile_object uni now dev c i")
      (simp_all add: map_filter_simps)
qed (simp add: map_filter_simps split: option.split)

lemma device_batch_ids:
  "map (\<lambda>(d, ob). (d, obj_object_id ob)) (device_batch uni now p dev) =
    map (Pair dev) (profile_object_list uni dev p)"
proof -
  have "map (\<lambda>(d, ob). (d, obj_object_id ob)) (concat (map (\<lambda>c. map (Pair dev) (obs c)) cs)) =
      map (Pair dev) (concat (map (\<lambda>c. map obj_object_id (obs c)) cs))" for obs :: "object_config \<Rightarrow> bacnet_object list" and cs
    by (induction cs) simp_all
  then show ?thesis
    by (simp add: device_batch_def add_profile_objects_def profile_object_list_def profile_object_ids
        dev_object_id_def dev_new_def device_oid_def)
qed

lemma store_count_insert_all:
  assumes "store_ok fx st" and "\<forall>(d, ob) \<in> set b. obj_ok ob \<and> oid_ok (obj_object_id ob)"
    and "distinct (map (\<lambda>(d, ob). (d, obj_object_id ob)) b)"
    and "\<forall>(d, ob) \<in> set b. store_get fx st d (obj_object_id ob) = None"
  shows "store_count (store_insert_all fx b st) = store_count st + length b"
  using assms(2-)
proof (induction b rule: rev_induct)
  case (snoc p b)
  obtain d ob where p: "p = (d, ob)" by (cases p)
  have ok: "store_ok fx (store_insert_all fx b st)"
    using snoc.prems(1) assms(1) by (intro store_insert_all_ok) auto
  have "find (\<lambda>(e, ob'). e = d \<and> obj_object_id ob' = obj_object_id ob) (rev b) = None"
    using snoc.prems(2) p by (auto simp: find_None_iff image_iff)
  then have "store_get fx (store_insert_all fx b st) d (obj_object_id ob) = None"
    using get_insert_all [OF assms(1), of b "obj_object_id ob" d] snoc.prems p by auto
  then show ?case
    using store_count_insert [OF ok, of d ob] snoc p by (simp add: store_insert_all_def)
qed (simp add: store_insert_all_def)

lemma simulation_batch_ids:
  "map (\<lambda>(d, ob). (d, obj_object_id ob)) (simulation_batch uni now config) =
    concat (map (\<lambda>(dev, p). map (Pair dev) (profile_object_list uni dev p))
      (devices_of (sc_profiles config) (sc_devices config)))"
  using device_batch_ids [unfolded case_prod_unfold]
  by (simp add: simulation_batch_def map_concat comp_def case_prod_unfold)

lemma distinct_by_device:
  "distinct (map fst ds) \<Longrightarrow> \<forall>(dev, p) \<in> set ds. distinct (f dev p) \<Longrightarrow>
    distinct (concat (map (\<lambda>(dev, p). map (Pair dev) (f dev p)) ds))"
  by (induction ds) (force simp: distinct_map inj_on_def)+

text \<open>
  If no device is configured twice and no profile makes an object twice, the store of the
  simulation holds for each device the device object and the objects of its profile.
\<close>

lemma built_count:
  assumes "config_ok config"
    and ds: "ds = devices_of (sc_profiles config) (sc_devices config)" "distinct (map fst ds)"
    and "\<forall>(dev, p) \<in> set ds. distinct (profile_object_list uni dev p)"
  shows "store_count (dp_store (snd (build_simulation fx uni now config (dispatcher_new store_new)))) =
    (\<Sum>(dev, p) \<leftarrow> ds. length (profile_object_list uni dev p))"
proof -
  let ?b = "simulation_batch uni now config"
  have "distinct (map (\<lambda>(d, ob). (d, obj_object_id ob)) ?b)"
    unfolding simulation_batch_ids ds(1) [symmetric] by (rule distinct_by_device [OF ds(2) assms(4)])
  then have "store_count (store_insert_all fx ?b store_new) = store_count store_new + length ?b"
    using simulation_batch_ok simulation_batch_oid_ok [OF assms(1)]
    by (intro store_count_insert_all store_new_ok) auto
  also have "length ?b = length (map (\<lambda>(d, ob). (d, obj_object_id ob)) ?b)" by simp
  also have "\<dots> = (\<Sum>(dev, p) \<leftarrow> ds. length (profile_object_list uni dev p))"
    unfolding simulation_batch_ids ds(1) [symmetric] by (simp add: length_concat comp_def case_prod_unfold)
  finally show ?thesis
    by (simp add: build_simulation_eq Let_def bulk_insert_eq_inserts store_count_def store_new_def dispatcher_new_def
        sum_list_replicate num_shards_def)
qed

subsection \<open>\<^verbatim>\<open>simulation_builder.rs\<close>\<close>

definition model_params_default :: model_params where
  "model_params_default = \<lparr>mp_amplitude = None, mp_period_s = None, mp_offset = None, mp_noise_std = None,
     mp_step_std = None, mp_min = None, mp_max = None, mp_value = None\<rparr>"

definition make_config :: "u32 \<Rightarrow> u32 \<Rightarrow> simulator_config" where
  "make_config devices objects_per_device =
     \<lparr>sc_simulator = \<lparr>ss_tick_hz = 0x3FF0000000000000, ss_seed = Some 42\<rparr>,
      sc_networks = [\<lparr>nw_id = 1, nw_transport = TK_BacnetIp, nw_bind = Some (lit ''127.0.0.1:47808''), nw_hub_url = None\<rparr>],
      sc_devices = [\<lparr>dg_id_range = (1, devices), dg_network = 1, dg_profile = lit ''test_profile''\<rparr>],
      sc_profiles = [(lit ''test_profile'', \<lparr>pc_description = None, pc_objects =
        [\<lparr>oc_object_type = lit ''AnalogInput'', oc_count = objects_per_device, oc_name_prefix = lit ''AI'',
          oc_units = Some (lit ''DegreesCelsius''), oc_model = Some (lit ''sine''),
          oc_model_params = model_params_default\<rparr>]\<rparr>)]\<rparr>"

definition built_objects :: "hash_fn \<Rightarrow> (bytes \<Rightarrow> bytes) \<Rightarrow> instant \<Rightarrow> simulator_config \<Rightarrow> nat" where
  "built_objects fx uni now config =
     store_count (dp_store (snd (build_simulation fx uni now config (dispatcher_new store_new) :: unit sim_engine \<times> dispatcher)))"

definition test_bulk_build_correct_count :: "hash_fn \<Rightarrow> (bytes \<Rightarrow> bytes) \<Rightarrow> instant \<Rightarrow> bool" where
  "test_bulk_build_correct_count fx uni now \<longleftrightarrow> built_objects fx uni now (make_config 10 5) = 60"

definition test_bulk_build_1000_devices_10_objects :: "hash_fn \<Rightarrow> (bytes \<Rightarrow> bytes) \<Rightarrow> instant \<Rightarrow> bool" where
  "test_bulk_build_1000_devices_10_objects fx uni now \<longleftrightarrow> built_objects fx uni now (make_config 1000 10) = 11000"

definition test_parse_units_case_insensitive :: "(bytes \<Rightarrow> bytes) \<Rightarrow> bool" where
  "test_parse_units_case_insensitive uni \<longleftrightarrow>
     parse_units uni (Some (lit ''DegreesCelsius'')) = EU_DegreesCelsius \<and>
     parse_units uni (Some (lit ''celsius'')) = EU_DegreesCelsius \<and>
     parse_units uni (Some (lit ''percent'')) = EU_Percent \<and> parse_units uni None = EU_NoUnits"

text \<open>The parameters are 10, 60 and 25.\<close>

definition test_parse_model_sine :: "(bytes \<Rightarrow> bytes) \<Rightarrow> bool" where
  "test_parse_model_sine uni \<longleftrightarrow>
     (let params = model_params_default\<lparr>mp_amplitude := Some 0x41200000, mp_period_s := Some 0x404E000000000000,
            mp_offset := Some 0x41C80000\<rparr>
      in parse_model uni (Some (lit ''sine'')) params \<noteq> None)"

lemmas lower_lits = to_lowercase_def ascii_lower_def replace_chars_def lit_simps

text \<open>Any numbers of devices and objects that fit, not only those of the tests.\<close>

lemma make_config_count:
  assumes "n < 2 ^ 22" and "k < 2 ^ 22"
  shows "built_objects fx uni now (make_config n k) = unat n * Suc (unat k)"
proof -
  let ?c = "make_config n k"
  let ?ds = "devices_of (sc_profiles ?c) (sc_devices ?c)"
  obtain p where ds: "?ds = map (\<lambda>dev. (dev, p)) (u32_range 1 n)"
    and p: "profile_object_list uni dev p =
      device_oid dev # map (\<lambda>i. \<lparr>oid_type = OT_AnalogInput, oid_instance = i\<rparr>) (u32_range 1 k)" for dev
  proof
    show "?ds = map (\<lambda>dev. (dev, snd (hd (sc_profiles ?c)))) (u32_range 1 n)"
      by (simp add: devices_of_def make_config_def)
    have "parse_object_type uni (lit ''AnalogInput'') = Some OT_AnalogInput"
      by (simp add: parse_object_type_def config_type_name_def lower_lits)
    then show "profile_object_list uni dev (snd (hd (sc_profiles ?c))) =
        device_oid dev # map (\<lambda>i. \<lparr>oid_type = OT_AnalogInput, oid_instance = i\<rparr>) (u32_range 1 k)" for dev
      by (simp add: profile_object_list_def make_config_def device_oid_def)
  qed
  have "config_ok ?c" using assms by (simp add: config_ok_def make_config_def)
  moreover have "distinct (map fst ?ds)" by (simp add: ds comp_def distinct_u32_range)
  moreover have "\<forall>(dev, p) \<in> set ?ds. distinct (profile_object_list uni dev p)"
    by (auto simp: ds p distinct_map distinct_u32_range inj_on_def device_oid_def)
  ultimately have "built_objects fx uni now ?c = (\<Sum>(dev, p) \<leftarrow> ?ds. length (profile_object_list uni dev p))"
    unfolding built_objects_def by (rule built_count [OF _ refl])
  also have "\<dots> = unat n * Suc (unat k)"
    by (simp add: ds p comp_def length_u32_range sum_list_triv)
  finally show ?thesis .
qed

lemma bulk_build_tests_pass: "test_bulk_build_correct_count fx uni now" "test_bulk_build_1000_devices_10_objects fx uni now"
  by (simp_all add: test_bulk_build_correct_count_def test_bulk_build_1000_devices_10_objects_def make_config_count)

lemma parse_units_examples:
  "parse_units uni (Some (lit ''DegreesCelsius'')) = EU_DegreesCelsius"
  "parse_units uni (Some (lit ''celsius'')) = EU_DegreesCelsius"
  "parse_units uni (Some (lit ''percent'')) = EU_Percent" "parse_units uni None = EU_NoUnits"
  by (simp_all add: parse_units_def lower_lits)

lemma parse_tests_pass: "test_parse_units_case_insensitive uni" "test_parse_model_sine uni"
  by (simp_all only: test_parse_units_case_insensitive_def parse_units_examples simp_thms)
    (simp add: test_parse_model_sine_def parse_model_def lower_lits)

subsection \<open>\<^verbatim>\<open>rest.rs\<close>\<close>

text \<open>The tests' router has the first five routes of the table.\<close>

definition make_app :: "app_state \<times> (route_segment list \<times> http_method \<times> endpoint) list" where
  "make_app =
     (app_state_new store_new,
      [([Seg ''api'', Seg ''v1'', Seg ''health''], M_GET, EP_health),
       ([Seg ''api'', Seg ''v1'', Seg ''metrics''], M_GET, EP_metrics_handler),
       ([Seg ''api'', Seg ''v1'', Seg ''devices''], M_GET, EP_list_devices),
       ([Seg ''api'', Seg ''v1'', Seg ''devices'', Capture], M_GET, EP_get_device),
       ([Seg ''api'', Seg ''v1'', Seg ''devices'', Capture, Seg ''objects''], M_GET, EP_list_objects)])"

record 'n test_env =
  te_pct :: "rstring \<Rightarrow> rstring option"
  te_encode :: "metric_call list \<Rightarrow> bytes"
  te_json :: "'n json_lib"
  te_hash :: hash_fn
  te_lower :: "bytes \<Rightarrow> bytes"
  te_files :: "rstring \<Rightarrow> rstring option"
  te_sys :: system_time
  te_now :: instant
  te_metrics :: metrics

text \<open>A \<^verbatim>\<open>GET\<close> without a body (\<^verbatim>\<open>oneshot\<close>), and the status of an answer: 200 for a page or a value.\<close>

definition test_get :: "'n test_env \<Rightarrow> rstring \<Rightarrow> 'n http_answer" where
  "test_get env uri =
     (let (state, routes) = make_app
      in fst (answer_routed (te_encode env) (te_metrics env) (te_json env) (te_hash env) (te_lower env)
           (te_files env) (te_sys env) (te_now env)
           (route_in routes (te_pct env) \<lparr>hr_method = M_GET, hr_path = uri, hr_value = None, hr_scenario = None\<rparr>) state))"

definition answer_status :: "'n http_answer \<Rightarrow> nat option" where
  "answer_status resp =
     (case resp of
        Answered (Ok (R_Status n)) \<Rightarrow> Some n
      | Answered (Ok r) \<Rightarrow> Some 200
      | Answered (Err e) \<Rightarrow> Some (ae_status e)
      | Answered Panic \<Rightarrow> None
      | Metrics_Text s \<Rightarrow> Some 200
      | Refused n \<Rightarrow> Some n
      | Refused_Body \<Rightarrow> None)"

definition test_health_returns_ok :: "'n test_env \<Rightarrow> bool" where
  "test_health_returns_ok env \<longleftrightarrow> answer_status (test_get env (lit ''/api/v1/health'')) = Some 200"

definition test_list_devices_empty :: "'n test_env \<Rightarrow> bool" where
  "test_list_devices_empty env \<longleftrightarrow>
     (let resp = test_get env (lit ''/api/v1/devices'')
      in answer_status resp = Some 200 \<and>
         (case resp of Answered r \<Rightarrow> passes r (\<lambda>body. case body of R_Devices items \<Rightarrow> items = [] | _ \<Rightarrow> False) | _ \<Rightarrow> False))"

definition test_get_device_not_found :: "'n test_env \<Rightarrow> bool" where
  "test_get_device_not_found env \<longleftrightarrow> answer_status (test_get env (lit ''/api/v1/devices/9999'')) = Some 404"

definition test_metrics_endpoint_returns_text :: "'n test_env \<Rightarrow> bool" where
  "test_metrics_endpoint_returns_text env \<longleftrightarrow> answer_status (test_get env (lit ''/api/v1/metrics'')) = Some 200"

lemmas rest_test_defs = test_get_def make_app_def route_in_def answer_routed_def answer_status_def passes_def
  api_serve_def app_state_new_def

lemma test_paths:
  "split_slash (lit ''/api/v1/health'') = [[], lit ''api'', lit ''v1'', lit ''health'']"
  "split_slash (lit ''/api/v1/devices'') = [[], lit ''api'', lit ''v1'', lit ''devices'']"
  "split_slash (lit ''/api/v1/devices/9999'') = [[], lit ''api'', lit ''v1'', lit ''devices'', lit ''9999'']"
  "split_slash (lit ''/api/v1/metrics'') = [[], lit ''api'', lit ''v1'', lit ''metrics'']"
  by code_simp+

lemma test_words:
  "lit ''devices'' \<noteq> lit ''health''" "lit ''devices'' \<noteq> lit ''metrics''" "lit ''metrics'' \<noteq> lit ''health''"
  by (simp_all add: lit_simps)

lemma rest_tests_pass:
  "test_health_returns_ok env" "test_list_devices_empty env" "test_metrics_endpoint_returns_text env"
  by (simp_all add: test_health_returns_ok_def test_list_devices_empty_def test_metrics_endpoint_returns_text_def
      rest_test_defs test_paths test_words extract_args_def list_devices_def)

text \<open>A segment without a percent sign stands for itself.\<close>

lemma rest_not_found_passes:
  assumes "te_pct env (lit ''9999'') = Some (lit ''9999'')"
  shows "test_get_device_not_found env"
proof -
  have "parse_u32 (lit ''9999'') = Some 9999"
    by (simp add: parse_u32_def parse_uint_def digit_value_def lit_simps)
  then show ?thesis
    using assms
    by (simp add: test_get_device_not_found_def rest_test_defs test_paths test_words extract_args_def get_device_def device_missing_def not_found_def lit_def)
qed

end
