(* ===== verification/Spec2Isabelle.thy ===== *)
theory Spec2Isabelle
  imports Segmentation Router Mstp_Master Fuzz_Targets Application_Tags Bbmd Sc_Node_Loop Object_Handles Scenario Api_Routes Main_Program System_Tests
begin

text \<open>
  A verification library for \<^verbatim>\<open>bacnet-sim\<close>, a simulator of BACnet devices written in Rust.  Paths
  below are under \<^verbatim>\<open>src/crates/\<close>.

  \<^bold>\<open>The program.\<close>  A configuration names groups of devices and the profiles of their objects.  The
  builder puts the objects into a sharded store and registers the devices with the dispatcher.  An
  engine ticks: it runs the value models of the objects, evaluates their alarms and notifies
  change-of-value subscribers.  Clients reach the objects through a transport (BACnet/IP, a virtual
  MS/TP bus, BACnet/SC): its frames carry NPDUs, an NPDU carries an APDU, and the dispatcher
  decodes the request, finds the device it is for, runs the service on the store and encodes the
  answer.  An HTTP API browses and writes the same store.  The main program reads its arguments and
  environment, opens the sockets, starts all of this as tasks, and watches the configuration file.

  \<^bold>\<open>Theories and code.\<close>
  \<^item> \<open>Prelude\<close> (results and panics, buffers, big-endian integers), \<open>Float32\<close> and \<open>Float64\<close> (IEEE
    arithmetic on bits), \<open>Rounding\<close> (how it rounds: monotone, and exact bounds), \<open>Utf8\<close>, \<open>Hash_Map\<close>, \<open>Names\<close> (string functions, the derived \<^verbatim>\<open>Debug\<close> names),
    \<open>Text_Parse\<close> (numbers read from text): the part of the language and its standard library the code uses.
  \<^item> \<open>Bacnet_Types\<close>, \<open>Tags\<close>, \<open>Asn1\<close>, \<open>Application\<close>, \<open>Application_Tags\<close>: \<^verbatim>\<open>bacnet-types\<close>.  \<open>Codec_Laws\<close> has the locales
    \<open>wire_codec\<close> and \<open>frame_codec\<close>, the contracts between encoders and decoders.
  \<^item> \<open>Npdu\<close>, \<open>Bvll\<close>, \<open>Sc_Frame\<close>, \<open>Mstp_Frame\<close>, \<open>Confirmed\<close>, \<open>Responses\<close>, \<open>Segmentation\<close>: \<^verbatim>\<open>bacnet-codec\<close>.
    \<open>Fuzz_Targets\<close>: \<^verbatim>\<open>fuzz/fuzz_targets\<close>.
  \<^item> \<open>Object_Base\<close> (the trait and the locale \<open>object_contract\<close>), \<open>Analog\<close>, \<open>Binary\<close>, \<open>State_Objects\<close>,
    \<open>Schedule_Object\<close>, \<open>Device_Object\<close>, \<open>Objects\<close> (all eleven types), \<open>Store\<close> (with the locale
    \<open>object_store\<close>), \<open>Object_Handles\<close> (the references and guards of \<^verbatim>\<open>store.rs\<close>): \<^verbatim>\<open>bacnet-object\<close>.
  \<^item> \<open>Dispatcher\<close> and \<open>Router\<close> (the decision for an NPDU): \<^verbatim>\<open>bacnet-stack\<close>.  \<open>Object_Server\<close> is what the dispatcher promises: a server over
    a map from devices and objects to objects, and the locale \<open>simulation\<close> between the two.
  \<^item> \<open>Ip_Transport\<close> (with the locale \<open>transport\<close>), \<open>Mstp_Master\<close> (\<^verbatim>\<open>mstp/\<close>), \<open>Sc_Hub\<close> and \<open>Sc_Node_Loop\<close>
    (\<^verbatim>\<open>sc/hub.rs\<close> and \<^verbatim>\<open>sc/node.rs\<close>), \<open>Bbmd\<close>: \<^verbatim>\<open>bacnet-transport\<close>.
  \<^item> \<open>Cov_Engine\<close>, \<open>Alarm_Engine\<close>, \<open>Value_Model\<close>, \<open>Sim_Engine\<close> (the tick of \<^verbatim>\<open>engine.rs\<close>, \<^verbatim>\<open>schedule_engine.rs\<close>),
    \<open>Engine_Loop\<close> (its period and loop), \<open>Scenario\<close>: \<^verbatim>\<open>bacnet-sim-engine\<close>.
  \<^item> \<open>Rest_Api\<close> (the handlers of \<^verbatim>\<open>rest.rs\<close>), \<open>Api_Routes\<close> (its router), \<open>Metrics\<close>: \<^verbatim>\<open>bacnet-api\<close>.
  \<^item> \<open>Simulation_Builder\<close>: \<^verbatim>\<open>bacnet-config/src/topology.rs\<close> and \<^verbatim>\<open>bacnet-sim/src/simulation_builder.rs\<close>.
    \<open>Startup\<close> (what is built), \<open>Main_Program\<close> (arguments, environment, sockets): \<^verbatim>\<open>bacnet-sim/src/main.rs\<close>.
    \<open>Hot_Reload\<close>: \<^verbatim>\<open>hot_reload.rs\<close>.
  \<^item> \<open>Simulator\<close>: the running program, all its tasks interleaved over the store they share, with the
    locale \<open>kept_relation\<close> for what writes and ticks keep of every object.
  \<^item> \<open>Codec_Tests\<close> and \<open>System_Tests\<close>: the unit tests in the modules of the code, with proofs that the model
    passes them; a test that asks for one instance of a law (how many objects a configuration makes, which
    CRC a frame carries) is derived from the law.

  This theory holds the properties that span components.

  \<^bold>\<open>How code becomes a definition.\<close>  A \<^verbatim>\<open>struct\<close> is a record, an \<^verbatim>\<open>enum\<close> a datatype, an integer of a
  fixed width a word of that width, \<^verbatim>\<open>usize\<close> a natural number, a float the word of its bits, a string
  its UTF-8 bytes.  A function that can fail returns \<open>rres\<close>: \<open>Ok\<close>, \<open>Err\<close>, or \<open>Panic\<close> for an index, slice
  or overflow that stops the thread; arithmetic overflow panics, as in a build with overflow checks.
  A method on \<^verbatim>\<open>&mut self\<close> returns its result and the new object.  An encoder is the list of bytes
  it appends.  The clock is an argument (\<^verbatim>\<open>Instant\<close> and \<^verbatim>\<open>Duration\<close> in nanoseconds).  A \<^verbatim>\<open>HashMap\<close> or
  \<^verbatim>\<open>DashMap\<close> is the list of its entries in the order an iteration would visit them; theorems hold for
  every such order.  Hash function, random generator, sine and exponential, Unicode tables and JSON
  numbers are arguments.

  \<^bold>\<open>Interleaving.\<close>  Where tasks meet (the running program, the MS/TP bus, the SC hub), a step or an
  event is what one task does between two points where another can run, and a theorem is about every
  sequence of them.  In \<open>Simulator\<close> a frame and an HTTP request are one step each, and a tick is one step
  for each shard, whose lock the engine holds meanwhile, so frames and requests come between the
  shards of a tick; the tick as one operation is shown to be the uninterrupted case.  A panic of the
  dispatcher ends the task of its frame only; a panic of the engine or of a transport's loop ends
  that loop.  The dispatcher spawns a task for each frame; that two of them may also interleave between
  the store accesses of one frame (a ReadPropertyMultiple) is not modelled.

  \<^bold>\<open>What the lemmas show.\<close>  Codecs: round trips, prefix-freedom, and exactly which inputs make a decoder
  panic.  Objects: a write succeeds or changes nothing, and keeps the invariant of its object.
  Store: lookups after inserts and writes, the shard layout.  Dispatcher: its invariant under every
  frame, who answers, what changes.  Bus and hub: invariants over all runs, delivery, the token's
  round.  Engines: what a tick does to each object, exact conditions for notifications, alarms and
  expiry; a local date is compared with the Gregorian calendar stated by its own rules, and the
  notifications and walks of floats with exact arithmetic on the numbers their bits stand for.
  Builder: exactly which objects there are.  Program: from every start and through every run
  its invariant holds, handles stay valid, only writes change objects, a tick can always finish, and
  what the configuration file names is served over HTTP.

  \<^bold>\<open>Termination and fuel.\<close>  No definition uses fuel: the parsers recurse on a measure (what is left of
  the buffer, the year and the month that are left in a date), and the reconnection loop of an SC
  node, which need not end, is a \<^theory_text>\<open>partial_function\<close> whose result is shown to exist exactly if an
  attempt can succeed.

  \<^bold>\<open>Libraries.\<close>  What other crates do is an argument: the parsers of TOML and JSON, the decoding and
  the bodies of HTTP requests, the Rhai interpreter (the calls a script makes), the Prometheus registry
  (whether it takes a description, the text it prints), the file watcher (its events), \<^verbatim>\<open>interval\<close>
  (which refuses a zero period), sockets and WebSockets (what they return, which addresses bind beside those already bound).

  \<^bold>\<open>Not modelled.\<close>  What a caller would do with the decision of the router, which has none; socket, WebSocket and file I/O, task spawning, logging and the exit on
  Ctrl-C; the JSON serialisation of answers; the capacities of the channels between the tasks of
  the main program; \<^verbatim>\<open>profile.rs\<close> (a record nothing uses) and the placeholder trait of
  \<^verbatim>\<open>bacnet-stack/src/device.rs\<close>; benchmarks, integration tests, and the unit tests of the SC node and
  the MS/TP master, which wait for real time to pass.  The texts of decode errors are left out: they are
  only logged.
\<close>

subsection \<open>Lemmas across components\<close>

text \<open>The names the object listing prints are read back by the path of an object.\<close>

lemma rest_object_type_debug:
  assumes "parse_object_type uni s = Some t \<or> t = OT_Device"
  shows "rest_object_type uni' (ot_debug t) = Ok t"
proof -
  have "t \<in> {OT_Device, OT_AnalogInput, OT_AnalogOutput, OT_AnalogValue, OT_BinaryInput, OT_BinaryOutput,
      OT_BinaryValue, OT_MultiStateInput}"
    using assms by (auto simp: parse_object_type_def Let_def split: if_splits)
  then show ?thesis
    by (auto simp: rest_object_type_def path_name_def replace_chars_def to_lowercase_def ascii_lower_def lit_simps)
qed

lemma profile_object_list_kind:
  assumes "config_ok config" and "configured config dev p" and "oid \<in> set (profile_object_list uni dev p)"
  shows "oid_ok oid" "\<exists>s. parse_object_type uni s = Some (oid_type oid) \<or> oid_type oid = OT_Device"
proof -
  have cases: "oid = device_oid dev \<or> (\<exists>c i. c \<in> set (pc_objects p) \<and> i \<le> oc_count c \<and>
      parse_object_type uni (oc_object_type c) = Some (oid_type oid) \<and> oid_instance oid = i)"
    using assms(3) by (auto simp: profile_object_list_def device_oid_def set_u32_range image_iff split: option.splits)
  show "oid_ok oid"
    using cases configured_bounds [OF assms(1,2)] by (auto simp: oid_ok_def device_oid_def)
  show "\<exists>s. parse_object_type uni s = Some (oid_type oid) \<or> oid_type oid = OT_Device"
    using cases by (auto simp: device_oid_def)
qed

lemma ai_force_write_Ok:
  "fst (obj_force_write sys now (Obj_AnalogInput x) PID_PresentValue (PV_Real v)) = Ok ()"
  by (simp add: obj_force_write_def force_write_property_def ai_write_property_def ai_read_property_def
      as_bool_def as_f32_def Let_def)

text \<open>A PUT of a number on the present value of an analog input is the forced write of a Real.\<close>

lemma put_analog_input:
  assumes "store_ok fx (as_store state)" and "oid = \<lparr>oid_type = OT_AnalogInput, oid_instance = i\<rparr>" and "oid_ok oid"
    and "store_get fx (as_store state) dev oid = Some (Obj_AnalogInput x)"
    and "rest_object_type uni t = Ok OT_AnalogInput" and "rest_property_id uni p = Ok PID_PresentValue"
    and "jl_as_f64 jl n = Some f"
  shows "\<exists>st x1. write_property jl fx uni sys now state dev t i p (J_Number n) = (Ok 204, state\<lparr>as_store := st\<rparr>) \<and>
    store_get fx st dev oid = Some x1 \<and>
    obj_read_property sys2 x1 PID_PresentValue None = Ok (PV_Real (f32_of_f64 f)) \<and>
    (\<forall>e oid'. oid_ok oid' \<and> (e, oid') \<noteq> (dev, oid) \<longrightarrow>
      store_get fx st e oid' = store_get fx (as_store state) e oid')"
proof -
  let ?v = "PV_Real (f32_of_f64 f)"
  let ?w = "\<lambda>ob. obj_force_write sys now ob PID_PresentValue ?v"
  let ?st = "snd (store_modify fx (as_store state) dev oid ?w)"
  have "fst (store_modify fx (as_store state) dev oid ?w) = Ok ()"
    using objstore.modify_result [OF assms(4), of ?w] ai_force_write_Ok by simp
  then have "store_force_write fx sys now (as_store state) dev oid PID_PresentValue ?v = (Ok (), ?st)"
    by (simp add: store_force_write_def prod_eq_iff)
  then have "write_property jl fx uni sys now state dev t i p (J_Number n) = (Ok 204, state\<lparr>as_store := ?st\<rparr>)"
    using assms(2,4-7) by (simp add: write_property_def json_to_property_value_def Let_def case_unit_Unity)
  moreover have "store_get fx ?st dev oid = Some (snd (?w (Obj_AnalogInput x)))"
    using objstore.get_modify [OF assms(1,4,3,3), of ?w dev] by simp
  moreover have "store_get fx ?st e oid' = store_get fx (as_store state) e oid'"
    if "oid_ok oid'" "(e, oid') \<noteq> (dev, oid)" for e oid'
    using objstore.modify_other [OF assms(1,3) that(1), of e dev ?w] that(2) by simp
  ultimately show ?thesis using ai_force_write_read by (intro exI conjI) auto
qed

lemma collect_objects_device:
  assumes "store_get fx st dev (device_oid dev) = Some (Obj_Device x)"
  shows "collect_objects fx sys st dev =
    Ok (map (\<lambda>oid. \<lparr>ol_object_type = ot_debug (oid_type oid), ol_instance = oid_instance oid\<rparr>) (dev_object_list x))"
proof -
  have "List.map_filter list_item (map PV_ObjectId oids) =
      map (\<lambda>oid. \<lparr>ol_object_type = ot_debug (oid_type oid), ol_instance = oid_instance oid\<rparr>) oids" for oids
    by (induction oids) (simp_all add: map_filter_simps list_item_def)
  then show ?thesis
    using assms by (simp add: collect_objects_def device_oid_def dev_read_property_def read_array_def)
qed

lemma ot_debug_not_Nil: "ot_debug t \<noteq> []"
  by (cases t) (simp_all add: lit_simps)

lemma ot_debug_valid: "utf8_valid (ot_debug t)"
  by (rule utf8_valid_ascii) (cases t; simp add: lit_simps)

text \<open>
  A device with its profile's objects in the store: it lists exactly them, and under the name and
  instance it is listed with, an object shows all its properties.
\<close>

definition listing :: "object_id \<Rightarrow> object_list_item" where
  "listing oid = \<lparr>ol_object_type = ot_debug (oid_type oid), ol_instance = oid_instance oid\<rparr>"

definition shows_object :: "'n json_lib \<Rightarrow> bacnet_object \<Rightarrow> 'n object_detail \<Rightarrow> bool" where
  "shows_object jl ob od \<longleftrightarrow>
     od_object_type od = ot_debug (oid_type (obj_object_id ob)) \<and> od_instance od = oid_instance (obj_object_id ob) \<and>
     map_of (od_properties od) =
       map_of (map (\<lambda>(pid, v). (pid_debug pid, property_to_json jl v)) (obj_all_properties ob)) \<and>
     (\<forall>(pid, v) \<in> set (obj_all_properties ob). \<forall>sys. obj_read_property sys ob pid None = Ok v)"

lemma listed_objects_served:
  assumes "config_ok config" and "configured config dev p"
    and "store_get fx st dev (device_oid dev) = Some (Obj_Device (profile_device uni p dev))"
    and "\<forall>oid. oid_ok oid \<longrightarrow> (store_get fx st dev oid \<noteq> None \<longleftrightarrow> oid \<in> set (profile_object_list uni dev p))"
    and "\<forall>oid ob. oid_ok oid \<longrightarrow> store_get fx st dev oid = Some ob \<longrightarrow> obj_object_id ob = oid"
    and "as_store state = st" and "dev \<in> set (as_device_ids state)" and "store_ok fx st"
  shows "list_objects fx sys state dev = Ok (map listing (profile_object_list uni dev p)) \<and>
    (\<forall>oid \<in> set (profile_object_list uni dev p). \<exists>ob od.
      store_get fx st dev oid = Some ob \<and> obj_object_id ob = oid \<and> shows_object jl ob od \<and>
      get_object jl fx uni' state dev (ol_object_type (listing oid)) (ol_instance (listing oid)) = Ok od)"
proof (intro conjI ballI)
  show "list_objects fx sys state dev = Ok (map listing (profile_object_list uni dev p))"
    using collect_objects_device [OF assms(3), of sys] assms(6,7)
    by (simp add: list_objects_def profile_device_def listing_def)
  fix oid
  assume listed: "oid \<in> set (profile_object_list uni dev p)"
  have oid: "oid_ok oid" "rest_object_type uni' (ot_debug (oid_type oid)) = Ok (oid_type oid)"
    using profile_object_list_kind [OF assms(1,2) listed] rest_object_type_debug by auto
  with assms(4) listed obtain ob where ob: "store_get fx st dev oid = Some ob" by auto
  then have id: "obj_object_id ob = oid" and ok: "obj_ok ob"
    using assms(5) oid(1) store_get_shard(2) [OF assms(8)] by blast+
  obtain od where "get_object jl fx uni' state dev (ot_debug (oid_type oid)) (oid_instance oid) = Ok od"
      "od_object_type od = ot_debug (oid_type oid)" "od_instance od = oid_instance oid"
      "map_of (od_properties od) =
        map_of (map (\<lambda>(pid, v). (pid_debug pid, property_to_json jl v)) (obj_all_properties ob))"
    using get_object_shows [OF oid(2), of fx state dev ob jl] ob assms(6) by auto
  moreover have "\<forall>(pid, v) \<in> set (obj_all_properties ob). \<forall>sys. obj_read_property sys ob pid None = Ok v"
    using objects.all_read [OF ok] by blast
  ultimately show "\<exists>ob od. store_get fx st dev oid = Some ob \<and> obj_object_id ob = oid \<and> shows_object jl ob od \<and>
      get_object jl fx uni' state dev (ol_object_type (listing oid)) (ol_instance (listing oid)) = Ok od"
    using ob id by (intro exI [of _ ob] exI [of _ od]) (simp add: shows_object_def listing_def)
qed

text \<open>The devices the API knows: those of the configured groups, and no step changes them.\<close>

lemma api_register_device_ids: "set (as_device_ids (api_register_device i state)) = insert i (set (as_device_ids state))"
  by (auto simp: api_register_device_def)

lemma register_groups_ids:
  "set (as_device_ids (register_groups groups state)) =
    set (as_device_ids state) \<union> (\<Union>g \<in> set groups. {fst (dg_id_range g)..snd (dg_id_range g)})"
proof -
  have ids: "set (as_device_ids (foldl (\<lambda>state i. api_register_device i state) state is)) =
      set (as_device_ids state) \<union> set is" for "is" state
    by (induction "is" arbitrary: state) (auto simp: api_register_device_ids)
  show ?thesis
    by (induction groups arbitrary: state) (auto simp: register_groups_def ids set_u32_range)
qed

lemma api_serve_ids:
  assumes "store_ok fx (as_store api)" and "api_serve jl fx uni files sys now req api = (r, api1)"
  shows "as_device_ids api1 = as_device_ids api"
proof (cases req)
  case (Put_Property d t i p v)
  obtain w state1 where w: "write_property jl fx uni sys now api d t i p v = (w, state1)"
    by (cases "write_property jl fx uni sys now api d t i p v")
  from write_property_outcome [OF assms(1) w] assms(2) w show ?thesis by (simp add: api_serve_def Put_Property)
qed (use assms(2) in \<open>simp_all add: api_serve_def\<close>)

lemma sim_runs_device_ids:
  "sim_runs pf w tr w' \<Longrightarrow> world_ok (pf_hash pf) w \<Longrightarrow>
    as_device_ids (snd (snd (fst w'))) = as_device_ids (snd (snd (fst w)))"
proof (induction rule: sim_runs.induct)
  case (more w tr w1 e out w2)
  have "world_ok (pf_hash pf) w1" by (rule sim_runs_ok [OF more.hyps(1) more.prems])
  with more.hyps(2) have "as_device_ids (snd (snd (fst w2))) = as_device_ids (snd (snd (fst w1)))"
    by (induction rule: sim_step.induct)
      (auto simp: with_store_def world_ok_def dispatcher_ok_def dest: api_serve_ids [rotated])
  with more.IH [OF more.prems] show ?case by simp
qed simp

text \<open>
  What is configured can be browsed after any run: the listing of a configured device is the list of
  its objects, and each entry leads to its object.
\<close>

lemma configured_objects_served:
  fixes pf :: "('g, 'n) platform"
  assumes "config_ok config" and "configured config dev p" and "\<forall>p'. configured config dev p' \<longrightarrow> p' = p"
    and "sim_runs pf (start_configured (pf_hash pf) (pf_unicode pf) now config, None) tr ((eng, d, api), tk)"
  shows "list_objects (pf_hash pf) sys api dev = Ok (map listing (profile_object_list (pf_unicode pf) dev p)) \<and>
    (\<forall>oid \<in> set (profile_object_list (pf_unicode pf) dev p). \<exists>ob od.
      store_get (pf_hash pf) (as_store api) dev oid = Some ob \<and> obj_object_id ob = oid \<and> shows_object (pf_json pf) ob od \<and>
      get_object (pf_json pf) (pf_hash pf) (pf_unicode pf) api dev (ol_object_type (listing oid)) (ol_instance (listing oid)) = Ok od)"
proof -
  let ?fx = "pf_hash pf" and ?uni = "pf_unicode pf"
  let ?w = "(start_configured ?fx ?uni now config, None) :: 'g world" and ?w1 = "((eng, d, api), tk)"
  obtain eng0 d0 api0 where start: "start_configured ?fx ?uni now config = (eng0 :: 'g sim_engine, d0, api0)"
    by (cases "fst ?w") simp
  have ok: "world_ok ?fx ?w" "world_ok ?fx ?w1"
    using started_ok(1) [OF started.configured_mode [OF assms(1)]] sim_runs_ok [OF assms(4)] by blast+
  have built: "build_simulation ?fx ?uni now config (dispatcher_new store_new) = (eng0, d0)"
    using start_configured_parts [OF start] by blast
  note dev = built_device [OF assms(1-3) built]
  have "related same_identity ?fx (world_store ?w) (world_store ?w1)"
    by (rule identity.runs_related [OF assms(4) ok(1)])
  then have rel: "rel_option same_identity (store_get ?fx (dp_store d0) dev oid) (store_get ?fx (as_store api) dev oid)" for oid
    using ok(2) by (simp add: related_def world_store_def world_ok_def start)
  have "store_get ?fx (as_store api) dev (device_oid dev) = Some (Obj_Device (profile_device ?uni p dev))"
    using rel [of "device_oid dev"] dev by (auto simp: option_rel_Some1 same_identity_def)
  moreover have "\<forall>oid. oid_ok oid \<longrightarrow> (store_get ?fx (as_store api) dev oid \<noteq> None \<longleftrightarrow> oid \<in> set (profile_object_list ?uni dev p))"
  proof (intro allI impI)
    fix oid
    assume "oid_ok oid"
    then show "store_get ?fx (as_store api) dev oid \<noteq> None \<longleftrightarrow> oid \<in> set (profile_object_list ?uni dev p)"
      using rel [of oid] dev
      by (cases "store_get ?fx (dp_store d0) dev oid"; cases "store_get ?fx (as_store api) dev oid") auto
  qed
  moreover have "\<forall>oid ob. oid_ok oid \<longrightarrow> store_get ?fx (as_store api) dev oid = Some ob \<longrightarrow> obj_object_id ob = oid"
  proof (intro allI impI)
    fix oid ob
    assume "oid_ok oid" and "store_get ?fx (as_store api) dev oid = Some ob"
    then show "obj_object_id ob = oid"
      using rel [of oid] built_object_id [OF assms(1) built, of oid dev]
      by (auto simp: option_rel_Some2 same_identity_def)
  qed
  moreover have "dev \<in> set (as_device_ids api)"
  proof -
    have "as_device_ids api = as_device_ids (register_groups (sc_devices config) (app_state_new store_new))"
      using sim_runs_device_ids [OF assms(4) ok(1)] start
      by (auto simp: start_configured_def Let_def split: prod.splits)
    then show ?thesis using assms(2) by (auto simp: register_groups_ids configured_def)
  qed
  moreover have "store_ok ?fx (as_store api)" using ok(2) by (simp add: world_ok_def dispatcher_ok_def)
  ultimately show ?thesis by (intro listed_objects_served [OF assms(1,2)]) simp_all
qed

subsection \<open>Examples\<close>

definition example_configured_machine :: machine where
  "example_configured_machine = example_machine\<lparr>mc_args := map Some [lit ''bacnet-sim'', lit ''--config'', lit ''sim.toml''],
     mc_read := (\<lambda>path. Some []), mc_from_toml := (\<lambda>toml. Some example_config)\<rparr>"

definition example_input_store :: store where
  "example_input_store = store_insert (\<lambda>a b. 0) 7 (Obj_AnalogInput (ai_new 0 7 1 [] EU_NoUnits)) store_new"

definition example_input_dispatcher :: dispatcher where
  "example_input_dispatcher =
     (register_device (device_info_new 7) (dispatcher_new example_input_store))\<lparr>dp_sessions := [(example_client, 7)]\<rparr>"

lemma example_input_ok: "dispatcher_ok (\<lambda>a b. 0) example_input_dispatcher"
proof -
  have "store_ok (\<lambda>a b. 0) example_input_store" by (simp add: example_input_store_def store_insert_ok store_new_ok)
  from register_device_ok [OF dispatcher_new_ok [OF this], of "device_info_new 7"] show ?thesis
    by (simp add: example_input_dispatcher_def dispatcher_ok_def register_device_def device_info_new_def
        registered_def dispatcher_new_def)
qed

lemma example_read_ok:
  "confirmed_ok (example_request 2 (Req_ReadProperty
     \<lparr>rp_object_id = example_oid, rp_property_id = PID_PresentValue, rp_array_index = None\<rparr>))"
  by (simp add: service_ok_def rp_ok_def wf_oid_def known_type_def
      example_oid_def pid_canonical_def pid_from_u32_def object_type_from_u16_def)

subsection \<open>Properties across components\<close>

text \<open>
  C2. The simulation is what the network sees: after a tick of the engine, a client with a session
  that asks, in an encoded frame, for the present value of an analog input with a value model is
  answered with one frame that carries exactly the value the model has just produced.
\<close>

theorem tick_value_read_over_the_wire:
  assumes "store_ok fx (se_store eng)" and "models_ok (se_models eng)" and "hm_wf (se_cov eng)"
    and "store_get fx (se_store eng) dev oid = Some (Obj_AnalogInput x)"
    and "map_of (se_models eng) (engine_obj_key dev oid) = Some e"
    and "map_of (dp_sessions d) src = Some dev" and "oid_type oid \<noteq> OT_Device"
    and "confirmed_ok req" and "cr_service req = Req_ReadProperty r" and "rp_object_id r = oid"
    and "rp_property_id r = PID_PresentValue" and "rp_array_index r = None"
  shows "\<exists>eng1 v m1 rng1. sim_tick env t sys period now later elapsed eng = Ok eng1 \<and>
    model_next env t (ent_model e) (ent_rng e) = Ok (v, m1, rng1) \<and>
    fst (handle_frame fx sys2 now2 (d\<lparr>dp_store := se_store eng1\<rparr>) (request_frame src req)) =
      Ok [answer_frame src (complex_ack_encode \<lparr>ca_invoke_id = cr_invoke_id req, ca_service = Ack_ReadProperty
         \<lparr>rpa_object_id = oid, rpa_property_id = PID_PresentValue, rpa_array_index = None, rpa_value = PV_Real v\<rparr>\<rparr>)]"
proof -
  from tick_shows_model_value [OF assms(1-5), of env t sys period now later elapsed sys2] obtain eng1 v m1 rng1 where
    1: "sim_tick env t sys period now later elapsed eng = Ok eng1"
      "model_next env t (ent_model e) (ent_rng e) = Ok (v, m1, rng1)"
      "store_read fx sys2 (se_store eng1) dev oid PID_PresentValue None = Ok (PV_Real v)"
    by (elim exE conjE) (rule that, assumption+)
  from 1(3) obtain ob where ob: "store_get fx (se_store eng1) dev oid = Some ob"
      "obj_read_property sys2 ob PID_PresentValue None = Ok (PV_Real v)"
    by (auto simp: store_read_def split: option.splits)
  have "fst (handle_frame fx sys2 now2 (d\<lparr>dp_store := se_store eng1\<rparr>) (request_frame src req)) =
      Ok [answer_frame src (complex_ack_encode \<lparr>ca_invoke_id = cr_invoke_id req, ca_service = Ack_ReadProperty
         \<lparr>rpa_object_id = oid, rpa_property_id = rp_property_id r, rpa_array_index = rp_array_index r,
          rpa_value = PV_Real v\<rparr>\<rparr>)]"
    using assms(6,11,12) ob by (intro read_frame_answered [OF _ _ assms(7-10), where ob = ob]) simp_all
  with 1(1,2) show ?thesis unfolding assms(11,12) by (intro exI conjI)
qed

theorem tick_value_read_over_the_wire_witness:
  "\<exists>eng1 v. sim_tick example_env 0 0 1000000000 5 6 7 example_engine = Ok eng1 \<and>
    fst (handle_frame (\<lambda>a b. 0) 9 9 (example_dispatcher\<lparr>dp_sessions := [(example_client, 1)], dp_store := se_store eng1\<rparr>)
      (request_frame example_client (example_request 2 (Req_ReadProperty
        \<lparr>rp_object_id = example_oid, rp_property_id = PID_PresentValue, rp_array_index = None\<rparr>)))) =
      Ok [answer_frame example_client (complex_ack_encode \<lparr>ca_invoke_id = 2, ca_service = Ack_ReadProperty
         \<lparr>rpa_object_id = example_oid, rpa_property_id = PID_PresentValue, rpa_array_index = None,
          rpa_value = PV_Real v\<rparr>\<rparr>)]"
proof -
  let ?r = "\<lparr>rp_object_id = example_oid, rp_property_id = PID_PresentValue, rp_array_index = None\<rparr>"
  obtain e where e: "map_of (se_models example_engine) (engine_obj_key 1 example_oid) = Some e"
    by (simp add: example_engine_def add_model_def sim_engine_new_def)
  have g: "store_get (\<lambda>a b. 0) (se_store example_engine) 1 example_oid = Some (Obj_AnalogInput (ai_new 0 1 1 [] EU_NoUnits))"
    using objstore.get_ins [OF store_new_ok, of "Obj_AnalogInput (ai_new 0 1 1 [] EU_NoUnits)" example_oid "\<lambda>a b. 0" 1 1]
    by (simp add: example_engine_def add_model_def sim_engine_new_def ai_new_def example_oid_def oid_ok_def)
  show ?thesis
    using tick_value_read_over_the_wire [OF example_engine_ok g e _ _ example_read_ok, of
        "example_dispatcher\<lparr>dp_sessions := [(example_client, 1)]\<rparr>" example_client ?r
        example_env 0 0 1000000000 5 6 7 9 9]
    by (auto simp: example_oid_def)
qed

text \<open>
  C7. A number that is PUT to the present value of an analog input over HTTP is what a BACnet
  client reads from it next: the PUT is answered 204, and the ReadProperty frame is answered with
  the number, rounded to a 32-bit float.
\<close>

theorem put_value_read_over_the_wire:
  assumes "dispatcher_ok fx d" and "as_store state = dp_store d"
    and "rest_object_type uni t = Ok OT_AnalogInput" and "rest_property_id uni p = Ok PID_PresentValue"
    and "store_get fx (dp_store d) dev \<lparr>oid_type = OT_AnalogInput, oid_instance = i\<rparr> = Some (Obj_AnalogInput x)"
    and "jl_as_f64 jl n = Some f" and "map_of (dp_sessions d) src = Some dev"
    and "confirmed_ok req" and "cr_service req = Req_ReadProperty r"
    and "rp_object_id r = \<lparr>oid_type = OT_AnalogInput, oid_instance = i\<rparr>"
    and "rp_property_id r = PID_PresentValue" and "rp_array_index r = None"
  shows "\<exists>state'. write_property jl fx uni sys now state dev t i p (J_Number n) = (Ok 204, state') \<and>
    fst (handle_frame fx sys2 now2 (d\<lparr>dp_store := as_store state'\<rparr>) (request_frame src req)) =
      Ok [answer_frame src (complex_ack_encode \<lparr>ca_invoke_id = cr_invoke_id req, ca_service = Ack_ReadProperty
         \<lparr>rpa_object_id = rp_object_id r, rpa_property_id = PID_PresentValue, rpa_array_index = None,
          rpa_value = PV_Real (f32_of_f64 f)\<rparr>\<rparr>)]"
proof -
  have st: "store_ok fx (as_store state)" using assms(1,2) by (simp add: dispatcher_ok_def)
  have oid: "oid_ok (rp_object_id r)"
    using assms(8,9) by (simp add: confirmed_ok_def service_ok_def rp_ok_def wf_oid_def oid_ok_def)
  from put_analog_input [OF st assms(10) oid, of dev x uni t p jl n f sys now sys2] assms(2-6,10)
  obtain st1 x1 where w: "write_property jl fx uni sys now state dev t i p (J_Number n) = (Ok 204, state\<lparr>as_store := st1\<rparr>)"
      and g: "store_get fx st1 dev (rp_object_id r) = Some x1"
      and v: "obj_read_property sys2 x1 PID_PresentValue None = Ok (PV_Real (f32_of_f64 f))"
    by auto
  have "fst (handle_frame fx sys2 now2 (d\<lparr>dp_store := st1\<rparr>) (request_frame src req)) =
      Ok [answer_frame src (complex_ack_encode \<lparr>ca_invoke_id = cr_invoke_id req, ca_service = Ack_ReadProperty
         \<lparr>rpa_object_id = rp_object_id r, rpa_property_id = rp_property_id r, rpa_array_index = rp_array_index r,
          rpa_value = PV_Real (f32_of_f64 f)\<rparr>\<rparr>)]"
    using assms(7,10-12) g v by (intro read_frame_answered [OF _ _ _ assms(8,9) refl, where ob = x1]) simp_all
  then show ?thesis using w unfolding assms(11,12) by (intro exI [of _ "state\<lparr>as_store := st1\<rparr>"]) simp
qed

theorem put_value_read_over_the_wire_witness:
  "\<exists>state'. write_property example_json_lib (\<lambda>a b. 0) (\<lambda>s. s) 0 5 (app_state_new example_input_store) 7
      (lit ''analog-input'') 1 (lit ''present-value'') (J_Number 0x4035000000000000) = (Ok 204, state') \<and>
    fst (handle_frame (\<lambda>a b. 0) 9 9 (example_input_dispatcher\<lparr>dp_store := as_store state'\<rparr>)
      (request_frame example_client (example_request 2 (Req_ReadProperty
        \<lparr>rp_object_id = example_oid, rp_property_id = PID_PresentValue, rp_array_index = None\<rparr>)))) =
      Ok [answer_frame example_client (complex_ack_encode \<lparr>ca_invoke_id = 2, ca_service = Ack_ReadProperty
         \<lparr>rpa_object_id = example_oid, rpa_property_id = PID_PresentValue, rpa_array_index = None,
          rpa_value = PV_Real (f32_of_f64 0x4035000000000000)\<rparr>\<rparr>)]"
proof -
  let ?r = "\<lparr>rp_object_id = example_oid, rp_property_id = PID_PresentValue, rp_array_index = None\<rparr>"
  have names: "rest_object_type (\<lambda>s. s) (lit ''analog-input'') = Ok OT_AnalogInput"
      "rest_property_id (\<lambda>s. s) (lit ''present-value'') = Ok PID_PresentValue"
    by (simp_all add: rest_object_type_def rest_property_id_def path_name_def replace_chars_def
        to_lowercase_def ascii_lower_def lit_simps)
  have st: "as_store (app_state_new example_input_store) = dp_store example_input_dispatcher"
      "map_of (dp_sessions example_input_dispatcher) example_client = Some 7"
    by (simp_all add: example_input_dispatcher_def app_state_new_def register_device_def dispatcher_new_def)
  have g: "store_get (\<lambda>a b. 0) (dp_store example_input_dispatcher) 7 \<lparr>oid_type = OT_AnalogInput, oid_instance = 1\<rparr> =
      Some (Obj_AnalogInput (ai_new 0 7 1 [] EU_NoUnits))"
    using objstore.get_ins [OF store_new_ok, of "Obj_AnalogInput (ai_new 0 7 1 [] EU_NoUnits)"
        "\<lparr>oid_type = OT_AnalogInput, oid_instance = 1\<rparr>" "\<lambda>a b. 0" 7 7]
    by (simp add: example_input_dispatcher_def example_input_store_def register_device_def dispatcher_new_def
        ai_new_def oid_ok_def)
  have "jl_as_f64 example_json_lib (0x4035000000000000 :: f64) = Some 0x4035000000000000"
    by (simp add: example_json_lib_def)
  note put = put_value_read_over_the_wire [OF example_input_ok st(1) names g this st(2)]
  show ?thesis
    using put [of "example_request 2 (Req_ReadProperty ?r)" ?r 0 5 9 9] example_read_ok
    by (simp add: example_oid_def)
qed

text \<open>
  C1. From the configuration file to the browser: when the program has started on a configuration
  whose device and object instances fit in 22 bits, then after any run, through any interleaving
  of frames, requests and ticks, a GET of the objects of a device for which exactly one profile is
  configured lists exactly the configured object identifiers, in their order, by type name and
  instance; and a GET of the address of an entry, by the very name and instance it was listed with, is
  answered with the object stored under this identifier: its type, its instance, and for every
  property it lists the value a read of it gives, each under its own name.  Percent encoding is what
  \<open>encodes\<close> asks of it: valid UTF-8 names survive it.
\<close>

theorem configuration_served_over_http:
  fixes pf :: "('g, 'n) platform"
  assumes "machine_config_path mc = (Ok (Some path) :: (rstring option, main_error) rres)"
    and "mc_read mc path = Some toml" and "mc_from_toml mc toml = Some config"
    and "config_ok config" and "configured config dev p" and "\<forall>p'. configured config dev p' \<longrightarrow> p' = p"
    and "main_start pf mc = Ok pr" and "sim_runs pf (pr_sim pr, None) tr ((eng, d, api), tk)" and "encodes pct enc"
  shows "http_serve pct encode m (pf_json pf) (pf_hash pf) (pf_unicode pf) (pf_files pf) sys now
      (request_http enc (Get_Objects dev)) api =
      (Answered (Ok (R_Objects (map listing (profile_object_list (pf_unicode pf) dev p)))), api) \<and>
    (\<forall>oid \<in> set (profile_object_list (pf_unicode pf) dev p). \<exists>ob od.
      store_get (pf_hash pf) (as_store api) dev oid = Some ob \<and> obj_object_id ob = oid \<and>
      shows_object (pf_json pf) ob od \<and>
      http_serve pct encode m (pf_json pf) (pf_hash pf) (pf_unicode pf) (pf_files pf) sys now
        (request_http enc (Get_Object dev (ol_object_type (listing oid)) (ol_instance (listing oid)))) api =
        (Answered (Ok (R_Object od)), api))"
proof -
  have "pr_sim pr = start_configured (pf_hash pf) (pf_unicode pf) (mc_now mc) config"
    using main_start_topology [OF assms(7)] assms(1-3) by (auto simp: main_topology_eq split: option.splits)
  with assms(8) have "sim_runs pf (start_configured (pf_hash pf) (pf_unicode pf) (mc_now mc) config, None) tr ((eng, d, api), tk)"
    by simp
  note served = configured_objects_served [OF assms(4-6) this, of sys]
  note route = route_request_http [OF assms(9)]
  let ?serve = "\<lambda>r. http_serve pct encode m (pf_json pf) (pf_hash pf) (pf_unicode pf) (pf_files pf) sys now (request_http enc r) api"
  have "?serve (Get_Objects dev) =
      (Answered (Ok (R_Objects (map listing (profile_object_list (pf_unicode pf) dev p)))), api)"
    using served by (simp add: http_serve_def answer_routed_def api_serve_def route del: request_http.simps)
  moreover have "?serve (Get_Object dev (ol_object_type (listing oid)) (ol_instance (listing oid))) =
      (Answered (Ok (R_Object od)), api)"
    if "get_object (pf_json pf) (pf_hash pf) (pf_unicode pf) api dev (ol_object_type (listing oid)) (ol_instance (listing oid)) = Ok od"
    for oid od
    using that
    by (simp add: http_serve_def answer_routed_def api_serve_def route listing_def path_text_def ot_debug_not_Nil ot_debug_valid
        del: request_http.simps)
  ultimately show ?thesis using served by blast
qed

theorem configuration_served_over_http_witness:
  "\<exists>pr ob od. main_start example_platform example_configured_machine = Ok pr \<and>
    fst (http_serve example_pct (\<lambda>calls. []) metrics_new example_json_lib (\<lambda>a b. 0) (\<lambda>s. s) (\<lambda>path. None) 0 5
      (request_http example_enc (Get_Objects 8)) (snd (snd (pr_sim pr)))) =
      Answered (Ok (R_Objects (map listing (profile_object_list (\<lambda>s. s) 8 example_profile)))) \<and>
    fst (http_serve example_pct (\<lambda>calls. []) metrics_new example_json_lib (\<lambda>a b. 0) (\<lambda>s. s) (\<lambda>path. None) 0 5
      (request_http example_enc (Get_Object 8 (lit ''Device'') 8)) (snd (snd (pr_sim pr)))) = Answered (Ok (R_Object od)) \<and>
    obj_object_id ob = device_oid 8 \<and> shows_object example_json_lib ob od"
proof -
  have c: "configured example_config 8 example_profile" "\<forall>p'. configured example_config 8 p' \<longrightarrow> p' = example_profile"
    by (simp_all add: example_configured)
  have mc: "machine_config_path example_configured_machine = (Ok (Some (lit ''sim.toml'')) :: (rstring option, main_error) rres)"
      "log_format example_configured_machine = (Ok (lit ''text'') :: (rstring, main_error) rres)"
      "mc_read example_configured_machine (lit ''sim.toml'') = Some []"
      "mc_from_toml example_configured_machine [] = Some example_config"
      "mc_bind_udp example_configured_machine a" "registry_ok (mc_registry example_configured_machine)" for a
    by (auto simp: example_configured_machine_def example_machine_def machine_config_path_def config_path_def
        registry_ok_def log_format_def lit_simps)
  then obtain pr where pr: "main_start example_platform example_configured_machine = Ok pr"
    using main_start_eq [OF mc(6,5,2,1), of example_platform] by (simp add: main_topology_eq)
  have run: "sim_runs example_platform (pr_sim pr, None) []
      ((fst (pr_sim pr), fst (snd (pr_sim pr)), snd (snd (pr_sim pr))), None)"
    by (simp add: sim_runs.none)
  have dev: "device_oid 8 \<in> set (profile_object_list (pf_unicode example_platform) 8 example_profile)"
    by (simp add: profile_object_list_def device_oid_def)
  note served = configuration_served_over_http [OF mc(1,3,4) example_config_ok c pr run example_encodes,
      of "\<lambda>calls. []" metrics_new 0 5]
  from served [THEN conjunct2, rule_format, OF dev] served [THEN conjunct1] pr show ?thesis
    by (fastforce simp: example_platform_def listing_def device_oid_def)
qed

end
